(* ===== verification/Prelude.thy ===== *)
theory Prelude
  imports Complex_Main "HOL-Library.State_Monad"
begin

text \<open>
  Shared ground of the development: how Python values, numbers and effects are represented,
  and the small program logic the component theories use.

  \<^item> Effects. A method of the code that reads or writes state is a value of
    \<open>('s, 'a) state\<close> of HOL-Library.State_Monad, written in do-notation so that the order of the
    steps is the order of the source's statements.
  \<^item> Three judgements over such programs: \<open>keeps f m\<close> (\<open>m\<close> never changes the component \<open>f\<close> of the
    state), \<open>pres I m\<close> (\<open>m\<close> preserves the invariant \<open>I\<close>) and \<open>wp m Q s\<close> (started in \<open>s\<close>, \<open>m\<close>
    ends in a result and a state satisfying \<open>Q\<close>). Their rules are collected in \<open>keeps_intros\<close>,
    \<open>pres_intros\<close> and \<open>wp_simps\<close>.
  \<^item> Numbers. Python floats that carry decibels, seconds or percentages are exact rationals: IEEE
    rounding is not modelled, NaN and the infinities are where the code tests for them.
    Python's \<open>round\<close> is round-half-to-even (\<open>py_round\<close>).
\<close>

section \<open>Program logic over the state monad\<close>

abbreviation ret :: "'a \<Rightarrow> ('s, 'a) state" where
  "ret \<equiv> State_Monad.return"

definition gets :: "('s \<Rightarrow> 'a) \<Rightarrow> ('s, 'a) state" where
  "gets f = State (\<lambda>s. (f s, s))"

definition modify :: "('s \<Rightarrow> 's) \<Rightarrow> ('s, unit) state" where
  "modify f = State (\<lambda>s. ((), f s))"

text \<open>A Python \<open>if\<close> without an \<open>else\<close> whose body returns nothing.\<close>

definition onlyif :: "bool \<Rightarrow> ('s, unit) state \<Rightarrow> ('s, unit) state" where
  "onlyif b m = (if b then m else ret ())"

lemma run_state_gets [simp]: "run_state (gets f) s = (f s, s)"
  by (simp add: gets_def)

lemma run_state_modify [simp]: "run_state (modify f) s = ((), f s)"
  by (simp add: modify_def)

lemma run_state_onlyif: "run_state (onlyif b m) s = (if b then run_state m s else ((), s))"
  by (simp add: onlyif_def)

definition keeps :: "('s \<Rightarrow> 'f) \<Rightarrow> ('s, 'a) state \<Rightarrow> bool" where
  "keeps f m \<longleftrightarrow> (\<forall>s. f (snd (run_state m s)) = f s)"

definition pres :: "('s \<Rightarrow> bool) \<Rightarrow> ('s, 'a) state \<Rightarrow> bool" where
  "pres I m \<longleftrightarrow> (\<forall>s. I s \<longrightarrow> I (snd (run_state m s)))"

definition wp :: "('s, 'a) state \<Rightarrow> ('a \<Rightarrow> 's \<Rightarrow> bool) \<Rightarrow> 's \<Rightarrow> bool" where
  "wp m Q s = Q (fst (run_state m s)) (snd (run_state m s))"

named_theorems keeps_intros "rules that show a program keeps a state component"
named_theorems pres_intros "rules that show a program preserves an invariant"
named_theorems wp_simps "equations that compute weakest preconditions"

lemma keepsD: "keeps f m \<Longrightarrow> run_state m s = (a, s') \<Longrightarrow> f s' = f s"
  by (metis keeps_def snd_conv)

lemma keeps_snd: "keeps f m \<Longrightarrow> f (snd (run_state m s)) = f s"
  by (simp add: keeps_def)

lemma keepsI: "(\<And>s a s'. run_state m s = (a, s') \<Longrightarrow> f s' = f s) \<Longrightarrow> keeps f m"
  by (simp add: keeps_def) (metis prod.collapse)

lemma keeps_return [keeps_intros]: "keeps f (ret x)"
  by (simp add: keeps_def)

lemma keeps_gets [keeps_intros]: "keeps f (gets g)"
  by (simp add: keeps_def)

lemma keeps_modify [keeps_intros]: "(\<And>s. f (g s) = f s) \<Longrightarrow> keeps f (modify g)"
  by (simp add: keeps_def)

lemma keeps_bind [keeps_intros]:
  "keeps f m \<Longrightarrow> (\<And>a. keeps f (k a)) \<Longrightarrow> keeps f (m \<bind> k)"
  by (simp add: keeps_def split: prod.splits) (metis snd_conv)

lemma keeps_if [keeps_intros]:
  "(b \<Longrightarrow> keeps f m) \<Longrightarrow> (\<not> b \<Longrightarrow> keeps f n) \<Longrightarrow> keeps f (if b then m else n)"
  by simp

lemma keeps_onlyif [keeps_intros]: "(b \<Longrightarrow> keeps f m) \<Longrightarrow> keeps f (onlyif b m)"
  by (simp add: onlyif_def keeps_return)

lemma keeps_Let [keeps_intros]: "(\<And>x. x = t \<Longrightarrow> keeps f (g x)) \<Longrightarrow> keeps f (let x = t in g x)"
  by (simp add: Let_def)

lemma keeps_case_option [keeps_intros]:
  "(x = None \<Longrightarrow> keeps f m) \<Longrightarrow> (\<And>y. x = Some y \<Longrightarrow> keeps f (g y)) \<Longrightarrow>
   keeps f (case x of None \<Rightarrow> m | Some y \<Rightarrow> g y)"
  by (simp split: option.split)

lemma keeps_case_prod [keeps_intros]:
  "(\<And>a b. x = (a, b) \<Longrightarrow> keeps f (g a b)) \<Longrightarrow> keeps f (case x of (a, b) \<Rightarrow> g a b)"
  by (simp split: prod.split)

lemma keeps_case_sum [keeps_intros]:
  "(\<And>a. x = Inl a \<Longrightarrow> keeps f (g a)) \<Longrightarrow> (\<And>b. x = Inr b \<Longrightarrow> keeps f (h b)) \<Longrightarrow>
   keeps f (case x of Inl a \<Rightarrow> g a | Inr b \<Rightarrow> h b)"
  by (simp split: sum.split)

lemma presD: "pres I m \<Longrightarrow> run_state m s = (a, s') \<Longrightarrow> I s \<Longrightarrow> I s'"
  by (metis pres_def snd_conv)

lemma presI: "(\<And>s a s'. run_state m s = (a, s') \<Longrightarrow> I s \<Longrightarrow> I s') \<Longrightarrow> pres I m"
  by (simp add: pres_def) (metis prod.collapse)

lemma pres_return [pres_intros]: "pres I (ret x)"
  by (simp add: pres_def)

lemma pres_gets [pres_intros]: "pres I (gets g)"
  by (simp add: pres_def)

lemma pres_modify: "(\<And>s. I s \<Longrightarrow> I (g s)) \<Longrightarrow> pres I (modify g)"
  by (simp add: pres_def)

lemma pres_bind [pres_intros]:
  "pres I m \<Longrightarrow> (\<And>a. pres I (k a)) \<Longrightarrow> pres I (m \<bind> k)"
  by (simp add: pres_def split: prod.splits) (metis snd_conv)

lemma pres_if [pres_intros]:
  "(b \<Longrightarrow> pres I m) \<Longrightarrow> (\<not> b \<Longrightarrow> pres I n) \<Longrightarrow> pres I (if b then m else n)"
  by simp

lemma pres_onlyif [pres_intros]: "(b \<Longrightarrow> pres I m) \<Longrightarrow> pres I (onlyif b m)"
  by (simp add: onlyif_def pres_return)

lemma pres_Let [pres_intros]: "(\<And>x. x = t \<Longrightarrow> pres I (g x)) \<Longrightarrow> pres I (let x = t in g x)"
  by (simp add: Let_def)

lemma pres_case_option [pres_intros]:
  "(x = None \<Longrightarrow> pres I m) \<Longrightarrow> (\<And>y. x = Some y \<Longrightarrow> pres I (g y)) \<Longrightarrow>
   pres I (case x of None \<Rightarrow> m | Some y \<Rightarrow> g y)"
  by (simp split: option.split)

lemma pres_case_prod [pres_intros]:
  "(\<And>a b. x = (a, b) \<Longrightarrow> pres I (g a b)) \<Longrightarrow> pres I (case x of (a, b) \<Rightarrow> g a b)"
  by (simp split: prod.split)

lemma pres_case_sum [pres_intros]:
  "(\<And>a. x = Inl a \<Longrightarrow> pres I (g a)) \<Longrightarrow> (\<And>b. x = Inr b \<Longrightarrow> pres I (h b)) \<Longrightarrow>
   pres I (case x of Inl a \<Rightarrow> g a | Inr b \<Rightarrow> h b)"
  by (simp split: sum.split)

text \<open>An invariant that only reads a component nobody writes.\<close>

lemma keeps_imp_pres: "keeps f m \<Longrightarrow> (\<And>s s'. f s' = f s \<Longrightarrow> I s \<Longrightarrow> I s') \<Longrightarrow> pres I m"
  by (simp add: keeps_def pres_def)

lemma wp_return [wp_simps]: "wp (ret x) Q = Q x"
  by (simp add: wp_def fun_eq_iff)

lemma wp_gets [wp_simps]: "wp (gets f) Q s = Q (f s) s"
  by (simp add: wp_def)

lemma wp_modify [wp_simps]: "wp (modify f) Q s = Q () (f s)"
  by (simp add: wp_def)

lemma wp_bind [wp_simps]: "wp (m \<bind> k) Q s = wp m (\<lambda>a. wp (k a) Q) s"
  by (simp add: wp_def split_beta)

lemma wp_if [wp_simps]: "wp (if b then m else n) Q s = (if b then wp m Q s else wp n Q s)"
  by simp

lemma wp_onlyif [wp_simps]: "wp (onlyif b m) Q s = (if b then wp m Q s else Q () s)"
  by (simp add: onlyif_def wp_return)

lemma wp_case_option [wp_simps]:
  "wp (case x of None \<Rightarrow> m | Some y \<Rightarrow> g y) Q s =
   (case x of None \<Rightarrow> wp m Q s | Some y \<Rightarrow> wp (g y) Q s)"
  by (simp split: option.split)

lemma wp_case_prod [wp_simps]:
  "wp (case x of (a, b) \<Rightarrow> g a b) Q s = (case x of (a, b) \<Rightarrow> wp (g a b) Q s)"
  by (simp split: prod.split)

lemma wp_case_sum [wp_simps]:
  "wp (case x of Inl a \<Rightarrow> g a | Inr b \<Rightarrow> h b) Q s =
   (case x of Inl a \<Rightarrow> wp (g a) Q s | Inr b \<Rightarrow> wp (h b) Q s)"
  by (simp split: sum.split)

lemma wp_mono: "wp m R s \<Longrightarrow> (\<And>a s'. R a s' \<Longrightarrow> Q a s') \<Longrightarrow> wp m Q s"
  by (simp add: wp_def)

lemma wp_then: "wp m R s \<Longrightarrow> (\<And>a s'. R a s' \<Longrightarrow> wp (k a) Q s') \<Longrightarrow> wp (m \<bind> k) Q s"
  unfolding wp_bind by (rule wp_mono)

lemma pres_bind_result:
  "pres I m \<Longrightarrow> (\<And>s. wp m (\<lambda>a _. R a) s) \<Longrightarrow> (\<And>a. R a \<Longrightarrow> pres I (k a)) \<Longrightarrow> pres I (m \<bind> k)"
  by (simp add: pres_def wp_def split: prod.splits) (metis fst_conv snd_conv)

text \<open>A postcondition that holds anyway.\<close>

lemma wp_any: "(\<And>a s'. Q a s') \<Longrightarrow> wp m Q s"
  by (simp add: wp_def)

lemma wp_bind_any: "(\<And>a s'. wp (k a) Q s') \<Longrightarrow> wp (m \<bind> k) Q s"
  by (simp add: wp_bind wp_any)

lemma wp_conj: "wp m (\<lambda>a s'. P a s' \<and> Q a s') s \<longleftrightarrow> wp m P s \<and> wp m Q s"
  by (simp add: wp_def)

lemma wp_keeps: "keeps f m \<Longrightarrow> wp m (\<lambda>_ s'. f s' = f s) s"
  by (simp add: wp_def keeps_snd)

lemma wp_pres: "pres I m \<Longrightarrow> I s \<Longrightarrow> wp m (\<lambda>_ s'. I s') s"
  by (simp add: wp_def pres_def)

lemma pres_wpI: "(\<And>s. I s \<Longrightarrow> wp m (\<lambda>_ s'. I s') s) \<Longrightarrow> pres I m"
  by (simp add: wp_def pres_def)

lemma wpD: "wp m Q s \<Longrightarrow> run_state m s = (a, s') \<Longrightarrow> Q a s'"
  by (simp add: wp_def)

lemma wpI: "(\<And>a s'. run_state m s = (a, s') \<Longrightarrow> Q a s') \<Longrightarrow> wp m Q s"
  by (simp add: wp_def)

section \<open>Python numbers\<close>

text \<open>\<open>max(lo, min(hi, x))\<close>, the clamp idiom of the code.\<close>

definition clamp :: "'a::linorder \<Rightarrow> 'a \<Rightarrow> 'a \<Rightarrow> 'a" where
  "clamp lo hi x = max lo (min hi x)"

lemma clamp_bounds: "lo \<le> hi \<Longrightarrow> lo \<le> clamp lo hi x \<and> clamp lo hi x \<le> hi"
  by (simp add: clamp_def)

lemma clamp_id [simp]: "lo \<le> x \<Longrightarrow> x \<le> hi \<Longrightarrow> clamp lo hi x = x"
  by (simp add: clamp_def)

lemma clamp_mono: "x \<le> y \<Longrightarrow> clamp lo hi x \<le> clamp lo hi y"
  unfolding clamp_def by (intro max.mono min.mono order_refl)

lemma clamp_clamp [simp]: "lo \<le> hi \<Longrightarrow> clamp lo hi (clamp lo hi x) = clamp lo hi x"
  by (simp add: clamp_def)

text \<open>\<open>round(x)\<close>: to the nearest integer, ties to the even one.\<close>

definition py_round :: "rat \<Rightarrow> int" where
  "py_round x = (let n = \<lfloor>x\<rfloor>; d = x - of_int n in
     if d < 1 / 2 then n else if 1 / 2 < d then n + 1 else if even n then n else n + 1)"

text \<open>\<open>round(x, k)\<close>: to \<open>k\<close> decimals.\<close>

definition py_round_dec :: "nat \<Rightarrow> rat \<Rightarrow> rat" where
  "py_round_dec k x = of_int (py_round (x * 10 ^ k)) / 10 ^ k"

lemma py_round_dist: "\<bar>of_int (py_round x) - x\<bar> \<le> 1 / 2"
proof -
  have "of_int \<lfloor>x\<rfloor> \<le> x" and "x < of_int \<lfloor>x\<rfloor> + 1"
    by linarith+
  then show ?thesis
    by (auto simp: py_round_def Let_def abs_le_iff)
qed

lemma py_round_near: "\<bar>x - of_int n\<bar> < 1 / 2 \<Longrightarrow> py_round x = n"
proof -
  assume near: "\<bar>x - of_int n\<bar> < 1 / 2"
  have "\<bar>of_int (py_round x) - of_int n\<bar> < (1::rat)"
    using near py_round_dist [of x] by linarith
  then have "\<bar>py_round x - n\<bar> < 1"
    by (metis of_int_abs of_int_diff of_int_less_1_iff)
  then show ?thesis by simp
qed

lemma py_round_of_int [simp]: "py_round (of_int n) = n"
  by (rule py_round_near) simp

lemma py_round_mono: "x \<le> y \<Longrightarrow> py_round x \<le> py_round y"
proof -
  assume le: "x \<le> y"
  show ?thesis
  proof (rule ccontr)
    assume "\<not> py_round x \<le> py_round y"
    then have gt: "py_round y + 1 \<le> py_round x" by simp
    then have "of_int (py_round y) + (1::rat) \<le> of_int (py_round x)"
      by (metis of_int_1 of_int_add of_int_le_iff)
    then have eq: "x = y"
      using le py_round_dist [of x] py_round_dist [of y] by (simp add: abs_le_iff)
    with gt show False by simp
  qed
qed

lemma py_round_ge: "of_int n \<le> x \<Longrightarrow> n \<le> py_round x"
  by (metis py_round_mono py_round_of_int)

lemma py_round_le: "x \<le> of_int n \<Longrightarrow> py_round x \<le> n"
  by (metis py_round_mono py_round_of_int)

text \<open>
  Untyped values the code tests at its boundaries: \<open>PyNonFinite\<close> stands for NaN and the
  infinities, \<open>PyStr\<close> for a string together with the finite number \<open>float()\<close> reads from it (if
  any), \<open>PyOther\<close> for the remaining values (lists, dicts, objects).
\<close>

datatype pyval =
  PyNone | PyBool bool | PyInt int | PyFloat rat | PyNonFinite | PyStr "rat option" | PyOther

text \<open>The least magnitude whose conversion to a double overflows.\<close>

definition double_overflow :: int where
  "double_overflow = 2 ^ 1024 - 2 ^ 970"

text \<open>\<open>finite_float\<close> of \<open>jasper/platform/json_fields.py\<close>: a real number, never a coercion.\<close>

fun finite_float :: "pyval \<Rightarrow> rat option" where
  "finite_float (PyInt i) = (if \<bar>i\<bar> < double_overflow then Some (of_int i) else None)"
| "finite_float (PyFloat x) = Some x"
| "finite_float _ = None"

text \<open>\<open>int(x)\<close> of a float truncates towards zero.\<close>

definition py_trunc :: "rat \<Rightarrow> int" where
  "py_trunc x = (if x < 0 then - \<lfloor>- x\<rfloor> else \<lfloor>x\<rfloor>)"

lemma py_trunc_of_int [simp]: "py_trunc (of_int n) = n"
  by (simp add: py_trunc_def flip: of_int_minus)

text \<open>
  How a call into code outside the process ends: with a value, with one of the errors the code
  expects there (\<open>OSError\<close>, \<open>RuntimeError\<close>, \<open>TimeoutError\<close>, \<open>ValueError\<close>), or with any other
  exception.
\<close>

datatype 'a outcome = Ret 'a | IoError | Fatal

end
