(* ===== verification/Sources.thy ===== *)
theory Sources
  imports Prelude
begin

text \<open>
  The canonical music-source table of \<open>jasper/playback_state/music_sources.py\<close>: the renderers, the
  fan-in lane each one feeds, and which attenuator carries its volume. Mux, the volume coordinator
  and the renderer client all read it.
\<close>

section \<open>Sources and their specifications\<close>

datatype source = AIRPLAY | SPOTIFY | BLUETOOTH | USBSINK | IDLE

fun source_value :: "source \<Rightarrow> string" where
  "source_value AIRPLAY = ''airplay''"
| "source_value SPOTIFY = ''spotify''"
| "source_value BLUETOOTH = ''bluetooth''"
| "source_value USBSINK = ''usbsink''"
| "source_value IDLE = ''idle''"

datatype volume_mode = CAMILLA_MASTER | PUSH

record music_source_spec =
  spec_id :: source
  fanin_label :: string
  renderer_active_key :: string
  wizard_key :: string
  spec_volume_mode :: volume_mode
  display_name :: string

definition MUSIC_SOURCE_SPECS :: "music_source_spec list" where
  "MUSIC_SOURCE_SPECS =
    [\<lparr>spec_id = SPOTIFY, fanin_label = ''spotify'', renderer_active_key = ''spotactive'',
      wizard_key = ''spotify_connect'', spec_volume_mode = PUSH, display_name = ''Spotify''\<rparr>,
     \<lparr>spec_id = AIRPLAY, fanin_label = ''airplay'', renderer_active_key = ''aplactive'',
      wizard_key = ''airplay'', spec_volume_mode = CAMILLA_MASTER, display_name = ''AirPlay''\<rparr>,
     \<lparr>spec_id = BLUETOOTH, fanin_label = ''bluealsa'', renderer_active_key = ''btactive'',
      wizard_key = ''bluetooth'', spec_volume_mode = PUSH, display_name = ''Bluetooth''\<rparr>,
     \<lparr>spec_id = USBSINK, fanin_label = ''usbsink'', renderer_active_key = ''usbsinkactive'',
      wizard_key = ''usbsink'', spec_volume_mode = CAMILLA_MASTER, display_name = ''USB Audio''\<rparr>]"

definition MUSIC_SOURCES :: "source list" where
  "MUSIC_SOURCES = map spec_id MUSIC_SOURCE_SPECS"

definition MUSIC_SOURCE_VALUES :: "string list" where
  "MUSIC_SOURCE_VALUES = map source_value MUSIC_SOURCES"

text \<open>The dictionaries keyed by source; a missing key is a \<open>KeyError\<close> in the code.\<close>

definition SOURCE_SPECS :: "source \<rightharpoonup> music_source_spec" where
  "SOURCE_SPECS = map_of (map (\<lambda>spec. (spec_id spec, spec)) MUSIC_SOURCE_SPECS)"

definition SOURCE_TO_FANIN_LABEL :: "source \<rightharpoonup> string" where
  "SOURCE_TO_FANIN_LABEL = map_of (map (\<lambda>spec. (spec_id spec, fanin_label spec)) MUSIC_SOURCE_SPECS)"

definition SOURCE_TO_ACTIVE_KEY :: "source \<rightharpoonup> string" where
  "SOURCE_TO_ACTIVE_KEY =
     map_of (map (\<lambda>spec. (spec_id spec, renderer_active_key spec)) MUSIC_SOURCE_SPECS)"

text \<open>\<open>volume_mode(source)\<close>; every source but \<open>IDLE\<close> has a specification (\<open>SOURCE_SPECS_total\<close>).\<close>

definition volume_mode :: "source \<Rightarrow> volume_mode" where
  "volume_mode s =
     (if s = IDLE then CAMILLA_MASTER
      else case SOURCE_SPECS s of Some spec \<Rightarrow> spec_volume_mode spec | None \<Rightarrow> CAMILLA_MASTER)"

text \<open>\<open>Source(word)\<close>: the member with that value, or a \<open>ValueError\<close> (None).\<close>

definition source_of_value :: "string \<Rightarrow> source option" where
  "source_of_value w = find (\<lambda>s. source_value s = w) [AIRPLAY, SPOTIFY, BLUETOOTH, USBSINK, IDLE]"

section \<open>The table, evaluated\<close>

lemma MUSIC_SOURCES_eq: "MUSIC_SOURCES = [SPOTIFY, AIRPLAY, BLUETOOTH, USBSINK]"
  by (simp add: MUSIC_SOURCES_def MUSIC_SOURCE_SPECS_def)

lemma set_MUSIC_SOURCES: "set MUSIC_SOURCES = - {IDLE}"
  by (auto simp: MUSIC_SOURCES_eq intro: source.exhaust)

lemma in_MUSIC_SOURCES [simp]: "s \<in> set MUSIC_SOURCES \<longleftrightarrow> s \<noteq> IDLE"
  by (simp add: set_MUSIC_SOURCES)

lemma distinct_MUSIC_SOURCES [simp]: "distinct MUSIC_SOURCES"
  by (simp add: MUSIC_SOURCES_eq)

lemma SOURCE_SPECS_total: "s \<noteq> IDLE \<Longrightarrow> \<exists>spec. SOURCE_SPECS s = Some spec \<and> spec_id spec = s"
  by (cases s) (auto simp: SOURCE_SPECS_def MUSIC_SOURCE_SPECS_def)

lemma volume_mode_simps [simp]:
  "volume_mode AIRPLAY = CAMILLA_MASTER" "volume_mode SPOTIFY = PUSH"
  "volume_mode BLUETOOTH = PUSH" "volume_mode USBSINK = CAMILLA_MASTER"
  "volume_mode IDLE = CAMILLA_MASTER"
  by (simp_all add: volume_mode_def SOURCE_SPECS_def MUSIC_SOURCE_SPECS_def)

lemma volume_mode_PUSH_iff: "volume_mode s = PUSH \<longleftrightarrow> s = SPOTIFY \<or> s = BLUETOOTH"
  by (cases s) simp_all

lemma volume_mode_cases: "volume_mode s = CAMILLA_MASTER \<or> volume_mode s = PUSH"
  by (cases "volume_mode s") simp_all

lemma fanin_label_simps [simp]:
  "SOURCE_TO_FANIN_LABEL SPOTIFY = Some ''spotify''"
  "SOURCE_TO_FANIN_LABEL AIRPLAY = Some ''airplay''"
  "SOURCE_TO_FANIN_LABEL BLUETOOTH = Some ''bluealsa''"
  "SOURCE_TO_FANIN_LABEL USBSINK = Some ''usbsink''"
  "SOURCE_TO_FANIN_LABEL IDLE = None"
  by (simp_all add: SOURCE_TO_FANIN_LABEL_def MUSIC_SOURCE_SPECS_def)

lemma fanin_label_inj:
  "SOURCE_TO_FANIN_LABEL s = Some l \<Longrightarrow> SOURCE_TO_FANIN_LABEL t = Some l \<Longrightarrow> s = t"
  by (cases s; cases t) auto

lemma inj_source_value: "source_value s = source_value t \<Longrightarrow> s = t"
  by (cases s; cases t) auto

lemma source_of_value_source_value [simp]: "source_of_value (source_value s) = Some s"
  by (cases s) (simp_all add: source_of_value_def)

lemma source_of_value_Some: "source_of_value w = Some s \<Longrightarrow> w = source_value s"
  by (auto simp: source_of_value_def split: if_splits)

lemma MUSIC_SOURCE_VALUES_iff:
  "w \<in> set MUSIC_SOURCE_VALUES \<longleftrightarrow> (\<exists>s. s \<noteq> IDLE \<and> w = source_value s)"
  by (auto simp: MUSIC_SOURCE_VALUES_def)

end
