(* ===== verification/Volume_Curve.thy ===== *)
theory Volume_Curve
  imports Sources
begin

text \<open>
  The user-volume scales: \<open>jasper/platform/volume_floor.py\<close> (constants and the floor's
  normalisation), \<open>jasper/audio_routes/volume_curve.py\<close> (percent to Camilla decibels and back, mute
  and guard predicates, the canonical target) and \<open>jasper/audio_control/volume_scales.py\<close> (each
  renderer's native units). The configured floor is an argument \<open>fl\<close> of every curve function; the
  code reads it from the settings file through \<open>configured_volume_floor_db\<close>, which only yields
  floors in the valid range (\<open>configured_floor_valid\<close>).
\<close>

section \<open>Volume floor\<close>

definition DEFAULT_VOLUME_FLOOR_DB :: rat where "DEFAULT_VOLUME_FLOOR_DB = -50"
definition VOLUME_CEILING_DB :: rat where "VOLUME_CEILING_DB = 0"
definition RECONCILE_DRIFT_DB :: rat where "RECONCILE_DRIFT_DB = 1"
definition VOLUME_FLOOR_MIN_DB :: rat where "VOLUME_FLOOR_MIN_DB = -60"
definition VOLUME_FLOOR_MAX_DB :: rat where "VOLUME_FLOOR_MAX_DB = -10"

lemmas volume_constants =
  DEFAULT_VOLUME_FLOOR_DB_def VOLUME_CEILING_DB_def RECONCILE_DRIFT_DB_def
  VOLUME_FLOOR_MIN_DB_def VOLUME_FLOOR_MAX_DB_def

text \<open>
  \<open>normalize_volume_floor_db\<close>. The \<open>OverflowError\<close> of \<open>float()\<close> on an integer beyond the double
  range is not caught by the code: \<open>None\<close>.
\<close>

definition clamp_floor :: "rat \<Rightarrow> rat" where
  "clamp_floor fl =
     py_round_dec 3 (min VOLUME_FLOOR_MAX_DB (max VOLUME_FLOOR_MIN_DB fl))"

fun normalize_volume_floor_db :: "pyval \<Rightarrow> rat option" where
  "normalize_volume_floor_db (PyBool b) = Some (clamp_floor (if b then 1 else 0))"
| "normalize_volume_floor_db (PyInt i) =
     (if \<bar>i\<bar> < double_overflow then Some (clamp_floor (of_int i)) else None)"
| "normalize_volume_floor_db (PyFloat x) = Some (clamp_floor x)"
| "normalize_volume_floor_db (PyStr (Some x)) = Some (clamp_floor x)"
| "normalize_volume_floor_db _ = Some DEFAULT_VOLUME_FLOOR_DB"

definition valid_floor_db :: "rat \<Rightarrow> bool" where
  "valid_floor_db fl \<longleftrightarrow> VOLUME_FLOOR_MIN_DB \<le> fl \<and> fl \<le> VOLUME_FLOOR_MAX_DB"

text \<open>
  \<open>configured_volume_floor_db\<close>: the parsed floor is cached under the settings file's signature
  (modification time and size, both absent for a missing file). \<open>stat\<close> is what the file system
  answers, \<open>load\<close> what reading the settings yields, \<open>cache\<close> the module global. An uncaught
  \<open>OverflowError\<close> of the loader escapes: \<open>None\<close>.
\<close>

datatype stat_outcome = StatOk int int | StatMissing | StatError

type_synonym floor_cache = "((int \<times> int) option \<times> rat) option"

fun stat_signature :: "stat_outcome \<Rightarrow> (int \<times> int) option" where
  "stat_signature (StatOk mtime sz) = Some (mtime, sz)"
| "stat_signature _ = None"

datatype settings_load = SettingsMissing | SettingsUnreadable | SettingsFloor pyval | SettingsNoFloor

definition load_volume_floor :: "settings_load \<Rightarrow> rat option" where
  "load_volume_floor l =
     (case l of SettingsFloor v \<Rightarrow> normalize_volume_floor_db v
      | SettingsNoFloor \<Rightarrow> normalize_volume_floor_db (PyFloat DEFAULT_VOLUME_FLOOR_DB)
      | _ \<Rightarrow> Some DEFAULT_VOLUME_FLOOR_DB)"

definition configured_volume_floor_db ::
  "stat_outcome \<Rightarrow> settings_load \<Rightarrow> floor_cache \<Rightarrow> (rat \<times> floor_cache) option" where
  "configured_volume_floor_db stat load cache =
     (if stat = StatError then Some (DEFAULT_VOLUME_FLOOR_DB, cache)
      else let signature = stat_signature stat in
        case cache of
          Some (sig, floor_db) \<Rightarrow>
            if sig = signature then Some (floor_db, cache)
            else map_option (\<lambda>f. (f, Some (signature, f))) (load_volume_floor load)
        | None \<Rightarrow> map_option (\<lambda>f. (f, Some (signature, f))) (load_volume_floor load))"

section \<open>Percent and decibels\<close>

definition percent_to_db :: "rat \<Rightarrow> rat \<Rightarrow> rat" where
  "percent_to_db fl percent =
     (let p = max 0 (min 100 percent); span = VOLUME_CEILING_DB - fl in
      if p \<le> 0 then fl
      else if p \<le> 1 then fl + (span / 99) / 4
      else fl + span * ((p - 1) / 99))"

definition db_to_percent :: "rat \<Rightarrow> rat \<Rightarrow> int" where
  "db_to_percent fl value =
     (if value \<le> fl then 0
      else if value \<ge> VOLUME_CEILING_DB then 100
      else let span = VOLUME_CEILING_DB - fl in
        max 1 (min 100 (py_round (1 + (value - fl) / span * 99))))"

abbreviation level_db :: "rat \<Rightarrow> int \<Rightarrow> rat" where
  "level_db fl level \<equiv> percent_to_db fl (of_int level)"

definition MUTE_DB_EPSILON :: rat where "MUTE_DB_EPSILON = 1 / 1000000"

definition main_mute_for_level :: "int \<Rightarrow> bool" where
  "main_mute_for_level level \<longleftrightarrow> level \<le> 0"

definition main_mute_for_db :: "rat \<Rightarrow> rat \<Rightarrow> bool" where
  "main_mute_for_db fl db \<longleftrightarrow> db \<le> percent_to_db fl 0 + MUTE_DB_EPSILON"

definition guard_in_effect :: "rat option \<Rightarrow> bool" where
  "guard_in_effect db \<longleftrightarrow> (case db of None \<Rightarrow> False | Some x \<Rightarrow> x < - RECONCILE_DRIFT_DB)"

definition canonical_target_db :: "rat \<Rightarrow> int \<Rightarrow> volume_mode \<Rightarrow> rat option \<Rightarrow> rat" where
  "canonical_target_db fl effective_level mode persisted_db =
     (if mode = CAMILLA_MASTER then level_db fl effective_level
      else if main_mute_for_level effective_level then percent_to_db fl 0
      else case persisted_db of
             Some db \<Rightarrow> if guard_in_effect persisted_db then db else 0
           | None \<Rightarrow> 0)"

section \<open>Native scales of the renderers\<close>

definition listening_level_to_spotify_percent :: "int \<Rightarrow> int" where
  "listening_level_to_spotify_percent level = max 0 (min 100 level)"

definition spotify_percent_to_listening_level :: "int \<Rightarrow> int" where
  "spotify_percent_to_listening_level pct = max 0 (min 100 pct)"

definition BT_VOLUME_MAX :: int where "BT_VOLUME_MAX = 127"

definition listening_level_to_bt_volume :: "int \<Rightarrow> int" where
  "listening_level_to_bt_volume level =
     (let p = max 0 (min 100 level) in py_round (of_int (p * BT_VOLUME_MAX) / 100))"

definition bt_volume_to_listening_level :: "int \<Rightarrow> int" where
  "bt_volume_to_listening_level vol =
     (let v = max 0 (min BT_VOLUME_MAX vol) in py_round (of_int v * 100 / of_int BT_VOLUME_MAX))"

fun native_to_listening_level :: "source \<Rightarrow> rat \<Rightarrow> int option" where
  "native_to_listening_level AIRPLAY native = Some (max 0 (min 100 (py_trunc native)))"
| "native_to_listening_level SPOTIFY native =
     Some (spotify_percent_to_listening_level (py_trunc native))"
| "native_to_listening_level BLUETOOTH native = Some (bt_volume_to_listening_level (py_trunc native))"
| "native_to_listening_level USBSINK native = Some (max 0 (min 100 (py_trunc native)))"
| "native_to_listening_level IDLE native = None"

section \<open>The floor is always valid\<close>

lemma clamp_floor_valid: "valid_floor_db (clamp_floor x)"
proof -
  let ?y = "min VOLUME_FLOOR_MAX_DB (max VOLUME_FLOOR_MIN_DB x)"
  have y: "-60 \<le> ?y" "?y \<le> -10"
    by (simp_all add: volume_constants)
  define r where "r = py_round (?y * 10 ^ 3)"
  have "-60000 \<le> r" and "r \<le> -10000"
    unfolding r_def using y by (intro py_round_ge py_round_le; simp)+
  then have "of_int (-60000) \<le> (of_int r :: rat)" and "(of_int r :: rat) \<le> of_int (-10000)"
    by (simp_all only: of_int_le_iff)
  then show ?thesis
    by (simp add: valid_floor_db_def clamp_floor_def py_round_dec_def volume_constants
        r_def [unfolded volume_constants])
qed

lemma default_floor_valid: "valid_floor_db DEFAULT_VOLUME_FLOOR_DB"
  by (simp add: valid_floor_db_def volume_constants)

lemma normalize_floor_valid: "normalize_volume_floor_db v = Some fl \<Longrightarrow> valid_floor_db fl"
  by (induction v rule: normalize_volume_floor_db.induct)
    (auto simp: clamp_floor_valid default_floor_valid split: if_splits)

lemma load_floor_valid: "load_volume_floor l = Some fl \<Longrightarrow> valid_floor_db fl"
  by (auto simp: load_volume_floor_def default_floor_valid clamp_floor_valid
      dest: normalize_floor_valid split: settings_load.splits)

definition floor_cache_ok :: "floor_cache \<Rightarrow> bool" where
  "floor_cache_ok c \<longleftrightarrow> (case c of None \<Rightarrow> True | Some (_, fl) \<Rightarrow> valid_floor_db fl)"

lemma configured_floor_valid:
  assumes "floor_cache_ok cache" and "configured_volume_floor_db stat load cache = Some (fl, cache')"
  shows "valid_floor_db fl \<and> floor_cache_ok cache'"
  using assms
  by (auto simp: configured_volume_floor_db_def floor_cache_ok_def default_floor_valid Let_def
      dest: load_floor_valid split: if_splits option.splits)

section \<open>The curve on levels\<close>

lemma level_db_nonpos: "level \<le> 0 \<Longrightarrow> level_db fl level = fl"
  by (simp add: percent_to_db_def)

lemma level_db_0 [simp]: "percent_to_db fl 0 = fl"
  by (simp add: percent_to_db_def)

lemma level_db_1: "percent_to_db fl 1 = fl - fl / 396"
  by (simp add: percent_to_db_def volume_constants)

lemma level_db_100 [simp]: "percent_to_db fl 100 = 0"
  by (simp add: percent_to_db_def volume_constants)

lemma level_db_mid:
  assumes "2 \<le> level" "level \<le> 100"
  shows "level_db fl level = fl - fl * (of_int level - 1) / 99"
proof -
  have "(2::rat) \<le> of_int level" "(of_int level :: rat) \<le> 100"
    using assms by simp_all
  then show ?thesis
    by (simp add: percent_to_db_def volume_constants algebra_simps diff_divide_distrib)
qed

lemma level_db_high: "100 \<le> level \<Longrightarrow> level_db fl level = 0"
proof -
  assume "100 \<le> level"
  then have "(100::rat) \<le> of_int level" by simp
  then show ?thesis by (simp add: percent_to_db_def volume_constants)
qed

lemma valid_floor_neg: "valid_floor_db fl \<Longrightarrow> fl \<le> -10 \<and> -60 \<le> fl"
  by (simp add: valid_floor_db_def volume_constants)

text \<open>Where a level lies on the curve: the rules every curve lemma splits along.\<close>

lemma level_cases:
  obtains "level \<le> (0::int)" | "level = 1" | "2 \<le> level" "level \<le> 100" | "100 \<le> level"
  by linarith

lemma level_db_step:
  assumes fl: "valid_floor_db fl" and l: "0 \<le> l" "l < 100"
  shows "level_db fl l < level_db fl (l + 1)"
proof (cases l rule: level_cases)
  case 1
  with l have "l = 0" by simp
  then show ?thesis using valid_floor_neg [OF fl] by (simp add: level_db_nonpos level_db_1)
next
  case 2
  then have "level_db fl (l + 1) = fl - fl / 99"
    using level_db_mid [of 2 fl] by simp
  with 2 show ?thesis using valid_floor_neg [OF fl] by (simp add: level_db_1)
next
  case 3
  then have "level_db fl l = fl - fl * (of_int l - 1) / 99"
    by (intro level_db_mid)
  moreover have "level_db fl (l + 1) = fl - fl * of_int l / 99"
    using 3 l level_db_mid [of "l + 1" fl] by simp
  ultimately show ?thesis using valid_floor_neg [OF fl]
    by (simp only:) (simp add: field_simps)
next
  case 4
  then show ?thesis using l by simp
qed

lemma level_db_strict_mono:
  assumes fl: "valid_floor_db fl" and l: "0 \<le> l" "l < m" "m \<le> 100"
  shows "level_db fl l < level_db fl m"
  using l(2,3)
proof (induction m rule: int_gr_induct)
  case base
  with level_db_step [OF fl, of l] l(1) show ?case by simp
next
  case (step i)
  then have "level_db fl l < level_db fl i" by simp
  also have "\<dots> < level_db fl (i + 1)"
    using step l(1) by (intro level_db_step [OF fl]) auto
  finally show ?case .
qed

lemma level_db_clamp: "level_db fl (clamp 0 100 l) = level_db fl l"
  by (cases l rule: level_cases)
    (auto simp: clamp_def level_db_nonpos level_db_high min_def max_def)

lemma level_db_mono: "valid_floor_db fl \<Longrightarrow> l \<le> m \<Longrightarrow> level_db fl l \<le> level_db fl m"
  using level_db_strict_mono [of fl "clamp 0 100 l" "clamp 0 100 m"] clamp_mono [of l m 0 100]
    clamp_bounds [of "0::int" 100]
  by (metis le_less level_db_clamp zero_le_numeral)

lemma level_db_bounds: "valid_floor_db fl \<Longrightarrow> fl \<le> level_db fl l \<and> level_db fl l \<le> 0"
  using level_db_mono [of fl "min l 0" l] level_db_mono [of fl l "max l 100"]
  by (simp add: level_db_nonpos level_db_high)

lemma db_to_percent_range: "0 \<le> db_to_percent fl db \<and> db_to_percent fl db \<le> 100"
  by (auto simp: db_to_percent_def Let_def)

lemma db_to_percent_level_db:
  assumes fl: "valid_floor_db fl" and l: "0 \<le> l" "l \<le> 100"
  shows "db_to_percent fl (level_db fl l) = l"
proof (cases l rule: level_cases)
  case 1
  with l show ?thesis by (simp add: db_to_percent_def level_db_nonpos)
next
  case 2
  have neg: "fl < 0" using valid_floor_neg [OF fl] by simp
  then have eq: "1 + (percent_to_db fl (of_int 1) - fl) / (VOLUME_CEILING_DB - fl) * 99 = 5 / 4"
    by (simp add: level_db_1 volume_constants)
  have "\<not> percent_to_db fl (of_int 1) \<le> fl" and "\<not> VOLUME_CEILING_DB \<le> percent_to_db fl (of_int 1)"
    using neg by (simp_all add: level_db_1 volume_constants)
  moreover have "py_round (5 / 4) = 1"
    by (rule py_round_near) simp
  ultimately have "db_to_percent fl (level_db fl 1) = 1"
    unfolding db_to_percent_def Let_def eq by (simp only: if_False)
  with 2 show ?thesis by simp
next
  case 3
  have neg: "fl < 0" using valid_floor_neg [OF fl] by simp
  show ?thesis
  proof (cases "l = 100")
    case True
    then show ?thesis using neg by (simp add: db_to_percent_def level_db_high volume_constants)
  next
    case False
    have eq: "1 + (level_db fl l - fl) / (VOLUME_CEILING_DB - fl) * 99 = of_int l"
      using neg 3 by (simp add: level_db_mid volume_constants field_simps)
    have "fl < level_db fl l" and "level_db fl l < VOLUME_CEILING_DB"
      using level_db_strict_mono [OF fl, of 0 l] level_db_strict_mono [OF fl, of l 100] 3 False
      by (simp_all add: level_db_nonpos level_db_high volume_constants)
    then show ?thesis
      using 3 unfolding db_to_percent_def Let_def eq by simp
  qed
next
  case 4
  with l have "l = 100" by simp
  then show ?thesis using valid_floor_neg [OF fl]
    by (simp add: db_to_percent_def level_db_high volume_constants)
qed

text \<open>The two mute predicates agree on every level, and no audible level touches the mute band.\<close>

lemma main_mute_agree:
  assumes fl: "valid_floor_db fl"
  shows "main_mute_for_db fl (level_db fl l) = main_mute_for_level l"
proof (cases "l \<le> 0")
  case True
  then show ?thesis
    by (simp add: main_mute_for_db_def main_mute_for_level_def MUTE_DB_EPSILON_def level_db_nonpos)
next
  case False
  have "level_db fl 1 \<le> level_db fl l"
    using False by (intro level_db_mono [OF fl]) simp
  then have "fl - fl / 396 \<le> level_db fl l"
    by (simp add: level_db_1)
  then have "fl + MUTE_DB_EPSILON < level_db fl l"
    using valid_floor_neg [OF fl] unfolding MUTE_DB_EPSILON_def by linarith
  then show ?thesis
    using False by (simp add: main_mute_for_db_def main_mute_for_level_def)
qed

lemma guard_in_effect_level: "guard_in_effect (Some (level_db fl l)) \<longleftrightarrow> level_db fl l < -1"
  by (simp add: guard_in_effect_def volume_constants)

lemma canonical_target_nonpos:
  assumes "valid_floor_db fl"
  shows "canonical_target_db fl l mode persisted \<le> 0"
  using level_db_bounds [OF assms, of l] level_db_bounds [OF assms, of 0]
  by (auto simp: canonical_target_db_def guard_in_effect_def volume_constants split: option.split)

section \<open>Level scales: the contract between the coordinator and a renderer's units\<close>

text \<open>
  What the coordinator relies on when it pushes a level in a renderer's units and later observes
  that value: the reading is a level, and an unmoved slider reads back as the level pushed.
\<close>

locale level_scale =
  fixes to_native :: "int \<Rightarrow> 'n" and from_native :: "'n \<Rightarrow> int"
  assumes reading_range: "0 \<le> from_native v \<and> from_native v \<le> 100"
    and push_reads_back: "0 \<le> l \<Longrightarrow> l \<le> 100 \<Longrightarrow> from_native (to_native l) = l"
    and push_clamps: "to_native (clamp 0 100 l) = to_native l"
begin

lemma reads_back_clamped: "from_native (to_native l) = clamp 0 100 l"
proof -
  have "from_native (to_native l) = from_native (to_native (clamp 0 100 l))"
    by (simp only: push_clamps)
  also have "\<dots> = clamp 0 100 l"
    using clamp_bounds [of "0::int" 100 l] by (intro push_reads_back) simp_all
  finally show ?thesis .
qed

text \<open>Echoing an observed value back never moves the slider's level again.\<close>

lemma echo_stable: "from_native (to_native (from_native v)) = from_native v"
  using reading_range [of v] by (intro push_reads_back) simp_all

lemma levels_distinguished:
  "0 \<le> l \<Longrightarrow> l \<le> 100 \<Longrightarrow> 0 \<le> m \<Longrightarrow> m \<le> 100 \<Longrightarrow> to_native l = to_native m \<Longrightarrow> l = m"
  by (metis push_reads_back)

end

lemma bt_round_trip_level:
  assumes "0 \<le> l" "l \<le> 100"
  shows "bt_volume_to_listening_level (listening_level_to_bt_volume l) = l"
proof -
  let ?x = "of_int (l * 127) / 100 :: rat"
  let ?v = "py_round ?x"
  have d: "\<bar>of_int ?v - ?x\<bar> \<le> 1 / 2" by (rule py_round_dist)
  have "(0::rat) \<le> of_int l" and "(of_int l :: rat) \<le> 100"
    using assms by simp_all
  then have v: "0 \<le> ?v" "?v \<le> 127"
    by (intro py_round_ge py_round_le; simp)+
  have "\<bar>of_int ?v * 100 / 127 - of_int l\<bar> < (1 / 2 :: rat)"
    using d by linarith
  then have "py_round (of_int ?v * 100 / 127) = l"
    by (rule py_round_near)
  then show ?thesis
    using assms v
    by (simp add: bt_volume_to_listening_level_def listening_level_to_bt_volume_def Let_def
        BT_VOLUME_MAX_def)
qed

lemma bt_reading_range: "0 \<le> bt_volume_to_listening_level v \<and> bt_volume_to_listening_level v \<le> 100"
proof -
  let ?v = "max 0 (min 127 v)"
  have "0 \<le> ?v" and "?v \<le> 127" by simp_all
  then have "(0::rat) \<le> of_int ?v" and "(of_int ?v :: rat) \<le> 127"
    by (simp_all only: of_int_0_le_iff of_int_le_numeral_iff)
  then have "0 \<le> py_round (of_int ?v * 100 / 127)" and "py_round (of_int ?v * 100 / 127) \<le> 100"
    by (intro py_round_ge py_round_le; simp del: of_int_max of_int_min)+
  then show ?thesis
    by (simp only: bt_volume_to_listening_level_def BT_VOLUME_MAX_def Let_def)
      (simp only: of_int_numeral)
qed

interpretation spotify: level_scale listening_level_to_spotify_percent
    spotify_percent_to_listening_level
  by unfold_locales
    (auto simp: listening_level_to_spotify_percent_def spotify_percent_to_listening_level_def clamp_def)

interpretation bluetooth: level_scale listening_level_to_bt_volume bt_volume_to_listening_level
  by unfold_locales
    (rule bt_reading_range, erule (1) bt_round_trip_level,
     simp add: listening_level_to_bt_volume_def clamp_def)

text \<open>The curve itself is such a scale for every valid floor; the shipped floor is one.\<close>

locale valid_floor =
  fixes fl :: rat
  assumes valid: "valid_floor_db fl"

sublocale valid_floor \<subseteq> curve: level_scale "level_db fl" "db_to_percent fl"
  by unfold_locales (simp_all add: db_to_percent_range db_to_percent_level_db [OF valid] level_db_clamp)

interpretation shipped: valid_floor DEFAULT_VOLUME_FLOOR_DB
  by unfold_locales (rule default_floor_valid)

section \<open>Properties\<close>

text \<open>
  C40. The percent scale and Camilla's fader agree for every floor the settings can hold. A level never
  leaves the range from the floor to 0 dB, reaches the floor exactly at or below 0 % and 0 dB exactly
  at or above 100 %, a higher level is strictly louder in between, and the two mute predicates (on the
  level and on the decibels written) give the same answer for every level.
\<close>

theorem volume_curve_correct:
  assumes "valid_floor_db fl"
  shows "fl \<le> level_db fl l \<and> level_db fl l \<le> VOLUME_CEILING_DB \<and>
    (level_db fl l = fl \<longleftrightarrow> l \<le> 0) \<and> (level_db fl l = VOLUME_CEILING_DB \<longleftrightarrow> 100 \<le> l) \<and>
    (0 \<le> l \<and> l < m \<and> m \<le> 100 \<longrightarrow> level_db fl l < level_db fl m) \<and>
    main_mute_for_db fl (level_db fl l) = main_mute_for_level l"
proof -
  have up: "fl < level_db fl l" if "0 < l"
    using level_db_strict_mono [OF assms, of 0 "min l 100"] level_db_clamp [of fl l] that
    by (simp add: clamp_def max_def)
  have down: "level_db fl l < 0" if "l < 100"
    using level_db_strict_mono [OF assms, of "max l 0" 100] level_db_clamp [of fl l] that
    by (simp add: clamp_def min_def max.commute)
  have "(level_db fl l = fl \<longleftrightarrow> l \<le> 0)" "(level_db fl l = VOLUME_CEILING_DB \<longleftrightarrow> 100 \<le> l)"
    using up down level_db_nonpos [of l fl] level_db_high [of l fl] VOLUME_CEILING_DB_def
    by (cases "0 < l"; cases "l < 100"; linarith)+
  then show ?thesis
    using level_db_bounds [OF assms, of l] level_db_strict_mono [OF assms, of l m] main_mute_agree [OF assms]
    by (simp add: VOLUME_CEILING_DB_def)
qed

lemma volume_curve_correct_witness:
  "level_db (-50) 30 < level_db (-50) 31 \<and> \<not> main_mute_for_db (-50) (level_db (-50) 1)"
proof -
  have "valid_floor_db (-50)"
    by (simp add: valid_floor_db_def volume_constants)
  from volume_curve_correct [OF this, of 30 31] volume_curve_correct [OF this, of 1 2]
  show ?thesis by (simp add: main_mute_for_level_def)
qed

text \<open>
  Every volume scale reads back what it was given: the level shown for a Camilla fader, for
  Spotify's percent and for BlueZ's 0..127 is the level that was written, clamped to 0..100, although
  each conversion rounds.
\<close>

theorem volume_scales_round_trip:
  assumes "valid_floor_db fl"
  shows "db_to_percent fl (level_db fl l) = clamp 0 100 l \<and>
    spotify_percent_to_listening_level (listening_level_to_spotify_percent l) = clamp 0 100 l \<and>
    bt_volume_to_listening_level (listening_level_to_bt_volume l) = clamp 0 100 l"
proof -
  have "level_scale (level_db fl) (db_to_percent fl)"
    by unfold_locales (simp_all add: db_to_percent_range db_to_percent_level_db [OF assms] level_db_clamp)
  from level_scale.reads_back_clamped [OF this] show ?thesis
    by (simp add: spotify.reads_back_clamped bluetooth.reads_back_clamped)
qed

lemma volume_scales_round_trip_witness:
  "db_to_percent (-50) (level_db (-50) 37) = 37 \<and>
   bt_volume_to_listening_level (listening_level_to_bt_volume 37) = 37"
proof -
  have "valid_floor_db (-50)"
    by (simp add: valid_floor_db_def volume_constants)
  from volume_scales_round_trip [OF this, of 37] show ?thesis by (simp add: clamp_def)
qed

text \<open>
  No settings file makes the floor invalid. Whatever the file holds and however reading it ends,
  a floor the cache answers is between -60 and -10 dB, the cache stays valid, and a second read under
  an unchanged signature answers the same floor without loading again.
\<close>

theorem configured_floor_is_valid:
  assumes "floor_cache_ok cache" "configured_volume_floor_db stat load cache = Some (fl, cache')"
  shows "valid_floor_db fl \<and> floor_cache_ok cache' \<and>
    (stat \<noteq> StatError \<longrightarrow> configured_volume_floor_db stat load' cache' = Some (fl, cache'))"
proof -
  have "stat \<noteq> StatError \<longrightarrow> configured_volume_floor_db stat load' cache' = Some (fl, cache')"
    using assms(2)
    by (auto simp: configured_volume_floor_db_def Let_def split: option.splits if_splits)
  with configured_floor_valid [OF assms] show ?thesis by simp
qed

lemma configured_floor_is_valid_witness:
  "configured_volume_floor_db (StatOk 7 1) SettingsUnreadable (Some (Some (7, 1), -40)) =
     Some (-40, Some (Some (7, 1), -40))"
proof -
  have load: "configured_volume_floor_db (StatOk 7 1) (SettingsFloor (PyInt (-40))) None =
      Some (-40, Some (Some (7, 1), -40))"
  proof -
    have "py_round_dec 3 (-40) = -40"
      using py_round_of_int [of "-40000"] by (simp add: py_round_dec_def)
    then show ?thesis
      by (simp add: configured_volume_floor_db_def load_volume_floor_def clamp_floor_def
          volume_constants double_overflow_def)
  qed
  show ?thesis
    using configured_floor_is_valid [OF _ load, of SettingsUnreadable] by (simp add: floor_cache_ok_def)
qed

end
