(* ===== verification/Volume_File.thy ===== *)
theory Volume_File
  imports Volume_Curve
begin

text \<open>
  The volume file \<open>/var/lib/jasper/speaker_volume.json\<close> as
  \<open>jasper/service_state/volume_persistence.py\<close> reads and writes it: the decoding of
  \<open>VolumePersistence.load\<close> with every way a foreign file can fail, the payload of \<open>_write_full\<close>,
  the boot-time regression of a stale level, and \<open>VolumeState\<close> of
  \<open>jasper/audio_control/volume_state.py\<close>, the one interpretation of a record.

  A JSON string carries what Python's parsers read from it: the integer of \<open>int()\<close>, the number of
  \<open>float()\<close> and the instant of \<open>datetime.fromisoformat\<close> (after \<open>replace("Z", "+00:00")\<close>), each if
  there is one; an ISO string without an offset, which the code never writes, is not represented.
  Instants are seconds. The text of a timestamp the code writes is never read back, so it is a fixed
  word here.
\<close>

section \<open>JSON values and Python conversions\<close>

datatype pyfloat = Fin rat | NonFin

datatype json =
  JNull | JBool bool | JInt int | JNum rat | JNaN | JInf
| JStr string "int option" "pyfloat option" "rat option"
| JOther bool

text \<open>Python truth value; \<open>JOther\<close> (a list or an object) carries its own.\<close>

fun truthy :: "json \<Rightarrow> bool" where
  "truthy JNull = False"
| "truthy (JBool b) = b"
| "truthy (JInt i) = (i \<noteq> 0)"
| "truthy (JNum x) = (x \<noteq> 0)"
| "truthy JNaN = True"
| "truthy JInf = True"
| "truthy (JStr t _ _ _) = (t \<noteq> [])"
| "truthy (JOther b) = b"

datatype 'a conv = Val 'a | TypeErr | ValueErr | OverflowErr | AttributeErr

fun py_float :: "json \<Rightarrow> pyfloat conv" where
  "py_float JNull = TypeErr"
| "py_float (JBool b) = Val (Fin (if b then 1 else 0))"
| "py_float (JInt i) = (if \<bar>i\<bar> < double_overflow then Val (Fin (of_int i)) else OverflowErr)"
| "py_float (JNum x) = Val (Fin x)"
| "py_float JNaN = Val NonFin"
| "py_float JInf = Val NonFin"
| "py_float (JStr _ _ f _) = (case f of Some x \<Rightarrow> Val x | None \<Rightarrow> ValueErr)"
| "py_float (JOther _) = TypeErr"

fun py_int :: "json \<Rightarrow> int conv" where
  "py_int JNull = TypeErr"
| "py_int (JBool b) = Val (if b then 1 else 0)"
| "py_int (JInt i) = Val i"
| "py_int (JNum x) = Val (py_trunc x)"
| "py_int JNaN = ValueErr"
| "py_int JInf = OverflowErr"
| "py_int (JStr _ i _ _) = (case i of Some n \<Rightarrow> Val n | None \<Rightarrow> ValueErr)"
| "py_int (JOther _) = TypeErr"

section \<open>The record and the file\<close>

record volume_record =
  main_volume_db :: rat
  updated_at :: rat
  listening_level :: "int option"
  last_used_at :: "rat option"
  pre_mute_level :: "int option"
  mute_token :: "string option"

datatype vfile =
  FMissing | FUnreadable | FBadUtf8 | FGarbage | FNotObject | FObject "string \<rightharpoonup> json"

section \<open>Reading\<close>

text \<open>\<open>data.get(key)\<close>.\<close>

definition jget :: "(string \<rightharpoonup> json) \<Rightarrow> string \<Rightarrow> json" where
  "jget m k = (case m k of None \<Rightarrow> JNull | Some v \<Rightarrow> v)"

text \<open>The \<open>updated_at\<close> expression: \<open>ts.replace\<close> on a truthy non-string is an \<open>AttributeError\<close>.\<close>

definition load_updated_at :: "rat \<Rightarrow> json \<Rightarrow> rat conv" where
  "load_updated_at now ts =
     (if \<not> truthy ts then Val now
      else case ts of
             JStr _ _ _ t \<Rightarrow> (case t of Some x \<Rightarrow> Val x | None \<Rightarrow> ValueErr)
           | _ \<Rightarrow> AttributeErr)"

text \<open>
  \<open>listening_level\<close> and \<open>pre_mute_level\<close>: absent, refused or out of range is None; only
  \<open>TypeError\<close> and \<open>ValueError\<close> are caught.
\<close>

definition load_level :: "json \<Rightarrow> int option outcome" where
  "load_level raw =
     (if raw = JNull then Ret None
      else case py_int raw of
             Val lvl \<Rightarrow> Ret (if 0 \<le> lvl \<and> lvl \<le> 100 then Some lvl else None)
           | TypeErr \<Rightarrow> Ret None
           | ValueErr \<Rightarrow> Ret None
           | _ \<Rightarrow> Fatal)"

definition load_last_used :: "json \<Rightarrow> rat option" where
  "load_last_used raw = (case raw of JStr _ _ _ t \<Rightarrow> t | _ \<Rightarrow> None)"

definition load_mute_token :: "json \<Rightarrow> string option" where
  "load_mute_token raw =
     (case raw of JStr t _ _ _ \<Rightarrow> if 0 < length t \<and> length t \<le> 128 then Some t else None | _ \<Rightarrow> None)"

text \<open>
  \<open>VolumePersistence.load\<close> up to the cache: \<open>Ret None\<close> is the code's None, \<open>Fatal\<close> an exception it
  does not catch.
\<close>

definition load_object :: "rat \<Rightarrow> (string \<rightharpoonup> json) \<Rightarrow> volume_record option outcome" where
  "load_object now data =
     (case data ''main_volume_db'' of
        None \<Rightarrow> Ret None
      | Some raw_db \<Rightarrow>
        (case py_float raw_db of
           TypeErr \<Rightarrow> Ret None
         | ValueErr \<Rightarrow> Ret None
         | OverflowErr \<Rightarrow> Fatal
         | AttributeErr \<Rightarrow> Fatal
         | Val db \<Rightarrow>
           (case load_updated_at now (jget data ''updated_at'') of
              TypeErr \<Rightarrow> Ret None
            | ValueErr \<Rightarrow> Ret None
            | OverflowErr \<Rightarrow> Fatal
            | AttributeErr \<Rightarrow> Fatal
            | Val ts \<Rightarrow>
              (case db of
                 NonFin \<Rightarrow> Ret None
               | Fin x \<Rightarrow>
                 if \<not> (VOLUME_FLOOR_MIN_DB - 1 \<le> x \<and> x \<le> VOLUME_CEILING_DB + 1) then Ret None
                 else
                 (case load_level (jget data ''listening_level'') of
                    Ret lvl \<Rightarrow>
                    (case load_level (jget data ''pre_mute_level'') of
                       Ret pml \<Rightarrow>
                       (let tok = load_mute_token (jget data ''mute_token'');
                            torn = (pml = None) \<noteq> (tok = None)
                        in Ret (Some \<lparr>main_volume_db = x, updated_at = ts, listening_level = lvl,
                             last_used_at = load_last_used (jget data ''last_used_at''),
                             pre_mute_level = (if torn then None else pml),
                             mute_token = (if torn then None else tok)\<rparr>))
                     | _ \<Rightarrow> Fatal)
                  | _ \<Rightarrow> Fatal)))))"

definition load_file :: "rat \<Rightarrow> vfile \<Rightarrow> volume_record option outcome" where
  "load_file now f =
     (case f of
        FBadUtf8 \<Rightarrow> Fatal
      | FObject data \<Rightarrow> load_object now data
      | _ \<Rightarrow> Ret None)"

section \<open>Writing\<close>

text \<open>\<open>isoformat(timespec="seconds")\<close>: the instant cut to the second.\<close>

definition jtime :: "rat \<Rightarrow> json" where
  "jtime t = JStr ''instant'' None None (Some (of_int \<lfloor>t\<rfloor>))"

definition write_payload ::
  "rat \<Rightarrow> rat \<Rightarrow> int option \<Rightarrow> rat option \<Rightarrow> int option \<Rightarrow> string option \<Rightarrow> (string \<rightharpoonup> json)" where
  "write_payload now db level last_used pre_mute token =
     (let base = [''version'' \<mapsto> JInt 2, ''main_volume_db'' \<mapsto> JNum (py_round_dec 2 db),
                  ''updated_at'' \<mapsto> jtime now];
          m1 = (case level of None \<Rightarrow> base | Some l \<Rightarrow> base(''listening_level'' \<mapsto> JInt l));
          m2 = (case last_used of None \<Rightarrow> m1 | Some t \<Rightarrow> m1(''last_used_at'' \<mapsto> jtime t));
          m3 = (case pre_mute of None \<Rightarrow> m2 | Some p \<Rightarrow>
                 let m = m2(''pre_mute_level'' \<mapsto> JInt p)
                 in case token of None \<Rightarrow> m
                    | Some t \<Rightarrow> m(''mute_token'' \<mapsto> JStr t None None None))
      in m3)"

section \<open>Boot-time regression\<close>

definition FIRST_BOOT_DEFAULT_PCT :: int where "FIRST_BOOT_DEFAULT_PCT = 50"
definition REGRESS_AFTER_SEC :: rat where "REGRESS_AFTER_SEC = 1800"
definition REGRESS_SAFE_LOW_PCT :: int where "REGRESS_SAFE_LOW_PCT = 20"
definition REGRESS_SAFE_HIGH_PCT :: int where "REGRESS_SAFE_HIGH_PCT = 70"

datatype regress_reason = FirstBoot | RestoredFresh | RegressedUp | RegressedDown | RestoredStale

definition regress_percent ::
  "int option \<Rightarrow> rat option \<Rightarrow> rat \<Rightarrow> int \<Rightarrow> int \<Rightarrow> int \<Rightarrow> int \<times> regress_reason" where
  "regress_percent pct age_sec stale_after_sec safe_low_pct safe_high_pct first_boot_default_pct =
     (case (pct, age_sec) of
        (Some p, Some age) \<Rightarrow>
          if age < stale_after_sec then (p, RestoredFresh)
          else if p < safe_low_pct then (safe_low_pct, RegressedUp)
          else if p > safe_high_pct then (safe_high_pct, RegressedDown)
          else (p, RestoredStale)
      | _ \<Rightarrow> (first_boot_default_pct, FirstBoot))"

definition regress_listening_level_if_stale ::
  "volume_record option \<Rightarrow> rat \<Rightarrow> rat \<Rightarrow> int \<Rightarrow> int \<Rightarrow> int \<Rightarrow> int \<times> regress_reason" where
  "regress_listening_level_if_stale record now stale_after_sec low high first_boot =
     (let age_sec = map_option (\<lambda>r. now - (case last_used_at r of Some t \<Rightarrow> t | None \<Rightarrow> updated_at r))
                      record
      in regress_percent (Option.bind record listening_level) age_sec
           stale_after_sec low high first_boot)"

section \<open>The one interpretation of a record\<close>

record volume_state =
  vs_level :: int
  vs_pre_mute :: "int option"
  vs_token :: "string option"

definition state_from_record :: "volume_record option \<Rightarrow> volume_state" where
  "state_from_record record =
     (case record of
        None \<Rightarrow> \<lparr>vs_level = FIRST_BOOT_DEFAULT_PCT, vs_pre_mute = None, vs_token = None\<rparr>
      | Some r \<Rightarrow>
          \<lparr>vs_level = max 0 (min 100 (case listening_level r of Some l \<Rightarrow> l
                                      | None \<Rightarrow> FIRST_BOOT_DEFAULT_PCT)),
           vs_pre_mute = pre_mute_level r, vs_token = mute_token r\<rparr>)"

definition effective_percent :: "volume_state \<Rightarrow> int" where
  "effective_percent v = (if vs_pre_mute v \<noteq> None then 0 else vs_level v)"

definition vs_muted :: "volume_state \<Rightarrow> bool" where
  "vs_muted v \<longleftrightarrow> effective_percent v = 0"

section \<open>What a loaded record satisfies\<close>

definition record_ok :: "volume_record \<Rightarrow> bool" where
  "record_ok r \<longleftrightarrow>
     -61 \<le> main_volume_db r \<and> main_volume_db r \<le> 1 \<and>
     (\<forall>l \<in> set_option (listening_level r). 0 \<le> l \<and> l \<le> 100) \<and>
     (\<forall>p \<in> set_option (pre_mute_level r). 0 \<le> p \<and> p \<le> 100) \<and>
     (\<forall>t \<in> set_option (mute_token r). 0 < length t \<and> length t \<le> 128) \<and>
     (pre_mute_level r = None \<longleftrightarrow> mute_token r = None)"

lemma load_level_range: "load_level j = Ret (Some l) \<Longrightarrow> 0 \<le> l \<and> l \<le> 100"
  by (auto simp: load_level_def split: if_splits conv.splits)

lemma load_mute_token_length: "load_mute_token j = Some t \<Longrightarrow> 0 < length t \<and> length t \<le> 128"
  by (auto simp: load_mute_token_def split: json.splits if_splits)

lemma load_object_ok: "load_object now data = Ret (Some r) \<Longrightarrow> record_ok r"
  by (auto simp: load_object_def record_ok_def Let_def volume_constants
      dest: load_level_range load_mute_token_length
      split: option.splits conv.splits pyfloat.splits outcome.splits if_splits)

lemma load_file_ok: "load_file now f = Ret (Some r) \<Longrightarrow> record_ok r"
  by (auto simp: load_file_def dest: load_object_ok split: vfile.splits)

lemma record_ok_state:
  assumes "record_ok r"
  shows "vs_level (state_from_record (Some r)) =
           (case listening_level r of Some l \<Rightarrow> l | None \<Rightarrow> FIRST_BOOT_DEFAULT_PCT)"
  using assms by (auto simp: record_ok_def state_from_record_def FIRST_BOOT_DEFAULT_PCT_def
      split: option.splits)

lemma state_from_record_level: "0 \<le> vs_level (state_from_record r) \<and> vs_level (state_from_record r) \<le> 100"
  by (auto simp: state_from_record_def FIRST_BOOT_DEFAULT_PCT_def split: option.splits)

lemma effective_percent_range:
  "0 \<le> vs_level v \<Longrightarrow> vs_level v \<le> 100 \<Longrightarrow> 0 \<le> effective_percent v \<and> effective_percent v \<le> 100"
  by (simp add: effective_percent_def)

text \<open>Reading back what the code writes; the keys of the payload are distinct.\<close>

lemma write_payload_gets:
  "write_payload now db level last_used pre_mute token ''main_volume_db'' =
     Some (JNum (py_round_dec 2 db))"
  "jget (write_payload now db level last_used pre_mute token) ''updated_at'' = jtime now"
  "jget (write_payload now db level last_used pre_mute token) ''listening_level'' =
     (case level of None \<Rightarrow> JNull | Some l \<Rightarrow> JInt l)"
  "jget (write_payload now db level last_used pre_mute token) ''last_used_at'' =
     (case last_used of None \<Rightarrow> JNull | Some t \<Rightarrow> jtime t)"
  "jget (write_payload now db level last_used pre_mute token) ''pre_mute_level'' =
     (case pre_mute of None \<Rightarrow> JNull | Some p \<Rightarrow> JInt p)"
  "jget (write_payload now db level last_used pre_mute token) ''mute_token'' =
     (if pre_mute = None then JNull
      else case token of None \<Rightarrow> JNull | Some t \<Rightarrow> JStr t None None None)"
  by (auto simp: write_payload_def jget_def Let_def split: option.splits)

text \<open>The record a well-formed memory state reads back as: two decimals, whole seconds.\<close>

definition stored_record ::
  "rat \<Rightarrow> rat \<Rightarrow> int option \<Rightarrow> rat option \<Rightarrow> int option \<Rightarrow> string option \<Rightarrow> volume_record" where
  "stored_record now db level last_used pre_mute token =
     \<lparr>main_volume_db = py_round_dec 2 db, updated_at = of_int \<lfloor>now\<rfloor>, listening_level = level,
      last_used_at = map_option (\<lambda>t. of_int \<lfloor>t\<rfloor>) last_used,
      pre_mute_level = (if token = None then None else pre_mute),
      mute_token = (if pre_mute = None then None else token)\<rparr>"

definition memory_ok ::
  "rat \<Rightarrow> int option \<Rightarrow> int option \<Rightarrow> string option \<Rightarrow> bool" where
  "memory_ok db level pre_mute token \<longleftrightarrow>
     -61 \<le> db \<and> db \<le> 1 \<and>
     (\<forall>l \<in> set_option level. 0 \<le> l \<and> l \<le> 100) \<and>
     (\<forall>p \<in> set_option pre_mute. 0 \<le> p \<and> p \<le> 100) \<and>
     (\<forall>t \<in> set_option token. 0 < length t \<and> length t \<le> 128)"

lemma py_round_dec2_bounds:
  assumes "-61 \<le> db" "db \<le> 1"
  shows "-61 \<le> py_round_dec 2 db \<and> py_round_dec 2 db \<le> 1"
proof -
  define r where "r = py_round (db * 10 ^ 2)"
  have "-6100 \<le> r" and "r \<le> 100"
    unfolding r_def using assms by (intro py_round_ge py_round_le; simp)+
  then have "of_int (-6100) \<le> (of_int r :: rat)" and "(of_int r :: rat) \<le> of_int 100"
    by (simp_all only: of_int_le_iff)
  then show ?thesis
    by (simp add: py_round_dec_def r_def)
qed

lemma load_written:
  assumes "memory_ok db level pre_mute token"
  shows "load_file t (FObject (write_payload now db level last_used pre_mute token)) =
           Ret (Some (stored_record now db level last_used pre_mute token))"
proof -
  have "-61 \<le> py_round_dec 2 db" "py_round_dec 2 db \<le> 1"
    using assms py_round_dec2_bounds by (simp_all add: memory_ok_def)
  then show ?thesis
    using assms
    by (auto simp: load_file_def load_object_def write_payload_gets load_updated_at_def jtime_def
        load_level_def load_last_used_def load_mute_token_def volume_constants memory_ok_def
        stored_record_def Let_def split: option.splits)
qed

section \<open>Properties\<close>

text \<open>
  Nothing malformed leaves the loader: a record it returns has a fader level between -61 and
  1 dB, levels between 0 and 100, a mute token of 1 to 128 characters, and either both halves of the
  mute restore state or neither, whatever JSON the file holds. What the coordinator makes of it is a
  level in 0..100, which is 0 exactly when the record is muted or the stored level is 0.
\<close>

theorem loaded_record_well_formed:
  assumes "load_file now f = Ret (Some r)"
  shows "record_ok r \<and> 0 \<le> effective_percent (state_from_record (Some r)) \<and>
    effective_percent (state_from_record (Some r)) \<le> 100 \<and>
    (vs_muted (state_from_record (Some r)) \<longleftrightarrow> pre_mute_level r \<noteq> None \<or> listening_level r = Some 0)"
proof -
  have ok: "record_ok r" using assms by (rule load_file_ok)
  then have "vs_muted (state_from_record (Some r)) \<longleftrightarrow> pre_mute_level r \<noteq> None \<or> listening_level r = Some 0"
    by (auto simp: vs_muted_def effective_percent_def state_from_record_def record_ok_def
        FIRST_BOOT_DEFAULT_PCT_def split: option.splits)
  with ok effective_percent_range [of "state_from_record (Some r)"] state_from_record_level [of "Some r"]
  show ?thesis by simp
qed

lemma loaded_record_well_formed_witness:
  "record_ok \<lparr>main_volume_db = -20, updated_at = 5, listening_level = Some 60, last_used_at = None,
     pre_mute_level = None, mute_token = None\<rparr>"
proof -
  have "load_file 5 (FObject [''main_volume_db'' \<mapsto> JInt (-20), ''listening_level'' \<mapsto> JInt 60,
      ''pre_mute_level'' \<mapsto> JInt 30]) =
    Ret (Some \<lparr>main_volume_db = -20, updated_at = 5, listening_level = Some 60, last_used_at = None,
     pre_mute_level = None, mute_token = None\<rparr>)"
    by (simp add: load_file_def load_object_def load_updated_at_def jget_def load_level_def
        load_last_used_def load_mute_token_def double_overflow_def volume_constants Let_def)
  from loaded_record_well_formed [OF this] show ?thesis by simp
qed

text \<open>
  The files the loader does not survive. Its contract is None on anything corrupt; four kinds of
  corruption raise out of it instead: bytes that are not UTF-8, an integer fader level beyond the
  double range, a truthy update stamp that is not a string, and an infinite level next to otherwise
  valid fields.
\<close>

theorem load_raises_on:
  "load_file now FBadUtf8 = Fatal \<and>
   (double_overflow \<le> \<bar>i\<bar> \<longrightarrow> load_file now (FObject (data(''main_volume_db'' \<mapsto> JInt i))) = Fatal) \<and>
   (n \<noteq> 0 \<longrightarrow> load_file now (FObject (data(''main_volume_db'' \<mapsto> JNum x, ''updated_at'' \<mapsto> JInt n))) = Fatal) \<and>
   (-61 \<le> x \<and> x \<le> 1 \<longrightarrow>
      load_file now (FObject [''main_volume_db'' \<mapsto> JNum x, ''listening_level'' \<mapsto> JInf]) = Fatal)"
  by (simp add: load_file_def load_object_def load_updated_at_def jget_def load_level_def volume_constants)

lemma load_raises_on_witness:
  "load_file 0 (FObject [''main_volume_db'' \<mapsto> JNum (-20), ''updated_at'' \<mapsto> JInt 1700000000]) = Fatal"
  using load_raises_on [of 0 0 Map.empty 1700000000 "-20"] by simp

definition last_use :: "volume_record \<Rightarrow> rat" where
  "last_use r = (case last_used_at r of Some t \<Rightarrow> t | None \<Rightarrow> updated_at r)"

abbreviation regress_at_boot :: "volume_record option \<Rightarrow> rat \<Rightarrow> int \<times> regress_reason" where
  "regress_at_boot r now \<equiv> regress_listening_level_if_stale r now REGRESS_AFTER_SEC REGRESS_SAFE_LOW_PCT
     REGRESS_SAFE_HIGH_PCT FIRST_BOOT_DEFAULT_PCT"

text \<open>
  The level after a reboot is safe. Without a record it is the first-boot default; within half an
  hour of the last use it is the stored level unchanged; later it is the stored level pulled into
  20..70, so a stale boot is never louder than 70 %, and pulling twice changes nothing.
\<close>

theorem boot_level_is_safe:
  fixes r :: volume_record
  shows "fst (regress_at_boot None now) = FIRST_BOOT_DEFAULT_PCT \<and>
    (listening_level r = None \<longrightarrow> fst (regress_at_boot (Some r) now) = FIRST_BOOT_DEFAULT_PCT) \<and>
    (listening_level r = Some l \<and> now - last_use r < REGRESS_AFTER_SEC \<longrightarrow>
       regress_at_boot (Some r) now = (l, RestoredFresh)) \<and>
    (listening_level r = Some l \<and> REGRESS_AFTER_SEC \<le> now - last_use r \<longrightarrow>
       fst (regress_at_boot (Some r) now) = clamp 20 70 l)"
  by (auto simp: last_use_def regress_listening_level_if_stale_def regress_percent_def Let_def
      FIRST_BOOT_DEFAULT_PCT_def REGRESS_SAFE_LOW_PCT_def REGRESS_SAFE_HIGH_PCT_def clamp_def)

lemma boot_level_is_safe_witness:
  "fst (regress_at_boot (Some \<lparr>main_volume_db = 0, updated_at = 0, listening_level = Some 95,
      last_used_at = None, pre_mute_level = None, mute_token = None\<rparr>) 3600) = 70"
  using boot_level_is_safe [of 3600 "\<lparr>main_volume_db = 0, updated_at = 0, listening_level = Some 95,
      last_used_at = None, pre_mute_level = None, mute_token = None\<rparr>" 95]
  by (simp add: REGRESS_AFTER_SEC_def clamp_def last_use_def)

end
