(* ===== verification/Runtime.thy ===== *)
theory Runtime
  imports Volume_File
begin

text \<open>
  What every daemon of the volume stack runs on: the world outside the process, the state other
  tasks and daemons share with it, and a trace of the actions it takes.

  \<^item> The code is asyncio: a task runs alone between two awaits. Every await is \<open>await d f\<close>: the call
    \<open>f\<close> reaches the outside world, and before the task resumes the other tasks and daemons may
    rewrite the shared state (\<open>d_env\<close>): the volume file (every daemon writes it), the voice-session
    flag and the measurement gate. \<open>d_env\<close> is arbitrary unless a theorem restricts it.
  \<^item> Synchronous code is \<open>sync\<close>/\<open>peek\<close>: no other task runs there.
  \<^item> The outside world is a type \<open>'w\<close> of the model's user, reached only through the doors, a record
    of functions for what is not this repository's Python (CamillaDSP, the renderers, the clocks, the
    file system, other daemons' sockets). The theorems hold for every such record.
  \<^item> The memory of one daemon belongs to the running task: another task of the same daemon is seen
    through the shared state only. A write through the volume file's helper replaces the whole file
    (write to a temporary file, then rename) or leaves it as it was.
  \<^item> Log lines are left out; the trace \<open>trace\<close> records the actions a theorem can speak about.
\<close>

section \<open>Events\<close>

text \<open>The boolean of an event is the answer the caller got.\<close>

datatype event =
  Fader rat bool                        \<comment> \<open>\<open>set_main_volume\<close>\<close>
| MainMute bool bool                    \<comment> \<open>\<open>set_main_mute\<close>\<close>
| Carrier rat bool                      \<comment> \<open>the carrier asked to land a level, with its mute\<close>
| Push source int bool                  \<comment> \<open>a renderer's own volume, as a listening level\<close>
| FaderHold "string option"             \<comment> \<open>jasper-control asked for its measurement hold\<close>
| GraphProbe bool                       \<comment> \<open>the graph-mutation lock probed: held or not\<close>
| Saved "string \<rightharpoonup> json"                \<comment> \<open>the volume file replaced\<close>
| Context bool rat rat                  \<comment> \<open>the fan-in context: muted, canonical and downstream dB\<close>
| Gate string bool                      \<comment> \<open>fan-in \<open>SELECT\<close> of a lane, or \<open>NONE\<close>\<close>
| LaneMute bool bool                    \<comment> \<open>fan-in \<open>MUTE\<close> (True) or \<open>UNMUTE\<close> of the USB lane\<close>
| Pause source bool                     \<comment> \<open>a renderer told to stop\<close>
| ModeSaved "string option"             \<comment> \<open>mux's selection mode file\<close>

section \<open>Shared state, process state and doors\<close>

text \<open>\<open>MeasurementGate\<close>'s fields: another task raises and lowers it.\<close>

record gate_state =
  g_active :: bool
  g_active_at :: rat
  g_lapse_logged :: bool

record shared_state =
  sh_file :: vfile
  sh_voice :: bool
  sh_gate :: gate_state

record 'w proc =
  world :: 'w
  shared :: shared_state
  trace :: "event list"

record 'w doors =
  d_floor :: rat
  d_env :: "'w \<Rightarrow> shared_state \<Rightarrow> shared_state"
  d_mono :: "'w \<Rightarrow> rat"
  d_utc :: "'w \<Rightarrow> rat"
  d_uuid :: "'w \<Rightarrow> string \<times> 'w"
  d_sleep :: "rat \<Rightarrow> 'w \<Rightarrow> 'w"
  d_write_ok :: "'w \<Rightarrow> bool \<times> 'w"

section \<open>Primitive steps\<close>

definition await :: "('w, 'y) doors_scheme \<Rightarrow> ('w \<Rightarrow> 'a \<times> 'w) \<Rightarrow> (('w, 'z) proc_scheme, 'a) state" where
  "await d f = State (\<lambda>s. let (a, w) = f (world s)
                          in (a, s\<lparr>world := w, shared := d_env d w (shared s)\<rparr>))"

definition sync :: "('w \<Rightarrow> 'a \<times> 'w) \<Rightarrow> (('w, 'z) proc_scheme, 'a) state" where
  "sync f = State (\<lambda>s. let (a, w) = f (world s) in (a, s\<lparr>world := w\<rparr>))"

definition peek :: "('w \<Rightarrow> 'a) \<Rightarrow> (('w, 'z) proc_scheme, 'a) state" where
  "peek f = gets (\<lambda>s. f (world s))"

definition emit :: "event \<Rightarrow> (('w, 'z) proc_scheme, unit) state" where
  "emit e = modify (\<lambda>s. s\<lparr>trace := trace s @ [e]\<rparr>)"

text \<open>An await that asks the world nothing: taking an \<open>asyncio\<close> lock.\<close>

abbreviation yield :: "('w, 'y) doors_scheme \<Rightarrow> (('w, 'z) proc_scheme, unit) state" where
  "yield d \<equiv> await d (\<lambda>w. ((), w))"

abbreviation sleep_for :: "('w, 'y) doors_scheme \<Rightarrow> rat \<Rightarrow> (('w, 'z) proc_scheme, unit) state" where
  "sleep_for d t \<equiv> await d (\<lambda>w. ((), d_sleep d t w))"

lemma run_await: "run_state (await d f) s =
    (fst (f (world s)), s\<lparr>world := snd (f (world s)),
       shared := d_env d (snd (f (world s))) (shared s)\<rparr>)"
  by (simp add: await_def split_beta Let_def)

lemma run_sync: "run_state (sync f) s = (fst (f (world s)), s\<lparr>world := snd (f (world s))\<rparr>)"
  by (simp add: sync_def split_beta Let_def)

lemma run_peek [simp]: "run_state (peek f) s = (f (world s), s)"
  by (simp add: peek_def)

lemma run_emit [simp]: "run_state (emit e) s = ((), s\<lparr>trace := trace s @ [e]\<rparr>)"
  by (simp add: emit_def)

lemma keeps_await [keeps_intros]:
  "(\<And>s w h. f (s\<lparr>world := w, shared := h\<rparr>) = f s) \<Longrightarrow> keeps f (await d g)"
  by (simp add: keeps_def run_await)

lemma keeps_sync [keeps_intros]: "(\<And>s w. f (s\<lparr>world := w\<rparr>) = f s) \<Longrightarrow> keeps f (sync g)"
  by (simp add: keeps_def run_sync)

lemma keeps_peek [keeps_intros]: "keeps f (peek g)"
  by (simp add: keeps_def)

lemma keeps_emit [keeps_intros]: "(\<And>s t. f (s\<lparr>trace := t\<rparr>) = f s) \<Longrightarrow> keeps f (emit e)"
  by (simp add: keeps_def)

lemma pres_peek [pres_intros]: "pres I (peek g)"
  by (simp add: pres_def)

lemma wp_await [wp_simps]:
  "wp (await d f) Q s = Q (fst (f (world s))) (s\<lparr>world := snd (f (world s)),
     shared := d_env d (snd (f (world s))) (shared s)\<rparr>)"
  by (simp add: wp_def run_await)

lemma wp_sync [wp_simps]:
  "wp (sync f) Q s = Q (fst (f (world s))) (s\<lparr>world := snd (f (world s))\<rparr>)"
  by (simp add: wp_def run_sync)

lemma wp_peek [wp_simps]: "wp (peek f) Q s = Q (f (world s)) s"
  by (simp add: wp_def)

lemma wp_emit [wp_simps]: "wp (emit e) Q s = Q () (s\<lparr>trace := trace s @ [e]\<rparr>)"
  by (simp add: wp_def)

section \<open>What a program adds to the trace\<close>

text \<open>
  \<open>emits R m\<close>: a run of \<open>m\<close> only appends to the trace, and its result \<open>a\<close> and the appended events
  \<open>es\<close> satisfy \<open>R a es\<close>.
\<close>

definition emits ::
  "('a \<Rightarrow> event list \<Rightarrow> bool) \<Rightarrow> (('w, 'z) proc_scheme, 'a) state \<Rightarrow> bool" where
  "emits R m \<longleftrightarrow> (\<forall>s. \<exists>es. trace (snd (run_state m s)) = trace s @ es \<and> R (fst (run_state m s)) es)"

text \<open>The common case: every appended event satisfies \<open>E\<close>.\<close>

abbreviation emits_only :: "(event \<Rightarrow> bool) \<Rightarrow> (('w, 'z) proc_scheme, 'a) state \<Rightarrow> bool" where
  "emits_only E \<equiv> emits (\<lambda>_ es. \<forall>e \<in> set es. E e)"

abbreviation silent :: "(('w, 'z) proc_scheme, 'a) state \<Rightarrow> bool" where
  "silent m \<equiv> keeps trace m"

named_theorems emits_intros "rules that show what a program adds to the trace"

lemma emitsD:
  "emits R m \<Longrightarrow> run_state m s = (a, s') \<Longrightarrow> \<exists>es. trace s' = trace s @ es \<and> R a es"
  by (metis emits_def fst_conv snd_conv)

lemma wp_emits: "emits R m \<Longrightarrow> wp m (\<lambda>a s'. \<exists>es. trace s' = trace s @ es \<and> R a es) s"
  by (simp add: emits_def wp_def)

lemma emits_wpI:
  "(\<And>s. wp m (\<lambda>a s'. \<exists>es. trace s' = trace s @ es \<and> R a es) s) \<Longrightarrow> emits R m"
  by (simp add: emits_def wp_def)

lemma emits_mono: "emits R m \<Longrightarrow> (\<And>a es. R a es \<Longrightarrow> R' a es) \<Longrightarrow> emits R' m"
  by (meson emits_def)

lemma emits_silent: "silent m \<Longrightarrow> (\<And>a. R a []) \<Longrightarrow> emits R m"
  by (simp add: emits_def keeps_def)

lemma emits_bind:
  assumes "emits R m" and "\<And>a es. R a es \<Longrightarrow> emits (R' a) (k a)"
    and "\<And>a es b fs. R a es \<Longrightarrow> R' a b fs \<Longrightarrow> Q b (es @ fs)"
  shows "emits Q (m \<bind> k)"
  unfolding emits_def
proof
  fix s
  obtain a s1 where 1: "run_state m s = (a, s1)" by fastforce
  obtain b s2 where 2: "run_state (k a) s1 = (b, s2)" by fastforce
  obtain es where es: "trace s1 = trace s @ es" "R a es"
    using emitsD [OF assms(1) 1] by blast
  obtain fs where fs: "trace s2 = trace s1 @ fs" "R' a b fs"
    using emitsD [OF assms(2) [OF es(2)] 2] by blast
  with es show "\<exists>gs. trace (snd (run_state (m \<bind> k) s)) = trace s @ gs \<and>
      Q (fst (run_state (m \<bind> k) s)) gs"
    using assms(3) 1 2 by auto
qed

lemma emits_after_silent: "silent m \<Longrightarrow> (\<And>a. emits Q (k a)) \<Longrightarrow> emits Q (m \<bind> k)"
  by (rule emits_bind [where R = "\<lambda>_ es. es = []" and R' = "\<lambda>_. Q"]) (auto intro: emits_silent)

lemma emits_result: "(\<And>s. R (fst (run_state m s)) []) \<Longrightarrow> silent m \<Longrightarrow> emits R m"
  by (simp add: emits_def keeps_def)

lemma silent_await [keeps_intros]: "silent (await d f)"
  by (rule keeps_await) simp

lemma emits_only_bind [emits_intros]:
  "emits_only E m \<Longrightarrow> (\<And>a. emits_only E (k a)) \<Longrightarrow> emits_only E (m \<bind> k)"
  by (rule emits_bind [where R = "\<lambda>_ es. \<forall>e \<in> set es. E e"
        and R' = "\<lambda>_ _ es. \<forall>e \<in> set es. E e"]) auto

lemma emits_only_return [emits_intros]: "emits_only E (ret x)"
  by (intro emits_silent keeps_intros) simp

lemma emits_only_gets [emits_intros]: "emits_only E (gets f)"
  by (intro emits_silent keeps_intros) simp

lemma emits_only_peek [emits_intros]: "emits_only E (peek f)"
  by (intro emits_silent keeps_intros) simp

lemma emits_only_modify [emits_intros]:
  "(\<And>s. trace (f s) = trace s) \<Longrightarrow> emits_only E (modify f)"
  by (intro emits_silent keeps_intros) simp_all

lemma emits_only_await [emits_intros]: "emits_only E (await d f)"
  by (intro emits_silent keeps_intros) simp_all

lemma emits_only_sync [emits_intros]: "emits_only E (sync f)"
  by (intro emits_silent keeps_intros) simp_all

lemma emits_only_emit [emits_intros]: "E e \<Longrightarrow> emits_only E (emit e)"
  by (simp add: emits_def)

lemma emits_if [emits_intros]:
  "(b \<Longrightarrow> emits R m) \<Longrightarrow> (\<not> b \<Longrightarrow> emits R n) \<Longrightarrow> emits R (if b then m else n)"
  by simp

lemma emits_only_onlyif [emits_intros]:
  "(b \<Longrightarrow> emits_only E m) \<Longrightarrow> emits_only E (onlyif b m)"
  by (simp add: onlyif_def emits_only_return)

lemma emits_Let [emits_intros]:
  "(\<And>x. x = t \<Longrightarrow> emits R (g x)) \<Longrightarrow> emits R (let x = t in g x)"
  by (simp add: Let_def)

lemma emits_case_option [emits_intros]:
  "(x = None \<Longrightarrow> emits R m) \<Longrightarrow> (\<And>y. x = Some y \<Longrightarrow> emits R (g y)) \<Longrightarrow>
   emits R (case x of None \<Rightarrow> m | Some y \<Rightarrow> g y)"
  by (simp split: option.split)

lemma emits_case_prod [emits_intros]:
  "(\<And>a b. x = (a, b) \<Longrightarrow> emits R (g a b)) \<Longrightarrow> emits R (case x of (a, b) \<Rightarrow> g a b)"
  by (simp split: prod.split)

lemma emits_case_sum [emits_intros]:
  "(\<And>a. x = Inl a \<Longrightarrow> emits R (g a)) \<Longrightarrow> (\<And>b. x = Inr b \<Longrightarrow> emits R (h b)) \<Longrightarrow>
   emits R (case x of Inl a \<Rightarrow> g a | Inr b \<Rightarrow> h b)"
  by (simp split: sum.split)

lemma emits_onlyD:
  "emits_only E m \<Longrightarrow> run_state m s = (a, s') \<Longrightarrow> \<exists>es. trace s' = trace s @ es \<and> (\<forall>e \<in> set es. E e)"
  by (rule emitsD)

section \<open>Other daemons that leave the volume file alone\<close>

text \<open>
  While one task holds the cross-daemon lease every other writer of the volume file waits, except
  for the plain \<open>save_now\<close> of a carrier write. A theorem about what is on disk at the end names the
  stronger case it needs: nobody else writes.
\<close>

definition file_undisturbed :: "('w, 'y) doors_scheme \<Rightarrow> bool" where
  "file_undisturbed d \<longleftrightarrow> (\<forall>w h. sh_file (d_env d w h) = sh_file h)"

lemma keeps_await_file:
  "file_undisturbed d \<Longrightarrow> keeps (\<lambda>s. sh_file (shared s)) (await d f)"
  by (simp add: keeps_def run_await file_undisturbed_def)

end
