(* ===== verification/Volume_Latch.thy ===== *)
theory Volume_Latch
  imports Runtime
begin

text \<open>
  \<open>jasper/platform/volume_latch.py\<close>: the one read, compare and set-and-confirm of the main fader, and
  where a releasing duck lands. The setter and the getter are injected; here they are programs over
  an arbitrary state whose outcome is a Python value, one of \<open>FADER_IO_ERRORS\<close> (\<open>IoError\<close>) or any
  other exception (\<open>Fatal\<close>).
\<close>

definition READBACK_TOLERANCE_DB :: rat where "READBACK_TOLERANCE_DB = 1 / 20"

text \<open>A usable number: not a bool, not a string, finite. An \<open>int\<close> beyond doubles raises.\<close>

fun usable_reading :: "pyval \<Rightarrow> rat option outcome" where
  "usable_reading (PyInt i) = (if \<bar>i\<bar> < double_overflow then Ret (Some (of_int i)) else Fatal)"
| "usable_reading (PyFloat x) = Ret (Some x)"
| "usable_reading _ = Ret None"

definition read_fader_db :: "('s, pyval outcome) state \<Rightarrow> ('s, rat option outcome) state" where
  "read_fader_db getf = do {
     value \<leftarrow> getf;
     ret (case value of IoError \<Rightarrow> Ret None | Fatal \<Rightarrow> Fatal | Ret v \<Rightarrow> usable_reading v)
   }"

definition fader_matches :: "rat option \<Rightarrow> rat \<Rightarrow> bool" where
  "fader_matches observed expected_db =
     (case observed of None \<Rightarrow> False | Some x \<Rightarrow> \<bar>x - expected_db\<bar> \<le> READBACK_TOLERANCE_DB)"

definition duck_release_target_db :: "rat \<Rightarrow> rat option \<Rightarrow> rat \<Rightarrow> rat \<Rightarrow> rat" where
  "duck_release_target_db reference_db current_db depth_db entry_db =
     (case current_db of
        None \<Rightarrow> min reference_db entry_db
      | Some current \<Rightarrow> min reference_db (current + \<bar>depth_db\<bar>))"

text \<open>
  \<open>set_and_confirm_volume\<close>. A setter that raises an expected error or answers False is a failure;
  so is a getter that does; only an unexpected exception of either escapes.
\<close>

definition set_and_confirm_volume ::
  "rat \<Rightarrow> (rat \<Rightarrow> ('s, pyval outcome) state) \<Rightarrow> ('s, pyval outcome) state \<Rightarrow> ('s, bool outcome) state" where
  "set_and_confirm_volume target_db setf getf = do {
     applied \<leftarrow> setf target_db;
     case applied of
       Fatal \<Rightarrow> ret Fatal
     | IoError \<Rightarrow> ret (Ret False)
     | Ret a \<Rightarrow>
         if a = PyBool False then ret (Ret False)
         else do {
           observed \<leftarrow> getf;
           ret (case observed of
                  Fatal \<Rightarrow> Fatal
                | IoError \<Rightarrow> Ret False
                | Ret v \<Rightarrow> (case usable_reading v of
                             Ret x \<Rightarrow> Ret (fader_matches x target_db)
                           | _ \<Rightarrow> Fatal))
         }
   }"

lemma fader_matches_iff:
  "fader_matches observed x \<longleftrightarrow> (\<exists>y. observed = Some y \<and> \<bar>y - x\<bar> \<le> 1 / 20)"
  by (auto simp: fader_matches_def READBACK_TOLERANCE_DB_def split: option.splits)

lemma wp_case_outcome [wp_simps]:
  "wp (case x of Ret a \<Rightarrow> f a | IoError \<Rightarrow> m | Fatal \<Rightarrow> n) Q s =
   (case x of Ret a \<Rightarrow> wp (f a) Q s | IoError \<Rightarrow> wp m Q s | Fatal \<Rightarrow> wp n Q s)"
  by (simp split: outcome.split)

lemma keeps_case_outcome [keeps_intros]:
  "(\<And>a. x = Ret a \<Longrightarrow> keeps f (h a)) \<Longrightarrow> keeps f m \<Longrightarrow> keeps f n \<Longrightarrow>
   keeps f (case x of Ret a \<Rightarrow> h a | IoError \<Rightarrow> m | Fatal \<Rightarrow> n)"
  by (simp split: outcome.split)

lemma pres_case_outcome [pres_intros]:
  "(\<And>a. x = Ret a \<Longrightarrow> pres I (h a)) \<Longrightarrow> pres I m \<Longrightarrow> pres I n \<Longrightarrow>
   pres I (case x of Ret a \<Rightarrow> h a | IoError \<Rightarrow> m | Fatal \<Rightarrow> n)"
  by (simp split: outcome.split)

lemma emits_case_outcome [emits_intros]:
  "(\<And>a. x = Ret a \<Longrightarrow> emits R (h a)) \<Longrightarrow> emits R m \<Longrightarrow> emits R n \<Longrightarrow>
   emits R (case x of Ret a \<Rightarrow> h a | IoError \<Rightarrow> m | Fatal \<Rightarrow> n)"
  by (simp split: outcome.split)

lemma keeps_read_fader [keeps_intros]: "keeps f getf \<Longrightarrow> keeps f (read_fader_db getf)"
  unfolding read_fader_db_def by (intro keeps_intros)

lemma keeps_set_and_confirm [keeps_intros]:
  "(\<And>x. keeps f (setf x)) \<Longrightarrow> keeps f getf \<Longrightarrow> keeps f (set_and_confirm_volume t setf getf)"
  unfolding set_and_confirm_volume_def by (intro keeps_intros)

lemma emits_only_read_fader [emits_intros]: "emits_only E getf \<Longrightarrow> emits_only E (read_fader_db getf)"
  unfolding read_fader_db_def by (intro emits_intros)

lemma emits_only_set_and_confirm [emits_intros]:
  "emits_only E (setf t) \<Longrightarrow> emits_only E getf \<Longrightarrow> emits_only E (set_and_confirm_volume t setf getf)"
  unfolding set_and_confirm_volume_def by (intro emits_intros)

text \<open>A released duck never lands above the reference, nor more than its own depth above now.\<close>

lemma duck_release_le:
  "duck_release_target_db ref cur depth entry \<le> ref"
  "duck_release_target_db ref None depth entry \<le> entry"
  "duck_release_target_db ref (Some c) depth entry \<le> c + \<bar>depth\<bar>"
  by (simp_all add: duck_release_target_db_def split: option.split)

text \<open>With nothing else on the fader a duck and its release cancel.\<close>

lemma duck_release_restores:
  "0 \<le> depth \<Longrightarrow> entry \<le> ref \<Longrightarrow> duck_release_target_db ref (Some (entry - depth)) depth entry = entry"
  by (simp add: duck_release_target_db_def)

lemma set_and_confirm_True:
  assumes "run_state (set_and_confirm_volume t setf getf) s = (Ret True, s')"
  shows "\<exists>a s1 v x. run_state (setf t) s = (Ret a, s1) \<and> run_state getf s1 = (Ret v, s') \<and>
           usable_reading v = Ret (Some x) \<and> \<bar>x - t\<bar> \<le> 1 / 20"
  using assms
  by (auto simp: set_and_confirm_volume_def fader_matches_iff split: prod.splits outcome.splits if_splits)

end
