(* ===== verification/Camilla.thy ===== *)
theory Camilla
  imports Volume_Latch
begin

text \<open>
  The fader side of \<open>CamillaController\<close> (\<open>jasper/audio_control/camilla.py\<close>): the clamp of every
  main-volume write, \<open>_call\<close> with its one retry and its failure memory, the strict and best-effort
  methods, and the duck around a graph mutation with its release.

  One attempt over the websocket (\<open>_run_attempt\<close>: worker thread, socket, watchdog) is a door that
  answers, is rejected by CamillaDSP, or fails; \<open>_call\<close> turns every other exception into
  \<open>CamillaUnavailable\<close>, so nothing else leaves it.
\<close>

section \<open>State and doors\<close>

datatype 'a attempt = AOk 'a | ARejected | AFailed

record 'w cam = "'w proc" +
  failed_at :: "rat option"
  abandon_logged :: bool

record 'w cam_doors = "'w doors" +
  d_main_volume :: "'w \<Rightarrow> rat attempt \<times> 'w"
  d_volume_and_mute :: "'w \<Rightarrow> (rat \<times> bool) attempt \<times> 'w"
  d_set_main_volume :: "rat \<Rightarrow> 'w \<Rightarrow> unit attempt \<times> 'w"
  d_set_main_mute :: "bool \<Rightarrow> 'w \<Rightarrow> unit attempt \<times> 'w"
  d_graph_lock :: "'w \<Rightarrow> bool \<times> 'w"

text \<open>What a call ends in: a value, or \<open>CamillaConfigRejected\<close>/\<open>CamillaUnavailable\<close>.\<close>

datatype 'a call = CallOk 'a | CallRejected | CallUnavailable

definition MIN_MAIN_VOLUME_DB :: rat where "MIN_MAIN_VOLUME_DB = -150"
definition MAX_MAIN_VOLUME_DB :: rat where "MAX_MAIN_VOLUME_DB = 0"
definition CAMILLA_FAILURE_MEMORY_S :: rat where "CAMILLA_FAILURE_MEMORY_S = 1"
definition MAIN_VOLUME_RAMP_SETTLE_S :: rat where "MAIN_VOLUME_RAMP_SETTLE_S = 9 / 20"
definition GRAPH_SWAP_DUCK_DB :: rat where "GRAPH_SWAP_DUCK_DB = 25"

lemmas camilla_constants =
  MIN_MAIN_VOLUME_DB_def MAX_MAIN_VOLUME_DB_def CAMILLA_FAILURE_MEMORY_S_def
  MAIN_VOLUME_RAMP_SETTLE_S_def GRAPH_SWAP_DUCK_DB_def

section \<open>The main-volume door\<close>

text \<open>\<open>_coerce_main_volume_db\<close>: IoError is its ValueError, Fatal the \<open>OverflowError\<close> it does not catch.\<close>

fun coerce_main_volume_db :: "pyval \<Rightarrow> rat outcome" where
  "coerce_main_volume_db (PyBool b) =
     Ret (max MIN_MAIN_VOLUME_DB (min MAX_MAIN_VOLUME_DB (if b then 1 else 0)))"
| "coerce_main_volume_db (PyInt i) =
     (if \<bar>i\<bar> < double_overflow then Ret (max MIN_MAIN_VOLUME_DB (min MAX_MAIN_VOLUME_DB (of_int i)))
      else Fatal)"
| "coerce_main_volume_db (PyFloat x) = Ret (max MIN_MAIN_VOLUME_DB (min MAX_MAIN_VOLUME_DB x))"
| "coerce_main_volume_db (PyStr (Some x)) = Ret (max MIN_MAIN_VOLUME_DB (min MAX_MAIN_VOLUME_DB x))"
| "coerce_main_volume_db _ = IoError"

lemma coerce_bounds: "coerce_main_volume_db v = Ret x \<Longrightarrow> -150 \<le> x \<and> x \<le> 0"
  by (induction v rule: coerce_main_volume_db.induct) (auto simp: camilla_constants split: if_splits)

text \<open>The retry of \<open>_call\<close>, after a first failure with no recent one on record.\<close>

definition retry_call ::
  "('w, 'y) cam_doors_scheme \<Rightarrow> ('w \<Rightarrow> 'a attempt \<times> 'w) \<Rightarrow> (('w, 'z) cam_scheme, 'a call) state" where
  "retry_call d fn = do {
     r \<leftarrow> await d fn;
     case r of
       AOk a \<Rightarrow> do { modify (\<lambda>s. s\<lparr>failed_at := None, abandon_logged := False\<rparr>); ret (CallOk a) }
     | ARejected \<Rightarrow> do {
         modify (\<lambda>s. s\<lparr>failed_at := None, abandon_logged := False\<rparr>);
         ret CallRejected
       }
     | AFailed \<Rightarrow> do {
         now \<leftarrow> peek (d_mono d);
         modify (\<lambda>s. s\<lparr>failed_at := Some now\<rparr>);
         ret CallUnavailable
       }
   }"

text \<open>\<open>CamillaController._call\<close>: the controller lock, an attempt, and at most one retry.\<close>

definition cam_call ::
  "('w, 'y) cam_doors_scheme \<Rightarrow> ('w \<Rightarrow> 'a attempt \<times> 'w) \<Rightarrow> (('w, 'z) cam_scheme, 'a call) state" where
  "cam_call d fn = do {
     yield d;
     started \<leftarrow> peek (d_mono d);
     r \<leftarrow> await d fn;
     case r of
       AOk a \<Rightarrow> do { modify (\<lambda>s. s\<lparr>failed_at := None, abandon_logged := False\<rparr>); ret (CallOk a) }
     | ARejected \<Rightarrow> retry_call d fn
     | AFailed \<Rightarrow> do {
         armed_at \<leftarrow> gets failed_at;
         if (case armed_at of None \<Rightarrow> False | Some t \<Rightarrow> started - t < CAMILLA_FAILURE_MEMORY_S)
         then do {
           now \<leftarrow> peek (d_mono d);
           modify (\<lambda>s. s\<lparr>failed_at := Some now, abandon_logged := True\<rparr>);
           ret CallUnavailable
         }
         else retry_call d fn
       }
   }"

section \<open>The fader methods\<close>

text \<open>A strict method raises what its call ended in; a best-effort one answers its fallback instead.\<close>

fun or_else :: "bool \<Rightarrow> 'b \<Rightarrow> ('a \<Rightarrow> 'b) \<Rightarrow> 'a call \<Rightarrow> 'b call" where
  "or_else best_effort fallback f (CallOk a) = CallOk (f a)"
| "or_else best_effort fallback f CallRejected = (if best_effort then CallOk fallback else CallRejected)"
| "or_else best_effort fallback f CallUnavailable =
     (if best_effort then CallOk fallback else CallUnavailable)"

definition get_volume_db ::
  "('w, 'y) cam_doors_scheme \<Rightarrow> bool \<Rightarrow> (('w, 'z) cam_scheme, rat option call) state" where
  "get_volume_db d best_effort = do {
     r \<leftarrow> cam_call d (d_main_volume d);
     ret (or_else best_effort None Some r)
   }"

definition get_volume_and_mute ::
  "('w, 'y) cam_doors_scheme \<Rightarrow> bool \<Rightarrow> (('w, 'z) cam_scheme, (rat \<times> bool) option call) state" where
  "get_volume_and_mute d best_effort = do {
     r \<leftarrow> cam_call d (d_volume_and_mute d);
     ret (or_else best_effort None Some r)
   }"

text \<open>
  \<open>set_volume_db\<close> of a float: the coercion of a float only clamps
  (\<open>coerce_main_volume_db (PyFloat db)\<close>), so its \<open>ValueError\<close> branch is not reached from here.
\<close>

definition set_volume_db ::
  "('w, 'y) cam_doors_scheme \<Rightarrow> rat \<Rightarrow> bool \<Rightarrow> (('w, 'z) cam_scheme, bool call) state" where
  "set_volume_db d db best_effort =
     (case coerce_main_volume_db (PyFloat db) of
        Ret target \<Rightarrow> do {
          r \<leftarrow> cam_call d (d_set_main_volume d target);
          emit (Fader target (r = CallOk ()));
          ret (or_else best_effort False (\<lambda>_. True) r)
        }
      | _ \<Rightarrow> ret (CallOk False))"

definition set_main_mute ::
  "('w, 'y) cam_doors_scheme \<Rightarrow> bool \<Rightarrow> bool \<Rightarrow> (('w, 'z) cam_scheme, bool call) state" where
  "set_main_mute d muted best_effort = do {
     r \<leftarrow> cam_call d (d_set_main_mute d muted);
     emit (MainMute muted (r = CallOk ()));
     ret (or_else best_effort False (\<lambda>_. True) r)
   }"

section \<open>The duck around a graph mutation\<close>

fun call_value :: "'a option call \<Rightarrow> 'a option" where
  "call_value (CallOk x) = x"
| "call_value _ = None"

text \<open>
  \<open>_release_graph_swap_duck\<close>. The canonical-target provider a process may have registered is a
  program (\<open>IoError\<close>: one of the errors the release tolerates). The result is None when an
  unexpected exception of the provider escapes.
\<close>

definition release_graph_swap_duck ::
  "('w, 'y) cam_doors_scheme \<Rightarrow> (('w, 'z) cam_scheme, rat outcome) state option \<Rightarrow> rat \<Rightarrow>
   (('w, 'z) cam_scheme, unit outcome) state" where
  "release_graph_swap_duck d provider before_db = do {
     current \<leftarrow> get_volume_db d True;
     reference \<leftarrow> (case provider of None \<Rightarrow> ret (Ret before_db) | Some p \<Rightarrow> p);
     case reference of
       Fatal \<Rightarrow> ret Fatal
     | IoError \<Rightarrow> do {
         set_volume_db d (duck_release_target_db before_db (call_value current)
           GRAPH_SWAP_DUCK_DB before_db) True;
         ret (Ret ())
       }
     | Ret reference_db \<Rightarrow> do {
         set_volume_db d (duck_release_target_db reference_db (call_value current)
           GRAPH_SWAP_DUCK_DB before_db) True;
         ret (Ret ())
       }
   }"

text \<open>
  \<open>_graph_mutation(source, duck=...)\<close> around a mutation \<open>body\<close>. \<open>NotEntered\<close>: the writer lock, the
  strict read or the strict duck raised and the mutation did not run. The release runs whatever the
  body ends in; \<open>ReleaseEscaped\<close>: it raised.
\<close>

datatype 'b bracket = Entered 'b | NotEntered | ReleaseEscaped

definition graph_mutation ::
  "('w, 'y) cam_doors_scheme \<Rightarrow> (('w, 'z) cam_scheme, rat outcome) state option \<Rightarrow> bool \<Rightarrow>
   (('w, 'z) cam_scheme, 'b) state \<Rightarrow> (('w, 'z) cam_scheme, 'b bracket) state" where
  "graph_mutation d provider duck body = do {
     admitted \<leftarrow> await d (d_graph_lock d);
     if \<not> admitted then ret NotEntered
     else if \<not> duck then do { r \<leftarrow> body; ret (Entered r) }
     else do {
       before \<leftarrow> get_volume_db d False;
       case before of
         CallOk before_db \<Rightarrow>
           (case before_db of
              None \<Rightarrow> do { r \<leftarrow> body; ret (Entered r) }
            | Some x \<Rightarrow>
                if x - GRAPH_SWAP_DUCK_DB \<le> MIN_MAIN_VOLUME_DB then do { r \<leftarrow> body; ret (Entered r) }
                else do {
                  ducked \<leftarrow> set_volume_db d (x - GRAPH_SWAP_DUCK_DB) False;
                  case ducked of
                    CallOk _ \<Rightarrow> do {
                      sleep_for d MAIN_VOLUME_RAMP_SETTLE_S;
                      r \<leftarrow> body;
                      released \<leftarrow> release_graph_swap_duck d provider x;
                      ret (if released = Fatal then ReleaseEscaped else Entered r)
                    }
                  | _ \<Rightarrow> ret NotEntered
                })
       | _ \<Rightarrow> ret NotEntered
     }
   }"

section \<open>What the fader programs touch\<close>

lemma keeps_case_attempt [keeps_intros]:
  "(\<And>a. x = AOk a \<Longrightarrow> keeps f (h a)) \<Longrightarrow> keeps f m \<Longrightarrow> keeps f n \<Longrightarrow>
   keeps f (case x of AOk a \<Rightarrow> h a | ARejected \<Rightarrow> m | AFailed \<Rightarrow> n)"
  by (simp split: attempt.split)

lemma keeps_case_call [keeps_intros]:
  "(\<And>a. x = CallOk a \<Longrightarrow> keeps f (h a)) \<Longrightarrow> keeps f m \<Longrightarrow> keeps f n \<Longrightarrow>
   keeps f (case x of CallOk a \<Rightarrow> h a | CallRejected \<Rightarrow> m | CallUnavailable \<Rightarrow> n)"
  by (simp split: call.split)

lemma emits_case_call [emits_intros]:
  "(\<And>a. x = CallOk a \<Longrightarrow> emits R (h a)) \<Longrightarrow> emits R m \<Longrightarrow> emits R n \<Longrightarrow>
   emits R (case x of CallOk a \<Rightarrow> h a | CallRejected \<Rightarrow> m | CallUnavailable \<Rightarrow> n)"
  by (simp split: call.split)

text \<open>\<open>cam_stable f\<close>: the component \<open>f\<close> reads nothing a fader program writes.\<close>

definition cam_stable :: "(('w, 'z) cam_scheme \<Rightarrow> 'f) \<Rightarrow> bool" where
  "cam_stable f \<longleftrightarrow> (\<forall>s w h t x b.
     f (s\<lparr>world := w\<rparr>) = f s \<and> f (s\<lparr>shared := h\<rparr>) = f s \<and> f (s\<lparr>trace := t\<rparr>) = f s \<and>
     f (s\<lparr>failed_at := x\<rparr>) = f s \<and> f (s\<lparr>abandon_logged := b\<rparr>) = f s)"

lemma keeps_await_stable: "cam_stable f \<Longrightarrow> keeps f (await d g)"
  by (simp add: keeps_def run_await cam_stable_def)

lemma keeps_emit_stable: "cam_stable f \<Longrightarrow> keeps f (emit e)"
  by (simp add: keeps_def cam_stable_def)

lemma keeps_cam_call:
  assumes "cam_stable f" shows "keeps f (cam_call d g)"
proof -
  have m: "keeps f (modify (\<lambda>s. s\<lparr>failed_at := x, abandon_logged := b\<rparr>))"
    "keeps f (modify (\<lambda>s. s\<lparr>failed_at := x\<rparr>))" for x b
    using assms by (simp_all add: keeps_def cam_stable_def)
  have "keeps f (retry_call d g)"
    unfolding retry_call_def by (intro keeps_intros m keeps_await_stable [OF assms])
  then show ?thesis
    unfolding cam_call_def by (intro keeps_intros m keeps_await_stable [OF assms])
qed

lemma silent_cam_call [keeps_intros]: "silent (cam_call d g)"
proof -
  have "silent (retry_call d g)"
    unfolding retry_call_def by (intro keeps_intros) simp_all
  then show ?thesis
    unfolding cam_call_def by (intro keeps_intros) simp_all
qed

lemma silent_get_volume_db [keeps_intros]: "silent (get_volume_db d b)"
  unfolding get_volume_db_def by (intro keeps_intros)

lemma silent_get_volume_and_mute [keeps_intros]: "silent (get_volume_and_mute d b)"
  unfolding get_volume_and_mute_def by (intro keeps_intros)

lemma keeps_get_volume_db: "cam_stable f \<Longrightarrow> keeps f (get_volume_db d b)"
  unfolding get_volume_db_def by (intro keeps_intros keeps_cam_call)

lemma keeps_get_volume_and_mute: "cam_stable f \<Longrightarrow> keeps f (get_volume_and_mute d b)"
  unfolding get_volume_and_mute_def by (intro keeps_intros keeps_cam_call)

lemma keeps_set_volume_db: "cam_stable f \<Longrightarrow> keeps f (set_volume_db d x b)"
  unfolding set_volume_db_def
  by (auto intro!: keeps_intros keeps_cam_call keeps_emit_stable)

lemma keeps_set_main_mute: "cam_stable f \<Longrightarrow> keeps f (set_main_mute d m b)"
  unfolding set_main_mute_def by (intro keeps_intros keeps_cam_call keeps_emit_stable)

lemmas keeps_cam =
  keeps_get_volume_db keeps_get_volume_and_mute keeps_set_volume_db keeps_set_main_mute
  keeps_await_stable keeps_emit_stable

section \<open>What the fader programs answer\<close>

abbreviation fader_clamp :: "rat \<Rightarrow> rat" where
  "fader_clamp x \<equiv> max MIN_MAIN_VOLUME_DB (min MAX_MAIN_VOLUME_DB x)"

lemma fader_clamp_bounds: "-150 \<le> fader_clamp x \<and> fader_clamp x \<le> 0"
  by (simp add: camilla_constants)

lemma or_else_accepted: "or_else True False (\<lambda>_. True) r = CallOk (r = CallOk ())"
  by (cases r) simp_all

lemma emits_call_then:
  "emits R (do { r \<leftarrow> cam_call d g; emit (e r); ret (h r) })"
  if "\<And>r. R (h r) [e r]"
proof -
  have "emits (\<lambda>_ es. es = []) (cam_call d g)"
    by (intro emits_silent keeps_intros) simp
  then show ?thesis
    by (rule emits_bind [where R' = "\<lambda>r b es. b = h r \<and> es = [e r]"]) (auto simp: emits_def that)
qed

text \<open>A setter adds one event, in the fader's range; best-effort, its answer is the event's.\<close>

lemma emits_set_volume_db:
  "emits (\<lambda>r es. \<exists>ok. r = CallOk ok \<and> es = [Fader (fader_clamp x) ok]) (set_volume_db d x True)"
  unfolding set_volume_db_def by (auto simp: or_else_accepted intro!: emits_call_then)

lemma emits_set_volume_db_strict:
  "emits (\<lambda>r es. es = [Fader (fader_clamp x) (r = CallOk True)] \<and> r \<noteq> CallOk False)
     (set_volume_db d x False)"
proof -
  have "or_else False False (\<lambda>_. True) r = CallOk True \<longleftrightarrow> r = CallOk ()"
    and "or_else False False (\<lambda>_. True) r \<noteq> CallOk False" for r
    by (cases r; simp)+
  then show ?thesis
    unfolding set_volume_db_def by (auto intro!: emits_call_then)
qed

lemma emits_set_main_mute:
  "emits (\<lambda>r es. \<exists>ok. r = CallOk ok \<and> es = [MainMute m ok]) (set_main_mute d m True)"
  unfolding set_main_mute_def by (auto simp: or_else_accepted intro!: emits_call_then)

section \<open>The call discipline\<close>

text \<open>Whether a first failure is within the failure memory.\<close>

definition recent_failure :: "('w, 'y) cam_doors_scheme \<Rightarrow> ('w, 'z) cam_scheme \<Rightarrow> bool" where
  "recent_failure d s \<longleftrightarrow>
     (case failed_at s of None \<Rightarrow> False
      | Some t \<Rightarrow> d_mono d (world s) - t < CAMILLA_FAILURE_MEMORY_S)"

definition call_memory_ok :: "('w, 'z) cam_scheme \<Rightarrow> bool" where
  "call_memory_ok s \<longleftrightarrow> (abandon_logged s \<longrightarrow> failed_at s \<noteq> None)"

text \<open>
  Every branch of a CamillaDSP call. One attempt when it succeeds, or when it fails while an
  earlier failure is less than a second old; exactly two otherwise, the second one's answer being the
  call's. The failure memory is set if and only if the call ended unavailable.
\<close>

theorem cam_call_discipline:
  fixes s :: "('w, 'z) cam_scheme" and d :: "('w, 'y) cam_doors_scheme"
  shows "let (r1, w1) = fn (world s); (r2, w2) = fn w1;
      once = (case r1 of AOk _ \<Rightarrow> True | ARejected \<Rightarrow> False | AFailed \<Rightarrow> recent_failure d s);
      (c, s') = run_state (cam_call d fn) s in
    world s' = (if once then w1 else w2) \<and>
    c = (case (if once then r1 else r2) of AOk a \<Rightarrow> CallOk a
         | ARejected \<Rightarrow> CallRejected | AFailed \<Rightarrow> CallUnavailable) \<and>
    (failed_at s' \<noteq> None \<longleftrightarrow> c = CallUnavailable) \<and>
    (call_memory_ok s \<longrightarrow> call_memory_ok s')"
proof -
  obtain r1 w1 where 1: "fn (world s) = (r1, w1)" by fastforce
  obtain r2 w2 where 2: "fn w1 = (r2, w2)" by fastforce
  show ?thesis
    using 1 2
    by (cases r1; cases r2; cases "failed_at s")
      (simp_all add: cam_call_def retry_call_def run_await Let_def recent_failure_def
        call_memory_ok_def)
qed

section \<open>The graph-swap duck\<close>

definition provider_returns ::
  "(('w, 'z) cam_scheme, rat outcome) state option \<Rightarrow> rat \<Rightarrow> bool" where
  "provider_returns provider x \<longleftrightarrow> (\<exists>p s. provider = Some p \<and> fst (run_state p s) = Ret x)"

text \<open>The references a release may use: the entry level, or what the provider answers.\<close>

definition release_reference ::
  "(('w, 'z) cam_scheme, rat outcome) state option \<Rightarrow> rat \<Rightarrow> rat \<Rightarrow> bool" where
  "release_reference provider entry x \<longleftrightarrow> x = entry \<or> provider_returns provider x"

definition release_trace ::
  "(('w, 'z) cam_scheme, rat outcome) state option \<Rightarrow> rat \<Rightarrow> unit outcome \<Rightarrow> event list \<Rightarrow> bool" where
  "release_trace provider entry r es \<longleftrightarrow>
     (if r = Fatal then es = []
      else \<exists>x y ok. es = [Fader y ok] \<and> release_reference provider entry x \<and> y \<le> fader_clamp x)"

lemma fader_clamp_mono: "x \<le> y \<Longrightarrow> fader_clamp x \<le> fader_clamp y"
  by (intro max.mono min.mono order_refl)

lemma emits_released:
  assumes "release_reference provider entry x"
  shows "emits (release_trace provider entry)
           (do { set_volume_db d (duck_release_target_db x c GRAPH_SWAP_DUCK_DB entry) True; ret (Ret ()) })"
    (is "emits _ (do { set_volume_db d ?t True; ret (Ret ()) })")
proof (rule emits_bind [OF emits_set_volume_db])
  show "emits (\<lambda>b es. b = Ret () \<and> es = []) (ret (Ret ()))"
    by (simp add: emits_def)
  have "fader_clamp ?t \<le> fader_clamp x"
    by (intro fader_clamp_mono duck_release_le)
  then show "release_trace provider entry b (es @ fs)"
    if "\<exists>ok. a = CallOk ok \<and> es = [Fader (fader_clamp ?t) ok]" and "b = Ret () \<and> fs = []"
    for a :: "bool call" and es b fs
    using that assms by (auto simp: release_trace_def)
qed

lemma emits_release:
  assumes "\<forall>p \<in> set_option provider. silent p"
  shows "emits (release_trace provider entry) (release_graph_swap_duck d provider entry)"
proof -
  let ?ref = "case provider of None \<Rightarrow> ret (Ret entry) | Some p \<Rightarrow> p"
  have ref: "emits (\<lambda>r es. es = [] \<and> (\<forall>x. r = Ret x \<longrightarrow> release_reference provider entry x)) ?ref"
    using assms
    by (auto simp: emits_def keeps_def release_reference_def provider_returns_def split: option.split)
  have rest: "emits (release_trace provider entry)
     (case r of Ret reference_db \<Rightarrow> do {
         set_volume_db d (duck_release_target_db reference_db c GRAPH_SWAP_DUCK_DB entry) True;
         ret (Ret ()) }
      | IoError \<Rightarrow> do {
         set_volume_db d (duck_release_target_db entry c GRAPH_SWAP_DUCK_DB entry) True;
         ret (Ret ()) }
      | Fatal \<Rightarrow> ret Fatal)"
    if "\<forall>x. r = Ret x \<longrightarrow> release_reference provider entry x" for r c
  proof (cases r)
    case (Ret x)
    then show ?thesis using that emits_released [of provider entry x] by simp
  next
    case IoError
    then show ?thesis using emits_released [of provider entry entry]
      by (simp add: release_reference_def)
  next
    case Fatal
    then show ?thesis by (simp add: emits_def release_trace_def)
  qed
  show ?thesis
    unfolding release_graph_swap_duck_def
  proof (rule emits_after_silent [OF silent_get_volume_db], rule emits_bind [OF ref])
    fix c r es
    assume "es = [] \<and> (\<forall>x. r = Ret x \<longrightarrow> release_reference provider entry x)"
    then show "emits (release_trace provider entry)
     (case r of Ret reference_db \<Rightarrow> do {
         set_volume_db d (duck_release_target_db reference_db (call_value c) GRAPH_SWAP_DUCK_DB entry) True;
         ret (Ret ()) }
      | IoError \<Rightarrow> do {
         set_volume_db d (duck_release_target_db entry (call_value c) GRAPH_SWAP_DUCK_DB entry) True;
         ret (Ret ()) }
      | Fatal \<Rightarrow> ret Fatal)"
      by (intro rest) blast
  qed simp
qed

definition bracket_trace ::
  "(('w, 'z) cam_scheme, rat outcome) state option \<Rightarrow> ('b \<Rightarrow> event list \<Rightarrow> bool) \<Rightarrow>
   'b bracket \<Rightarrow> event list \<Rightarrow> bool" where
  "bracket_trace provider B res es \<longleftrightarrow>
     (case res of
        NotEntered \<Rightarrow> es = [] \<or> (\<exists>t. es = [Fader t False])
      | Entered r \<Rightarrow> B r es \<or>
          (\<exists>x fs y ok ref. es = Fader (fader_clamp (x - 25)) True # fs @ [Fader y ok] \<and> B r fs \<and>
             release_reference provider x ref \<and> y \<le> fader_clamp ref)
      | ReleaseEscaped \<Rightarrow> (\<exists>x r fs. es = Fader (fader_clamp (x - 25)) True # fs \<and> B r fs))"

lemma emits_ducked_body:
  fixes body :: "(('w, 'z) cam_scheme, 'b) state"
  assumes provider: "\<forall>p \<in> set_option provider. silent p" and body: "emits B body"
  shows "emits (\<lambda>res es. bracket_trace provider B res (Fader (fader_clamp (x - 25)) True # es))
    (do { sleep_for d t; r \<leftarrow> body; released \<leftarrow> release_graph_swap_duck d provider x;
          ret (if released = Fatal then ReleaseEscaped else Entered r) })"
proof -
  let ?Q = "\<lambda>res es. bracket_trace provider B res (Fader (fader_clamp (x - 25)) True # es)"
  have rel: "emits (\<lambda>res fs. \<forall>es. B r es \<longrightarrow> ?Q res (es @ fs))
      (do { released \<leftarrow> release_graph_swap_duck d provider x;
            ret (if released = Fatal then ReleaseEscaped else Entered r) })" for r
    by (rule emits_bind [OF emits_release [OF provider],
          where R' = "\<lambda>a b es. b = (if a = Fatal then ReleaseEscaped else Entered r) \<and> es = []"])
      (auto simp: emits_def release_trace_def bracket_trace_def, metis)
  have "emits ?Q (do { r \<leftarrow> body; released \<leftarrow> release_graph_swap_duck d provider x;
      ret (if released = Fatal then ReleaseEscaped else Entered r) })"
    by (rule emits_bind [OF body rel]) blast
  then show ?thesis
    by (rule emits_bind [where R = "\<lambda>_ es. es = []" and R' = "\<lambda>_. ?Q", rotated])
      (auto simp: emits_def run_await)
qed


section \<open>A concrete CamillaDSP\<close>

text \<open>
  A world with a fader, a mute flag and a clock, and doors that obey: the concrete instance at which
  the theorems of this and the later theories are applied. Nobody else writes the shared state.
\<close>

record demo =
  dm_fader :: rat
  dm_mute :: bool
  dm_now :: rat

definition demo_cam_doors :: "demo cam_doors" where
  "demo_cam_doors =
    \<lparr>d_floor = -50, d_env = \<lambda>_ h. h, d_mono = dm_now, d_utc = dm_now,
     d_uuid = \<lambda>w. (''token'', w), d_sleep = \<lambda>t w. w\<lparr>dm_now := dm_now w + t\<rparr>,
     d_write_ok = \<lambda>w. (True, w),
     d_main_volume = \<lambda>w. (AOk (dm_fader w), w),
     d_volume_and_mute = \<lambda>w. (AOk (dm_fader w, dm_mute w), w),
     d_set_main_volume = \<lambda>x w. (AOk (), w\<lparr>dm_fader := x\<rparr>),
     d_set_main_mute = \<lambda>b w. (AOk (), w\<lparr>dm_mute := b\<rparr>),
     d_graph_lock = \<lambda>w. (True, w)\<rparr>"

definition demo_shared :: shared_state where
  "demo_shared = \<lparr>sh_file = FMissing, sh_voice = False,
     sh_gate = \<lparr>g_active = False, g_active_at = 0, g_lapse_logged = False\<rparr>\<rparr>"

definition demo_cam :: "demo cam" where
  "demo_cam = \<lparr>world = \<lparr>dm_fader = -20, dm_mute = False, dm_now = 0\<rparr>, shared = demo_shared,
     trace = [], failed_at = None, abandon_logged = False\<rparr>"

abbreviation no_provider :: "(demo cam, rat outcome) state option" where
  "no_provider \<equiv> None"


text \<open>Two failures in a row: the call is unavailable and remembers it.\<close>

lemma cam_call_discipline_witness:
  "let (c, s) = run_state (cam_call demo_cam_doors (\<lambda>w. (AFailed :: unit attempt, w))) demo_cam
   in c = CallUnavailable \<and> failed_at s \<noteq> None \<and> call_memory_ok s"
proof -
  have "call_memory_ok demo_cam" "recent_failure demo_cam_doors demo_cam = False"
    by (simp_all add: call_memory_ok_def recent_failure_def demo_cam_def)
  then show ?thesis
    using cam_call_discipline [of "\<lambda>w. (AFailed :: unit attempt, w)" demo_cam demo_cam_doors]
    by (auto simp: Let_def split: prod.splits)
qed

end
