(* ===== verification/Volume_Owner.thy ===== *)
theory Volume_Owner
  imports Camilla
begin

text \<open>
  \<open>VolumeOwner\<close> (\<open>jasper/audio_resources/volume_owner.py\<close>): the arbiter of the main fader. Claims
  are ranked \<open>HOUSEHOLD < SESSION_MEASUREMENT < COMMISSIONING\<close>; the highest one held is the level in
  effect. The write and read doors are injected, so every operation takes them as arguments; what the
  operations rely on about them is the locale \<open>fader_doors\<close>, interpreted on the carrier's doors in
  \<open>Volume_Carrier\<close>.

  Operations run under the owner's lock, so they do not interleave with each other. Cancellation of
  a task is not modelled; an unexpected exception of a door is \<open>DoorRaised\<close>.
\<close>

section \<open>Claims\<close>

datatype claim_kind = HOUSEHOLD | SESSION_MEASUREMENT | COMMISSIONING

fun LEVEL_RANK :: "claim_kind \<Rightarrow> nat" where
  "LEVEL_RANK HOUSEHOLD = 0"
| "LEVEL_RANK SESSION_MEASUREMENT = 1"
| "LEVEL_RANK COMMISSIONING = 2"

instantiation claim_kind :: linorder
begin

definition less_eq_claim_kind :: "claim_kind \<Rightarrow> claim_kind \<Rightarrow> bool" where
  "less_eq_claim_kind k l \<longleftrightarrow> LEVEL_RANK k \<le> LEVEL_RANK l"

definition less_claim_kind :: "claim_kind \<Rightarrow> claim_kind \<Rightarrow> bool" where
  "less_claim_kind k l \<longleftrightarrow> LEVEL_RANK k < LEVEL_RANK l"

instance
proof
  fix k l :: claim_kind
  show "k \<le> l \<Longrightarrow> l \<le> k \<Longrightarrow> k = l"
    by (cases k; cases l) (simp_all add: less_eq_claim_kind_def)
qed (auto simp: less_eq_claim_kind_def less_claim_kind_def)

end

record claim =
  kind_of :: claim_kind
  token_of :: nat
  claim_db :: rat

text \<open>The ledger \<open>_claims\<close> is a dict keyed by token, in insertion order: the list of its values.\<close>

definition ledger_get :: "nat \<Rightarrow> claim list \<Rightarrow> claim option" where
  "ledger_get t cs = find (\<lambda>c. token_of c = t) cs"

definition ledger_pop :: "nat \<Rightarrow> claim list \<Rightarrow> claim list" where
  "ledger_pop t cs = filter (\<lambda>c. token_of c \<noteq> t) cs"

definition ledger_put :: "claim \<Rightarrow> claim list \<Rightarrow> claim list" where
  "ledger_put h cs =
     (if ledger_get (token_of h) cs = None then cs @ [h]
      else map (\<lambda>c. if token_of c = token_of h then h else c) cs)"

text \<open>\<open>max(values, key=(rank, token))\<close>: the first of the greatest.\<close>

definition outranks :: "claim \<Rightarrow> claim \<Rightarrow> bool" where
  "outranks c b \<longleftrightarrow> LEVEL_RANK (kind_of b) < LEVEL_RANK (kind_of c) \<or>
     LEVEL_RANK (kind_of b) = LEVEL_RANK (kind_of c) \<and> token_of b < token_of c"

fun top_level_claim :: "claim list \<Rightarrow> claim option" where
  "top_level_claim [] = None"
| "top_level_claim (c # cs) =
     (case top_level_claim cs of None \<Rightarrow> Some c | Some t \<Rightarrow> if outranks t c then Some t else Some c)"

definition declared_level_db :: "claim list \<Rightarrow> rat option" where
  "declared_level_db cs = map_option claim_db (top_level_claim cs)"

definition holds :: "claim \<Rightarrow> claim list \<Rightarrow> bool" where
  "holds h cs \<longleftrightarrow> ledger_get (token_of h) cs = Some h"

section \<open>The owner's operations\<close>

record 'w owner = "'w cam" +
  claims :: "claim list"
  next_token :: nat

datatype owner_exn = Refused | Conflict | DoorRaised

type_synonym ('w, 'z) set_door = "rat \<Rightarrow> (('w, 'z) owner_scheme, pyval outcome) state"
type_synonym ('w, 'z) get_door = "(('w, 'z) owner_scheme, pyval outcome) state"

text \<open>\<open>next(self._tokens)\<close>.\<close>

definition take_token :: "(('w, 'z) owner_scheme, nat) state" where
  "take_token = do {
     t \<leftarrow> gets next_token;
     modify (\<lambda>s. s\<lparr>next_token := t + 1\<rparr>);
     ret t
   }"

definition update_claims :: "(claim list \<Rightarrow> claim list) \<Rightarrow> (('w, 'z) owner_scheme, unit) state" where
  "update_claims f = modify (\<lambda>s. s\<lparr>claims := f (claims s)\<rparr>)"

definition settle ::
  "('w, 'z) set_door \<Rightarrow> ('w, 'z) get_door \<Rightarrow> rat \<Rightarrow> (('w, 'z) owner_scheme, bool outcome) state" where
  "settle setf getf target = do {
     reading \<leftarrow> read_fader_db getf;
     case reading of
       Ret observed \<Rightarrow>
         if fader_matches observed target then ret (Ret True)
         else set_and_confirm_volume target setf getf
     | IoError \<Rightarrow> ret IoError
     | Fatal \<Rightarrow> ret Fatal
   }"

definition apply_level ::
  "('w, 'z) set_door \<Rightarrow> ('w, 'z) get_door \<Rightarrow> (('w, 'z) owner_scheme, bool outcome) state" where
  "apply_level setf getf = do {
     target \<leftarrow> gets (\<lambda>s. declared_level_db (claims s));
     case target of None \<Rightarrow> ret (Ret True) | Some t \<Rightarrow> settle setf getf t
   }"

definition establish ::
  "('w, 'z) set_door \<Rightarrow> ('w, 'z) get_door \<Rightarrow> claim \<Rightarrow> (('w, 'z) owner_scheme, bool outcome) state" where
  "establish setf getf handle = do {
     update_claims (ledger_put handle);
     top \<leftarrow> gets (\<lambda>s. top_level_claim (claims s));
     if top \<noteq> Some handle then ret (Ret True) else apply_level setf getf
   }"

text \<open>The errors of \<open>FADER_IO_ERRORS\<close> are swallowed; None of the claim stays.\<close>

definition unwind ::
  "('w, 'z) set_door \<Rightarrow> ('w, 'z) get_door \<Rightarrow> claim \<Rightarrow> (('w, 'z) owner_scheme, unit outcome) state" where
  "unwind setf getf handle = do {
     update_claims (ledger_pop (token_of handle));
     r \<leftarrow> apply_level setf getf;
     ret (if r = Fatal then Fatal else Ret ())
   }"

definition acquire_level ::
  "('w, 'y) cam_doors_scheme \<Rightarrow> ('w, 'z) set_door \<Rightarrow> ('w, 'z) get_door \<Rightarrow> claim_kind \<Rightarrow> pyval \<Rightarrow>
   (('w, 'z) owner_scheme, owner_exn + claim) state" where
  "acquire_level d setf getf k level =
     (if k = HOUSEHOLD then ret (Inl Refused)
      else case finite_float level of
        None \<Rightarrow> ret (Inl Refused)
      | Some target \<Rightarrow> do {
          yield d;
          held \<leftarrow> gets (\<lambda>s. list_ex (\<lambda>c. kind_of c = k) (claims s));
          if held then ret (Inl Conflict)
          else do {
            t \<leftarrow> take_token;
            let handle = \<lparr>kind_of = k, token_of = t, claim_db = target\<rparr>;
            taken \<leftarrow> establish setf getf handle;
            if taken = Ret True then ret (Inr handle)
            else do {
              u \<leftarrow> unwind setf getf handle;
              ret (Inl (if taken = Fatal \<or> u = Fatal then DoorRaised else Refused))
            }
          }
        })"

definition declare_household_level_db ::
  "('w, 'y) cam_doors_scheme \<Rightarrow> ('w, 'z) set_door \<Rightarrow> ('w, 'z) get_door \<Rightarrow> pyval \<Rightarrow>
   (('w, 'z) owner_scheme, owner_exn + bool) state" where
  "declare_household_level_db d setf getf level =
     (case finite_float level of
        None \<Rightarrow> ret (Inl Refused)
      | Some target \<Rightarrow> do {
          yield d;
          update_claims (filter (\<lambda>c. kind_of c \<noteq> HOUSEHOLD));
          t \<leftarrow> take_token;
          r \<leftarrow> establish setf getf \<lparr>kind_of = HOUSEHOLD, token_of = t, claim_db = target\<rparr>;
          ret (case r of Ret b \<Rightarrow> Inr b | _ \<Rightarrow> Inl DoorRaised)
        })"

definition relevel ::
  "('w, 'y) cam_doors_scheme \<Rightarrow> ('w, 'z) set_door \<Rightarrow> ('w, 'z) get_door \<Rightarrow> claim \<Rightarrow> pyval \<Rightarrow>
   (('w, 'z) owner_scheme, owner_exn + claim) state" where
  "relevel d setf getf handle level =
     (case finite_float level of
        None \<Rightarrow> ret (Inl Refused)
      | Some target \<Rightarrow> do {
          yield d;
          held \<leftarrow> gets (\<lambda>s. holds handle (claims s));
          if \<not> held then ret (Inl Refused)
          else do {
            update_claims (ledger_pop (token_of handle));
            t \<leftarrow> take_token;
            let moved = \<lparr>kind_of = kind_of handle, token_of = t, claim_db = target\<rparr>;
            established \<leftarrow> establish setf getf moved;
            if established = Ret True then ret (Inr moved)
            else do {
              update_claims (\<lambda>cs. ledger_put handle (ledger_pop (token_of moved) cs));
              ret (Inl (if established = Fatal then DoorRaised else Refused))
            }
          }
        })"

definition release ::
  "('w, 'y) cam_doors_scheme \<Rightarrow> ('w, 'z) set_door \<Rightarrow> ('w, 'z) get_door \<Rightarrow> claim \<Rightarrow>
   (('w, 'z) owner_scheme, unit outcome) state" where
  "release d setf getf handle = do {
     yield d;
     held \<leftarrow> gets (\<lambda>s. holds handle (claims s));
     if \<not> held then ret (Ret ())
     else do {
       update_claims (ledger_pop (token_of handle));
       reference \<leftarrow> gets (\<lambda>s. declared_level_db (claims s));
       case reference of
         None \<Rightarrow> do {
           observed \<leftarrow> read_fader_db getf;
           ret (if observed = Fatal then Fatal else Ret ())
         }
       | Some level \<Rightarrow> do {
           r \<leftarrow> settle setf getf level;
           ret (if r = Fatal then Fatal else Ret ())
         }
     }
   }"

text \<open>\<open>prove\<close>: the reading, but only when it agrees with a claim that is held and in effect.\<close>

definition prove_level ::
  "('w, 'y) cam_doors_scheme \<Rightarrow> ('w, 'z) get_door \<Rightarrow> claim \<Rightarrow>
   (('w, 'z) owner_scheme, rat option outcome) state" where
  "prove_level d getf handle = do {
     yield d;
     observed \<leftarrow> read_fader_db getf;
     cs \<leftarrow> gets claims;
     ret (case observed of
            Ret reading \<Rightarrow>
              if \<not> holds handle cs then Ret None
              else if top_level_claim cs \<noteq> Some handle then Ret None
              else if \<not> fader_matches reading (claim_db handle) then Ret None
              else Ret reading
          | IoError \<Rightarrow> IoError
          | Fatal \<Rightarrow> Fatal)
   }"

section \<open>The ledger and its specification\<close>

definition ledger_ok :: "claim list \<Rightarrow> nat \<Rightarrow> bool" where
  "ledger_ok cs n \<longleftrightarrow> distinct (map token_of cs) \<and> distinct (map kind_of cs) \<and> (\<forall>c \<in> set cs. token_of c < n)"

abbreviation ledger_inv :: "('w, 'z) owner_scheme \<Rightarrow> bool" where
  "ledger_inv s \<equiv> ledger_ok (claims s) (next_token s)"

text \<open>The abstract ledger: at most one level per kind; the highest kind present is in effect.\<close>

definition level_of :: "claim list \<Rightarrow> claim_kind \<rightharpoonup> rat" where
  "level_of cs k = map_option claim_db (find (\<lambda>c. kind_of c = k) cs)"

definition level_in_effect :: "(claim_kind \<rightharpoonup> rat) \<Rightarrow> rat option" where
  "level_in_effect m =
     (case m COMMISSIONING of Some x \<Rightarrow> Some x
      | None \<Rightarrow> (case m SESSION_MEASUREMENT of Some x \<Rightarrow> Some x | None \<Rightarrow> m HOUSEHOLD))"

lemma find_kind:
  "distinct (map kind_of cs) \<Longrightarrow> find (\<lambda>c. kind_of c = k) cs = Some c \<longleftrightarrow> c \<in> set cs \<and> kind_of c = k"
  by (induction cs) (auto simp: image_iff)

lemma ledger_get_Some:
  "distinct (map token_of cs) \<Longrightarrow> ledger_get t cs = Some c \<longleftrightarrow> c \<in> set cs \<and> token_of c = t"
  by (induction cs) (auto simp: ledger_get_def image_iff)

lemma ledger_get_None: "ledger_get t cs = None \<longleftrightarrow> (\<forall>c \<in> set cs. token_of c \<noteq> t)"
  by (auto simp: ledger_get_def find_None_iff)

lemma holds_iff: "ledger_ok cs n \<Longrightarrow> holds h cs \<longleftrightarrow> h \<in> set cs"
  by (auto simp: holds_def ledger_ok_def ledger_get_Some)

lemma ledger_put_fresh: "ledger_ok cs n \<Longrightarrow> n \<le> token_of h \<Longrightarrow> ledger_put h cs = cs @ [h]"
  by (auto simp: ledger_put_def ledger_get_None ledger_ok_def)

lemma ledger_pop_ok: "ledger_ok cs n \<Longrightarrow> ledger_ok (ledger_pop t cs) n"
  by (auto simp: ledger_ok_def ledger_pop_def distinct_map_filter)

lemma ledger_filter_ok: "ledger_ok cs n \<Longrightarrow> ledger_ok (filter P cs) n"
  by (auto simp: ledger_ok_def distinct_map_filter)

lemma ledger_snoc_ok:
  "ledger_ok cs n \<Longrightarrow> token_of h = n \<Longrightarrow> \<forall>c \<in> set cs. kind_of c \<noteq> kind_of h \<Longrightarrow> ledger_ok (cs @ [h]) (n + 1)"
  by (fastforce simp: ledger_ok_def)

lemma ledger_ok_mono: "ledger_ok cs n \<Longrightarrow> n \<le> m \<Longrightarrow> ledger_ok cs m"
  by (auto simp: ledger_ok_def)

lemma outranks_trans: "outranks a b \<Longrightarrow> outranks b c \<Longrightarrow> outranks a c"
  by (auto simp: outranks_def)

lemma outranks_total: "token_of a \<noteq> token_of b \<Longrightarrow> outranks a b \<or> outranks b a"
  by (auto simp: outranks_def)

lemma top_level_claim_in: "top_level_claim cs = Some t \<Longrightarrow> t \<in> set cs"
  by (induction cs arbitrary: t) (auto split: option.splits if_splits)

lemma top_level_claim_None [simp]: "top_level_claim cs = None \<longleftrightarrow> cs = []"
  by (cases cs) (auto split: option.splits)

lemma top_level_claim_top:
  "distinct (map token_of cs) \<Longrightarrow> top_level_claim cs = Some t \<Longrightarrow> c \<in> set cs \<Longrightarrow> c \<noteq> t \<Longrightarrow> outranks t c"
proof (induction cs arbitrary: t c)
  case (Cons b cs)
  show ?case
  proof (cases "top_level_claim cs")
    case None
    with Cons.prems show ?thesis by simp
  next
    case (Some u)
    have u: "u \<in> set cs" using Some by (rule top_level_claim_in)
    then have ub: "token_of u \<noteq> token_of b" using Cons.prems(1) by (metis distinct.simps(2) image_eqI list.set_map list.simps(9))
    have IH: "c \<in> set cs \<Longrightarrow> c \<noteq> u \<Longrightarrow> outranks u c" for c
      using Cons.IH [OF _ Some] Cons.prems(1) by simp
    show ?thesis
      using Cons.prems(2-4) Some IH outranks_trans [of t u c] outranks_total [OF ub]
      by (auto split: if_splits)
  qed
qed simp

lemma top_level_kind:
  assumes "ledger_ok cs n" "top_level_claim cs = Some t" "c \<in> set cs"
  shows "LEVEL_RANK (kind_of c) \<le> LEVEL_RANK (kind_of t)"
  using top_level_claim_top [of cs t c] assms
  by (cases "c = t") (auto simp: ledger_ok_def outranks_def)

lemma level_of_Some:
  "ledger_ok cs n \<Longrightarrow> level_of cs k = Some x \<longleftrightarrow> (\<exists>c \<in> set cs. kind_of c = k \<and> claim_db c = x)"
  by (auto simp: level_of_def find_kind ledger_ok_def)

lemma level_of_None: "level_of cs k = None \<longleftrightarrow> (\<forall>c \<in> set cs. kind_of c \<noteq> k)"
  by (auto simp: level_of_def find_None_iff)

lemma declared_level_spec:
  assumes ok: "ledger_ok cs n"
  shows "declared_level_db cs = level_in_effect (level_of cs)"
proof (cases "top_level_claim cs")
  case None
  then show ?thesis by (simp add: declared_level_db_def level_in_effect_def level_of_def)
next
  case (Some t)
  then have t: "t \<in> set cs" by (rule top_level_claim_in)
  then have here: "level_of cs (kind_of t) = Some (claim_db t)"
    using level_of_Some [OF ok] by blast
  have above: "level_of cs k = None" if "LEVEL_RANK (kind_of t) < LEVEL_RANK k" for k
    using top_level_kind [OF ok Some] that by (fastforce simp: level_of_None)
  show ?thesis
    using here above [of SESSION_MEASUREMENT] above [of COMMISSIONING] Some
    by (cases "kind_of t") (simp_all add: declared_level_db_def level_in_effect_def)
qed

lemma find_snoc: "find P (xs @ [x]) = (case find P xs of None \<Rightarrow> if P x then Some x else None | Some y \<Rightarrow> Some y)"
  by (induction xs) auto

lemma find_kept: "(\<And>x. P x \<Longrightarrow> Q x) \<Longrightarrow> find P (filter Q xs) = find P xs"
  by (induction xs) auto

lemma level_of_append:
  assumes "\<forall>c \<in> set cs. kind_of c \<noteq> kind_of h"
  shows "level_of (cs @ [h]) = (level_of cs)(kind_of h \<mapsto> claim_db h)"
proof -
  have "find (\<lambda>c. kind_of c = kind_of h) cs = None"
    using assms by (auto simp: find_None_iff)
  then show ?thesis
    by (auto simp: level_of_def fun_eq_iff find_snoc split: option.split)
qed

lemma level_of_drop_kind: "level_of (filter (\<lambda>c. kind_of c \<noteq> k) cs) = (level_of cs)(k := None)"
proof
  fix l
  show "level_of (filter (\<lambda>c. kind_of c \<noteq> k) cs) l = ((level_of cs)(k := None)) l"
    by (cases "l = k") (auto simp: level_of_None, simp add: level_of_def find_kept)
qed

lemma ledger_pop_drop_kind:
  assumes "ledger_ok cs n" and "h \<in> set cs"
  shows "ledger_pop (token_of h) cs = filter (\<lambda>c. kind_of c \<noteq> kind_of h) cs"
proof -
  have "token_of c = token_of h \<longleftrightarrow> kind_of c = kind_of h" if "c \<in> set cs" for c
    using assms that by (auto simp: ledger_ok_def distinct_map inj_on_def)
  then show ?thesis by (auto simp: ledger_pop_def intro: filter_cong)
qed

lemma level_of_pop:
  "ledger_ok cs n \<Longrightarrow> h \<in> set cs \<Longrightarrow> level_of (ledger_pop (token_of h) cs) = (level_of cs)(kind_of h := None)"
  by (simp add: ledger_pop_drop_kind level_of_drop_kind)

lemma ledger_pop_last: "ledger_ok cs n \<Longrightarrow> n \<le> token_of h \<Longrightarrow> ledger_pop (token_of h) (cs @ [h]) = cs"
  by (auto simp: ledger_pop_def ledger_ok_def filter_id_conv)

text \<open>An acquire either seats one new claim of its kind or leaves the ledger as it was.\<close>

definition acquired :: "claim_kind \<Rightarrow> pyval \<Rightarrow> claim list \<Rightarrow> owner_exn + claim \<Rightarrow> claim list \<Rightarrow> bool" where
  "acquired k lvl cs r cs' \<longleftrightarrow>
     (case r of
        Inl e \<Rightarrow> cs' = cs
      | Inr h \<Rightarrow> kind_of h = k \<and> finite_float lvl = Some (claim_db h) \<and> level_of cs k = None \<and>
          cs' = cs @ [h])"

definition relevelled :: "claim \<Rightarrow> pyval \<Rightarrow> claim list \<Rightarrow> owner_exn + claim \<Rightarrow> claim list \<Rightarrow> bool" where
  "relevelled h lvl cs r cs' \<longleftrightarrow>
     (case r of
        Inl e \<Rightarrow> level_of cs' = level_of cs \<and> set cs' = set cs
      | Inr m \<Rightarrow> h \<in> set cs \<and> m \<in> set cs' \<and> kind_of m = kind_of h \<and> finite_float lvl = Some (claim_db m) \<and>
          level_of cs' = (level_of cs)(kind_of h \<mapsto> claim_db m))"

section \<open>What the owner relies on about its doors\<close>

text \<open>The doors move the fader and read it; they never touch the ledger.\<close>

locale fader_doors =
  fixes setf :: "('w, 'z) set_door" and getf :: "('w, 'z) get_door"
  assumes set_claims: "keeps claims (setf x)" and set_token: "keeps next_token (setf x)"
    and get_claims: "keeps claims getf" and get_token: "keeps next_token getf"
begin

lemma keeps_settle: "keeps claims (settle setf getf t)" "keeps next_token (settle setf getf t)"
  unfolding settle_def
  by (intro keeps_intros set_claims get_claims set_token get_token)+

lemma keeps_apply: "keeps claims (apply_level setf getf)" "keeps next_token (apply_level setf getf)"
  unfolding apply_level_def by (intro keeps_intros keeps_settle)+

lemmas ledger_kept [simp] = keeps_settle [THEN keeps_snd] keeps_apply [THEN keeps_snd]

lemma wp_establish:
  "wp (establish setf getf h)
     (\<lambda>r s'. claims s' = ledger_put h (claims s) \<and> next_token s' = next_token s) s"
  by (simp add: establish_def update_claims_def wp_simps) (simp add: wp_def)

lemma wp_unwind:
  "wp (unwind setf getf h)
     (\<lambda>r s'. claims s' = ledger_pop (token_of h) (claims s) \<and> next_token s' = next_token s) s"
  by (simp add: unwind_def update_claims_def wp_simps) (simp add: wp_def)

end

context fader_doors
begin

lemma wp_acquire:
  assumes ok: "ledger_inv s"
  shows "wp (acquire_level d setf getf k lvl)
    (\<lambda>r s'. ledger_inv s' \<and> acquired k lvl (claims s) r (claims s')) s"
proof (cases "k = HOUSEHOLD \<or> finite_float lvl = None \<or> list_ex (\<lambda>c. kind_of c = k) (claims s)")
  case True
  then show ?thesis
    using ok by (auto simp: acquire_level_def acquired_def wp_simps split: option.split)
next
  case False
  then obtain x where x: "finite_float lvl = Some x" and k: "k \<noteq> HOUSEHOLD"
    and new: "\<forall>c \<in> set (claims s). kind_of c \<noteq> k"
    by (auto simp: list_ex_iff)
  define h where "h = \<lparr>kind_of = k, token_of = next_token s, claim_db = x\<rparr>"
  have put: "ledger_put h (claims s) = claims s @ [h]"
    by (rule ledger_put_fresh [OF ok]) (simp add: h_def)
  have pop: "ledger_pop (next_token s) (claims s @ [h]) = claims s"
    using ledger_pop_last [OF ok, of h] by (simp add: h_def)
  have ok': "ledger_ok (claims s @ [h]) (Suc (next_token s))"
    using ledger_snoc_ok [OF ok, of h] new by (simp add: h_def)
  have put': "ledger_put \<lparr>kind_of = k, token_of = next_token s, claim_db = x\<rparr> (claims s) = claims s @ [h]"
    using put by (simp add: h_def)
  show ?thesis
    unfolding acquire_level_def take_token_def
    apply (simp add: wp_simps k x list_ex_iff new Let_def)
    apply (rule wp_mono [OF wp_establish])
    apply (simp add: put' pop wp_simps)
    apply (auto simp: acquired_def ok' x k new level_of_None)
    subgoal using ok' by (simp add: h_def)
    subgoal
      apply (rule wp_mono [OF wp_unwind])
      using ok by (auto simp: pop wp_simps acquired_def ledger_ok_mono)
    done
qed

end

context fader_doors
begin

text \<open>Seating a claim whose kind is free, under a fresh token.\<close>

lemma wp_seat:
  assumes ok: "ledger_ok (claims s) n" and new: "\<forall>c \<in> set (claims s). kind_of c \<noteq> k"
    and fresh: "next_token s = Suc n"
  shows "wp (establish setf getf \<lparr>kind_of = k, token_of = n, claim_db = x\<rparr>)
    (\<lambda>r s'. ledger_inv s' \<and> next_token s' = Suc n \<and>
       claims s' = claims s @ [\<lparr>kind_of = k, token_of = n, claim_db = x\<rparr>] \<and>
       level_of (claims s') = (level_of (claims s))(k \<mapsto> x)) s"
proof -
  let ?h = "\<lparr>kind_of = k, token_of = n, claim_db = x\<rparr>"
  have put: "ledger_put ?h (claims s) = claims s @ [?h]"
    by (rule ledger_put_fresh [OF ok]) simp
  have "ledger_ok (claims s @ [?h]) (Suc n)"
    using ledger_snoc_ok [OF ok, of ?h] new by simp
  moreover have "level_of (claims s @ [?h]) = (level_of (claims s))(k \<mapsto> x)"
    using level_of_append [of "claims s" ?h] new by simp
  ultimately show ?thesis
    by (intro wp_mono [OF wp_establish]) (simp add: put fresh)
qed

lemma wp_declare:
  assumes ok: "ledger_inv s"
  shows "wp (declare_household_level_db d setf getf lvl)
    (\<lambda>r s'. ledger_inv s' \<and>
       (case finite_float lvl of
          None \<Rightarrow> r = Inl Refused \<and> claims s' = claims s
        | Some x \<Rightarrow> (r = Inl DoorRaised \<or> (\<exists>b. r = Inr b)) \<and>
            level_of (claims s') = (level_of (claims s))(HOUSEHOLD \<mapsto> x))) s"
proof (cases "finite_float lvl")
  case None
  then show ?thesis using ok by (simp add: declare_household_level_db_def wp_simps)
next
  case (Some x)
  show ?thesis
    unfolding declare_household_level_db_def take_token_def update_claims_def
    apply (simp add: wp_simps Some)
    apply (rule wp_mono [OF wp_seat])
    using ok by (auto simp: ledger_filter_ok level_of_drop_kind wp_simps split: outcome.splits)
qed

lemma wp_relevel:
  assumes ok: "ledger_inv s"
  shows "wp (relevel d setf getf h lvl)
    (\<lambda>r s'. ledger_inv s' \<and> relevelled h lvl (claims s) r (claims s')) s"
proof (cases "finite_float lvl = None \<or> \<not> holds h (claims s)")
  case True
  then show ?thesis
    using ok by (auto simp: relevel_def relevelled_def wp_simps split: option.split)
next
  case False
  then obtain x where x: "finite_float lvl = Some x" and h: "h \<in> set (claims s)"
    and held: "holds h (claims s)"
    using holds_iff [OF ok] by auto
  let ?rest = "ledger_pop (token_of h) (claims s)"
  let ?m = "\<lparr>kind_of = kind_of h, token_of = next_token s, claim_db = x\<rparr>"
  have rest: "ledger_ok ?rest (next_token s)" "\<forall>c \<in> set ?rest. kind_of c \<noteq> kind_of h"
    using ledger_pop_ok [OF ok, of "token_of h"] ledger_pop_drop_kind [OF ok h] by simp_all
  have gone: "\<forall>c \<in> set ?rest. token_of c \<noteq> token_of h"
    by (simp add: ledger_pop_def)
  have undo: "ledger_put h (ledger_pop (next_token s) (?rest @ [?m])) = ?rest @ [h]"
    using ledger_pop_last [OF rest(1), of ?m] gone by (simp add: ledger_put_def ledger_get_None)
  have ok': "ledger_ok (?rest @ [h]) (Suc (next_token s))"
    using rest gone ok h by (force simp: ledger_ok_def)
  have lev: "level_of (?rest @ [h]) = level_of (claims s)"
  proof -
    have "level_of (claims s) (kind_of h) = Some (claim_db h)"
      using level_of_Some [OF ok] h by blast
    then show ?thesis
      using level_of_append [OF rest(2)] level_of_pop [OF ok h] by (auto simp: fun_eq_iff)
  qed
  have same: "set (?rest @ [h]) = set (claims s)"
    using ok h by (auto simp: ledger_pop_def ledger_ok_def distinct_map inj_on_def)
  show ?thesis
    unfolding relevel_def take_token_def update_claims_def
    apply (simp add: wp_simps x held Let_def)
    apply (rule wp_mono [OF wp_seat])
    using rest undo ok' lev same h level_of_pop [OF ok h]
    by (auto simp: relevelled_def x wp_simps)
qed

lemma wp_release:
  assumes ok: "ledger_inv s"
  shows "wp (release d setf getf h)
    (\<lambda>r s'. ledger_inv s' \<and>
       claims s' = (if h \<in> set (claims s) then ledger_pop (token_of h) (claims s) else claims s)) s"
  using ok keeps_read_fader [OF get_claims] keeps_read_fader [OF get_token]
  by (auto simp: release_def update_claims_def wp_simps holds_iff [OF ok] ledger_pop_ok
      split: option.split)
    (auto simp: wp_def ledger_pop_ok keeps_def)

end

section \<open>A claim in effect was read back\<close>

text \<open>The last thing a run did was a reading that agrees with \<open>t\<close>.\<close>

definition confirmed :: "('w, 'z) get_door \<Rightarrow> rat \<Rightarrow> ('w, 'z) owner_scheme \<Rightarrow> bool" where
  "confirmed getf t s' \<longleftrightarrow>
     (\<exists>s1 v y. run_state getf s1 = (Ret v, s') \<and> usable_reading v = Ret (Some y) \<and> \<bar>y - t\<bar> \<le> 1 / 20)"

lemma read_fader_Some:
  "run_state (read_fader_db getf) s = (Ret (Some y), s') \<Longrightarrow>
   \<exists>v. run_state getf s = (Ret v, s') \<and> usable_reading v = Ret (Some y)"
  by (auto simp: read_fader_db_def split: prod.splits outcome.splits)

lemma wp_settle: "wp (settle setf getf t) (\<lambda>r s'. r = Ret True \<longrightarrow> confirmed getf t s') s"
proof (rule wpI, rule impI)
  fix a s'
  assume run: "run_state (settle setf getf t) s = (a, s')" and "a = Ret True"
  then show "confirmed getf t s'"
    using read_fader_Some [of getf s] set_and_confirm_True [of t setf getf]
    by (auto simp: settle_def confirmed_def fader_matches_iff split: prod.splits outcome.splits if_splits)
      blast+
qed

lemma wp_establish_confirmed:
  "wp (establish setf getf h)
     (\<lambda>r s'. r = Ret True \<longrightarrow>
        top_level_claim (ledger_put h (claims s)) \<noteq> Some h \<or> confirmed getf (claim_db h) s') s"
  by (auto simp: establish_def update_claims_def apply_level_def wp_simps declared_level_db_def
      intro: wp_mono [OF wp_settle])

text \<open>A claim outranked by another is recorded and nothing is written.\<close>

lemma establish_outranked:
  assumes "top_level_claim (ledger_put h (claims s)) \<noteq> Some h"
  shows "run_state (establish setf getf h) s = (Ret True, s\<lparr>claims := ledger_put h (claims s)\<rparr>)"
  using assms by (simp add: establish_def update_claims_def)

lemma prove_level_Some:
  assumes "run_state (prove_level d getf h) s = (Ret (Some y), s')"
  shows "holds h (claims s') \<and> top_level_claim (claims s') = Some h \<and> \<bar>y - claim_db h\<bar> \<le> 1 / 20 \<and>
    confirmed getf (claim_db h) s'"
  using assms read_fader_Some [of getf]
  by (auto simp: prove_level_def fader_matches_iff confirmed_def
      split: prod.splits outcome.splits if_splits) (metis fst_conv)

lemma usable_reading_IoError [simp]: "usable_reading v \<noteq> IoError"
  by (induction v rule: usable_reading.induct) auto

lemma usable_reading_answers: "usable_reading v \<noteq> Fatal \<Longrightarrow> \<exists>x. usable_reading v = Ret x"
  by (cases "usable_reading v") simp_all

text \<open>Doors that report failure instead of raising, as the owner's contract asks.\<close>

locale reporting_doors = fader_doors setf getf
  for setf :: "('w, 'z) set_door" and getf :: "('w, 'z) get_door" +
  assumes set_reports: "wp (setf x) (\<lambda>r _. r \<noteq> Fatal) s"
    and get_reports: "wp getf (\<lambda>r _. r \<noteq> Fatal \<and> (\<forall>v. r = Ret v \<longrightarrow> usable_reading v \<noteq> Fatal)) s"
begin

lemma read_answers: "wp (read_fader_db getf) (\<lambda>r _. \<exists>x. r = Ret x) s"
  unfolding read_fader_db_def wp_simps
  by (rule wp_mono [OF get_reports]) (auto split: outcome.splits intro: usable_reading_answers)

lemma set_and_confirm_answers: "wp (set_and_confirm_volume t setf getf) (\<lambda>r _. \<exists>b. r = Ret b) s"
  unfolding set_and_confirm_volume_def wp_simps
  by (rule wp_mono [OF set_reports])
    (auto simp: wp_simps ex_bool_eq split: outcome.splits intro!: wp_mono [OF get_reports])

lemma settle_answers: "wp (settle setf getf t) (\<lambda>r _. \<exists>b. r = Ret b) s"
  unfolding settle_def wp_simps
  by (rule wp_mono [OF read_answers]) (auto simp: wp_simps set_and_confirm_answers)

lemma establish_answers: "wp (establish setf getf h) (\<lambda>r _. \<exists>b. r = Ret b) s"
  by (auto simp: establish_def apply_level_def update_claims_def wp_simps settle_answers
      split: option.splits)

lemma declare_answers:
  "finite_float lvl \<noteq> None \<Longrightarrow>
   wp (declare_household_level_db d setf getf lvl) (\<lambda>r _. \<exists>b. r = Inr b) s"
  by (auto simp: declare_household_level_db_def take_token_def update_claims_def wp_simps
      intro!: wp_mono [OF establish_answers])

end

end
