(* ===== verification/Volume_Persistence.thy ===== *)
theory Volume_Persistence
  imports Volume_Owner
begin

text \<open>
  \<open>VolumePersistence\<close> (\<open>jasper/service_state/volume_persistence.py\<close>) as an object: the in-memory copy
  of the record, \<open>load\<close>, the fresh read-modify-write under the state-file lock, and the three saves.

  The file formats are \<open>Volume_File\<close>. A file that makes \<open>load\<close> raise (\<open>load_file = Fatal\<close>, analysed
  there) is outside the scope of the programs from here on: \<open>load\<close> then answers None here. Failing to
  take a lock file is not modelled.
\<close>

section \<open>State and operations\<close>

record 'w pers = "'w owner" +
  mem_db :: "rat option"
  mem_level :: "int option"
  mem_last_used :: "rat option"
  mem_pre_mute :: "int option"
  mem_token :: "string option"

definition remember :: "volume_record \<Rightarrow> ('w, 'z) pers_scheme \<Rightarrow> ('w, 'z) pers_scheme" where
  "remember r s = s\<lparr>mem_db := Some (main_volume_db r), mem_level := listening_level r,
     mem_last_used := last_used_at r, mem_pre_mute := pre_mute_level r, mem_token := mute_token r\<rparr>"

definition load :: "('w, 'y) doors_scheme \<Rightarrow> (('w, 'z) pers_scheme, volume_record option) state" where
  "load d = do {
     now \<leftarrow> peek (d_utc d);
     f \<leftarrow> gets (\<lambda>s. sh_file (shared s));
     case load_file now f of
       Ret r \<Rightarrow> (case r of
           None \<Rightarrow> ret None
         | Some rec \<Rightarrow> do { modify (remember rec); ret (Some rec) })
     | IoError \<Rightarrow> ret None
     | Fatal \<Rightarrow> ret None
   }"

text \<open>
  \<open>_state_update\<close>: the state-file lock is taken (other daemons may write before it is), then the
  record is read afresh. No save nests in another.
\<close>

definition state_update :: "('w, 'y) doors_scheme \<Rightarrow> (('w, 'z) pers_scheme, unit) state" where
  "state_update d = do { yield d; _ \<leftarrow> load d; ret () }"

definition write_full :: "('w, 'y) doors_scheme \<Rightarrow> (('w, 'z) pers_scheme, unit) state" where
  "write_full d = do {
     now \<leftarrow> peek (d_utc d);
     s \<leftarrow> gets id;
     case mem_db s of
       None \<Rightarrow> ret ()
     | Some db \<Rightarrow> do {
         let payload = write_payload now db (mem_level s) (mem_last_used s) (mem_pre_mute s) (mem_token s);
         ok \<leftarrow> sync (d_write_ok d);
         onlyif ok (do {
           modify (\<lambda>s. s\<lparr>shared := (shared s)\<lparr>sh_file := FObject payload\<rparr>\<rparr>);
           emit (Saved payload)
         })
       }
   }"

definition save_now :: "('w, 'y) doors_scheme \<Rightarrow> rat \<Rightarrow> (('w, 'z) pers_scheme, unit) state" where
  "save_now d db = do {
     state_update d;
     modify (\<lambda>s. s\<lparr>mem_db := Some db\<rparr>);
     write_full d
   }"

text \<open>IoError: the \<open>ValueError\<close> of a token that is empty or longer than 128 characters.\<close>

definition save_mute_state ::
  "('w, 'y) doors_scheme \<Rightarrow> int option \<Rightarrow> string option \<Rightarrow> (('w, 'z) pers_scheme, unit outcome) state" where
  "save_mute_state d level token = do {
     state_update d;
     let token' = (if level = None then None else token);
     if level \<noteq> None \<and> (case token of None \<Rightarrow> False | Some t \<Rightarrow> t = [] \<or> 128 < length t)
     then ret IoError
     else do {
       modify (\<lambda>s. s\<lparr>mem_pre_mute := map_option (\<lambda>l. max 0 (min 100 l)) level, mem_token := token'\<rparr>);
       s \<leftarrow> gets id;
       if mem_db s = None then ret (Ret ())
       else do { write_full d; ret (Ret ()) }
     }
   }"

definition save_listening_level ::
  "('w, 'y) doors_scheme \<Rightarrow> int \<Rightarrow> bool \<Rightarrow> (('w, 'z) pers_scheme, unit) state" where
  "save_listening_level d percent mark_user_change = do {
     let clamped = max 0 (min 100 percent);
     state_update d;
     modify (\<lambda>s. s\<lparr>mem_level := Some clamped\<rparr>);
     now \<leftarrow> peek (d_utc d);
     onlyif mark_user_change (modify (\<lambda>s. s\<lparr>mem_last_used := Some now\<rparr>));
     s \<leftarrow> gets id;
     onlyif (mem_db s = None) (modify (\<lambda>s. s\<lparr>mem_db := Some (level_db (d_floor d) clamped)\<rparr>));
     write_full d
   }"

section \<open>The memory invariant\<close>

definition memory_inv :: "('w, 'z) pers_scheme \<Rightarrow> bool" where
  "memory_inv s \<longleftrightarrow>
     memory_ok (case mem_db s of None \<Rightarrow> 0 | Some db \<Rightarrow> db) (mem_level s) (mem_pre_mute s) (mem_token s)"

lemma memory_inv_simps [simp]:
  "memory_inv (s\<lparr>world := w\<rparr>) = memory_inv s" "memory_inv (s\<lparr>shared := h\<rparr>) = memory_inv s"
  "memory_inv (s\<lparr>trace := t\<rparr>) = memory_inv s" "memory_inv (s\<lparr>mem_last_used := u\<rparr>) = memory_inv s"
  by (simp_all add: memory_inv_def)

lemma memory_inv_remember: "record_ok r \<Longrightarrow> memory_inv (remember r s)"
  by (simp add: memory_inv_def remember_def record_ok_def memory_ok_def)

lemma trace_remember [simp]: "trace (remember r s) = trace s"
  by (simp add: remember_def)

text \<open>What a program of this layer writes can be read back.\<close>

fun readable_event :: "event \<Rightarrow> bool" where
  "readable_event (Saved m) = (\<forall>t. \<exists>r. load_file t (FObject m) = Ret (Some r))"
| "readable_event _ = True"

definition file_inv :: "('w, 'z) pers_scheme \<Rightarrow> bool" where
  "file_inv s \<longleftrightarrow> memory_inv s \<and> (\<forall>e \<in> set (trace s). readable_event e)"

lemma readable_payload:
  assumes "memory_inv s" "mem_db s = Some db"
  shows "readable_event (Saved (write_payload now db (mem_level s) u (mem_pre_mute s) (mem_token s)))"
  using load_written [of db "mem_level s" "mem_pre_mute s" "mem_token s"] assms
  by (simp add: memory_inv_def)

text \<open>An invariant of the memory and the trace is blind to the world and the shared state.\<close>

lemma file_inv_frame [simp]:
  "file_inv (s\<lparr>world := w\<rparr>) = file_inv s" "file_inv (s\<lparr>shared := h\<rparr>) = file_inv s"
  "file_inv (s\<lparr>world := w, shared := h\<rparr>) = file_inv s"
  "file_inv (s\<lparr>mem_last_used := u\<rparr>) = file_inv s"
  by (simp_all add: file_inv_def)

lemma file_inv_emit: "readable_event e \<Longrightarrow> file_inv s \<Longrightarrow> file_inv (s\<lparr>trace := trace s @ [e]\<rparr>)"
  by (auto simp: file_inv_def)

lemma pres_file_await [pres_intros]: "pres file_inv (await d f)"
  by (simp add: pres_def run_await)

lemma pres_file_sync [pres_intros]: "pres file_inv (sync f)"
  by (simp add: pres_def run_sync)

lemma pres_file_emit [pres_intros]: "readable_event e \<Longrightarrow> pres file_inv (emit e)"
  by (simp add: pres_def file_inv_emit)

lemma pres_file_load [pres_intros]: "pres file_inv (load d)"
  unfolding load_def
  by (intro pres_intros pres_modify)
    (auto simp: file_inv_def dest!: load_file_ok intro: memory_inv_remember)

lemma pres_file_state_update [pres_intros]: "pres file_inv (state_update d)"
  unfolding state_update_def by (intro pres_intros)

lemma pres_file_write_full [pres_intros]: "pres file_inv (write_full d)"
  by (rule pres_wpI)
    (auto simp: write_full_def Let_def wp_simps file_inv_def
      simp del: readable_event.simps intro!: readable_payload split: option.splits)

lemma pres_file_save_now:
  assumes "-61 \<le> db" "db \<le> 1"
  shows "pres file_inv (save_now d db)"
  unfolding save_now_def using assms
  by (intro pres_intros pres_modify)
    (auto simp: file_inv_def memory_inv_def memory_ok_def split: option.splits)

lemma pres_file_save_mute_state [pres_intros]: "pres file_inv (save_mute_state d level tok)"
  unfolding save_mute_state_def
  by (intro pres_intros pres_modify)
    (auto simp: file_inv_def memory_inv_def memory_ok_def split: option.splits if_splits)

lemma pres_file_save_level:
  assumes "valid_floor_db (d_floor d)"
  shows "pres file_inv (save_listening_level d pct mark)"
proof -
  have "-61 \<le> level_db (d_floor d) l" "level_db (d_floor d) l \<le> 1" for l
    using level_db_bounds [OF assms, of l] valid_floor_neg [OF assms] by linarith+
  then show ?thesis
    unfolding save_listening_level_def
    by (intro pres_intros pres_modify)
      (auto simp: file_inv_def memory_inv_def memory_ok_def split: option.splits)
qed

text \<open>
  Every volume file the code writes can be read back: as long as the memory is well-formed,
  reading and the three saves keep it so, and they only ever replace the file by one that \<open>load\<close>
  accepts, whatever the other daemons wrote before.
\<close>

theorem saves_write_loadable_files:
  assumes "-61 \<le> db \<and> db \<le> 1" "valid_floor_db (d_floor d)"
  shows "pres file_inv (load d) \<and> pres file_inv (save_now d db) \<and>
    pres file_inv (save_mute_state d level tok) \<and> pres file_inv (save_listening_level d pct mark)"
  using assms by (intro conjI pres_intros pres_file_save_now pres_file_save_level) simp_all

section \<open>What a save leaves on disk\<close>

text \<open>With nobody else writing and the write succeeding, the file reads back as follows.\<close>

definition file_reads :: "('w, 'z) pers_scheme \<Rightarrow> volume_record option \<Rightarrow> bool" where
  "file_reads s r \<longleftrightarrow> (\<forall>t. load_file t (sh_file (shared s)) = Ret r)"

definition writes_land :: "('w, 'y) doors_scheme \<Rightarrow> bool" where
  "writes_land d \<longleftrightarrow> (\<forall>w. fst (d_write_ok d w))"

text \<open>Settled: rounded the way the code writes, so that rewriting does not move it.\<close>

definition settled_record :: "volume_record \<Rightarrow> bool" where
  "settled_record r \<longleftrightarrow> py_round_dec 2 (main_volume_db r) = main_volume_db r \<and>
     (\<forall>t \<in> set_option (last_used_at r). of_int \<lfloor>t\<rfloor> = t)"

text \<open>A record as it reads back after being rewritten at \<open>now\<close>.\<close>

definition rewritten :: "rat \<Rightarrow> volume_record \<Rightarrow> volume_record" where
  "rewritten now r = stored_record now (main_volume_db r) (listening_level r) (last_used_at r)
     (pre_mute_level r) (mute_token r)"

lemma wp_state_update_reads:
  assumes "file_undisturbed d" "file_reads s (Some r)"
  shows "wp (state_update d) (\<lambda>_ s'. file_reads s' (Some r) \<and> (\<exists>s0. s' = remember r s0)) s"
  using assms
  by (auto simp: state_update_def load_def wp_simps file_reads_def file_undisturbed_def remember_def)

lemma wp_write_full_reads:
  assumes "writes_land d" "memory_inv s" "mem_db s = Some db"
  shows "wp (write_full d) (\<lambda>_ s'. \<exists>now. file_reads s' (Some (stored_record now db (mem_level s)
     (mem_last_used s) (mem_pre_mute s) (mem_token s)))) s"
  using assms load_written [of db "mem_level s" "mem_pre_mute s" "mem_token s"]
  by (auto simp: write_full_def wp_simps writes_land_def file_reads_def memory_inv_def Let_def)

text \<open>An update of the freshly read record, written out.\<close>

lemma wp_write_updated:
  assumes "writes_land d" "record_ok r'" "s1 = remember r' s0"
  shows "wp (write_full d) (\<lambda>_ s'. \<exists>now. file_reads s' (Some (rewritten now r'))) s1"
  using wp_write_full_reads [of d "remember r' s0" "main_volume_db r'"] assms
  by (simp add: memory_inv_remember rewritten_def) (simp add: remember_def)

lemma wp_save_mute_state_reads:
  assumes "file_undisturbed d" "writes_land d" "file_reads s (Some r)"
    and pair: "level = None \<longleftrightarrow> tok = None"
    and lvl: "\<forall>l \<in> set_option level. 0 \<le> l \<and> l \<le> 100"
    and tok: "\<forall>t \<in> set_option tok. t \<noteq> [] \<and> length t \<le> 128"
  shows "wp (save_mute_state d level tok) (\<lambda>a s'. a = Ret () \<and>
     (\<exists>now. file_reads s' (Some (rewritten now (r\<lparr>pre_mute_level := level, mute_token := tok\<rparr>))))) s"
proof -
  let ?r = "r\<lparr>pre_mute_level := level, mute_token := tok\<rparr>"
  have "record_ok r" using assms(3) load_file_ok by (auto simp: file_reads_def)
  then have ok: "record_ok ?r"
    using pair lvl tok by (auto simp: record_ok_def)
  have upd: "remember r s0\<lparr>mem_pre_mute := map_option (\<lambda>l. max 0 (min 100 l)) level, mem_token := tok\<rparr>
      = remember ?r s0" for s0 :: "('w, 'z) pers_scheme"
    using lvl by (cases level) (auto simp: remember_def)
  have tok': "(if level = None then None else tok) = tok" and valid: "\<not> (level \<noteq> None \<and>
      (case tok of None \<Rightarrow> False | Some t \<Rightarrow> t = [] \<or> 128 < length t))"
    using pair tok by (auto split: option.splits)
  show ?thesis
    unfolding save_mute_state_def Let_def tok' if_not_P [OF valid]
    apply (simp only: wp_bind)
    apply (rule wp_mono [OF wp_state_update_reads [OF assms(1,3)]])
    apply (clarsimp simp: wp_simps upd)
    apply (intro conjI impI)
    subgoal by (simp add: remember_def)
    subgoal by (rule wp_mono [OF wp_write_updated [OF assms(2) ok refl]]) (auto simp: wp_simps)
    done
qed

lemma wp_save_now_reads:
  assumes "file_undisturbed d" "writes_land d" "file_reads s (Some r)" "-61 \<le> db" "db \<le> 1"
  shows "wp (save_now d db)
    (\<lambda>_ s'. \<exists>now. file_reads s' (Some (rewritten now (r\<lparr>main_volume_db := db\<rparr>)))) s"
proof -
  have "record_ok r" using assms(3) load_file_ok by (auto simp: file_reads_def)
  then have ok: "record_ok (r\<lparr>main_volume_db := db\<rparr>)"
    using assms(4,5) by (auto simp: record_ok_def)
  have upd: "remember r s0\<lparr>mem_db := Some db\<rparr> = remember (r\<lparr>main_volume_db := db\<rparr>) s0"
    for s0 :: "('w, 'z) pers_scheme" by (simp add: remember_def)
  show ?thesis
    unfolding save_now_def
    apply (simp only: wp_bind)
    apply (rule wp_mono [OF wp_state_update_reads [OF assms(1,3)]])
    apply (clarsimp simp: wp_simps upd)
    apply (rule wp_mono [OF wp_write_updated [OF assms(2) ok refl]])
    apply assumption
    done
qed

lemma wp_save_level_reads:
  assumes "file_undisturbed d" "writes_land d" "file_reads s (Some r)"
  shows "wp (save_listening_level d pct mark)
    (\<lambda>_ s'. \<exists>now used. file_reads s' (Some (rewritten now (r\<lparr>listening_level := Some (clamp 0 100 pct),
        last_used_at := used\<rparr>))) \<and> (mark \<or> used = last_used_at r)) s"
proof -
  have rec: "record_ok r" using assms(3) load_file_ok by (auto simp: file_reads_def)
  have ok: "record_ok (r\<lparr>listening_level := Some (clamp 0 100 pct), last_used_at := used\<rparr>)" for used
    using rec clamp_bounds [of "0::int" 100 pct] by (auto simp: record_ok_def)
  have ok': "record_ok (r\<lparr>listening_level := Some (clamp 0 100 pct)\<rparr>)"
    using ok [of "last_used_at r"] by simp
  have upd: "remember r s0\<lparr>mem_level := Some (max 0 (min 100 pct))\<rparr>
      = remember (r\<lparr>listening_level := Some (clamp 0 100 pct)\<rparr>) s0"
    and used: "remember r' s0\<lparr>mem_last_used := u\<rparr> = remember (r'\<lparr>last_used_at := u\<rparr>) s0"
    and db: "mem_db (remember r' s0) \<noteq> None"
    for u r' and s0 :: "('w, 'z) pers_scheme"
    by (simp_all add: remember_def clamp_def)
  show ?thesis
    unfolding save_listening_level_def Let_def
    apply (simp only: wp_bind)
    apply (rule wp_mono [OF wp_state_update_reads [OF assms(1,3)]])
    apply (clarsimp simp: wp_simps upd used db)
    apply (intro conjI impI)
    subgoal by (rule wp_mono [OF wp_write_updated [OF assms(2) ok refl]]) auto
    subgoal by (rule wp_mono [OF wp_write_updated [OF assms(2) ok' refl]]) auto
    done
qed

text \<open>
  A partial save keeps the rest of the record. With the lease held, so that nobody else writes,
  and a write that lands: after saving the mute latch, the level or the fader, the file reads back as
  the record that was there with exactly that field replaced (decibels to two decimals, times to the
  second), the level clamped into 0..100 and, at boot, the last user change left alone.
\<close>

theorem partial_saves_keep_the_record:
  assumes "file_undisturbed d" "writes_land d" "file_reads s (Some r)"
    and "level = None \<longleftrightarrow> tok = None" "\<forall>l \<in> set_option level. 0 \<le> l \<and> l \<le> 100"
    and "\<forall>t \<in> set_option tok. t \<noteq> [] \<and> length t \<le> 128" "-61 \<le> db \<and> db \<le> 1"
  shows "wp (save_mute_state d level tok) (\<lambda>a s'. a = Ret () \<and>
       (\<exists>now. file_reads s' (Some (rewritten now (r\<lparr>pre_mute_level := level, mute_token := tok\<rparr>))))) s \<and>
     wp (save_now d db)
       (\<lambda>_ s'. \<exists>now. file_reads s' (Some (rewritten now (r\<lparr>main_volume_db := db\<rparr>)))) s \<and>
     wp (save_listening_level d pct mark)
       (\<lambda>_ s'. \<exists>now used. file_reads s' (Some (rewritten now (r\<lparr>listening_level := Some (clamp 0 100 pct),
          last_used_at := used\<rparr>))) \<and> (mark \<or> used = last_used_at r)) s"
  using assms by (intro conjI wp_save_mute_state_reads wp_save_now_reads wp_save_level_reads) simp_all

section \<open>A concrete volume file\<close>

definition demo_file :: vfile where
  "demo_file = FObject (write_payload 0 (-20) (Some 60) (Some 0) None None)"

definition demo_pers :: "demo pers" where
  "demo_pers = \<lparr>world = \<lparr>dm_fader = -20, dm_mute = False, dm_now = 0\<rparr>,
     shared = demo_shared\<lparr>sh_file := demo_file\<rparr>, trace = [], failed_at = None,
     abandon_logged = False, claims = [], next_token = 1, mem_db = None, mem_level = None,
     mem_last_used = None, mem_pre_mute = None, mem_token = None\<rparr>"

definition demo_record :: volume_record where
  "demo_record = \<lparr>main_volume_db = -20, updated_at = 0, listening_level = Some 60,
     last_used_at = Some 0, pre_mute_level = None, mute_token = None\<rparr>"

lemma demo_file_reads: "file_reads demo_pers (Some demo_record)"
proof -
  have "py_round_dec 2 (-20) = -20"
    using py_round_of_int [of "-2000"] by (simp add: py_round_dec_def)
  then show ?thesis
    using load_written [of "-20" "Some 60" None None]
    by (simp add: file_reads_def demo_pers_def demo_file_def demo_record_def stored_record_def
        memory_ok_def)
qed

lemma demo_file_loads [simp]: "load_file t demo_file = Ret (Some demo_record)"
  using demo_file_reads by (simp add: file_reads_def demo_pers_def)

lemma demo_doors_simps [simp]:
  "file_undisturbed demo_cam_doors" "writes_land demo_cam_doors" "d_floor demo_cam_doors = -50"
  by (simp_all add: demo_cam_doors_def file_undisturbed_def writes_land_def)

lemma saves_write_loadable_files_witness:
  "pres file_inv (save_now demo_cam_doors (-20) :: (demo pers, unit) state) \<and>
   pres file_inv (save_listening_level demo_cam_doors 40 True :: (demo pers, unit) state)"
  by (rule conjI [OF saves_write_loadable_files [THEN conjunct2, THEN conjunct1]
        saves_write_loadable_files [of "-20", THEN conjunct2, THEN conjunct2, THEN conjunct2]])
    (simp_all add: valid_floor_db_def volume_constants)

lemma partial_saves_keep_the_record_witness:
  "wp (save_mute_state demo_cam_doors (Some 60) (Some ''a'')) (\<lambda>a s'. a = Ret () \<and>
     (\<exists>now. file_reads s' (Some (rewritten now
        (demo_record\<lparr>pre_mute_level := Some 60, mute_token := Some ''a''\<rparr>))))) demo_pers"
  by (rule conjunct1 [OF partial_saves_keep_the_record [OF _ _ demo_file_reads,
        where db = "-20" and pct = 0 and mark = True]]) simp_all

end
