(* ===== verification/Volume_Core.thy ===== *)
theory Volume_Core
  imports Volume_Persistence
begin

text \<open>
  The parts the coordinator's verbs are made of: echo detection (\<open>volume_echo.py\<close>), the measurement
  gate (\<open>volume_measurement_gate.py\<close>, \<open>read_measurement_hold\<close>, \<open>read_fader_hold\<close>), the push-mode
  writers (\<open>volume_push_sources.py\<close>), the carrier (\<open>volume_carrier.py\<close>), the audible source
  (\<open>renderer.py\<close>), and the coordinator's own state and small helpers
  (\<open>jasper/audio_control/volume_coordinator.py\<close>).
\<close>

section \<open>The doors of the volume stack\<close>

record handoff_view =
  hv_id :: int
  hv_to :: string
  hv_result :: string
  hv_level :: "int option"

text \<open>Mux's STATUS as a client reads it; a field of another type is None.\<close>

record mux_view =
  mv_active_source :: "string option"
  mv_last_handoff :: "handoff_view option"

text \<open>What asking jasper-control for the measurement hold yields; \<open>HoldDict\<close> carries the truth of
  its \<open>active\<close> field (False when absent).\<close>

datatype hold_reply = HoldError | HoldNotDict | HoldEmpty | HoldDict bool

record volume_context =
  vc_canonical_db :: rat
  vc_downstream_db :: rat
  vc_envelope_lufs :: rat
  vc_muted :: bool
  vc_stamp :: int

record 'w vol_doors = "'w cam_doors" +
  d_oplock :: "'w \<Rightarrow> bool \<times> 'w"                        \<comment> \<open>the cross-daemon lease; False: timed out\<close>
  d_mux_status :: "'w \<Rightarrow> mux_view option \<times> 'w"          \<comment> \<open>None: STATUS unavailable\<close>
  d_renderers :: "'w \<Rightarrow> (source \<Rightarrow> bool) option \<times> 'w"   \<comment> \<open>None: a probe raised\<close>
  d_router :: bool                                      \<comment> \<open>a Spotify router with an account\<close>
  d_spotify_matches :: "'w \<Rightarrow> nat list \<times> 'w"
  d_spotify_volume :: "nat \<Rightarrow> int \<Rightarrow> 'w \<Rightarrow> bool \<times> 'w"
  d_bt_path :: "'w \<Rightarrow> string option \<times> 'w"
  d_bt_volume :: "string \<Rightarrow> int \<Rightarrow> 'w \<Rightarrow> bool \<times> 'w"
  d_hold :: "'w \<Rightarrow> hold_reply \<times> 'w"
  d_graph_held :: "'w \<Rightarrow> bool option outcome"
  d_publisher :: "(volume_context \<Rightarrow> 'w \<Rightarrow> bool option \<times> 'w) option"
  d_boottime :: "'w \<Rightarrow> int"
  d_handoff_settle :: rat
  d_push_settle :: rat

record 'w coord = "'w pers" +
  co_level :: int
  co_pre_mute :: "int option"
  co_token :: "string option"
  co_confirmed :: "source \<rightharpoonup> string"
  co_outbound :: "source \<rightharpoonup> rat"
  co_deferred :: "string option"
  co_write_failures :: nat
  co_probe_failures :: nat
  co_seen_handoff :: "int option"

section \<open>Echo detection\<close>

definition ECHO_WINDOW_SEC :: rat where "ECHO_WINDOW_SEC = 1 / 2"
definition PERSISTENCE_ECHO_WINDOW_SEC :: rat where "PERSISTENCE_ECHO_WINDOW_SEC = 2"

definition stamp_outbound ::
  "('w, 'y) doors_scheme \<Rightarrow> source \<Rightarrow> (('w, 'z) coord_scheme, unit) state" where
  "stamp_outbound d source = do {
     now \<leftarrow> peek (d_mono d);
     modify (\<lambda>s. s\<lparr>co_outbound := (co_outbound s)(source \<mapsto> now)\<rparr>)
   }"

definition is_own_echo ::
  "('w, 'y) doors_scheme \<Rightarrow> source \<Rightarrow> (('w, 'z) coord_scheme, bool) state" where
  "is_own_echo d source = do {
     stamp \<leftarrow> gets (\<lambda>s. co_outbound s source);
     now \<leftarrow> peek (d_mono d);
     ret (case stamp of None \<Rightarrow> False | Some at_mono \<Rightarrow> \<not> (now - at_mono > ECHO_WINDOW_SEC))
   }"

definition is_recent_cross_process_write ::
  "('w, 'y) doors_scheme \<Rightarrow> int \<Rightarrow> int \<Rightarrow> (('w, 'z) pers_scheme, bool) state" where
  "is_recent_cross_process_write d current_level observed_level = do {
     record \<leftarrow> load d;
     now \<leftarrow> peek (d_utc d);
     ret (case record of
            None \<Rightarrow> False
          | Some r \<Rightarrow> (case (last_used_at r, listening_level r) of
                        (Some used, Some l) \<Rightarrow>
                          if l = observed_level then False
                          else if l = current_level then False
                          else 0 \<le> now - used \<and> now - used \<le> PERSISTENCE_ECHO_WINDOW_SEC
                      | _ \<Rightarrow> False))
   }"

section \<open>The measurement gate\<close>

definition MEASUREMENT_AUTOCLEAR_SEC :: rat where "MEASUREMENT_AUTOCLEAR_SEC = 120"

definition gate_active :: "(('w, 'z) proc_scheme, bool) state" where
  "gate_active = gets (\<lambda>s. g_active (sh_gate (shared s)))"

definition update_gate :: "(gate_state \<Rightarrow> gate_state) \<Rightarrow> (('w, 'z) proc_scheme, unit) state" where
  "update_gate f = modify (\<lambda>s. s\<lparr>shared := (shared s)\<lparr>sh_gate := f (sh_gate (shared s))\<rparr>\<rparr>)"

definition holds_fader :: "('w, 'y) doors_scheme \<Rightarrow> (('w, 'z) proc_scheme, bool) state" where
  "holds_fader d = do {
     g \<leftarrow> gets (\<lambda>s. sh_gate (shared s));
     now \<leftarrow> peek (d_mono d);
     if \<not> g_active g then ret False
     else if now - g_active_at g < MEASUREMENT_AUTOCLEAR_SEC then ret True
     else do { update_gate (g_lapse_logged_update (\<lambda>_. True)); ret False }
   }"

definition lapse_stranded :: "('w, 'y) doors_scheme \<Rightarrow> (('w, 'z) proc_scheme, unit) state" where
  "lapse_stranded d = do {
     active \<leftarrow> gate_active;
     held \<leftarrow> (if active then holds_fader d else ret True);
     onlyif (active \<and> \<not> held) (update_gate (g_active_update (\<lambda>_. False)))
   }"

text \<open>\<open>refuse_level_write\<close>: True is the \<open>VolumeClaimRefused\<close> it raises.\<close>

definition refuse_level_write :: "('w, 'y) doors_scheme \<Rightarrow> (('w, 'z) proc_scheme, bool) state" where
  "refuse_level_write d = holds_fader d"

definition note_active ::
  "('w, 'y) doors_scheme \<Rightarrow> bool \<Rightarrow> (('w, 'z) proc_scheme, unit) state" where
  "note_active d active = do {
     yield d;
     update_gate (g_active_update (\<lambda>_. active));
     now \<leftarrow> peek (d_mono d);
     onlyif active (update_gate (\<lambda>g. g\<lparr>g_active_at := now, g_lapse_logged := False\<rparr>))
   }"

text \<open>\<open>read_measurement_hold\<close>: None is unreadable; an empty answer is None too.\<close>

fun read_measurement_hold :: "hold_reply \<Rightarrow> bool option" where
  "read_measurement_hold (HoldDict active) = Some active"
| "read_measurement_hold _ = None"

definition fader_hold_of :: "bool option \<Rightarrow> string option" where
  "fader_hold_of hold =
     (case hold of Some False \<Rightarrow> None | None \<Rightarrow> Some ''unreadable'' | Some True \<Rightarrow> Some ''held'')"

definition read_fader_hold ::
  "('w, 'y) vol_doors_scheme \<Rightarrow> (('w, 'z) proc_scheme, string option) state" where
  "read_fader_hold d = do {
     reply \<leftarrow> await d (d_hold d);
     let hold = fader_hold_of (read_measurement_hold reply);
     emit (FaderHold hold);
     ret hold
   }"

section \<open>The carrier\<close>

definition write_main_mute ::
  "('w, 'y) cam_doors_scheme \<Rightarrow> bool \<Rightarrow> (('w, 'z) cam_scheme, bool) state" where
  "write_main_mute d muted = do {
     r \<leftarrow> set_main_mute d muted True;
     ret (r = CallOk True)
   }"

text \<open>The owner's two doors; \<open>CamillaUnavailable\<close> is not an error they may report (\<open>Fatal\<close>).\<close>

definition write_fader_db :: "('w, 'y) cam_doors_scheme \<Rightarrow> ('w, 'z) set_door" where
  "write_fader_db d db = do {
     r \<leftarrow> set_volume_db d db True;
     ret (case r of CallOk ok \<Rightarrow> Ret (PyBool ok) | _ \<Rightarrow> Fatal)
   }"

definition read_fader_door :: "('w, 'y) cam_doors_scheme \<Rightarrow> ('w, 'z) get_door" where
  "read_fader_door d = do {
     r \<leftarrow> get_volume_db d True;
     ret (case r of CallOk x \<Rightarrow> Ret (case x of None \<Rightarrow> PyNone | Some db \<Rightarrow> PyFloat db) | _ \<Rightarrow> Fatal)
   }"

definition read_volume_and_mute ::
  "('w, 'y) cam_doors_scheme \<Rightarrow> (('w, 'z) cam_scheme, rat option \<times> bool option) state" where
  "read_volume_and_mute d = do {
     r \<leftarrow> get_volume_and_mute d True;
     ret (case r of CallOk (Some (db, muted)) \<Rightarrow> (Some db, Some muted) | _ \<Rightarrow> (None, None))
   }"

text \<open>
  \<open>CamillaCarrier.write_db_with_mute\<close>. The household declaration of a finite level over these doors
  always answers (\<open>carrier.declare_answers\<close>), so its exceptions are not a case of their own here.
\<close>

definition declare_household ::
  "('w, 'y) cam_doors_scheme \<Rightarrow> rat \<Rightarrow> (('w, 'z) owner_scheme, bool) state" where
  "declare_household d db = do {
     r \<leftarrow> declare_household_level_db d (write_fader_db d) (read_fader_door d) (PyFloat db);
     ret (r = Inr True)
   }"

definition land_level ::
  "('w, 'y) cam_doors_scheme \<Rightarrow> rat \<Rightarrow> (('w, 'z) owner_scheme, bool) state" where
  "land_level d db =
     (if main_mute_for_db (d_floor d) db then do {
        mute_ok \<leftarrow> write_main_mute d True;
        _ \<leftarrow> declare_household d db;
        ret mute_ok
      }
      else do {
        volume_ok \<leftarrow> declare_household d db;
        if \<not> volume_ok then ret False else write_main_mute d False
      })"

text \<open>Its answer is recorded in the trace.\<close>

definition write_db_with_mute ::
  "('w, 'y) cam_doors_scheme \<Rightarrow> rat \<Rightarrow> (('w, 'z) owner_scheme, bool) state" where
  "write_db_with_mute d db = do {
     ok \<leftarrow> land_level d db;
     emit (Carrier db ok);
     ret ok
   }"

section \<open>Push-mode writers\<close>

text \<open>The accounts that report the speaker, tried in order until one takes the level.\<close>

fun push_to_accounts ::
  "('w, 'y) vol_doors_scheme \<Rightarrow> int \<Rightarrow> nat list \<Rightarrow> (('w, 'z) proc_scheme, bool) state" where
  "push_to_accounts d pct [] = ret False"
| "push_to_accounts d pct (a # as) = do {
     ok \<leftarrow> await d (d_spotify_volume d a pct);
     if ok then ret True else push_to_accounts d pct as
   }"

definition push_spotify_volume ::
  "('w, 'y) vol_doors_scheme \<Rightarrow> int \<Rightarrow> (('w, 'z) proc_scheme, bool) state" where
  "push_spotify_volume d level = do {
     let pct = listening_level_to_spotify_percent level;
     if \<not> d_router d then ret False
     else do {
       matches \<leftarrow> await d (d_spotify_matches d);
       push_to_accounts d pct matches
     }
   }"

definition push_bluetooth_volume ::
  "('w, 'y) vol_doors_scheme \<Rightarrow> int \<Rightarrow> (('w, 'z) proc_scheme, bool) state" where
  "push_bluetooth_volume d level = do {
     let vol = listening_level_to_bt_volume level;
     path \<leftarrow> await d (d_bt_path d);
     case path of None \<Rightarrow> ret False | Some p \<Rightarrow> await d (d_bt_volume d p vol)
   }"

definition push_source ::
  "('w, 'y) vol_doors_scheme \<Rightarrow> source \<Rightarrow> int \<Rightarrow> (('w, 'z) coord_scheme, bool) state" where
  "push_source d source level =
     (if source = SPOTIFY then do {
        ok \<leftarrow> push_spotify_volume d level;
        emit (Push source level ok);
        onlyif ok (stamp_outbound d source);
        ret ok
      }
      else if source = BLUETOOTH then do {
        ok \<leftarrow> push_bluetooth_volume d level;
        emit (Push source level ok);
        onlyif ok (stamp_outbound d source);
        ret ok
      }
      else ret False)"

section \<open>The audible source\<close>

definition selected_source ::
  "('w, 'y) vol_doors_scheme \<Rightarrow> (('w, 'z) proc_scheme, string option) state" where
  "selected_source d = do {
     status \<leftarrow> await d (d_mux_status d);
     ret (Option.bind status mv_active_source)
   }"

definition last_handoff ::
  "('w, 'y) vol_doors_scheme \<Rightarrow> (('w, 'z) proc_scheme, handoff_view option) state" where
  "last_handoff d = do {
     status \<leftarrow> await d (d_mux_status d);
     ret (Option.bind status mv_last_handoff)
   }"

definition PROBE_ORDER :: "source list" where
  "PROBE_ORDER = [AIRPLAY, SPOTIFY, BLUETOOTH, USBSINK]"

definition first_playing :: "(source \<Rightarrow> bool) \<Rightarrow> source" where
  "first_playing active = (case find active PROBE_ORDER of Some s \<Rightarrow> s | None \<Rightarrow> IDLE)"

definition audible_source ::
  "('w, 'y) vol_doors_scheme \<Rightarrow> (('w, 'z) proc_scheme, source) state" where
  "audible_source d = do {
     selected \<leftarrow> selected_source d;
     case Option.bind selected source_of_value of
       Some s \<Rightarrow> ret s
     | None \<Rightarrow> do {
         active \<leftarrow> await d (d_renderers d);
         ret (case active of None \<Rightarrow> IDLE | Some probe \<Rightarrow> first_playing probe)
       }
   }"

abbreviation active_source ::
  "('w, 'y) vol_doors_scheme \<Rightarrow> (('w, 'z) proc_scheme, source) state" where
  "active_source d \<equiv> audible_source d"

section \<open>The coordinator's state\<close>

text \<open>
  What the public verbs can raise: the refusal of a measurement, a lease that timed out, the
  \<open>ValueError\<close> of a mute token the state file refuses, and the observer's \<open>assert\<close>.
\<close>

datatype coord_exn = ClaimRefused | LeaseTimeout | BadToken | AssertFailed

definition current_volume_state :: "('w, 'z) coord_scheme \<Rightarrow> volume_state" where
  "current_volume_state s =
     \<lparr>vs_level = max 0 (min 100 (co_level s)), vs_pre_mute = co_pre_mute s, vs_token = co_token s\<rparr>"

abbreviation effective_level :: "('w, 'z) coord_scheme \<Rightarrow> int" where
  "effective_level s \<equiv> effective_percent (current_volume_state s)"

text \<open>A failed read is not a reset.\<close>

definition refresh_from_disk :: "('w, 'y) doors_scheme \<Rightarrow> (('w, 'z) coord_scheme, unit) state" where
  "refresh_from_disk d = do {
     record \<leftarrow> load d;
     case record of
       None \<Rightarrow> ret ()
     | Some r \<Rightarrow> (let v = state_from_record (Some r) in
         modify (\<lambda>s. s\<lparr>co_level := vs_level v, co_pre_mute := vs_pre_mute v, co_token := vs_token v\<rparr>))
   }"

definition get_volume_state ::
  "('w, 'y) doors_scheme \<Rightarrow> (('w, 'z) coord_scheme, volume_state) state" where
  "get_volume_state d = do {
     refresh_from_disk d;
     gets current_volume_state
   }"

text \<open>The \<open>effective_level\<close> door of the handoff: fresh from disk.\<close>

definition fresh_level :: "('w, 'y) doors_scheme \<Rightarrow> (('w, 'z) coord_scheme, int) state" where
  "fresh_level d = do { v \<leftarrow> get_volume_state d; ret (effective_percent v) }"

definition load_persisted_level :: "('w, 'y) doors_scheme \<Rightarrow> (('w, 'z) coord_scheme, int) state" where
  "load_persisted_level d = do { refresh_from_disk d; gets co_level }"

definition persisted_main_volume_db ::
  "('w, 'y) doors_scheme \<Rightarrow> (('w, 'z) pers_scheme, rat option) state" where
  "persisted_main_volume_db d = do {
     record \<leftarrow> load d;
     ret (map_option main_volume_db record)
   }"

definition source_observation_revision ::
  "('w, 'y) doors_scheme \<Rightarrow> source \<Rightarrow> (('w, 'z) pers_scheme, string option) state" where
  "source_observation_revision d source =
     (if volume_mode source \<noteq> PUSH then ret None
      else do { record \<leftarrow> load d; ret (Option.bind record mute_token) })"

text \<open>\<open>_mutation\<close>: the local lock, the cross-daemon lease, and a fresh read inside both.\<close>

definition mutation ::
  "('w, 'y) vol_doors_scheme \<Rightarrow> bool \<Rightarrow> (('w, 'z) coord_scheme, coord_exn + 'a) state \<Rightarrow>
   (('w, 'z) coord_scheme, coord_exn + 'a) state" where
  "mutation d refresh body = do {
     yield d;
     leased \<leftarrow> await d (d_oplock d);
     if \<not> leased then ret (Inl LeaseTimeout)
     else do { onlyif refresh (refresh_from_disk d); body }
   }"

definition set_camilla_db ::
  "('w, 'y) vol_doors_scheme \<Rightarrow> rat \<Rightarrow> bool \<Rightarrow> (('w, 'z) coord_scheme, bool) state" where
  "set_camilla_db d db persist = do {
     ok \<leftarrow> write_db_with_mute d db;
     onlyif (ok \<and> persist) (save_now d db);
     ret ok
   }"

definition set_camilla ::
  "('w, 'y) vol_doors_scheme \<Rightarrow> int \<Rightarrow> (('w, 'z) coord_scheme, bool) state" where
  "set_camilla d level = do {
     let db = level_db (d_floor d) level;
     ok \<leftarrow> write_db_with_mute d db;
     save_now d db;
     ret ok
   }"

definition get_camilla_target_db ::
  "('w, 'y) vol_doors_scheme \<Rightarrow> (('w, 'z) coord_scheme, rat) state" where
  "get_camilla_target_db d = do {
     refresh_from_disk d;
     level \<leftarrow> gets effective_level;
     source \<leftarrow> active_source d;
     persisted \<leftarrow> persisted_main_volume_db d;
     ret (canonical_target_db (d_floor d) level (volume_mode source) persisted)
   }"

definition note_voice_session :: "bool \<Rightarrow> (('w, 'z) proc_scheme, unit) state" where
  "note_voice_session active = modify (\<lambda>s. s\<lparr>shared := (shared s)\<lparr>sh_voice := active\<rparr>\<rparr>)"

definition voice_session_active :: "(('w, 'z) proc_scheme, bool) state" where
  "voice_session_active = gets (\<lambda>s. sh_voice (shared s))"

section \<open>The carrier's doors as the owner's\<close>

lemma keeps_write_fader: "cam_stable f \<Longrightarrow> keeps f (write_fader_db d x)"
  unfolding write_fader_db_def by (intro keeps_intros keeps_cam)

lemma keeps_read_fader_door: "cam_stable f \<Longrightarrow> keeps f (read_fader_door d)"
  unfolding read_fader_door_def by (intro keeps_intros keeps_cam)

lemma cam_stable_owner [simp]: "cam_stable claims" "cam_stable next_token"
  by (simp_all add: cam_stable_def)

lemma wp_silent_answer: "wp m (\<lambda>_ s'. trace s' = trace s) s" if "silent m"
  using that by (simp add: wp_def keeps_def)

lemma or_else_answers: "\<exists>x. or_else True y f r = CallOk x"
  by (cases r) simp_all

lemma get_volume_db_answers: "wp (get_volume_db d True) (\<lambda>r _. \<exists>x. r = CallOk x) s"
  unfolding get_volume_db_def wp_simps by (simp add: wp_def or_else_answers)

lemma set_volume_db_answers: "wp (set_volume_db d x True) (\<lambda>r _. \<exists>ok. r = CallOk ok) s"
  by (simp add: set_volume_db_def wp_simps or_else_accepted) (simp add: wp_def)

interpretation carrier: reporting_doors "write_fader_db d" "read_fader_door d" for d
proof unfold_locales
  show "wp (write_fader_db d x) (\<lambda>r _. r \<noteq> Fatal) s" for x s
    unfolding write_fader_db_def wp_simps
    by (rule wp_mono [OF set_volume_db_answers]) (auto simp: wp_simps)
  show "wp (read_fader_door d) (\<lambda>r _. r \<noteq> Fatal \<and> (\<forall>v. r = Ret v \<longrightarrow> usable_reading v \<noteq> Fatal)) s" for s
    unfolding read_fader_door_def wp_simps
    by (rule wp_mono [OF get_volume_db_answers]) (auto simp: wp_simps split: option.splits)
qed (simp_all add: keeps_write_fader keeps_read_fader_door)

lemma silent_read_fader_door [keeps_intros]: "silent (read_fader_door d)"
  unfolding read_fader_door_def by (intro keeps_intros)

lemma emits_write_fader:
  "emits_only (\<lambda>e. \<exists>ok. e = Fader (fader_clamp x) ok) (write_fader_db d x)"
  unfolding write_fader_db_def
  by (rule emits_bind [OF emits_set_volume_db, where R' = "\<lambda>_ _ es. es = []"])
    (auto simp: emits_def)

lemma emits_settle:
  "emits_only (\<lambda>e. \<exists>ok. e = Fader (fader_clamp x) ok) (settle (write_fader_db d) (read_fader_door d) x)"
proof -
  have "emits_only E (read_fader_door d)" for E
    by (rule emits_silent [OF silent_read_fader_door]) simp
  then show ?thesis
    unfolding settle_def by (intro emits_intros emits_write_fader)
qed

abbreviation own_acquire where
  "own_acquire d \<equiv> acquire_level d (write_fader_db d) (read_fader_door d)"

abbreviation own_declare where
  "own_declare d \<equiv> declare_household_level_db d (write_fader_db d) (read_fader_door d)"

abbreviation own_relevel where
  "own_relevel d \<equiv> relevel d (write_fader_db d) (read_fader_door d)"

abbreviation own_release where
  "own_release d \<equiv> release d (write_fader_db d) (read_fader_door d)"

abbreviation own_prove where
  "own_prove d \<equiv> prove_level d (read_fader_door d)"

text \<open>
  C4. The owner refines a table with at most one level per kind. Declaring overwrites the household
  level; acquiring adds a level where the kind had none, or leaves the ledger untouched; moving a held
  claim replaces its level, or keeps the old handle and level; releasing removes the kind. The level
  in effect is the highest-ranked one in the table.
\<close>

theorem owner_refines_level_table:
  assumes ok: "ledger_inv s"
  shows "declared_level_db (claims s) = level_in_effect (level_of (claims s)) \<and>
    wp (own_declare d (PyFloat x)) (\<lambda>r s'. ledger_inv s' \<and> (\<exists>b. r = Inr b) \<and>
       level_of (claims s') = (level_of (claims s))(HOUSEHOLD \<mapsto> x)) s \<and>
    wp (own_acquire d k lvl) (\<lambda>r s'. ledger_inv s' \<and> acquired k lvl (claims s) r (claims s')) s \<and>
    wp (own_relevel d h lvl) (\<lambda>r s'. ledger_inv s' \<and> relevelled h lvl (claims s) r (claims s')) s \<and>
    wp (own_release d h) (\<lambda>_ s'. ledger_inv s' \<and>
       level_of (claims s') = (if h \<in> set (claims s) then (level_of (claims s))(kind_of h := None)
                               else level_of (claims s))) s"
proof (intro conjI)
  show "declared_level_db (claims s) = level_in_effect (level_of (claims s))"
    by (rule declared_level_spec [OF ok])
  have "wp (own_declare d (PyFloat x)) (\<lambda>r _. \<exists>b. r = Inr b) s"
    by (rule carrier.declare_answers) simp
  moreover have "wp (own_declare d (PyFloat x)) (\<lambda>r s'. ledger_inv s' \<and>
      level_of (claims s') = (level_of (claims s))(HOUSEHOLD \<mapsto> x)) s"
    by (rule wp_mono [OF carrier.wp_declare [OF ok]]) simp
  ultimately show "wp (own_declare d (PyFloat x)) (\<lambda>r s'. ledger_inv s' \<and> (\<exists>b. r = Inr b) \<and>
       level_of (claims s') = (level_of (claims s))(HOUSEHOLD \<mapsto> x)) s"
    by (simp add: wp_def)
  show "wp (own_acquire d k lvl) (\<lambda>r s'. ledger_inv s' \<and> acquired k lvl (claims s) r (claims s')) s"
    using carrier.wp_acquire [OF ok] .
  show "wp (own_relevel d h lvl) (\<lambda>r s'. ledger_inv s' \<and> relevelled h lvl (claims s) r (claims s')) s"
    using carrier.wp_relevel [OF ok] .
  show "wp (own_release d h) (\<lambda>_ s'. ledger_inv s' \<and>
       level_of (claims s') = (if h \<in> set (claims s) then (level_of (claims s))(kind_of h := None)
                               else level_of (claims s))) s"
    by (rule wp_mono [OF carrier.wp_release [OF ok]]) (auto simp: level_of_pop [OF ok])
qed

lemma household_outranked:
  assumes "ledger_ok cs n" "h \<in> set cs" "kind_of h = HOUSEHOLD" "c \<in> set cs" "kind_of c \<noteq> HOUSEHOLD"
  shows "top_level_claim cs \<noteq> Some h"
  using top_level_kind [of cs n h c] assms by (cases "kind_of c") auto

lemma declare_seated:
  assumes "ledger_inv s" "t = next_token s"
  shows "ledger_put \<lparr>kind_of = HOUSEHOLD, token_of = t, claim_db = x\<rparr>
      (filter (\<lambda>c. kind_of c \<noteq> HOUSEHOLD) (claims s)) =
    filter (\<lambda>c. kind_of c \<noteq> HOUSEHOLD) (claims s) @ [\<lparr>kind_of = HOUSEHOLD, token_of = t, claim_db = x\<rparr>]"
  and "ledger_ok (filter (\<lambda>c. kind_of c \<noteq> HOUSEHOLD) (claims s) @
      [\<lparr>kind_of = HOUSEHOLD, token_of = t, claim_db = x\<rparr>]) (Suc t)"
  using ledger_put_fresh [OF ledger_filter_ok [OF assms(1)],
      of "\<lparr>kind_of = HOUSEHOLD, token_of = t, claim_db = x\<rparr>" "\<lambda>c. kind_of c \<noteq> HOUSEHOLD"]
    ledger_snoc_ok [OF ledger_filter_ok [OF assms(1), of "\<lambda>c. kind_of c \<noteq> HOUSEHOLD"],
      of "\<lparr>kind_of = HOUSEHOLD, token_of = t, claim_db = x\<rparr>"] assms(2)
  by simp_all

lemma wp_release_trace:
  fixes s :: "('w, 'z) owner_scheme"
  shows "wp (own_release d h) (\<lambda>_ s'. \<exists>es. trace s' = trace s @ es \<and>
     (\<forall>e \<in> set es. \<exists>y ok. declared_level_db (claims s') = Some y \<and> e = Fader (fader_clamp y) ok)) s"
proof -
  have settle: "wp (settle (write_fader_db d) (read_fader_door d) x)
      (\<lambda>_ s'. (\<exists>es. trace s' = trace s1 @ es \<and> (\<forall>e \<in> set es. \<exists>ok. e = Fader (fader_clamp x) ok)) \<and>
         claims s' = claims s1) s1" for x and s1 :: "('w, 'z) owner_scheme"
    unfolding wp_conj
    by (intro conjI wp_emits [OF emits_settle] wp_keeps carrier.keeps_settle(1))
  have "silent (read_fader_db (read_fader_door d :: ('w, 'z) get_door))"
    by (intro keeps_intros)
  then show ?thesis
    unfolding release_def update_claims_def wp_simps
    apply (auto simp: wp_def keeps_def split: option.splits)
    subgoal for x
      using settle [of x "s\<lparr>shared := d_env d (world s) (shared s),
          claims := ledger_pop (token_of h) (claims s)\<rparr>"]
      by (simp add: wp_def)
    done
qed

text \<open>
  The household level never takes the fader from a measurement. While a session-measurement or
  commissioning claim is held, declaring a household level writes nothing, answers True, and is
  what the ledger lands on when that claim is released: a release writes no fader value but the next
  level in effect.
\<close>

theorem household_defers_to_measurements:
  assumes ok: "ledger_inv s"
  shows "((\<exists>c \<in> set (claims s). kind_of c \<noteq> HOUSEHOLD) \<longrightarrow>
      wp (own_declare d (PyFloat x)) (\<lambda>r s'. r = Inr True \<and> trace s' = trace s) s) \<and>
    wp (own_release d h) (\<lambda>_ s'. \<exists>es. trace s' = trace s @ es \<and>
      (\<forall>e \<in> set es. \<exists>y ok. level_in_effect (level_of (claims s')) = Some y \<and>
         e = Fader (fader_clamp y) ok)) s"
proof (intro conjI impI)
  assume "\<exists>c \<in> set (claims s). kind_of c \<noteq> HOUSEHOLD"
  then obtain c where c: "c \<in> set (claims s)" "kind_of c \<noteq> HOUSEHOLD" by blast
  let ?h = "\<lparr>kind_of = HOUSEHOLD, token_of = next_token s, claim_db = x\<rparr>"
  let ?cs = "filter (\<lambda>c. kind_of c \<noteq> HOUSEHOLD) (claims s)"
  note seat = declare_seated [OF ok refl, of x]
  have "top_level_claim (ledger_put ?h ?cs) \<noteq> Some ?h"
    unfolding seat(1) by (rule household_outranked [OF seat(2) _ _ _ c(2)]) (use c in simp_all)
  then show "wp (own_declare d (PyFloat x)) (\<lambda>r s'. r = Inr True \<and> trace s' = trace s) s"
    by (simp add: declare_household_level_db_def take_token_def update_claims_def wp_simps
        establish_def)
next
  have "wp (own_release d h) (\<lambda>_ s'. ledger_inv s') s"
    by (rule wp_mono [OF carrier.wp_release [OF ok]]) blast
  then show "wp (own_release d h) (\<lambda>_ s'. \<exists>es. trace s' = trace s @ es \<and>
      (\<forall>e \<in> set es. \<exists>y ok. level_in_effect (level_of (claims s')) = Some y \<and>
         e = Fader (fader_clamp y) ok)) s"
    using wp_release_trace [of d h s] by (simp add: wp_def declared_level_spec)
qed

lemma wp_acquire_confirmed:
  assumes ok: "ledger_inv s"
  shows "wp (own_acquire d k lvl) (\<lambda>r s'. \<forall>h. r = Inr h \<longrightarrow>
    top_level_claim (claims s') = Some h \<longrightarrow> confirmed (read_fader_door d) (claim_db h) s') s"
proof -
  have seat: "wp (establish (write_fader_db d) (read_fader_door d) h)
      (\<lambda>r s'. claims s' = ledger_put h (claims s1) \<and> (r = Ret True \<longrightarrow>
        top_level_claim (ledger_put h (claims s1)) \<noteq> Some h \<or>
        confirmed (read_fader_door d) (claim_db h) s')) s1" for h s1
    unfolding wp_conj
    by (intro conjI wp_establish_confirmed wp_mono [OF carrier.wp_establish]) simp
  show ?thesis
    unfolding acquire_level_def take_token_def
    apply (simp add: wp_simps Let_def split: option.split)
    apply (intro allI impI)
    apply (rule wp_mono [OF seat])
    apply (auto simp: wp_simps intro!: wpI)
    done
qed


text \<open>The three theorems above at a speaker with a household level and nobody measuring.\<close>

definition demo_owner :: "demo owner" where
  "demo_owner = \<lparr>world = \<lparr>dm_fader = -20, dm_mute = False, dm_now = 0\<rparr>, shared = demo_shared,
     trace = [], failed_at = None, abandon_logged = False,
     claims = [\<lparr>kind_of = HOUSEHOLD, token_of = 1, claim_db = -20\<rparr>,
               \<lparr>kind_of = COMMISSIONING, token_of = 2, claim_db = -40\<rparr>],
     next_token = 3\<rparr>"

lemma demo_ledger: "ledger_inv demo_owner"
  by (simp add: demo_owner_def ledger_ok_def)

lemma owner_refines_level_table_witness: "declared_level_db (claims demo_owner) = Some (-40)"
  using conjunct1 [OF owner_refines_level_table [OF demo_ledger]]
  by (simp add: demo_owner_def level_in_effect_def level_of_def)

lemma household_defers_to_measurements_witness:
  "wp (own_declare demo_cam_doors (PyFloat (-5))) (\<lambda>r s'. r = Inr True \<and> trace s' = []) demo_owner"
  using conjunct1 [OF household_defers_to_measurements [OF demo_ledger]]
  by (simp add: demo_owner_def)


section \<open>What the carrier programs touch\<close>

text \<open>\<open>owner_stable f\<close>: \<open>f\<close> reads nothing the fader programs or the claim ledger write.\<close>

definition owner_stable :: "(('w, 'z) owner_scheme \<Rightarrow> 'f) \<Rightarrow> bool" where
  "owner_stable f \<longleftrightarrow> cam_stable f \<and>
     (\<forall>s c n. f (s\<lparr>claims := c\<rparr>) = f s \<and> f (s\<lparr>next_token := n\<rparr>) = f s)"

lemma keeps_settle_stable: "owner_stable f \<Longrightarrow> keeps f (settle (write_fader_db d) (read_fader_door d) x)"
  unfolding settle_def owner_stable_def
  by (intro keeps_intros keeps_write_fader keeps_read_fader_door; blast)

lemma keeps_declare_stable: "owner_stable f \<Longrightarrow> keeps f (own_declare d x)"
  unfolding declare_household_level_db_def update_claims_def take_token_def establish_def apply_level_def
  by (intro keeps_intros keeps_settle_stable)
    (auto simp: owner_stable_def cam_stable_def keeps_def run_await)

lemma keeps_declare_household: "owner_stable f \<Longrightarrow> keeps f (declare_household d db)"
  unfolding declare_household_def by (intro keeps_intros keeps_declare_stable)

lemma keeps_write_main_mute: "cam_stable f \<Longrightarrow> keeps f (write_main_mute d b)"
  unfolding write_main_mute_def by (intro keeps_intros keeps_cam)

lemma keeps_land_level: "owner_stable f \<Longrightarrow> keeps f (land_level d db)"
  unfolding land_level_def
  by (intro keeps_intros keeps_declare_household keeps_write_main_mute)
    (simp_all add: owner_stable_def)

lemma keeps_write_db_with_mute: "owner_stable f \<Longrightarrow> keeps f (write_db_with_mute d db)"
  unfolding write_db_with_mute_def
  by (intro keeps_intros keeps_land_level keeps_emit_stable) (simp_all add: owner_stable_def)

lemma keeps_read_volume_and_mute: "cam_stable f \<Longrightarrow> keeps f (read_volume_and_mute d)"
  unfolding read_volume_and_mute_def by (intro keeps_intros keeps_cam)

definition memory :: "('w, 'z) pers_scheme \<Rightarrow> rat option \<times> int option \<times> int option \<times> string option" where
  "memory s = (mem_db s, mem_level s, mem_pre_mute s, mem_token s)"

lemma owner_stable_upper [simp]: "owner_stable pers.more" "owner_stable memory"
  "cam_stable pers.more" "cam_stable memory"
  by (simp_all add: owner_stable_def cam_stable_def memory_def)

lemma silent_read_volume_and_mute [keeps_intros]: "silent (read_volume_and_mute d)"
  unfolding read_volume_and_mute_def by (intro keeps_intros)

text \<open>A declaration that writes writes the level declared, clamped.\<close>

lemma emits_establish_own:
  "emits_only (\<lambda>e. \<exists>ok. e = Fader (fader_clamp (claim_db h)) ok)
     (establish (write_fader_db d) (read_fader_door d) h)"
proof (rule emits_wpI, goal_cases)
  case (1 s)
  show ?case
    using wp_emits [OF emits_settle, of d "claim_db h" "s\<lparr>claims := ledger_put h (claims s)\<rparr>"]
    by (simp add: establish_def update_claims_def apply_level_def wp_simps declared_level_db_def)
qed

lemma emits_declare:
  "emits_only (\<lambda>e. \<exists>ok. e = Fader (fader_clamp db) ok) (declare_household d db)"
proof -
  have seat: "emits_only (\<lambda>e. \<exists>ok. e = Fader (fader_clamp db) ok) (establish (write_fader_db d)
      (read_fader_door d) \<lparr>kind_of = HOUSEHOLD, token_of = t, claim_db = db\<rparr>)" for t
    using emits_establish_own [of "\<lparr>kind_of = HOUSEHOLD, token_of = t, claim_db = db\<rparr>" d] by simp
  show ?thesis
    unfolding declare_household_def declare_household_level_db_def finite_float.simps option.case
      update_claims_def take_token_def
    by (intro emits_intros seat; simp)
qed

lemma emits_write_main_mute:
  "emits (\<lambda>r es. es = [MainMute b r]) (write_main_mute d b)"
  unfolding write_main_mute_def
  by (rule emits_bind [OF emits_set_main_mute, where R' = "\<lambda>a b es. b = (a = CallOk True) \<and> es = []"])
    (auto simp: emits_def)

text \<open>
  What a carrier write puts in the trace: in the mute band, \<open>main_mute\<close> first and then the floor; above
  it, the fader first and the unmute only after the fader accepted.
\<close>

definition land_events :: "rat \<Rightarrow> rat \<Rightarrow> bool \<Rightarrow> event list \<Rightarrow> bool" where
  "land_events fl db r es \<longleftrightarrow>
     (\<exists>fs. (\<forall>e \<in> set fs. \<exists>ok. e = Fader (fader_clamp db) ok) \<and>
       (if main_mute_for_db fl db then es = MainMute True r # fs
        else es = fs \<and> \<not> r \<or> es = fs @ [MainMute False r]))"

lemma emits_land_level: "emits (land_events (d_floor d) db) (land_level d db)"
proof (cases "main_mute_for_db (d_floor d) db")
  case True
  have "emits (land_events (d_floor d) db)
      (do { mute_ok \<leftarrow> write_main_mute d True; _ \<leftarrow> declare_household d db; ret mute_ok })"
  proof (rule emits_bind [OF emits_write_main_mute])
    show "emits (\<lambda>r es. r = a \<and> (\<forall>e \<in> set es. \<exists>ok. e = Fader (fader_clamp db) ok))
        (do { _ \<leftarrow> declare_household d db; ret a })" for a :: bool
      by (rule emits_bind [OF emits_declare, where R' = "\<lambda>_ r es. r = a \<and> es = []"])
        (auto simp: emits_def)
  qed (auto simp: land_events_def True)
  then show ?thesis by (simp add: land_level_def True)
next
  case False
  have "emits (land_events (d_floor d) db)
      (do { volume_ok \<leftarrow> declare_household d db;
            if \<not> volume_ok then ret False else write_main_mute d False })"
  proof (rule emits_bind [OF emits_declare])
    show "emits (\<lambda>r es. es = [] \<and> \<not> r \<or> es = [MainMute False r])
        (if \<not> a then ret False else write_main_mute d False)" for a
      using emits_write_main_mute [of False d] by (auto simp: emits_def)
  qed (auto simp: land_events_def False)
  then show ?thesis by (simp add: land_level_def False)
qed

definition carrier_events :: "rat \<Rightarrow> rat \<Rightarrow> bool \<Rightarrow> event list \<Rightarrow> bool" where
  "carrier_events fl db r es \<longleftrightarrow> (\<exists>fs. land_events fl db r fs \<and> es = fs @ [Carrier db r])"

lemma emits_write_db_with_mute: "emits (carrier_events (d_floor d) db) (write_db_with_mute d db)"
  unfolding write_db_with_mute_def
  by (rule emits_bind [OF emits_land_level, where R' = "\<lambda>a r es. r = a \<and> es = [Carrier db a]"])
    (auto simp: emits_def carrier_events_def)

section \<open>The invariant of a coordinator\<close>

text \<open>
  What every reachable event satisfies: files that load, faders between -150 and 0 dB, and levels of
  0..100 pushed to push-mode renderers only.
\<close>

fun sound_event :: "event \<Rightarrow> bool" where
  "sound_event (Fader x _) = (-150 \<le> x \<and> x \<le> 0)"
| "sound_event (Push src level _) = (volume_mode src = PUSH \<and> 0 \<le> level \<and> level \<le> 100)"
| "sound_event (Context _ canonical _) = (canonical \<le> 0)"
| "sound_event (Saved m) = (\<forall>t. \<exists>r. load_file t (FObject m) = Ret (Some r))"
| "sound_event _ = True"

definition intent_ok :: "('w, 'z) coord_scheme \<Rightarrow> bool" where
  "intent_ok s \<longleftrightarrow> 0 \<le> co_level s \<and> co_level s \<le> 100 \<and>
     (\<forall>p \<in> set_option (co_pre_mute s). 0 \<le> p \<and> p \<le> 100)"

definition coord_inv :: "('w, 'z) coord_scheme \<Rightarrow> bool" where
  "coord_inv s \<longleftrightarrow> memory_inv s \<and> ledger_inv s \<and> intent_ok s \<and> (\<forall>e \<in> set (trace s). sound_event e)"

lemma intent_ok_low [simp]:
  "intent_ok (s\<lparr>world := w\<rparr>) = intent_ok s" "intent_ok (s\<lparr>shared := h\<rparr>) = intent_ok s"
  "intent_ok (s\<lparr>trace := tr\<rparr>) = intent_ok s" "intent_ok (s\<lparr>mem_db := x\<rparr>) = intent_ok s"
  "intent_ok (s\<lparr>mem_level := l\<rparr>) = intent_ok s" "intent_ok (s\<lparr>mem_pre_mute := l\<rparr>) = intent_ok s"
  "intent_ok (s\<lparr>mem_token := t\<rparr>) = intent_ok s" "intent_ok (s\<lparr>mem_last_used := u\<rparr>) = intent_ok s"
  "intent_ok (remember r s) = intent_ok s" "intent_ok (s\<lparr>co_token := t\<rparr>) = intent_ok s"
  by (simp_all add: intent_ok_def remember_def)

lemma memory_inv_high [simp]:
  "memory_inv (s\<lparr>co_level := l\<rparr>) = memory_inv s" "memory_inv (s\<lparr>co_pre_mute := p\<rparr>) = memory_inv s"
  "memory_inv (s\<lparr>co_token := t\<rparr>) = memory_inv s" "memory_inv (s\<lparr>co_confirmed := c\<rparr>) = memory_inv s"
  by (simp_all add: memory_inv_def)

lemma coord_inv_frame [simp]:
  "coord_inv (s\<lparr>world := w\<rparr>) = coord_inv s" "coord_inv (s\<lparr>shared := h\<rparr>) = coord_inv s"
  "coord_inv (s\<lparr>world := w, shared := h\<rparr>) = coord_inv s"
  "coord_inv (s\<lparr>co_confirmed := c\<rparr>) = coord_inv s"
  "coord_inv (s\<lparr>co_outbound := out\<rparr>) = coord_inv s"
  "coord_inv (s\<lparr>co_deferred := q\<rparr>) = coord_inv s"
  "coord_inv (s\<lparr>co_write_failures := n\<rparr>) = coord_inv s"
  "coord_inv (s\<lparr>co_probe_failures := n\<rparr>) = coord_inv s"
  "coord_inv (s\<lparr>co_seen_handoff := i\<rparr>) = coord_inv s"
  "coord_inv (s\<lparr>co_token := tok\<rparr>) = coord_inv s"
  "coord_inv (s\<lparr>mem_last_used := u\<rparr>) = coord_inv s"
  by (simp_all add: coord_inv_def intent_ok_def memory_inv_def)

lemma intent_ok_frame: "pers.more s' = pers.more s \<Longrightarrow> intent_ok s' = intent_ok (s :: ('w, 'z) coord_scheme)"
  by (cases s; cases s') (simp add: intent_ok_def)

lemma memory_inv_frame: "memory s' = memory s \<Longrightarrow> memory_inv s' = memory_inv s"
  by (simp add: memory_def memory_inv_def)

text \<open>A program of the owner's layer preserves the invariant if its events are sound.\<close>

lemma pres_coord_owner:
  fixes m :: "(('w, 'z) coord_scheme, 'a) state"
  assumes "keeps pers.more m" "keeps memory m" "pres (\<lambda>s. ledger_inv s) m"
    and "emits_only sound_event m"
  shows "pres coord_inv m"
proof (rule pres_wpI)
  fix s :: "('w, 'z) coord_scheme"
  assume inv: "coord_inv s"
  have "wp m (\<lambda>_ s'. pers.more s' = pers.more s) s" "wp m (\<lambda>_ s'. memory s' = memory s) s"
    "wp m (\<lambda>_ s'. ledger_inv s') s"
    "wp m (\<lambda>_ s'. \<exists>es. trace s' = trace s @ es \<and> (\<forall>e \<in> set es. sound_event e)) s"
    using inv by (auto intro: wp_keeps assms(1,2) wp_pres [OF assms(3)] wp_emits [OF assms(4)] simp: coord_inv_def)
  then show "wp m (\<lambda>_ s'. coord_inv s') s"
    using inv intent_ok_frame [of _ s] memory_inv_frame [of _ s]
    by (auto simp: wp_def coord_inv_def)
qed

lemma pres_coord_await [pres_intros]: "pres coord_inv (await d f)"
  by (simp add: pres_def run_await)

lemma pres_coord_sync [pres_intros]: "pres coord_inv (sync f)"
  by (simp add: pres_def run_sync)

lemma pres_coord_emit: "sound_event e \<Longrightarrow> pres coord_inv (emit e)"
  by (auto simp: pres_def coord_inv_def memory_inv_def intent_ok_def)

lemma pres_coord_modify: "(\<And>s. coord_inv s \<Longrightarrow> coord_inv (f s)) \<Longrightarrow> pres coord_inv (modify f)"
  by (rule pres_modify)

lemma fader_events_sound: "(\<forall>e \<in> set es. \<exists>ok. e = Fader (fader_clamp x) ok) \<Longrightarrow> \<forall>e \<in> set es. sound_event e"
  using fader_clamp_bounds [of x] by auto

lemma pres_ledger_cam: "keeps claims m \<Longrightarrow> keeps next_token m \<Longrightarrow> pres (\<lambda>s. ledger_inv s) m"
  by (simp add: pres_def keeps_def)

lemma pres_coord_main_mute [pres_intros]: "pres coord_inv (write_main_mute d b)"
  by (intro pres_coord_owner pres_ledger_cam keeps_write_main_mute emits_mono [OF emits_write_main_mute])
    simp_all

lemma pres_ledger_declare: "pres (\<lambda>s. ledger_inv s) (declare_household d db)"
  unfolding declare_household_def
  by (intro pres_intros pres_wpI) (rule wp_mono [OF carrier.wp_declare], simp_all)

lemma pres_coord_carrier [pres_intros]: "pres coord_inv (write_db_with_mute d db)"
proof -
  have "pres coord_inv (declare_household d db)"
    by (intro pres_coord_owner keeps_declare_household pres_ledger_declare emits_mono [OF emits_declare]
        fader_events_sound owner_stable_upper)
  then show ?thesis
    unfolding write_db_with_mute_def land_level_def by (intro pres_intros pres_coord_emit) simp_all
qed

lemma pres_coord_read_carrier [pres_intros]: "pres coord_inv (read_volume_and_mute d)"
  by (intro pres_coord_owner pres_ledger_cam keeps_read_volume_and_mute emits_silent keeps_intros)
    simp_all

lemma remember_simps [simp]: "claims (remember r s) = claims s" "next_token (remember r s) = next_token s"
  by (simp_all add: remember_def)

lemma pres_coord_load [pres_intros]: "pres coord_inv (load d)"
  unfolding load_def
  by (intro pres_intros pres_modify)
    (auto simp: coord_inv_def dest!: load_file_ok intro: memory_inv_remember)

lemma pres_coord_state_update [pres_intros]: "pres coord_inv (state_update d)"
  unfolding state_update_def by (intro pres_intros)

lemma sound_payload:
  assumes "memory_inv s" "mem_db s = Some db"
  shows "sound_event (Saved (write_payload now db (mem_level s) u (mem_pre_mute s) (mem_token s)))"
  using readable_payload [OF assms] by simp

lemma pres_coord_write_full [pres_intros]: "pres coord_inv (write_full d)"
  by (rule pres_wpI)
    (auto simp: write_full_def Let_def wp_simps coord_inv_def
      simp del: sound_event.simps intro!: sound_payload split: option.splits)

lemma pres_coord_save_now:
  assumes "-61 \<le> db" "db \<le> 1"
  shows "pres coord_inv (save_now d db)"
  unfolding save_now_def using assms
  by (intro pres_intros pres_modify) (auto simp: coord_inv_def memory_inv_def memory_ok_def split: option.splits)

lemma pres_coord_save_mute_state [pres_intros]: "pres coord_inv (save_mute_state d level tok)"
  unfolding save_mute_state_def
  by (intro pres_intros pres_modify)
    (auto simp: coord_inv_def memory_inv_def memory_ok_def intent_ok_def split: option.splits if_splits)

lemma level_db_savable: "valid_floor_db fl \<Longrightarrow> -61 \<le> level_db fl l \<and> level_db fl l \<le> 1"
  using level_db_bounds [of fl l] valid_floor_neg [of fl] by linarith

lemma pres_coord_save_level [pres_intros]:
  assumes "valid_floor_db (d_floor d)"
  shows "pres coord_inv (save_listening_level d pct mark)"
  unfolding save_listening_level_def
  by (intro pres_intros pres_modify)
    (use level_db_savable [OF assms] in \<open>auto simp: coord_inv_def memory_inv_def memory_ok_def
      intent_ok_def split: option.splits\<close>)

lemma intent_ok_from_record:
  "record_ok r \<Longrightarrow> intent_ok (s\<lparr>co_level := vs_level (state_from_record (Some r)),
      co_pre_mute := vs_pre_mute (state_from_record (Some r))\<rparr>)"
  using state_from_record_level [of "Some r"]
  by (auto simp: intent_ok_def state_from_record_def record_ok_def)

lemma pres_coord_refresh [pres_intros]: "pres coord_inv (refresh_from_disk d)"
  by (rule pres_wpI)
    (auto simp: refresh_from_disk_def load_def wp_simps Let_def coord_inv_def
      dest!: load_file_ok intro!: memory_inv_remember intent_ok_from_record
      split: outcome.splits option.splits)

lemma pres_coord_volume_state [pres_intros]: "pres coord_inv (get_volume_state d)"
  unfolding get_volume_state_def by (intro pres_intros)

lemma pres_coord_fresh_level [pres_intros]: "pres coord_inv (fresh_level d)"
  unfolding fresh_level_def by (intro pres_intros)

lemma pres_coord_persisted_db [pres_intros]: "pres coord_inv (persisted_main_volume_db d)"
  unfolding persisted_main_volume_db_def by (intro pres_intros)

lemma pres_coord_audible [pres_intros]: "pres coord_inv (audible_source d)"
  unfolding audible_source_def selected_source_def by (intro pres_intros)

lemma pres_coord_last_handoff [pres_intros]: "pres coord_inv (last_handoff d)"
  unfolding last_handoff_def by (intro pres_intros)

lemma pres_coord_stamp [pres_intros]: "pres coord_inv (stamp_outbound d src)"
  unfolding stamp_outbound_def by (intro pres_intros pres_modify) simp

lemma pres_coord_push [pres_intros]:
  assumes "0 \<le> level" "level \<le> 100"
  shows "pres coord_inv (push_source d src level)"
proof -
  have accounts: "pres coord_inv (push_to_accounts d pct as)" for pct as
    by (induction as) (auto intro!: pres_intros)
  show ?thesis
    unfolding push_source_def push_spotify_volume_def push_bluetooth_volume_def
    by (intro pres_intros accounts pres_coord_emit) (simp_all add: assms volume_mode_PUSH_iff)
qed

lemma pres_coord_set_camilla_db:
  "-61 \<le> db \<Longrightarrow> db \<le> 1 \<Longrightarrow> pres coord_inv (set_camilla_db d db persist)"
  unfolding set_camilla_db_def by (intro pres_intros pres_coord_save_now)

lemma pres_coord_set_camilla_level [pres_intros]:
  "valid_floor_db (d_floor d) \<Longrightarrow> pres coord_inv (set_camilla_db d (level_db (d_floor d) level) persist)"
  using level_db_savable [of "d_floor d" level] by (intro pres_coord_set_camilla_db) simp_all

lemma pres_coord_set_camilla [pres_intros]:
  "valid_floor_db (d_floor d) \<Longrightarrow> pres coord_inv (set_camilla d level)"
  unfolding set_camilla_def Let_def
  using level_db_savable [of "d_floor d" level] by (intro pres_intros pres_coord_save_now) simp_all

lemma pres_coord_mutation [pres_intros]: "pres coord_inv body \<Longrightarrow> pres coord_inv (mutation d refresh body)"
  unfolding mutation_def by (intro pres_intros)

section \<open>A concrete speaker\<close>

text \<open>
  The demo world of \<open>Camilla\<close> behind every door of the stack: AirPlay playing according to mux, a
  Spotify account and a Bluetooth transport that accept every level, no measurement, no DSP writer,
  and a fan-in that takes every context.
\<close>

definition demo_doors :: "demo vol_doors" where
  "demo_doors = cam_doors.extend (cam_doors.truncate demo_cam_doors)
    \<lparr>d_oplock = \<lambda>w. (True, w),
     d_mux_status = \<lambda>w. (Some \<lparr>mv_active_source = Some ''airplay'', mv_last_handoff = None\<rparr>, w),
     d_renderers = \<lambda>w. (Some (\<lambda>s. s = AIRPLAY), w),
     d_router = True,
     d_spotify_matches = \<lambda>w. ([0], w),
     d_spotify_volume = \<lambda>_ _ w. (True, w),
     d_bt_path = \<lambda>w. (Some ''/dev0'', w),
     d_bt_volume = \<lambda>_ _ w. (True, w),
     d_hold = \<lambda>w. (HoldDict False, w),
     d_graph_held = \<lambda>w. Ret (Some False),
     d_publisher = Some (\<lambda>_ w. (Some True, w)),
     d_boottime = \<lambda>w. 0,
     d_handoff_settle = 9 / 20,
     d_push_settle = 3 / 4\<rparr>"

definition demo_coord :: "demo coord" where
  "demo_coord = \<lparr>world = \<lparr>dm_fader = -20, dm_mute = False, dm_now = 0\<rparr>,
     shared = demo_shared\<lparr>sh_file := demo_file\<rparr>, trace = [], failed_at = None,
     abandon_logged = False, claims = [], next_token = 1, mem_db = None, mem_level = None,
     mem_last_used = None, mem_pre_mute = None, mem_token = None, co_level = 50,
     co_pre_mute = None, co_token = None, co_confirmed = Map.empty, co_outbound = Map.empty,
     co_deferred = None, co_write_failures = 0, co_probe_failures = 0, co_seen_handoff = None\<rparr>"

lemma demo_doors_simps2 [simp]:
  "d_floor demo_doors = -50" "d_env demo_doors = (\<lambda>_ h. h)" "d_mono demo_doors = dm_now"
  "d_utc demo_doors = dm_now" "d_uuid demo_doors = (\<lambda>w. (''token'', w))"
  "d_sleep demo_doors = (\<lambda>t w. w\<lparr>dm_now := dm_now w + t\<rparr>)" "d_write_ok demo_doors = (\<lambda>w. (True, w))"
  "d_main_volume demo_doors = (\<lambda>w. (AOk (dm_fader w), w))"
  "d_volume_and_mute demo_doors = (\<lambda>w. (AOk (dm_fader w, dm_mute w), w))"
  "d_set_main_volume demo_doors = (\<lambda>x w. (AOk (), w\<lparr>dm_fader := x\<rparr>))"
  "d_set_main_mute demo_doors = (\<lambda>b w. (AOk (), w\<lparr>dm_mute := b\<rparr>))"
  "d_oplock demo_doors = (\<lambda>w. (True, w))"
  "d_mux_status demo_doors =
     (\<lambda>w. (Some \<lparr>mv_active_source = Some ''airplay'', mv_last_handoff = None\<rparr>, w))"
  "d_renderers demo_doors = (\<lambda>w. (Some (\<lambda>s. s = AIRPLAY), w))"
  "d_router demo_doors = True" "d_spotify_matches demo_doors = (\<lambda>w. ([0], w))"
  "d_spotify_volume demo_doors = (\<lambda>_ _ w. (True, w))" "d_bt_path demo_doors = (\<lambda>w. (Some ''/dev0'', w))"
  "d_bt_volume demo_doors = (\<lambda>_ _ w. (True, w))" "d_hold demo_doors = (\<lambda>w. (HoldDict False, w))"
  "d_graph_held demo_doors = (\<lambda>w. Ret (Some False))"
  "d_publisher demo_doors = Some (\<lambda>_ w. (Some True, w))" "d_boottime demo_doors = (\<lambda>w. 0)"
  "d_handoff_settle demo_doors = 9 / 20" "d_push_settle demo_doors = 3 / 4"
  by (simp_all add: demo_doors_def demo_cam_doors_def cam_doors.defs)

lemma demo_floor_valid [simp]: "valid_floor_db (d_floor demo_doors)"
  by (simp add: valid_floor_db_def volume_constants)

lemma demo_doors_undisturbed [simp]: "file_undisturbed demo_doors" "writes_land demo_doors"
  by (simp_all add: file_undisturbed_def writes_land_def)

lemma demo_coord_inv: "coord_inv demo_coord"
  by (simp add: coord_inv_def demo_coord_def memory_inv_def memory_ok_def ledger_ok_def intent_ok_def)

lemma demo_coord_reads: "file_reads demo_coord (Some demo_record)"
  using demo_file_reads by (simp add: file_reads_def demo_pers_def demo_coord_def)

section \<open>Programs that leave the volume file alone\<close>

abbreviation the_file :: "('w, 'z) proc_scheme \<Rightarrow> vfile" where
  "the_file \<equiv> \<lambda>s. sh_file (shared s)"

lemma keeps_file_cam_call: "file_undisturbed d \<Longrightarrow> keeps the_file (cam_call d g)"
  unfolding cam_call_def retry_call_def by (intro keeps_intros keeps_await_file) simp_all

lemma keeps_file_carrier:
  assumes "file_undisturbed d"
  shows "keeps the_file (read_volume_and_mute d)" "keeps the_file (write_main_mute d b)"
    "keeps the_file (declare_household d db)" "keeps the_file (write_db_with_mute d db)"
proof -
  note c = keeps_file_cam_call [OF assms]
  have emit: "keeps the_file (emit e)" for e by (simp add: keeps_def)
  show 1: "keeps the_file (read_volume_and_mute d)" "keeps the_file (write_main_mute d b)" for b
    unfolding read_volume_and_mute_def get_volume_and_mute_def write_main_mute_def set_main_mute_def
    by (intro keeps_intros c emit)+
  have doors: "keeps the_file (write_fader_db d x)" "keeps the_file (read_fader_door d)" for x
    unfolding write_fader_db_def set_volume_db_def read_fader_door_def get_volume_db_def
    by (intro keeps_intros c emit)+
  show 2: "keeps the_file (declare_household d db)"
    unfolding declare_household_def declare_household_level_db_def update_claims_def take_token_def
      establish_def apply_level_def settle_def
    by (intro keeps_intros doors keeps_await_file assms) simp_all
  show "keeps the_file (write_db_with_mute d db)"
    unfolding write_db_with_mute_def land_level_def by (intro keeps_intros 1 2 emit)
qed

lemma keeps_file_load: "keeps the_file (load d)"
  unfolding load_def by (intro keeps_intros) (simp add: remember_def)

lemma keeps_file_refresh: "keeps the_file (refresh_from_disk d)"
  unfolding refresh_from_disk_def Let_def by (intro keeps_intros keeps_file_load) simp

lemma keeps_file_audible: "file_undisturbed d \<Longrightarrow> keeps the_file (audible_source d)"
  unfolding audible_source_def selected_source_def by (intro keeps_intros keeps_await_file)

end
