(* ===== verification/Volume_Publication.thy ===== *)
theory Volume_Publication
  imports Volume_Core
begin

text \<open>
  \<open>VolumeContextPublication\<close> (\<open>jasper/audio_control/assistant_volume.py\<close>): the absolute volume facts
  fan-in mixes the assistant against. A snapshot is coherent: the record is read before and after the
  slow reads, at most three times. The publisher is a door; None is one of the errors the code logs
  and drops, False a route with no mix stage.
\<close>

section \<open>The context\<close>

text \<open>\<open>tts_envelope_lufs_for_level\<close> of \<open>jasper/runtime_config/assistant_loudness.py\<close>, on a number.\<close>

definition tts_envelope_lufs_for_level :: "rat \<Rightarrow> rat" where
  "tts_envelope_lufs_for_level level = (let pct = max 0 (min 100 level) in -54 + 26 * pct / 100)"

definition record_key :: "volume_record option \<Rightarrow> int option \<times> int option \<times> rat option" where
  "record_key record =
     (case record of
        None \<Rightarrow> (None, None, None)
      | Some r \<Rightarrow> (listening_level r, pre_mute_level r, Some (main_volume_db r)))"

definition publication_state :: "volume_record option \<Rightarrow> ('w, 'z) coord_scheme \<Rightarrow> volume_state" where
  "publication_state record s =
     (case record of
        None \<Rightarrow> \<lparr>vs_level = co_level s, vs_pre_mute = co_pre_mute s, vs_token = None\<rparr>
      | Some r \<Rightarrow> state_from_record (Some r))"

text \<open>One attempt of \<open>snapshot\<close>; None: the record moved meanwhile.\<close>

definition snapshot_attempt ::
  "('w, 'y) vol_doors_scheme \<Rightarrow> (('w, 'z) coord_scheme, volume_context option) state" where
  "snapshot_attempt d = do {
     yield d;
     stamp \<leftarrow> peek (d_boottime d);
     before \<leftarrow> load d;
     v \<leftarrow> gets (publication_state before);
     (current_db, current_mute) \<leftarrow> read_volume_and_mute d;
     downstream \<leftarrow> (case current_db of
         Some db \<Rightarrow> ret db
       | None \<Rightarrow> do {
           source \<leftarrow> active_source d;
           ret (canonical_target_db (d_floor d) (effective_percent v) (volume_mode source)
                  (map_option main_volume_db before))
         });
     yield d;
     after \<leftarrow> load d;
     ret (if record_key before = record_key after
          then Some \<lparr>vc_canonical_db = level_db (d_floor d) (vs_level v),
                     vc_downstream_db = downstream,
                     vc_envelope_lufs = tts_envelope_lufs_for_level (of_int (vs_level v)),
                     vc_muted = (vs_muted v \<or> current_mute = Some True),
                     vc_stamp = stamp\<rparr>
          else None)
   }"

text \<open>The answer after three attempts whose record moved: from the file alone.\<close>

definition snapshot_degraded ::
  "('w, 'y) vol_doors_scheme \<Rightarrow> (('w, 'z) coord_scheme, volume_context) state" where
  "snapshot_degraded d = do {
     yield d;
     stamp \<leftarrow> peek (d_boottime d);
     latest \<leftarrow> load d;
     v \<leftarrow> gets (publication_state latest);
     ret \<lparr>vc_canonical_db = level_db (d_floor d) (vs_level v),
          vc_downstream_db = (case latest of Some r \<Rightarrow> main_volume_db r
                              | None \<Rightarrow> level_db (d_floor d) (effective_percent v)),
          vc_envelope_lufs = tts_envelope_lufs_for_level (of_int (vs_level v)),
          vc_muted = vs_muted v, vc_stamp = stamp\<rparr>
   }"

fun snapshot_loop ::
  "('w, 'y) vol_doors_scheme \<Rightarrow> nat \<Rightarrow> (('w, 'z) coord_scheme, volume_context) state" where
  "snapshot_loop d 0 = snapshot_degraded d"
| "snapshot_loop d (Suc n) = do {
     c \<leftarrow> snapshot_attempt d;
     case c of Some context \<Rightarrow> ret context | None \<Rightarrow> snapshot_loop d n
   }"

definition snapshot ::
  "('w, 'y) vol_doors_scheme \<Rightarrow> (('w, 'z) coord_scheme, volume_context) state" where
  "snapshot d = snapshot_loop d 3"

section \<open>Publishing\<close>

definition publish_context ::
  "('w, 'y) vol_doors_scheme \<Rightarrow> (volume_context \<Rightarrow> 'w \<Rightarrow> bool option \<times> 'w) \<Rightarrow> volume_context \<Rightarrow>
   (('w, 'z) coord_scheme, unit) state" where
  "publish_context d publisher context = do {
     sent \<leftarrow> await d (publisher context);
     onlyif (sent = Some True)
       (emit (Context (vc_muted context) (vc_canonical_db context) (vc_downstream_db context)))
   }"

definition publish_intent ::
  "('w, 'y) vol_doors_scheme \<Rightarrow> source \<Rightarrow> int \<Rightarrow> bool \<Rightarrow> (('w, 'z) coord_scheme, unit) state" where
  "publish_intent d source level muted =
     (case d_publisher d of
        None \<Rightarrow> ret ()
      | Some publisher \<Rightarrow>
          if \<not> muted \<and> volume_mode source \<noteq> PUSH then ret ()
          else do {
            stamp \<leftarrow> peek (d_boottime d);
            (current_db, current_mute) \<leftarrow>
              (if muted then ret (None, None) else read_volume_and_mute d);
            downstream \<leftarrow> (case current_db of
                Some db \<Rightarrow> ret db
              | None \<Rightarrow> do {
                  record \<leftarrow> load d;
                  ret (case record of Some r \<Rightarrow> main_volume_db r | None \<Rightarrow> 0)
                });
            publish_context d publisher
              \<lparr>vc_canonical_db = level_db (d_floor d) level, vc_downstream_db = downstream,
               vc_envelope_lufs = tts_envelope_lufs_for_level (of_int level),
               vc_muted = (muted \<or> current_mute = Some True), vc_stamp = stamp\<rparr>
          })"

definition publish_volume_context ::
  "('w, 'y) vol_doors_scheme \<Rightarrow> (('w, 'z) coord_scheme, unit) state" where
  "publish_volume_context d =
     (case d_publisher d of
        None \<Rightarrow> ret ()
      | Some publisher \<Rightarrow> do { context \<leftarrow> snapshot d; publish_context d publisher context })"

section \<open>Coherence\<close>

definition file_record :: "('w, 'y) doors_scheme \<Rightarrow> ('w, 'z) proc_scheme \<Rightarrow> volume_record option" where
  "file_record d s = (case load_file (d_utc d (world s)) (sh_file (shared s)) of Ret r \<Rightarrow> r | _ \<Rightarrow> None)"

text \<open>A context that tells the truth about a record: its level and envelope, and never less mute.\<close>

definition truthful :: "rat \<Rightarrow> volume_record \<Rightarrow> volume_context \<Rightarrow> bool" where
  "truthful fl r c \<longleftrightarrow>
     vc_canonical_db c = level_db fl (vs_level (state_from_record (Some r))) \<and>
     vc_envelope_lufs c = tts_envelope_lufs_for_level (of_int (vs_level (state_from_record (Some r)))) \<and>
     (vs_muted (state_from_record (Some r)) \<longrightarrow> vc_muted c)"

lemma wp_load:
  "wp (load d) Q s = Q (file_record d s)
     (case file_record d s of None \<Rightarrow> s | Some r \<Rightarrow> remember r s)"
  by (auto simp: load_def wp_simps file_record_def split: outcome.splits option.splits)

lemma file_record_remember [simp]: "file_record d (remember r s) = file_record d s"
  by (simp add: file_record_def remember_def)

lemma record_key_state:
  assumes "record_key before = record_key (Some r)"
  shows "\<exists>b. before = Some b \<and> vs_level (state_from_record (Some b)) = vs_level (state_from_record (Some r)) \<and>
    vs_muted (state_from_record (Some b)) = vs_muted (state_from_record (Some r))"
  using assms
  by (cases before)
    (auto simp: record_key_def state_from_record_def vs_muted_def effective_percent_def)

lemma wp_snapshot_attempt:
  "wp (snapshot_attempt d) (\<lambda>c s'. \<forall>ctx r. c = Some ctx \<longrightarrow> file_record d s' = Some r \<longrightarrow>
     truthful (d_floor d) r ctx) s"
proof -
  let ?P = "\<lambda>c s'. \<forall>ctx r. c = Some ctx \<longrightarrow> file_record d s' = Some r \<longrightarrow> truthful (d_floor d) r ctx"
  have tail: "wp (do { yield d; after \<leftarrow> load d;
      ret (if record_key before = record_key after
           then Some \<lparr>vc_canonical_db = level_db (d_floor d) (vs_level (publication_state before s0)),
                     vc_downstream_db = down,
                     vc_envelope_lufs = tts_envelope_lufs_for_level
                       (of_int (vs_level (publication_state before s0))),
                     vc_muted = (vs_muted (publication_state before s0) \<or> m),
                     vc_stamp = stamp\<rparr>
           else None) }) ?P s1" for before s0 down m stamp s1
    by (auto simp: wp_simps wp_load truthful_def publication_state_def dest!: record_key_state
        split: option.splits)
  show ?thesis
    unfolding snapshot_attempt_def
    apply (simp only: wp_bind wp_await wp_peek wp_load wp_gets)
    apply (rule wp_any)
    apply (simp only: wp_case_prod split: prod.split, intro allI impI, subst wp_bind)
    apply (rule wp_any)
    apply (rule tail)
    done
qed

lemma wp_snapshot_loop:
  "wp (snapshot_loop d n) (\<lambda>ctx s'. \<forall>r. file_record d s' = Some r \<longrightarrow> truthful (d_floor d) r ctx) s"
proof (induction n arbitrary: s)
  case 0
  show ?case
    by (auto simp: snapshot_degraded_def wp_simps wp_load truthful_def publication_state_def
        split: option.splits)
next
  case (Suc n)
  show ?case
    by (simp only: snapshot_loop.simps wp_bind, rule wp_mono [OF wp_snapshot_attempt])
      (auto simp: wp_simps Suc.IH split: option.splits)
qed

text \<open>
  The context fan-in is given is coherent. Whatever other daemons write while the carrier and the
  source are being read, the snapshot's level and assistant envelope are those of the record that is
  on disk when it is taken, and it is muted whenever that record is.
\<close>

theorem snapshot_is_truthful:
  "wp (snapshot d) (\<lambda>ctx s'. \<forall>r. file_record d s' = Some r \<longrightarrow> truthful (d_floor d) r ctx) s"
  unfolding snapshot_def by (rule wp_snapshot_loop)

lemma keeps_file_snapshot: "file_undisturbed d \<Longrightarrow> keeps the_file (snapshot d)"
proof -
  assume und: "file_undisturbed d"
  have "keeps the_file (snapshot_loop d n)" for n
    by (induction n)
      (auto simp: snapshot_degraded_def snapshot_attempt_def intro!: keeps_intros keeps_await_file
        keeps_file_load keeps_file_carrier keeps_file_audible und)
  then show ?thesis by (simp add: snapshot_def)
qed

lemma snapshot_is_truthful_witness:
  "wp (snapshot demo_doors) (\<lambda>ctx s'. file_record demo_doors s' = Some demo_record \<and>
     truthful (-50) demo_record ctx) demo_coord"
proof (rule wpI)
  fix ctx s'
  assume run: "run_state (snapshot demo_doors) demo_coord = (ctx, s')"
  have "the_file s' = the_file demo_coord"
    by (rule keepsD [OF keeps_file_snapshot run]) simp
  then have "file_record demo_doors s' = Some demo_record"
    using demo_coord_reads by (simp add: file_record_def file_reads_def)
  then show "file_record demo_doors s' = Some demo_record \<and> truthful (-50) demo_record ctx"
    using wpD [OF snapshot_is_truthful run] by simp
qed

section \<open>Preservation of the coordinator's invariant\<close>

lemma snapshot_nonpositive:
  assumes "valid_floor_db (d_floor d)"
  shows "wp (snapshot_loop d n) (\<lambda>ctx _. vc_canonical_db ctx \<le> 0) s"
proof (induction n arbitrary: s)
  case 0
  show ?case
    using level_db_bounds [OF assms] by (simp add: snapshot_degraded_def wp_simps wp_load)
next
  case (Suc n)
  have "wp (snapshot_attempt d) (\<lambda>c _. \<forall>ctx. c = Some ctx \<longrightarrow> vc_canonical_db ctx \<le> 0) s" for s
    unfolding snapshot_attempt_def
    by (intro wp_bind_any, simp add: wp_case_prod split: prod.split, intro allI impI wp_bind_any)
      (auto simp: wp_return level_db_bounds [OF assms])
  then show ?case
    by (simp only: snapshot_loop.simps wp_bind, rule wp_mono) (auto simp: wp_simps Suc.IH split: option.splits)
qed

lemma pres_coord_snapshot [pres_intros]: "pres coord_inv (snapshot d)"
proof -
  have "pres coord_inv (snapshot_loop d n)" for n
    by (induction n) (auto simp: snapshot_degraded_def snapshot_attempt_def intro!: pres_intros)
  then show ?thesis by (simp add: snapshot_def)
qed

lemma pres_coord_publish_context:
  "vc_canonical_db ctx \<le> 0 \<Longrightarrow> pres coord_inv (publish_context d p ctx)"
  unfolding publish_context_def by (intro pres_intros pres_coord_emit) simp

lemma pres_coord_publish [pres_intros]:
  "valid_floor_db (d_floor d) \<Longrightarrow> pres coord_inv (publish_volume_context d)"
  unfolding publish_volume_context_def snapshot_def
  by (intro pres_intros pres_bind_result [OF pres_coord_snapshot [unfolded snapshot_def] snapshot_nonpositive]
      pres_coord_publish_context)

lemma pres_coord_publish_intent [pres_intros]:
  "valid_floor_db (d_floor d) \<Longrightarrow> pres coord_inv (publish_intent d src level muted)"
  unfolding publish_intent_def
  by (intro pres_intros pres_coord_publish_context) (simp add: level_db_bounds)

end
