(* ===== verification/Volume_Handoff.thy ===== *)
theory Volume_Handoff
  imports Volume_Publication
begin

text \<open>
  \<open>VolumeHandoff\<close> (\<open>jasper/audio_control/volume_handoff.py\<close>): preparing, finishing and undoing a source
  transition, the push-volume guards, and the observer's transition. The caller (mux) holds the volume
  lease around prepare, lane selection and finalize or abort.
\<close>

section \<open>The preparation record\<close>

record source_handoff =
  ho_prev :: source
  ho_current :: source
  ho_reason :: string
  ho_level :: int
  ho_guard_db :: "rat option"
  ho_camilla_before_db :: "rat option"
  ho_push_ok :: "bool option"
  ho_camilla_guarded :: bool
  ho_settled_ms :: int
  ho_result :: string
  ho_detail :: string

text \<open>\<open>prev_mode\<close> and \<open>current_mode\<close> are always the modes of the two sources.\<close>

abbreviation ho_prev_mode :: "source_handoff \<Rightarrow> volume_mode" where
  "ho_prev_mode h \<equiv> volume_mode (ho_prev h)"

abbreviation ho_current_mode :: "source_handoff \<Rightarrow> volume_mode" where
  "ho_current_mode h \<equiv> volume_mode (ho_current h)"

definition ho_ok :: "source_handoff \<Rightarrow> bool" where
  "ho_ok h \<longleftrightarrow> ho_result h \<in> {''ok'', ''degraded_safe'', ''noop''}"

section \<open>Guards and push confirmations\<close>

definition guard_camilla_after_push_failure ::
  "('w, 'y) vol_doors_scheme \<Rightarrow> int \<Rightarrow> (('w, 'z) coord_scheme, bool) state" where
  "guard_camilla_after_push_failure d level = set_camilla_db d (level_db (d_floor d) level) True"

definition clear_confirmed_push_guard ::
  "('w, 'y) vol_doors_scheme \<Rightarrow> source \<Rightarrow> (('w, 'z) coord_scheme, bool) state" where
  "clear_confirmed_push_guard d source =
     (if volume_mode source \<noteq> PUSH then ret False
      else do {
        previous_db \<leftarrow> persisted_main_volume_db d;
        (current_db, current_mute) \<leftarrow> read_volume_and_mute d;
        if \<not> (guard_in_effect previous_db \<or> guard_in_effect current_db) \<and> current_mute \<noteq> Some True
        then ret False
        else set_camilla_db d 0 True
      })"

definition confirm_push_mode_carrier_with_mutation ::
  "('w, 'y) vol_doors_scheme \<Rightarrow> source \<Rightarrow> int \<Rightarrow> bool \<Rightarrow> (('w, 'z) coord_scheme, bool \<times> bool) state" where
  "confirm_push_mode_carrier_with_mutation d source level include_live_guard =
     (if volume_mode source \<noteq> PUSH then ret (False, False)
      else if main_mute_for_level level then do {
        ok \<leftarrow> set_camilla_db d (percent_to_db (d_floor d) 0) True;
        ret (ok, ok)
      }
      else do {
        (current_db, current_mute) \<leftarrow> read_volume_and_mute d;
        previous_db \<leftarrow> persisted_main_volume_db d;
        if \<not> (current_mute = Some True \<or> include_live_guard \<and> guard_in_effect current_db \<or>
              guard_in_effect previous_db)
        then ret (True, False)
        else do {
          cleared \<leftarrow> clear_confirmed_push_guard d source;
          ret (cleared, cleared)
        }
      })"

definition confirm_push_mode_carrier ::
  "('w, 'y) vol_doors_scheme \<Rightarrow> source \<Rightarrow> int \<Rightarrow> bool \<Rightarrow> (('w, 'z) coord_scheme, bool) state" where
  "confirm_push_mode_carrier d source level include_live_guard = do {
     (ok, _) \<leftarrow> confirm_push_mode_carrier_with_mutation d source level include_live_guard;
     ret ok
   }"

text \<open>None: the push failed and Camilla guards the level instead.\<close>

definition push_or_guard ::
  "('w, 'y) vol_doors_scheme \<Rightarrow> source \<Rightarrow> int \<Rightarrow> (('w, 'z) coord_scheme, bool option) state" where
  "push_or_guard d source level = do {
     pushed \<leftarrow> push_source d source level;
     if pushed then do {
       ok \<leftarrow> confirm_push_mode_carrier d source level False;
       ret (Some ok)
     }
     else do {
       _ \<leftarrow> guard_camilla_after_push_failure d level;
       ret None
     }
   }"

section \<open>Preparing a transition\<close>

text \<open>
  \<open>_settle_handoff_guard\<close>: wait for Camilla's ramp; if the level was lowered meanwhile, lower the guard
  and wait again, at most three times (the \<open>nat\<close> argument counts down from 3). The answer is the
  latest level, the guard, the milliseconds waited and whether the guard caught up.
\<close>

definition settle_wait ::
  "('w, 'y) vol_doors_scheme \<Rightarrow> (('w, 'z) coord_scheme, int) state" where
  "settle_wait d =
     (if max 0 (d_handoff_settle d) > 0 then do {
        sleep_for d (max 0 (d_handoff_settle d));
        ret (py_round (max 0 (d_handoff_settle d) * 1000))
      }
      else ret 0)"

fun settle_handoff_guard ::
  "('w, 'y) vol_doors_scheme \<Rightarrow> nat \<Rightarrow> rat \<Rightarrow> int \<Rightarrow>
   (('w, 'z) coord_scheme, int \<times> rat \<times> int \<times> bool) state" where
  "settle_handoff_guard d n guard_db settled_ms = do {
     waited \<leftarrow> settle_wait d;
     latest_level \<leftarrow> fresh_level d;
     let ms = settled_ms + waited;
     let latest_guard_db = level_db (d_floor d) latest_level;
     if latest_guard_db \<ge> guard_db - RECONCILE_DRIFT_DB then ret (latest_level, guard_db, ms, True)
     else (case n of
         0 \<Rightarrow> ret (latest_level, guard_db, ms, False)
       | Suc m \<Rightarrow> do {
           ok \<leftarrow> set_camilla_db d latest_guard_db True;
           if \<not> ok then ret (latest_level, latest_guard_db, ms, False)
           else settle_handoff_guard d m latest_guard_db ms
         })
   }"

text \<open>The camilla-master half of \<open>prepare_source_handoff\<close>; \<open>h\<close> is the record with its defaults.\<close>

definition prepare_camilla_master ::
  "('w, 'y) vol_doors_scheme \<Rightarrow> source_handoff \<Rightarrow> rat option \<Rightarrow> bool option \<Rightarrow>
   (('w, 'z) coord_scheme, source_handoff) state" where
  "prepare_camilla_master d h camilla_before camilla_before_mute = do {
     let level = ho_level h;
     let guard_db = level_db (d_floor d) level;
     let expected_mute = main_mute_for_level level;
     let mute_drift = (camilla_before_mute \<noteq> None \<and> camilla_before_mute \<noteq> Some expected_mute);
     let needs_guard = (case camilla_before of None \<Rightarrow> True
                        | Some b \<Rightarrow> b > guard_db + RECONCILE_DRIFT_DB \<or> mute_drift);
     if needs_guard then do {
       ok \<leftarrow> set_camilla_db d guard_db True;
       if \<not> ok then ret (h\<lparr>ho_result := ''failed'', ho_detail := ''camilla_guard_failed''\<rparr>)
       else do {
         (level', guard_db', ms, ok') \<leftarrow> settle_handoff_guard d 3 guard_db 0;
         let h' = h\<lparr>ho_level := level', ho_guard_db := Some guard_db', ho_camilla_guarded := True,
                    ho_settled_ms := ms\<rparr>;
         ret (if ok' then h'
              else h'\<lparr>ho_result := ''failed'', ho_detail := ''camilla_guard_catchdown_failed''\<rparr>)
       }
     }
     else do {
       latest_level \<leftarrow> fresh_level d;
       let latest_guard_db = level_db (d_floor d) latest_level;
       if latest_guard_db < guard_db - RECONCILE_DRIFT_DB then do {
         ok \<leftarrow> set_camilla_db d latest_guard_db True;
         if \<not> ok then
           ret (h\<lparr>ho_level := latest_level, ho_guard_db := Some latest_guard_db, ho_result := ''failed'',
                  ho_detail := ''camilla_guard_catchdown_failed''\<rparr>)
         else do {
           (level', guard_db', ms, ok') \<leftarrow> settle_handoff_guard d 3 latest_guard_db 0;
           let h' = h\<lparr>ho_level := level', ho_guard_db := Some guard_db', ho_camilla_guarded := True,
                      ho_settled_ms := ms\<rparr>;
           ret (if ok' then h'
                else h'\<lparr>ho_result := ''failed'', ho_detail := ''camilla_guard_catchdown_failed''\<rparr>)
         }
       }
       else ret (h\<lparr>ho_camilla_guarded := True\<rparr>)
     }
   }"

text \<open>
  The push half: push, push again if the level moved meanwhile (the answer is the level last pushed and
  whether it took), and fall back to a Camilla guard.
\<close>

definition push_latest ::
  "('w, 'y) vol_doors_scheme \<Rightarrow> source \<Rightarrow> int \<Rightarrow> (('w, 'z) coord_scheme, int \<times> bool) state" where
  "push_latest d source level = do {
     push_ok \<leftarrow> push_source d source level;
     if push_ok then do {
       latest_level \<leftarrow> fresh_level d;
       if latest_level \<noteq> level then do {
         again \<leftarrow> push_source d source latest_level;
         ret (latest_level, again)
       }
       else ret (level, True)
     }
     else ret (level, False)
   }"

definition guard_failed_push ::
  "('w, 'y) vol_doors_scheme \<Rightarrow> source_handoff \<Rightarrow> rat \<Rightarrow> (('w, 'z) coord_scheme, source_handoff) state" where
  "guard_failed_push d h guard_db = do {
     ok \<leftarrow> set_camilla_db d guard_db True;
     if \<not> ok then
       ret (h\<lparr>ho_push_ok := Some False, ho_result := ''failed'',
              ho_detail := ''push_failed_and_camilla_guard_failed''\<rparr>)
     else do {
       (level', guard', ms, settle_ok) \<leftarrow> settle_handoff_guard d 3 guard_db 0;
       let h' = h\<lparr>ho_level := level', ho_guard_db := Some guard', ho_push_ok := Some False,
                  ho_camilla_guarded := True, ho_settled_ms := ms\<rparr>;
       ret (if settle_ok
            then h'\<lparr>ho_result := ''degraded_safe'', ho_detail := ''push_volume_failed_camilla_guarded''\<rparr>
            else h'\<lparr>ho_result := ''failed'', ho_detail := ''push_failed_camilla_guard_catchdown_failed''\<rparr>)
     }
   }"

definition prepare_push ::
  "('w, 'y) vol_doors_scheme \<Rightarrow> source_handoff \<Rightarrow> (('w, 'z) coord_scheme, source_handoff) state" where
  "prepare_push d h = do {
     (level, push_ok) \<leftarrow> push_latest d (ho_current h) (ho_level h);
     let guard_db = level_db (d_floor d) level;
     let h' = h\<lparr>ho_level := level, ho_guard_db := Some guard_db\<rparr>;
     if push_ok then ret (h'\<lparr>ho_push_ok := Some True\<rparr>) else guard_failed_push d h' guard_db
   }"

definition prepare_source_handoff ::
  "('w, 'y) vol_doors_scheme \<Rightarrow> source \<Rightarrow> source \<Rightarrow> string \<Rightarrow>
   (('w, 'z) coord_scheme, source_handoff) state" where
  "prepare_source_handoff d prev_source current_source reason = do {
     level \<leftarrow> fresh_level d;
     (camilla_before, camilla_before_mute) \<leftarrow> read_volume_and_mute d;
     let h = \<lparr>ho_prev = prev_source, ho_current = current_source, ho_reason = reason, ho_level = level,
              ho_guard_db = Some (level_db (d_floor d) level), ho_camilla_before_db = camilla_before,
              ho_push_ok = None, ho_camilla_guarded = False, ho_settled_ms = 0, ho_result = ''ok'',
              ho_detail = []\<rparr>;
     if prev_source = current_source then ret (h\<lparr>ho_result := ''noop''\<rparr>)
     else if volume_mode current_source = CAMILLA_MASTER
     then prepare_camilla_master d h camilla_before camilla_before_mute
     else prepare_push d h
   }"

section \<open>Finishing and undoing a transition\<close>

definition push_settle_wait ::
  "('w, 'y) vol_doors_scheme \<Rightarrow> (('w, 'z) coord_scheme, unit) state" where
  "push_settle_wait d =
     onlyif (max 0 (d_push_settle d) > 0) (sleep_for d (max 0 (d_push_settle d)))"

definition finalize_push ::
  "('w, 'y) vol_doors_scheme \<Rightarrow> source_handoff \<Rightarrow> (('w, 'z) coord_scheme, bool) state" where
  "finalize_push d h = do {
     push_settle_wait d;
     latest_level \<leftarrow> fresh_level d;
     let guard_db = level_db (d_floor d) latest_level;
     if latest_level \<noteq> ho_level h then do {
       guard_ok \<leftarrow> (if latest_level < ho_level h then set_camilla_db d guard_db True else ret True);
       if \<not> guard_ok then ret False
       else do {
         push_ok \<leftarrow> push_source d (ho_current h) latest_level;
         if \<not> push_ok then set_camilla_db d guard_db True
         else do {
           push_settle_wait d;
           confirm_push_mode_carrier d (ho_current h) latest_level False
         }
       }
     }
     else confirm_push_mode_carrier d (ho_current h) latest_level False
   }"

definition finalize_source_handoff ::
  "('w, 'y) vol_doors_scheme \<Rightarrow> source_handoff \<Rightarrow> (('w, 'z) coord_scheme, bool) state" where
  "finalize_source_handoff d h =
     (if \<not> ho_ok h then ret False
      else if ho_current_mode h = PUSH then
        (if ho_push_ok h = Some True then finalize_push d h else ret True)
      else do { level \<leftarrow> fresh_level d; set_camilla d level })"

definition abort_source_handoff ::
  "('w, 'y) vol_doors_scheme \<Rightarrow> source_handoff \<Rightarrow> (('w, 'z) coord_scheme, bool) state" where
  "abort_source_handoff d h =
     (if \<not> ho_ok h then ret True
      else do {
        level \<leftarrow> fresh_level d;
        if ho_prev_mode h = PUSH then confirm_push_mode_carrier d (ho_prev h) level False
        else set_camilla d level
      })"

section \<open>The observer's transition\<close>

definition read_mux_handoff ::
  "('w, 'y) vol_doors_scheme \<Rightarrow> (('w, 'z) coord_scheme, handoff_view option) state" where
  "read_mux_handoff d = do {
     handoff \<leftarrow> last_handoff d;
     case handoff of
       None \<Rightarrow> ret None
     | Some h \<Rightarrow> do {
         seen \<leftarrow> gets co_seen_handoff;
         modify (\<lambda>s. s\<lparr>co_seen_handoff := Some (hv_id h)\<rparr>);
         ret (if seen \<noteq> None \<and> seen \<noteq> Some (hv_id h) then Some h else None)
       }
   }"

definition mux_delivered :: "handoff_view option \<Rightarrow> source \<Rightarrow> int \<Rightarrow> bool" where
  "mux_delivered handoff source level =
     (case handoff of
        None \<Rightarrow> False
      | Some h \<Rightarrow> hv_to h = source_value source \<and> hv_result h = ''ok'' \<and> hv_level h = Some level)"

text \<open>The transition under the lease; True: publish the context afterwards.\<close>

definition transition_locked ::
  "('w, 'y) vol_doors_scheme \<Rightarrow> source \<Rightarrow> source \<Rightarrow> (('w, 'z) coord_scheme, bool) state" where
  "transition_locked d prev_source current_source = do {
     active \<leftarrow> active_source d;
     handoff \<leftarrow> read_mux_handoff d;
     if active \<noteq> current_source then do { refresh_from_disk d; ret False }
     else do {
       level \<leftarrow> fresh_level d;
       let prev_carries = (volume_mode prev_source = CAMILLA_MASTER);
       let curr_carries = (volume_mode current_source = CAMILLA_MASTER);
       (if mux_delivered handoff current_source level then
         onlyif (\<not> curr_carries) (stamp_outbound d current_source)
       else if \<not> curr_carries then do { _ \<leftarrow> push_or_guard d current_source level; ret () }
       else if \<not> prev_carries then do { _ \<leftarrow> set_camilla d level; ret () }
       else ret ());
       ret True
     }
   }"

definition apply_transition ::
  "('w, 'y) vol_doors_scheme \<Rightarrow> source \<Rightarrow> source \<Rightarrow> (('w, 'z) coord_scheme, coord_exn + unit) state" where
  "apply_transition d prev_source current_source = do {
     voice \<leftarrow> voice_session_active;
     if voice then do { _ \<leftarrow> read_mux_handoff d; ret (Inr ()) }
     else if prev_source = current_source then ret (Inr ())
     else do {
       r \<leftarrow> mutation d True (do { p \<leftarrow> transition_locked d prev_source current_source; ret (Inr p) });
       case r of
         Inl e \<Rightarrow> ret (Inl e)
       | Inr publish \<Rightarrow> do { onlyif publish (publish_volume_context d); ret (Inr ()) }
     }
   }"

declare settle_handoff_guard.simps [simp del]

section \<open>Handoffs preserve the coordinator's invariant\<close>

lemma effective_level_range: "0 \<le> effective_level s \<and> effective_level s \<le> 100"
  by (simp add: effective_percent_def current_volume_state_def)

lemma fresh_level_range: "wp (fresh_level d) (\<lambda>l _. 0 \<le> l \<and> l \<le> 100) s"
  unfolding fresh_level_def get_volume_state_def wp_simps
  by (rule wp_any) (simp add: effective_level_range)

lemma pres_bind_level [pres_intros]:
  "(\<And>l. 0 \<le> l \<Longrightarrow> l \<le> 100 \<Longrightarrow> pres coord_inv (k l)) \<Longrightarrow> pres coord_inv (fresh_level d \<bind> k)"
  by (rule pres_bind_result [OF pres_coord_fresh_level fresh_level_range]) simp

lemma pres_coord_zero_guard [pres_intros]: "pres coord_inv (set_camilla_db d 0 persist)"
  by (rule pres_coord_set_camilla_db) simp_all

lemma pres_coord_clear_guard [pres_intros]: "pres coord_inv (clear_confirmed_push_guard d src)"
  unfolding clear_confirmed_push_guard_def by (intro pres_intros)

lemma pres_coord_floor_guard [pres_intros]:
  "valid_floor_db (d_floor d) \<Longrightarrow> pres coord_inv (set_camilla_db d (percent_to_db (d_floor d) 0) persist)"
  using pres_coord_set_camilla_level [of d 0] by simp

lemma pres_coord_confirm_mutation [pres_intros]:
  "valid_floor_db (d_floor d) \<Longrightarrow>
   pres coord_inv (confirm_push_mode_carrier_with_mutation d src level live)"
  unfolding confirm_push_mode_carrier_with_mutation_def by (intro pres_intros)

lemma pres_coord_confirm [pres_intros]:
  "valid_floor_db (d_floor d) \<Longrightarrow> pres coord_inv (confirm_push_mode_carrier d src level live)"
  unfolding confirm_push_mode_carrier_def by (intro pres_intros)

lemma pres_coord_push_or_guard [pres_intros]:
  "valid_floor_db (d_floor d) \<Longrightarrow> 0 \<le> level \<Longrightarrow> level \<le> 100 \<Longrightarrow>
   pres coord_inv (push_or_guard d src level)"
  unfolding push_or_guard_def guard_camilla_after_push_failure_def by (intro pres_intros)

lemma pres_coord_settle_wait [pres_intros]: "pres coord_inv (settle_wait d)"
  unfolding settle_wait_def by (intro pres_intros)

lemma pres_coord_settle [pres_intros]:
  assumes fl: "valid_floor_db (d_floor d)"
  shows "pres coord_inv (settle_handoff_guard d n guard ms)"
proof (induction n arbitrary: guard ms)
  case 0
  then show ?case
    by (subst settle_handoff_guard.simps) (intro pres_intros, simp, intro pres_intros)
next
  case (Suc n)
  then show ?case
    by (subst settle_handoff_guard.simps) (intro pres_intros, simp, intro pres_intros fl)
qed

lemma pres_coord_prepare [pres_intros]:
  "valid_floor_db (d_floor d) \<Longrightarrow> pres coord_inv (prepare_source_handoff d prev cur reason)"
  unfolding prepare_source_handoff_def prepare_camilla_master_def prepare_push_def
    push_latest_def guard_failed_push_def Let_def
  by (intro pres_bind_level pres_intros) simp_all

lemma pres_coord_push_settle [pres_intros]: "pres coord_inv (push_settle_wait d)"
  unfolding push_settle_wait_def by (intro pres_intros)

lemma pres_coord_finalize [pres_intros]:
  "valid_floor_db (d_floor d) \<Longrightarrow> pres coord_inv (finalize_source_handoff d h)"
  unfolding finalize_source_handoff_def finalize_push_def Let_def
  by (intro pres_bind_level pres_intros)

lemma pres_coord_abort [pres_intros]:
  "valid_floor_db (d_floor d) \<Longrightarrow> pres coord_inv (abort_source_handoff d h)"
  unfolding abort_source_handoff_def by (intro pres_intros)

lemma pres_coord_read_mux_handoff [pres_intros]: "pres coord_inv (read_mux_handoff d)"
  unfolding read_mux_handoff_def by (intro pres_intros pres_modify) simp

lemma pres_coord_voice [pres_intros]: "pres I voice_session_active"
  unfolding voice_session_active_def by (intro pres_intros)

lemma pres_coord_apply_transition [pres_intros]:
  "valid_floor_db (d_floor d) \<Longrightarrow> pres coord_inv (apply_transition d prev cur)"
  unfolding apply_transition_def transition_locked_def by (intro pres_intros)

section \<open>What a handoff puts in the trace\<close>

text \<open>The carrier writes of a trace, in order.\<close>

fun carriers :: "event list \<Rightarrow> (rat \<times> bool) list" where
  "carriers [] = []"
| "carriers (Carrier db ok # es) = (db, ok) # carriers es"
| "carriers (_ # es) = carriers es"

lemma carriers_append [simp]: "carriers (es @ fs) = carriers es @ carriers fs"
  by (induction es rule: carriers.induct) simp_all

lemma carriers_Nil: "(\<And>e. e \<in> set es \<Longrightarrow> \<forall>db ok. e \<noteq> Carrier db ok) \<Longrightarrow> carriers es = []"
  by (induction es rule: carriers.induct) auto

lemma silent_load [keeps_intros]: "silent (load d)"
  unfolding load_def by (intro keeps_intros) simp

lemma silent_refresh [keeps_intros]: "silent (refresh_from_disk d)"
  unfolding refresh_from_disk_def Let_def by (intro keeps_intros) simp

lemma silent_fresh_level [keeps_intros]: "silent (fresh_level d)"
  unfolding fresh_level_def get_volume_state_def by (intro keeps_intros)

lemma silent_audible [keeps_intros]: "silent (audible_source d)"
  unfolding audible_source_def selected_source_def by (intro keeps_intros)

lemma silent_settle_wait [keeps_intros]: "silent (settle_wait d)"
  unfolding settle_wait_def by (intro keeps_intros)

lemma carriers_land: "land_events fl db r es \<Longrightarrow> carriers es = []"
  by (rule carriers_Nil) (auto simp: land_events_def split: if_splits)

lemma emits_save_now: "emits_only (\<lambda>e. \<exists>m. e = Saved m) (save_now d db)"
  unfolding save_now_def state_update_def write_full_def Let_def
  by (intro emits_intros emits_silent [OF silent_load]) auto

lemma emits_set_camilla_db: "emits (\<lambda>r es. carriers es = [(db, r)]) (set_camilla_db d db p)"
  unfolding set_camilla_db_def
proof (rule emits_bind [OF emits_write_db_with_mute])
  show "emits (\<lambda>r es. r = a \<and> carriers es = []) (do { onlyif (a \<and> p) (save_now d db); ret a })" for a
  proof (rule emits_bind [where R' = "\<lambda>_ r es. r = a \<and> es = []"])
    show "emits_only (\<lambda>e. \<exists>m. e = Saved m) (onlyif (a \<and> p) (save_now d db))"
      by (intro emits_intros emits_save_now)
    show "r = a \<and> carriers (es @ fs) = []"
      if "\<forall>e \<in> set es. \<exists>m. e = Saved m" and "r = a \<and> fs = []" for es r fs
      using that by (auto intro: carriers_Nil)
  qed (simp add: emits_def)
qed (auto simp: carrier_events_def dest: carriers_land)

lemma emits_push_source:
  "emits (\<lambda>r es. es = (if volume_mode src = PUSH then [Push src level r] else []) \<and>
     (r \<longrightarrow> volume_mode src = PUSH)) (push_source d src level)"
proof -
  have accounts: "silent (push_to_accounts d pct as)" for pct as
    by (induction as) (auto intro!: keeps_intros)
  have quiet: "silent (push_spotify_volume d level)" "silent (push_bluetooth_volume d level)"
    unfolding push_spotify_volume_def push_bluetooth_volume_def Let_def
    by (intro keeps_intros accounts)+
  have rest: "emits (\<lambda>r es. es = [Push src level r])
      (do { emit (Push src level ok); onlyif ok (stamp_outbound d src); ret ok })" for ok
    by (cases ok) (auto simp: emits_def onlyif_def stamp_outbound_def)
  show ?thesis
  proof (cases src)
    case SPOTIFY
    then show ?thesis
      using rest by (auto simp: push_source_def intro!: emits_after_silent [OF quiet(1)])
  next
    case BLUETOOTH
    then show ?thesis
      using rest by (auto simp: push_source_def intro!: emits_after_silent [OF quiet(2)])
  qed (simp_all add: push_source_def emits_def)
qed

text \<open>A guard that caught up is where it started, or the last carrier write, accepted.\<close>

definition guard_landed :: "rat \<Rightarrow> rat \<Rightarrow> event list \<Rightarrow> bool" where
  "guard_landed g0 g es \<longleftrightarrow>
     carriers es = [] \<and> g = g0 \<or> carriers es \<noteq> [] \<and> last (carriers es) = (g, True)"

abbreviation st_level :: "int \<times> rat \<times> int \<times> bool \<Rightarrow> int" where "st_level r \<equiv> fst r"
abbreviation st_guard :: "int \<times> rat \<times> int \<times> bool \<Rightarrow> rat" where "st_guard r \<equiv> fst (snd r)"
abbreviation st_ok :: "int \<times> rat \<times> int \<times> bool \<Rightarrow> bool" where "st_ok r \<equiv> snd (snd (snd r))"

lemma emits_settle_guard:
  fixes d :: "('w, 'y) vol_doors_scheme"
  shows "emits (\<lambda>r es. st_ok r \<longrightarrow> guard_landed g0 (st_guard r) es)
    (settle_handoff_guard d n g0 ms0 :: (('w, 'z) coord_scheme, int \<times> rat \<times> int \<times> bool) state)"
proof (induction n arbitrary: g0 ms0)
  case 0
  show ?case
    by (subst settle_handoff_guard.simps)
      (intro emits_after_silent keeps_intros, simp add: Let_def, auto simp: emits_def guard_landed_def)
next
  case (Suc n)
  let ?k = "\<lambda>l ms :: int. (do {
      ok \<leftarrow> set_camilla_db d (level_db (d_floor d) l) True;
      if \<not> ok then ret (l, level_db (d_floor d) l, ms, False)
      else settle_handoff_guard d n (level_db (d_floor d) l) ms
      } :: (('w, 'z) coord_scheme, int \<times> rat \<times> int \<times> bool) state)"
  have step: "emits (\<lambda>r es. st_ok r \<longrightarrow> guard_landed g0 (st_guard r) es) (?k l ms)" for l ms
  proof (rule emits_bind [OF emits_set_camilla_db])
    show "emits (\<lambda>r es. st_ok r \<longrightarrow> a \<and> guard_landed (level_db (d_floor d) l) (st_guard r) es)
        (if \<not> a then ret (l, level_db (d_floor d) l, ms, False)
         else settle_handoff_guard d n (level_db (d_floor d) l) ms
         :: (('w, 'z) coord_scheme, int \<times> rat \<times> int \<times> bool) state)" for a
      using Suc.IH [of "level_db (d_floor d) l" ms] by (cases a) (simp, simp add: emits_def)
  qed (auto simp: guard_landed_def)
  show ?case
    by (subst settle_handoff_guard.simps)
      (intro emits_after_silent keeps_intros, simp add: Let_def step, auto simp: emits_def guard_landed_def)
qed

lemma wp_fresh_level: "wp (fresh_level d) (\<lambda>l s'. l = effective_level s') s"
  unfolding fresh_level_def get_volume_state_def wp_simps by (rule wp_any) simp

text \<open>The level a successful preparation ends on, and a guard at most the dead band above it.\<close>

definition level_caught :: "rat \<Rightarrow> int \<Rightarrow> rat \<Rightarrow> ('w, 'z) coord_scheme \<Rightarrow> bool" where
  "level_caught fl l g s \<longleftrightarrow> l = effective_level s \<and> g \<le> level_db fl l + RECONCILE_DRIFT_DB"

lemma wp_settle_level:
  fixes s :: "('w, 'z) coord_scheme"
  shows "wp (settle_handoff_guard d n g0 ms0)
    (\<lambda>r s'. st_ok r \<longrightarrow> level_caught (d_floor d) (st_level r) (st_guard r) s') s"
proof (induction n arbitrary: g0 ms0 s)
  case 0
  show ?case
    by (subst settle_handoff_guard.simps, rule wp_bind_any, simp only: wp_bind,
        rule wp_mono [OF wp_fresh_level]) (auto simp: Let_def wp_simps level_caught_def)
next
  case (Suc n)
  have step: "wp (do { ok \<leftarrow> set_camilla_db d g True;
      if \<not> ok then ret (l, g, ms, False) else settle_handoff_guard d n g ms })
      (\<lambda>r s'. st_ok r \<longrightarrow> level_caught (d_floor d) (st_level r) (st_guard r) s') s1"
    for g l ms and s1 :: "('w, 'z) coord_scheme"
    by (rule wp_bind_any) (simp add: wp_simps Suc.IH)
  show ?case
    by (subst settle_handoff_guard.simps, rule wp_bind_any, simp only: wp_bind [of "fresh_level d"],
        rule wp_mono [OF wp_fresh_level])
      (auto simp: Let_def wp_return level_caught_def intro!: step [unfolded level_caught_def])
qed

text \<open>
  What \<open>prepare\<close> promises mux about a lane it may open, given the events \<open>es\<close> of the preparation. A
  camilla-master lane, or a push lane whose push failed, is guarded: the guard is where the fader was
  read, or the last carrier write and it was accepted. A pushed lane took the level as the last thing
  that happened.
\<close>

definition guarded :: "source_handoff \<Rightarrow> event list \<Rightarrow> bool" where
  "guarded h es \<longleftrightarrow> (\<exists>g. ho_guard_db h = Some g \<and>
     (carriers es = [] \<and> (\<exists>b. ho_camilla_before_db h = Some b \<and> b \<le> g + RECONCILE_DRIFT_DB) \<or>
      carriers es \<noteq> [] \<and> last (carriers es) = (g, True)))"

definition lane_safe :: "source_handoff \<Rightarrow> event list \<Rightarrow> bool" where
  "lane_safe h es \<longleftrightarrow>
     (if ho_current_mode h = CAMILLA_MASTER then guarded h es
      else if ho_push_ok h = Some True then \<exists>fs. es = fs @ [Push (ho_current h) (ho_level h) True]
      else ho_result h = ''degraded_safe'' \<and> guarded h es)"

lemma emits_prepare_camilla_master:
  assumes mode: "ho_current_mode h = CAMILLA_MASTER"
    and h: "ho_guard_db h = Some (level_db (d_floor d) (ho_level h))" "ho_camilla_before_db h = before"
  shows "emits (\<lambda>r es. ho_ok r \<longrightarrow> lane_safe r es) (prepare_camilla_master d h before before_mute)"
proof -
  have failed: "\<not> ho_ok (h'\<lparr>ho_result := ''failed'', ho_detail := x\<rparr>)" for h' x
    by (simp add: ho_ok_def)
  have settle: "emits (\<lambda>r es. ho_ok r \<longrightarrow> lane_safe r es)
      (do {
        ok \<leftarrow> set_camilla_db d g True;
        if \<not> ok then ret (hf \<lparr>ho_result := ''failed'', ho_detail := x\<rparr>)
        else do {
          (level', guard_db', ms, ok') \<leftarrow> settle_handoff_guard d 3 g 0;
          let h' = h\<lparr>ho_level := level', ho_guard_db := Some guard_db', ho_camilla_guarded := True,
                     ho_settled_ms := ms\<rparr>;
          ret (if ok' then h' else h'\<lparr>ho_result := ''failed'', ho_detail := y\<rparr>) } })" for g hf x y
  proof (rule emits_bind [OF emits_set_camilla_db])
    show "emits (\<lambda>r es. ho_ok r \<longrightarrow> a \<and> ho_current_mode r = CAMILLA_MASTER \<and>
          (\<exists>g'. ho_guard_db r = Some g' \<and> guard_landed g g' es))
        (if \<not> a then ret (hf \<lparr>ho_result := ''failed'', ho_detail := x\<rparr>)
         else do {
          (level', guard_db', ms, ok') \<leftarrow> settle_handoff_guard d 3 g 0;
          let h' = h\<lparr>ho_level := level', ho_guard_db := Some guard_db', ho_camilla_guarded := True,
                     ho_settled_ms := ms\<rparr>;
          ret (if ok' then h' else h'\<lparr>ho_result := ''failed'', ho_detail := y\<rparr>) })" for a
    proof (cases a)
      case True
      then show ?thesis
        apply simp
        apply (rule emits_bind [OF emits_settle_guard, where R' = "\<lambda>r h' es. es = [] \<and>
            h' = (let h' = h\<lparr>ho_level := st_level r, ho_guard_db := Some (st_guard r),
                    ho_camilla_guarded := True, ho_settled_ms := fst (snd (snd r))\<rparr>
                  in if st_ok r then h' else h'\<lparr>ho_result := ''failed'', ho_detail := y\<rparr>)"])
         apply (simp add: split_beta emits_def Let_def)
        apply (auto simp: failed mode Let_def split: if_splits)
        done
    qed (simp add: emits_def failed)
  qed (auto simp: lane_safe_def guarded_def guard_landed_def)
  show ?thesis
    unfolding prepare_camilla_master_def
    apply (simp only: Let_def)
    apply (rule emits_if)
    subgoal by (rule settle [unfolded Let_def])
    apply (rule emits_after_silent [OF silent_fresh_level])
    apply (rule emits_if)
    subgoal by (rule settle [unfolded Let_def])
    subgoal
      using h mode by (auto simp: emits_def lane_safe_def guarded_def split: option.splits)
    done
qed

lemma emits_push_latest:
  fixes d :: "('w, 'y) vol_doors_scheme"
  shows "emits (\<lambda>r es. carriers es = [] \<and> (snd r \<longrightarrow> (\<exists>fs. es = fs @ [Push src (fst r) True])))
    (push_latest d src level :: (('w, 'z) coord_scheme, int \<times> bool) state)"
proof -
  have again: "emits (\<lambda>r es. carriers es = [] \<and>
        (snd r \<longrightarrow> (\<exists>fs. es = fs @ [Push src (fst r) True]) \<or> es = [] \<and> fst r = level))
      (if l \<noteq> level then do { again \<leftarrow> push_source d src l; ret (l, again) } else ret (level, True)
       :: (('w, 'z) coord_scheme, int \<times> bool) state)" for l
    by (intro emits_if emits_bind [OF emits_push_source, where R' = "\<lambda>a b es. b = (l, a) \<and> es = []"])
      (auto simp: emits_def split: if_splits)
  have rest: "emits (\<lambda>r es. carriers es = [] \<and>
        (snd r \<longrightarrow> a \<and> ((\<exists>fs. es = fs @ [Push src (fst r) True]) \<or> es = [] \<and> fst r = level)))
      (if a then do {
          latest_level \<leftarrow> fresh_level d;
          if latest_level \<noteq> level then do { again \<leftarrow> push_source d src latest_level; ret (latest_level, again) }
          else ret (level, True)
        }
        else ret (level, False) :: (('w, 'z) coord_scheme, int \<times> bool) state)" for a
    using emits_after_silent [OF silent_fresh_level again, of d] by (cases a) (simp, simp add: emits_def)
  show ?thesis
    unfolding push_latest_def
    by (rule emits_bind [OF emits_push_source rest]) (auto split: if_splits)
qed

lemma emits_guard_failed_push:
  fixes d :: "('w, 'y) vol_doors_scheme"
  assumes mode: "ho_current_mode h = PUSH"
  shows "emits (\<lambda>r es. ho_ok r \<longrightarrow> ho_current_mode r = PUSH \<and> ho_push_ok r = Some False \<and>
      ho_result r = ''degraded_safe'' \<and> carriers es \<noteq> [] \<and>
      (\<exists>g. ho_guard_db r = Some g \<and> last (carriers es) = (g, True)))
    (guard_failed_push d h g1 :: (('w, 'z) coord_scheme, source_handoff) state)"
proof -
  let ?fin = "\<lambda>r. let h' = h\<lparr>ho_level := st_level r, ho_guard_db := Some (st_guard r),
      ho_push_ok := Some False, ho_camilla_guarded := True, ho_settled_ms := fst (snd (snd r))\<rparr>
    in if st_ok r
       then h'\<lparr>ho_result := ''degraded_safe'', ho_detail := ''push_volume_failed_camilla_guarded''\<rparr>
       else h'\<lparr>ho_result := ''failed'', ho_detail := ''push_failed_camilla_guard_catchdown_failed''\<rparr>"
  have settle: "emits (\<lambda>r es. ho_ok r \<longrightarrow> ho_current_mode r = PUSH \<and> ho_push_ok r = Some False \<and>
      ho_result r = ''degraded_safe'' \<and> (\<exists>g. ho_guard_db r = Some g \<and> guard_landed g1 g es))
    (do { r \<leftarrow> settle_handoff_guard d 3 g1 0; ret (?fin r) } :: (('w, 'z) coord_scheme, source_handoff) state)"
    by (rule emits_bind [OF emits_settle_guard, where R' = "\<lambda>r h' es. es = [] \<and> h' = ?fin r"])
      (auto simp: emits_def ho_ok_def mode Let_def split: if_splits)
  have failed: "\<not> ho_ok (h\<lparr>ho_push_ok := Some False, ho_result := ''failed'', ho_detail := x\<rparr>)" for x
    by (simp add: ho_ok_def)
  show ?thesis
    unfolding guard_failed_push_def
  proof (rule emits_bind [OF emits_set_camilla_db])
    show "emits (\<lambda>r es. ho_ok r \<longrightarrow> a \<and> ho_current_mode r = PUSH \<and> ho_push_ok r = Some False \<and>
          ho_result r = ''degraded_safe'' \<and> (\<exists>g. ho_guard_db r = Some g \<and> guard_landed g1 g es))
        (if \<not> a then ret (h\<lparr>ho_push_ok := Some False, ho_result := ''failed'',
             ho_detail := ''push_failed_and_camilla_guard_failed''\<rparr>)
         else do { (level', guard', ms, settle_ok) \<leftarrow> settle_handoff_guard d 3 g1 0;
           let h' = h\<lparr>ho_level := level', ho_guard_db := Some guard', ho_push_ok := Some False,
                  ho_camilla_guarded := True, ho_settled_ms := ms\<rparr>;
           ret (if settle_ok
            then h'\<lparr>ho_result := ''degraded_safe'', ho_detail := ''push_volume_failed_camilla_guarded''\<rparr>
            else h'\<lparr>ho_result := ''failed'', ho_detail := ''push_failed_camilla_guard_catchdown_failed''\<rparr>)
         } :: (('w, 'z) coord_scheme, source_handoff) state)" for a
    proof (cases a)
      case True
      then show ?thesis
        using settle by (simp add: case_prod_unfold Let_def)
    next
      case False
      then show ?thesis by (simp add: emits_def failed)
    qed
  qed (auto simp: guard_landed_def)
qed

lemma emits_prepare_push:
  assumes mode: "ho_current_mode h = PUSH"
  shows "emits (\<lambda>r es. ho_ok r \<longrightarrow> lane_safe r es) (prepare_push d h)"
  unfolding prepare_push_def
proof (rule emits_bind [OF emits_push_latest])
  let ?R = "\<lambda>r r' es. ho_ok r' \<longrightarrow> ho_current_mode r' = PUSH \<and>
     (if snd r then ho_push_ok r' = Some True \<and> ho_level r' = fst r \<and> ho_current r' = ho_current h \<and> es = []
      else ho_push_ok r' = Some False \<and> ho_result r' = ''degraded_safe'' \<and> carriers es \<noteq> [] \<and>
        (\<exists>g. ho_guard_db r' = Some g \<and> last (carriers es) = (g, True)))"
  show "emits (?R r) (case r of (level, push_ok) \<Rightarrow> (let guard_db = level_db (d_floor d) level;
      h' = h\<lparr>ho_level := level, ho_guard_db := Some guard_db\<rparr> in
    if push_ok then ret (h'\<lparr>ho_push_ok := Some True\<rparr>) else guard_failed_push d h' guard_db))" for r
    using emits_guard_failed_push [of "h\<lparr>ho_level := fst r, ho_guard_db := Some (level_db (d_floor d) (fst r))\<rparr>"
        d "level_db (d_floor d) (fst r)"] mode
    by (cases r) (auto simp: Let_def emits_def)
qed (auto simp: lane_safe_def guarded_def split: if_splits)

lemma emits_prepare:
  "emits (\<lambda>h es. ho_ok h \<longrightarrow> prev \<noteq> cur \<longrightarrow> lane_safe h es) (prepare_source_handoff d prev cur reason)"
proof (cases "prev = cur")
  case True
  have "silent (read_volume_and_mute d)" "silent (fresh_level d)"
    by (intro keeps_intros)+
  then show ?thesis
    unfolding prepare_source_handoff_def Let_def True
    by (intro emits_after_silent) (auto simp: emits_def)
next
  case False
  then show ?thesis
    unfolding prepare_source_handoff_def Let_def
    apply (intro emits_after_silent [OF silent_fresh_level] emits_after_silent [OF silent_read_volume_and_mute])
    apply (simp split: prod.split, intro conjI impI allI)
    subgoal by (rule emits_prepare_camilla_master) simp_all
    subgoal by (rule emits_prepare_push) (cases "volume_mode cur", simp_all)
    done
qed

text \<open>The level a guarded preparation was made for.\<close>

definition guard_current :: "rat \<Rightarrow> source_handoff \<Rightarrow> ('w, 'z) coord_scheme \<Rightarrow> bool" where
  "guard_current fl h s \<longleftrightarrow> ho_ok h \<longrightarrow> ho_result h \<noteq> ''noop'' \<longrightarrow> ho_push_ok h \<noteq> Some True \<longrightarrow>
     (\<exists>g. ho_guard_db h = Some g \<and> g \<le> level_db fl (effective_level s) + RECONCILE_DRIFT_DB)"

lemma not_ok_current: "ho_result h = ''failed'' \<Longrightarrow> guard_current fl h s"
  by (simp add: guard_current_def ho_ok_def)

lemma wp_settle_current:
  fixes s :: "('w, 'z) coord_scheme"
  shows "wp (settle_handoff_guard d n g0 ms0) (\<lambda>r s'. \<forall>h. ho_guard_db h = Some (st_guard r) \<longrightarrow>
    st_ok r \<or> ho_result h = ''failed'' \<longrightarrow> guard_current (d_floor d) h s') s"
  by (rule wp_mono [OF wp_settle_level]) (auto simp: guard_current_def level_caught_def ho_ok_def)

lemma guard_currentI:
  "ho_guard_db h = Some g \<Longrightarrow> g \<le> level_db fl (effective_level s) + RECONCILE_DRIFT_DB \<Longrightarrow> guard_current fl h s"
  by (simp add: guard_current_def)

lemma guard_current_vacuous:
  "ho_push_ok h = Some True \<Longrightarrow> guard_current fl h s" "ho_result h = ''noop'' \<Longrightarrow> guard_current fl h s"
  by (simp_all add: guard_current_def)

lemma wp_settle_then:
  assumes "\<And>r. ho_guard_db (k r) = Some (st_guard r)" "\<And>r. st_ok r \<or> ho_result (k r) = ''failed''"
  shows "wp (do { r \<leftarrow> settle_handoff_guard d n g ms; ret (k r) })
    (\<lambda>h s'. guard_current (d_floor d) h s') s"
  unfolding wp_bind
proof (rule wp_mono [OF wp_settle_current], goal_cases)
  case (1 r s')
  then show ?case
    using assms(1) [of r] assms(2) [of r] unfolding wp_return by blast
qed

lemma wp_guard_then_settle:
  assumes "ho_result hf = ''failed''"
    and "\<And>r. ho_guard_db (k r) = Some (st_guard r)" "\<And>r. st_ok r \<or> ho_result (k r) = ''failed''"
  shows "wp (do { ok \<leftarrow> set_camilla_db d g True;
       if \<not> ok then ret hf else do { r \<leftarrow> settle_handoff_guard d 3 g 0; ret (k r) } })
    (\<lambda>h s'. guard_current (d_floor d) h s') s"
  by (rule wp_bind_any) (use wp_settle_then [OF assms(2,3)] in \<open>auto simp: wp_return not_ok_current [OF assms(1)]\<close>)

lemma wp_prepare_camilla_current:
  assumes "ho_guard_db h = Some (level_db (d_floor d) (ho_level h))"
  shows "wp (prepare_camilla_master d h before before_mute) (\<lambda>r s'. guard_current (d_floor d) r s') s"
proof -
  let ?post = "\<lambda>r s'. guard_current (d_floor d) r s'"
  have latest: "wp (do { latest_level \<leftarrow> fresh_level d;
      if level_db (d_floor d) latest_level < level_db (d_floor d) (ho_level h) - RECONCILE_DRIFT_DB
      then m latest_level else ret (h\<lparr>ho_camilla_guarded := True\<rparr>) }) ?post s"
    if "\<And>l s. wp (m l) ?post s" for m s
    unfolding wp_bind
    by (rule wp_mono [OF wp_fresh_level])
      (use that assms in \<open>auto simp: wp_return intro!: guard_currentI\<close>)
  show ?thesis
    unfolding prepare_camilla_master_def Let_def case_prod_unfold
    by (simp only: wp_if split: if_split, intro conjI impI)
      ((rule wp_guard_then_settle | rule latest; rule wp_guard_then_settle); simp)+
qed

lemma wp_guard_failed_push_current:
  "wp (guard_failed_push d h g) (\<lambda>r s'. guard_current (d_floor d) r s') s"
  unfolding guard_failed_push_def Let_def case_prod_unfold
  by (rule wp_guard_then_settle) simp_all

lemma wp_prepare_push_current:
  "wp (prepare_push d h) (\<lambda>r s'. guard_current (d_floor d) r s') s"
  unfolding prepare_push_def Let_def case_prod_unfold
  by (rule wp_bind_any) (simp add: wp_return wp_guard_failed_push_current guard_current_vacuous)

lemma wp_prepare_current:
  "wp (prepare_source_handoff d prev cur reason) (\<lambda>h s'. guard_current (d_floor d) h s') s"
  unfolding prepare_source_handoff_def Let_def case_prod_unfold
  by (intro wp_bind_any)
    (simp add: wp_return wp_prepare_push_current wp_prepare_camilla_current guard_current_vacuous)



end
