(* ===== verification/Volume_Reconcile.thy ===== *)
theory Volume_Reconcile
  imports Volume_Handoff
begin

text \<open>
  \<open>VolumeReconciler\<close> (\<open>jasper/audio_control/volume_reconcile.py\<close>): the 1 Hz backstop that brings
  Camilla's fader back to the household level, its gates, and its two deferrals.
\<close>

section \<open>The reconciler\<close>

definition converged :: "rat \<Rightarrow> bool \<Rightarrow> rat option \<Rightarrow> bool option \<Rightarrow> bool" where
  "converged expected_db expected_mute current_db current_mute \<longleftrightarrow>
     (case current_db of
        None \<Rightarrow> False
      | Some db \<Rightarrow> \<bar>expected_db - db\<bar> \<le> RECONCILE_DRIFT_DB \<and>
          \<not> (current_mute \<noteq> None \<and> current_mute \<noteq> Some expected_mute))"

text \<open>\<open>_defer\<close>: note the reason; it is logged when it differs from the one already reported.\<close>

definition defer_tick :: "string \<Rightarrow> (('w, 'z) coord_scheme, bool) state" where
  "defer_tick reason = do { modify (\<lambda>s. s\<lparr>co_deferred := Some reason\<rparr>); ret True }"

definition defer_for_dsp_writer ::
  "('w, 'y) vol_doors_scheme \<Rightarrow> (('w, 'z) coord_scheme, bool) state" where
  "defer_for_dsp_writer d = do {
     held \<leftarrow> peek (d_graph_held d);
     emit (GraphProbe (held = Ret (Some True)));
     case held of
       Ret h \<Rightarrow> do {
         modify (\<lambda>s. s\<lparr>co_probe_failures := 0\<rparr>);
         if h \<noteq> Some True then ret False else defer_tick ''dsp_writer_lock''
       }
     | IoError \<Rightarrow> do { modify (\<lambda>s. s\<lparr>co_probe_failures := co_probe_failures s + 1\<rparr>); ret False }
     | Fatal \<Rightarrow> do { modify (\<lambda>s. s\<lparr>co_probe_failures := co_probe_failures s + 1\<rparr>); ret False }
   }"

definition defer_for_measurement_hold ::
  "('w, 'y) vol_doors_scheme \<Rightarrow> (('w, 'z) coord_scheme, bool) state" where
  "defer_for_measurement_hold d = do {
     hold \<leftarrow> read_fader_hold d;
     if hold = None then ret False else defer_tick ''measurement_hold''
   }"

definition preflight ::
  "('w, 'y) vol_doors_scheme \<Rightarrow> source option \<Rightarrow> (('w, 'z) coord_scheme, bool) state" where
  "preflight d given = do {
     lapse_stranded d;
     voice \<leftarrow> voice_session_active;
     measuring \<leftarrow> gate_active;
     if voice \<or> measuring then ret False
     else do {
       refresh_from_disk d;
       source \<leftarrow> (case given of Some src \<Rightarrow> ret src | None \<Rightarrow> active_source d);
       if volume_mode source \<noteq> CAMILLA_MASTER then ret False
       else do {
         expected_level \<leftarrow> gets effective_level;
         (current_db, current_mute) \<leftarrow> read_volume_and_mute d;
         measuring \<leftarrow> gate_active;
         if measuring then ret False
         else if current_db = None then ret False
         else if converged (level_db (d_floor d) expected_level) (main_mute_for_level expected_level)
                current_db current_mute then ret False
         else do { deferred \<leftarrow> defer_for_dsp_writer d; ret (\<not> deferred) }
       }
     }
   }"

text \<open>A write that makes the speaker louder: raising the fader, or unmuting.\<close>

definition louder_write :: "rat \<Rightarrow> bool \<Rightarrow> rat \<Rightarrow> bool option \<Rightarrow> bool" where
  "louder_write expected_db expected_mute current_db current_mute \<longleftrightarrow>
     \<not> expected_mute \<and> (expected_db - current_db > RECONCILE_DRIFT_DB \<or> current_mute = Some True)"

definition reconcile_write ::
  "('w, 'y) vol_doors_scheme \<Rightarrow> rat \<Rightarrow> (('w, 'z) coord_scheme, unit) state" where
  "reconcile_write d expected_db = do {
     ok \<leftarrow> write_db_with_mute d expected_db;
     if \<not> ok then modify (\<lambda>s. s\<lparr>co_write_failures := co_write_failures s + 1\<rparr>)
     else do { save_now d expected_db; modify (\<lambda>s. s\<lparr>co_write_failures := 0\<rparr>) }
   }"

text \<open>The end of \<open>_write_under_lease\<close>: ask the hold before a louder write, then the graph lock.\<close>

definition gated_write ::
  "('w, 'y) vol_doors_scheme \<Rightarrow> bool \<Rightarrow> rat \<Rightarrow> (('w, 'z) coord_scheme, unit) state" where
  "gated_write d louder expected_db = do {
     held \<leftarrow> (if louder then defer_for_measurement_hold d else ret False);
     if held then ret ()
     else do {
       writer \<leftarrow> defer_for_dsp_writer d;
       if writer then ret () else reconcile_write d expected_db
     }
   }"

definition write_under_lease ::
  "('w, 'y) vol_doors_scheme \<Rightarrow> (('w, 'z) coord_scheme, unit) state" where
  "write_under_lease d = do {
     voice \<leftarrow> voice_session_active;
     measuring \<leftarrow> gate_active;
     if voice \<or> measuring then ret ()
     else do {
       source \<leftarrow> active_source d;
       if volume_mode source \<noteq> CAMILLA_MASTER then ret ()
       else do {
         refresh_from_disk d;
         expected_level \<leftarrow> gets effective_level;
         let expected_db = level_db (d_floor d) expected_level;
         let expected_mute = main_mute_for_level expected_level;
         (current_db, current_mute) \<leftarrow> read_volume_and_mute d;
         voice \<leftarrow> voice_session_active;
         measuring \<leftarrow> gate_active;
         if voice \<or> measuring then ret ()
         else case current_db of
           None \<Rightarrow> ret ()
         | Some db \<Rightarrow>
             if converged expected_db expected_mute current_db current_mute then ret ()
             else gated_write d (louder_write expected_db expected_mute db current_mute) expected_db
       }
     }
   }"

definition maybe_reconcile_camilla ::
  "('w, 'y) vol_doors_scheme \<Rightarrow> source option \<Rightarrow> (('w, 'z) coord_scheme, coord_exn + unit) state" where
  "maybe_reconcile_camilla d source = do {
     modify (\<lambda>s. s\<lparr>co_deferred := None\<rparr>);
     go \<leftarrow> preflight d source;
     if \<not> go then ret (Inr ())
     else mutation d True (do { yield d; write_under_lease d; ret (Inr ()) })
   }"

definition reconcile_deferred :: "('w, 'z) coord_scheme \<Rightarrow> bool" where
  "reconcile_deferred s \<longleftrightarrow> co_deferred s \<noteq> None"

section \<open>Preservation of the coordinator's invariant\<close>

lemma gate_updates_inv [simp]:
  "coord_inv (s\<lparr>shared := (shared s)\<lparr>sh_gate := g\<rparr>\<rparr>) = coord_inv s"
  by simp

lemma pres_coord_update_gate [pres_intros]: "pres coord_inv (update_gate f)"
  unfolding update_gate_def by (rule pres_modify) simp

lemma pres_coord_gate_active [pres_intros]: "pres I gate_active"
  unfolding gate_active_def by (intro pres_intros)

lemma pres_coord_holds_fader [pres_intros]: "pres coord_inv (holds_fader d)"
  unfolding holds_fader_def by (intro pres_intros)

lemma pres_coord_lapse [pres_intros]: "pres coord_inv (lapse_stranded d)"
  unfolding lapse_stranded_def by (intro pres_intros)

lemma pres_coord_fader_hold [pres_intros]: "pres coord_inv (read_fader_hold d)"
  unfolding read_fader_hold_def by (intro pres_intros pres_coord_emit) simp

lemma pres_coord_defer [pres_intros]:
  "pres coord_inv (defer_tick r)" "pres coord_inv (defer_for_dsp_writer d)"
  "pres coord_inv (defer_for_measurement_hold d)"
  unfolding defer_tick_def defer_for_dsp_writer_def defer_for_measurement_hold_def
  by (intro pres_intros pres_modify pres_coord_emit; simp)+

lemma pres_coord_reconcile [pres_intros]:
  assumes "valid_floor_db (d_floor d)"
  shows "pres coord_inv (maybe_reconcile_camilla d source)"
proof -
  have landing: "pres coord_inv (reconcile_write d (level_db (d_floor d) l))" for l
    unfolding reconcile_write_def using level_db_savable [OF assms, of l]
    by (intro pres_intros pres_modify pres_coord_save_now) simp_all
  show ?thesis
    unfolding maybe_reconcile_camilla_def preflight_def write_under_lease_def gated_write_def Let_def
    by (intro pres_intros pres_modify landing) simp_all
qed

section \<open>Every write has its evidence\<close>

definition observed :: "('w, 'y) cam_doors_scheme \<Rightarrow> rat \<Rightarrow> bool \<Rightarrow> bool" where
  "observed d db muted \<longleftrightarrow> (\<exists>w. fst (d_volume_and_mute d w) = AOk (db, muted))"

lemma cam_call_value: "wp (cam_call d g) (\<lambda>r _. \<forall>a. r = CallOk a \<longrightarrow> (\<exists>w. fst (g w) = AOk a)) s"
  by (auto simp: cam_call_def retry_call_def wp_simps split: attempt.splits option.splits)

lemma read_volume_and_mute_value:
  "wp (read_volume_and_mute d) (\<lambda>r _. r = (None, None) \<or>
     (\<exists>db muted. r = (Some db, Some muted) \<and> observed d db muted)) s"
  unfolding read_volume_and_mute_def get_volume_and_mute_def wp_simps
  by (rule wp_mono [OF cam_call_value])
    (auto simp: wp_return observed_def split: call.splits option.splits elim!: or_else.elims)

lemma emits_defer_for_dsp_writer: "emits (\<lambda>r es. es = [GraphProbe r]) (defer_for_dsp_writer d)"
  by (auto simp: emits_def defer_for_dsp_writer_def defer_tick_def split: outcome.split)

lemma emits_defer_for_hold:
  "emits (\<lambda>r es. \<exists>h. es = [FaderHold h] \<and> (r \<longleftrightarrow> h \<noteq> None)) (defer_for_measurement_hold d)"
  by (auto simp: emits_def defer_for_measurement_hold_def defer_tick_def read_fader_hold_def run_await Let_def)

lemma emits_reconcile_write: "emits (\<lambda>_ es. \<exists>ok. carriers es = [(x, ok)]) (reconcile_write d x)"
  unfolding reconcile_write_def
proof (rule emits_bind [OF emits_write_db_with_mute])
  show "emits (\<lambda>_ es. carriers es = [])
      (if \<not> a then modify (\<lambda>s. s\<lparr>co_write_failures := co_write_failures s + 1\<rparr>)
       else do { save_now d x; modify (\<lambda>s. s\<lparr>co_write_failures := 0\<rparr>) })" for a
    by (rule emits_mono [where R = "\<lambda>_ es. \<forall>e \<in> set es. \<exists>m. e = Saved m"])
      (auto intro!: emits_intros emits_save_now carriers_Nil)
qed (auto simp: carrier_events_def dest: carriers_land)

text \<open>
  The evidence a write of \<open>x\<close> leaves: the graph lock was probed free just before it, and a louder one
  asked for the measurement hold and found none.
\<close>

definition evidence :: "rat \<Rightarrow> bool \<Rightarrow> event list \<Rightarrow> bool" where
  "evidence x louder es \<longleftrightarrow> (\<exists>landing ok. carriers landing = [(x, ok)] \<and>
     es = (if louder then [FaderHold None] else []) @ GraphProbe False # landing)"

lemma emits_gated_write:
  fixes d :: "('w, 'y) vol_doors_scheme"
  shows "emits (\<lambda>_ es. carriers es = [] \<or> evidence x louder es)
    (gated_write d louder x :: (('w, 'z) coord_scheme, unit) state)"
proof -
  let ?ask = "if louder then defer_for_measurement_hold d else ret False :: (('w, 'z) coord_scheme, bool) state"
  have probe: "emits (\<lambda>_ es. carriers es = [] \<or> (\<exists>landing ok. carriers landing = [(x, ok)] \<and>
        es = GraphProbe False # landing))
      (do { writer \<leftarrow> defer_for_dsp_writer d; if writer then ret () else reconcile_write d x }
        :: (('w, 'z) coord_scheme, unit) state)"
  proof (rule emits_bind [OF emits_defer_for_dsp_writer])
    show "emits (\<lambda>_ es. if w then es = [] else \<exists>ok. carriers es = [(x, ok)])
        (if w then ret () else reconcile_write d x :: (('w, 'z) coord_scheme, unit) state)" for w
      using emits_reconcile_write [where d = d and x = x] by (cases w) (simp add: emits_def, simp)
  qed (auto split: if_splits)
  have ask: "emits (\<lambda>r es. carriers es = [] \<and> (\<not> r \<longrightarrow> es = (if louder then [FaderHold None] else []))) ?ask"
    by (cases louder)
      (auto intro!: emits_mono [OF emits_defer_for_hold], simp add: emits_def)
  show ?thesis
    unfolding gated_write_def
  proof (rule emits_bind [OF ask])
    show "emits (\<lambda>_ es. carriers es = [] \<or> \<not> h \<and> (\<exists>landing ok. carriers landing = [(x, ok)] \<and>
        es = GraphProbe False # landing))
      (if h then ret () else do { writer \<leftarrow> defer_for_dsp_writer d; if writer then ret () else reconcile_write d x }
        :: (('w, 'z) coord_scheme, unit) state)" for h
      using probe by (cases h) (simp add: emits_def, simp)
  qed (auto simp: evidence_def)
qed

lemma keeps_intent_gated: "keeps current_volume_state (gated_write d l x)"
proof -
  have 1: "keeps current_volume_state (write_db_with_mute d x)"
    by (intro keeps_write_db_with_mute) (simp add: owner_stable_def cam_stable_def current_volume_state_def)
  have 2: "keeps current_volume_state (save_now d x)"
    unfolding save_now_def load_def state_update_def write_full_def Let_def
    by (intro keeps_intros) (simp_all add: current_volume_state_def remember_def)
  show ?thesis
    unfolding gated_write_def reconcile_write_def defer_for_dsp_writer_def defer_for_measurement_hold_def
      defer_tick_def read_fader_hold_def Let_def
    by (intro keeps_intros 1 2) (simp_all add: current_volume_state_def)
qed

text \<open>
  The events of a tick that ends with the intent \<open>v\<close>: no carrier write, or one write of the level of
  \<open>v\<close>, made because Camilla reported a fader and mute that had drifted from it, with its evidence.
\<close>

definition reconciled :: "('w, 'y) vol_doors_scheme \<Rightarrow> volume_state \<Rightarrow> event list \<Rightarrow> bool" where
  "reconciled d v es \<longleftrightarrow> carriers es = [] \<or>
     (let x = level_db (d_floor d) (effective_percent v); m = main_mute_for_level (effective_percent v)
      in \<exists>db muted. observed d db muted \<and> \<not> converged x m (Some db) (Some muted) \<and>
           evidence x (louder_write x m db (Some muted)) es)"

abbreviation reconciled_from ::
  "('w, 'y) vol_doors_scheme \<Rightarrow> event list \<Rightarrow> ('w, 'z) coord_scheme \<Rightarrow> bool" where
  "reconciled_from d t s \<equiv> \<exists>es. trace s = t @ es \<and> reconciled d (current_volume_state s) es"

lemma wp_silent_bind:
  "silent m \<Longrightarrow> (\<And>a s'. trace s' = trace s \<Longrightarrow> wp (k a) Q s') \<Longrightarrow> wp (m \<bind> k) Q s"
  unfolding wp_bind by (rule wp_mono [OF wp_keeps]) auto

lemma wp_reconcile_read:
  fixes s :: "('w, 'z) coord_scheme"
  assumes "\<And>db muted s'. \<lbrakk>trace s' = trace s; current_volume_state s' = current_volume_state s;
      db \<noteq> None \<Longrightarrow> \<exists>x m. db = Some x \<and> muted = Some m \<and> observed d x m\<rbrakk> \<Longrightarrow> wp (k (db, muted)) Q s'"
  shows "wp (read_volume_and_mute d \<bind> k) Q s"
proof -
  have "keeps current_volume_state (read_volume_and_mute d :: (('w, 'z) coord_scheme, _) state)"
    by (rule keeps_read_volume_and_mute) (simp add: cam_stable_def current_volume_state_def)
  then have "wp (read_volume_and_mute d) (\<lambda>r s'. current_volume_state s' = current_volume_state s \<and>
      trace s' = trace s \<and> (r = (None, None) \<or>
        (\<exists>db muted. r = (Some db, Some muted) \<and> observed d db muted))) s"
    unfolding wp_conj
    by (intro conjI wp_keeps silent_read_volume_and_mute read_volume_and_mute_value)
  then show ?thesis
    unfolding wp_bind by (rule wp_mono) (auto intro: assms)
qed

lemma wp_gated_reconciled:
  fixes s :: "('w, 'z) coord_scheme"
  assumes "observed d db muted"
    and "x = level_db (d_floor d) (effective_level s)" "m = main_mute_for_level (effective_level s)"
    and "\<not> converged x m (Some db) (Some muted)"
  shows "wp (gated_write d (louder_write x m db (Some muted)) x) (\<lambda>_. reconciled_from d (trace s)) s"
  using wp_emits [OF emits_gated_write, of d "louder_write x m db (Some muted)" x s]
    wp_keeps [OF keeps_intent_gated, of d "louder_write x m db (Some muted)" x s] assms
  by (fastforce simp: wp_def reconciled_def Let_def)

lemma reconciled_quiet: "trace s = t \<Longrightarrow> reconciled_from d t s"
  by (intro exI [of _ "[]"]) (simp add: reconciled_def)

lemma wp_gets_bind: "wp (k (f s)) Q s \<Longrightarrow> wp (gets f \<bind> k) Q s"
  by (simp add: wp_bind wp_gets)

lemma wp_ifI: "(b \<Longrightarrow> wp m Q s) \<Longrightarrow> (\<not> b \<Longrightarrow> wp n Q s) \<Longrightarrow> wp (if b then m else n) Q s"
  by simp

lemma wp_case_optionI:
  "(x = None \<Longrightarrow> wp m Q s) \<Longrightarrow> (\<And>y. x = Some y \<Longrightarrow> wp (g y) Q s) \<Longrightarrow>
   wp (case x of None \<Rightarrow> m | Some y \<Rightarrow> g y) Q s"
  by (simp split: option.split)

lemma wp_write_under_lease: "wp (write_under_lease d) (\<lambda>_. reconciled_from d (trace s)) s"
proof -
  have stop: "wp (ret ()) (\<lambda>_. reconciled_from d (trace s)) s'" if "trace s' = trace s" for s'
    using reconciled_quiet [OF that] by (simp add: wp_return)
  show ?thesis
    unfolding write_under_lease_def voice_session_active_def gate_active_def Let_def
    apply (intro wp_gets_bind wp_ifI stop refl wp_silent_bind [OF silent_audible]
        wp_silent_bind [OF silent_refresh] wp_reconcile_read | simp only: prod.case)+
    subgoal premises p for _ _ _ _ db muted s3
    proof (cases db)
      case (Some x)
      with p(7) obtain m where m: "muted = Some m" "observed d x m" by auto
      have "trace s3 = trace s" by (simp only: p)
      then show ?thesis
        using stop [of s3] wp_gated_reconciled [OF m(2) refl refl, of s3]
        unfolding Some m(1) option.case p(6) [symmetric] by (intro wp_ifI) auto
    qed (use p stop in simp)
    done
qed

lemma emits_preflight: "emits (\<lambda>_ es. carriers es = []) (preflight d src)"
proof -
  have probe: "emits (\<lambda>_ es. carriers es = []) (do { r \<leftarrow> defer_for_dsp_writer d; ret (\<not> r) })"
    by (rule emits_bind [OF emits_defer_for_dsp_writer, where R' = "\<lambda>_ _ es. es = []"])
      (auto simp: emits_def)
  have stop: "emits (\<lambda>_ es. carriers es = []) (ret False)"
    by (simp add: emits_def)
  have lapse: "silent (lapse_stranded d)" "silent voice_session_active" "silent gate_active"
    unfolding lapse_stranded_def gate_active_def holds_fader_def update_gate_def voice_session_active_def
    by (intro keeps_intros; simp)+
  have source: "silent (case src of Some x \<Rightarrow> ret x | None \<Rightarrow> active_source d)"
    by (auto intro: keeps_intros silent_audible split: option.split)
  show ?thesis
    unfolding preflight_def Let_def
    by (intro emits_after_silent [OF lapse(1)] emits_after_silent [OF lapse(2)]
        emits_after_silent [OF lapse(3)] emits_after_silent [OF silent_refresh]
        emits_after_silent [OF source] emits_after_silent [OF silent_read_volume_and_mute]
        emits_after_silent [OF keeps_gets] emits_if emits_case_prod stop probe)
qed



end
