(* ===== verification/Volume_Coordinator.thy ===== *)
theory Volume_Coordinator
  imports Volume_Reconcile
begin

text \<open>
  The verbs of \<open>VolumeCoordinator\<close> (\<open>jasper/audio_control/volume_coordinator.py\<close>): boot, set, adjust,
  mute and unmute, and what an observed renderer volume does. Every verb runs its body under
  \<open>mutation\<close> and publishes the fan-in context after releasing it.
\<close>

section \<open>Dispatching a level\<close>

definition dispatch ::
  "('w, 'y) vol_doors_scheme \<Rightarrow> int \<Rightarrow> bool \<Rightarrow> bool \<Rightarrow> source option \<Rightarrow> (('w, 'z) coord_scheme, unit) state" where
  "dispatch d level persist user_change given = do {
     source \<leftarrow> (case given of Some src \<Rightarrow> ret src | None \<Rightarrow> active_source d);
     (if volume_mode source = PUSH then do { _ \<leftarrow> push_or_guard d source level; ret () }
      else do { _ \<leftarrow> set_camilla d level; ret () });
     onlyif persist (save_listening_level d level user_change)
   }"

definition publish_then_dispatch ::
  "('w, 'y) vol_doors_scheme \<Rightarrow> int \<Rightarrow> int option \<Rightarrow> (('w, 'z) coord_scheme, unit) state" where
  "publish_then_dispatch d level restore_level = do {
     let muted = (restore_level \<noteq> None \<or> main_mute_for_level level);
     source \<leftarrow> active_source d;
     publish_intent d source (case restore_level of None \<Rightarrow> level | Some l \<Rightarrow> l) muted;
     onlyif muted (do { _ \<leftarrow> write_main_mute d True; ret () });
     dispatch d level (restore_level = None) True (Some source)
   }"

text \<open>The lines shared by every explicit level: the mute latch is dropped, here and on disk.\<close>

definition clear_latch :: "('w, 'y) vol_doors_scheme \<Rightarrow> (('w, 'z) coord_scheme, unit) state" where
  "clear_latch d = do {
     modify (\<lambda>s. s\<lparr>co_pre_mute := None, co_token := None\<rparr>);
     _ \<leftarrow> save_mute_state d None None;
     ret ()
   }"

definition published ::
  "('w, 'y) vol_doors_scheme \<Rightarrow> (('w, 'z) coord_scheme, coord_exn + 'a) state \<Rightarrow>
   (('w, 'z) coord_scheme, coord_exn + 'a) state" where
  "published d m = do {
     r \<leftarrow> m;
     (case r of Inl e \<Rightarrow> ret () | Inr a \<Rightarrow> publish_volume_context d);
     ret r
   }"

section \<open>Setting the level\<close>

definition set_listening_level ::
  "('w, 'y) vol_doors_scheme \<Rightarrow> int \<Rightarrow> (('w, 'z) coord_scheme, coord_exn + int) state" where
  "set_listening_level d percent = do {
     let target = max 0 (min 100 percent);
     published d (mutation d True (do {
       refresh_from_disk d;
       refused \<leftarrow> refuse_level_write d;
       if refused then ret (Inl ClaimRefused)
       else do {
         modify (\<lambda>s. s\<lparr>co_level := target\<rparr>);
         clear_latch d;
         publish_then_dispatch d target None;
         ret (Inr target)
       }
     }))
   }"

definition adjust_listening_level ::
  "('w, 'y) vol_doors_scheme \<Rightarrow> int \<Rightarrow> (('w, 'z) coord_scheme, coord_exn + int) state" where
  "adjust_listening_level d delta =
     published d (mutation d True (do {
       refresh_from_disk d;
       level \<leftarrow> gets co_level;
       let target = max 0 (min 100 (level + delta));
       refused \<leftarrow> refuse_level_write d;
       if refused then ret (Inl ClaimRefused)
       else do {
         modify (\<lambda>s. s\<lparr>co_level := target\<rparr>);
         clear_latch d;
         publish_then_dispatch d target None;
         ret (Inr target)
       }
     }))"

section \<open>Muting\<close>

text \<open>\<open>uuid4().hex\<close> is a door; a token the state file refuses is the \<open>ValueError\<close> of the save.\<close>

definition mute_locked ::
  "('w, 'y) vol_doors_scheme \<Rightarrow> (('w, 'z) coord_scheme, coord_exn + int) state" where
  "mute_locked d = do {
     pre \<leftarrow> gets co_pre_mute;
     level \<leftarrow> gets co_level;
     onlyif (pre = None \<and> level > 0) (do {
       t \<leftarrow> sync (d_uuid d);
       modify (\<lambda>s. s\<lparr>co_pre_mute := Some level, co_token := Some t\<rparr>)
     });
     pre \<leftarrow> gets co_pre_mute;
     token \<leftarrow> gets co_token;
     let saved = (case pre of Some l \<Rightarrow> l | None \<Rightarrow> 0);
     stored \<leftarrow> save_mute_state d pre token;
     if stored \<noteq> Ret () then ret (Inl BadToken)
     else do {
       publish_then_dispatch d 0 (Some saved);
       ret (Inr saved)
     }
   }"

definition unmute_locked ::
  "('w, 'y) vol_doors_scheme \<Rightarrow> int \<Rightarrow> (('w, 'z) coord_scheme, coord_exn + int) state" where
  "unmute_locked d fallback_level = do {
     refused \<leftarrow> refuse_level_write d;
     if refused then ret (Inl ClaimRefused)
     else do {
       pre \<leftarrow> gets co_pre_mute;
       let target = max 0 (min 100 (case pre of Some l \<Rightarrow> l | None \<Rightarrow> fallback_level));
       clear_latch d;
       modify (\<lambda>s. s\<lparr>co_level := target\<rparr>);
       publish_then_dispatch d target None;
       ret (Inr target)
     }
   }"

definition mute :: "('w, 'y) vol_doors_scheme \<Rightarrow> (('w, 'z) coord_scheme, coord_exn + int) state" where
  "mute d = published d (mutation d True (mute_locked d))"

definition unmute ::
  "('w, 'y) vol_doors_scheme \<Rightarrow> int \<Rightarrow> (('w, 'z) coord_scheme, coord_exn + int) state" where
  "unmute d fallback_level = published d (mutation d True (unmute_locked d fallback_level))"

text \<open>The answer carries whether anything changed; the state is read before the lease is released.\<close>

definition with_state ::
  "(('w, 'z) coord_scheme, coord_exn + 'a) state \<Rightarrow> (('w, 'z) coord_scheme, coord_exn + bool \<times> volume_state) state" where
  "with_state m = do {
     r \<leftarrow> m;
     case r of
       Inl e \<Rightarrow> ret (Inl e)
     | Inr a \<Rightarrow> do { v \<leftarrow> gets current_volume_state; ret (Inr (True, v)) }
   }"

definition set_muted ::
  "('w, 'y) vol_doors_scheme \<Rightarrow> bool \<Rightarrow> int \<Rightarrow> (('w, 'z) coord_scheme, coord_exn + volume_state) state" where
  "set_muted d want_muted fallback_level = do {
     r \<leftarrow> mutation d True (do {
       pre \<leftarrow> gets co_pre_mute;
       if want_muted \<and> pre = None then with_state (mute_locked d)
       else if \<not> want_muted \<and> pre \<noteq> None then with_state (unmute_locked d fallback_level)
       else do { v \<leftarrow> gets current_volume_state; ret (Inr (False, v)) }
     });
     case r of
       Inl e \<Rightarrow> ret (Inl e)
     | Inr (changed, v) \<Rightarrow> do { onlyif changed (publish_volume_context d); ret (Inr v) }
   }"

definition toggle_mute ::
  "('w, 'y) vol_doors_scheme \<Rightarrow> int \<Rightarrow> (('w, 'z) coord_scheme, coord_exn + volume_state) state" where
  "toggle_mute d fallback_level = do {
     r \<leftarrow> published d (mutation d True (do {
       pre \<leftarrow> gets co_pre_mute;
       if pre \<noteq> None then with_state (unmute_locked d fallback_level)
       else with_state (mute_locked d)
     }));
     ret (map_sum id snd r)
   }"

section \<open>Boot\<close>

definition boot_restore ::
  "('w, 'y) vol_doors_scheme \<Rightarrow> int \<Rightarrow> (('w, 'z) coord_scheme, unit) state" where
  "boot_restore d target = do {
     source \<leftarrow> active_source d;
     hold \<leftarrow> read_fader_hold d;
     if hold \<noteq> None then
       onlyif (volume_mode source = CAMILLA_MASTER) (save_now d (level_db (d_floor d) target))
     else if volume_mode source = CAMILLA_MASTER then do { _ \<leftarrow> set_camilla d target; ret () }
     else do {
       _ \<leftarrow> set_camilla_db d (canonical_target_db (d_floor d) target PUSH None) True;
       dispatch d target False False None
     }
   }"

definition initialize ::
  "('w, 'y) vol_doors_scheme \<Rightarrow> rat \<Rightarrow> int \<Rightarrow> int \<Rightarrow> int \<Rightarrow>
   (('w, 'z) coord_scheme, coord_exn + int \<times> regress_reason) state" where
  "initialize d stale_after_sec low high first_boot = do {
     record \<leftarrow> load d;
     now \<leftarrow> peek (d_utc d);
     let (target, reason) = regress_listening_level_if_stale record now stale_after_sec low high first_boot;
     published d (mutation d True (do {
       modify (\<lambda>s. s\<lparr>co_level := target\<rparr>);
       boot_restore d target;
       clear_latch d;
       save_listening_level d target False;
       ret (Inr (target, reason))
     }))
   }"

section \<open>Readers\<close>

definition get_listening_level :: "(('w, 'z) coord_scheme, int) state" where
  "get_listening_level = gets co_level"

definition is_muted :: "(('w, 'z) coord_scheme, bool) state" where
  "is_muted = gets (\<lambda>s. co_pre_mute s \<noteq> None)"

section \<open>Observing a renderer's volume\<close>

definition ignore_inactive_source ::
  "('w, 'y) vol_doors_scheme \<Rightarrow> source \<Rightarrow> (('w, 'z) coord_scheme, bool) state" where
  "ignore_inactive_source d source = do { active \<leftarrow> active_source d; ret (active \<noteq> source) }"

definition ignore_moved_source ::
  "('w, 'y) vol_doors_scheme \<Rightarrow> source \<Rightarrow> (('w, 'z) coord_scheme, bool) state" where
  "ignore_moved_source d source = do {
     active \<leftarrow> active_source d;
     onlyif (active \<noteq> source) (refresh_from_disk d);
     ret (active \<noteq> source)
   }"

definition persisted_mute_latch ::
  "('w, 'y) vol_doors_scheme \<Rightarrow> (('w, 'z) coord_scheme, int option \<times> string option) state" where
  "persisted_mute_latch d = do {
     record \<leftarrow> load d;
     ret (case record of None \<Rightarrow> (None, None) | Some r \<Rightarrow> (pre_mute_level r, mute_token r))
   }"

definition defer_initial_while_latched ::
  "('w, 'y) vol_doors_scheme \<Rightarrow> int option \<Rightarrow> bool \<Rightarrow> bool \<Rightarrow> (('w, 'z) coord_scheme, bool) state" where
  "defer_initial_while_latched d persisted_pre_mute push_mode initial =
     (if initial \<and> persisted_pre_mute \<noteq> None \<and> \<not> push_mode then do { refresh_from_disk d; ret True }
      else ret False)"

definition confirm_push_mute_zero ::
  "('w, 'y) vol_doors_scheme \<Rightarrow> source \<Rightarrow> string option \<Rightarrow> (('w, 'z) coord_scheme, coord_exn + bool) state" where
  "confirm_push_mute_zero d source token =
     (case token of
        None \<Rightarrow> ret (Inl AssertFailed)
      | Some t \<Rightarrow> do {
          modify (\<lambda>s. s\<lparr>co_confirmed := (co_confirmed s)(source \<mapsto> t)\<rparr>);
          refresh_from_disk d;
          (_, publish_needed) \<leftarrow> confirm_push_mode_carrier_with_mutation d source 0 True;
          ret (Inr publish_needed)
        })"

definition defer_until_mute_zero ::
  "('w, 'y) vol_doors_scheme \<Rightarrow> source \<Rightarrow> string option \<Rightarrow> (('w, 'z) coord_scheme, coord_exn + bool) state" where
  "defer_until_mute_zero d source token = do {
     confirmed \<leftarrow> gets (\<lambda>s. co_confirmed s source);
     if confirmed = token then ret (Inr False)
     else if token = None then ret (Inl AssertFailed)
     else do { refresh_from_disk d; ret (Inr True) }
   }"

definition ignore_echo ::
  "('w, 'y) vol_doors_scheme \<Rightarrow> source \<Rightarrow> int \<Rightarrow> (('w, 'z) coord_scheme, bool) state" where
  "ignore_echo d source level = do {
     own \<leftarrow> is_own_echo d source;
     if own then ret True
     else do {
       current \<leftarrow> gets co_level;
       recent \<leftarrow> is_recent_cross_process_write d current level;
       onlyif recent (refresh_from_disk d);
       ret recent
     }
   }"

definition sync_camilla_observed_level ::
  "('w, 'y) vol_doors_scheme \<Rightarrow> int \<Rightarrow> (('w, 'z) coord_scheme, bool) state" where
  "sync_camilla_observed_level d level = do {
     (current_db, current_mute) \<leftarrow> read_volume_and_mute d;
     if converged (level_db (d_floor d) level) (main_mute_for_level level) current_db current_mute
     then ret False
     else set_camilla d level
   }"

definition sync_observed_carrier ::
  "('w, 'y) vol_doors_scheme \<Rightarrow> source \<Rightarrow> int \<Rightarrow> (('w, 'z) coord_scheme, bool) state" where
  "sync_observed_carrier d source level =
     (if volume_mode source = CAMILLA_MASTER then sync_camilla_observed_level d level
      else do {
        (carrier_ok, publish_needed) \<leftarrow> confirm_push_mode_carrier_with_mutation d source level True;
        ret (carrier_ok \<and> publish_needed)
      })"

definition accept_user_side_change ::
  "('w, 'y) vol_doors_scheme \<Rightarrow> source \<Rightarrow> int \<Rightarrow> (('w, 'z) coord_scheme, unit) state" where
  "accept_user_side_change d source level = do {
     modify (\<lambda>s. s\<lparr>co_level := level\<rparr>);
     clear_latch d;
     modify (\<lambda>s. s\<lparr>co_confirmed := (co_confirmed s)(source := None)\<rparr>);
     save_listening_level d level True;
     _ \<leftarrow> sync_observed_carrier d source level;
     ret ()
   }"

text \<open>The observation under the lease: None is declined, otherwise whether to publish.\<close>

definition observe_accepted ::
  "('w, 'y) vol_doors_scheme \<Rightarrow> source \<Rightarrow> int \<Rightarrow> (('w, 'z) coord_scheme, coord_exn + bool option) state" where
  "observe_accepted d source level = do {
     echo \<leftarrow> ignore_echo d source level;
     if echo then ret (Inr None)
     else do {
       refresh_from_disk d;
       current \<leftarrow> gets co_level;
       pre \<leftarrow> gets co_pre_mute;
       if level = current \<and> pre = None then do {
         publish \<leftarrow> sync_observed_carrier d source level;
         ret (Inr (Some publish))
       }
       else do { accept_user_side_change d source level; ret (Inr (Some True)) }
     }
   }"

definition observe_latched ::
  "('w, 'y) vol_doors_scheme \<Rightarrow> source \<Rightarrow> int \<Rightarrow> string option \<Rightarrow>
   (('w, 'z) coord_scheme, coord_exn + bool option) state" where
  "observe_latched d source level token =
     (if level = 0 then do {
        publish \<leftarrow> confirm_push_mute_zero d source token;
        ret (map_sum id Some publish)
      }
      else do {
        deferred \<leftarrow> defer_until_mute_zero d source token;
        case deferred of
          Inl e \<Rightarrow> ret (Inl e)
        | Inr wait \<Rightarrow> if wait then ret (Inr None) else observe_accepted d source level
      })"

definition observe_locked ::
  "('w, 'y) vol_doors_scheme \<Rightarrow> source \<Rightarrow> int \<Rightarrow> bool \<Rightarrow>
   (('w, 'z) coord_scheme, coord_exn + bool option) state" where
  "observe_locked d source level initial = do {
     moved \<leftarrow> ignore_moved_source d source;
     if moved then ret (Inr None)
     else do {
       held \<leftarrow> (if level > 0 then holds_fader d else ret False);
       if held then ret (Inr None)
       else do {
         (pre_mute, token) \<leftarrow> persisted_mute_latch d;
         let push_mode = (volume_mode source = PUSH);
         deferred \<leftarrow> defer_initial_while_latched d pre_mute push_mode initial;
         if deferred then ret (Inr None)
         else do {
           onlyif (pre_mute = None) (modify (\<lambda>s. s\<lparr>co_confirmed := (co_confirmed s)(source := None)\<rparr>));
           if pre_mute \<noteq> None \<and> push_mode then observe_latched d source level token
           else observe_accepted d source level
         }
       }
     }
   }"

definition observe_source_volume ::
  "('w, 'y) vol_doors_scheme \<Rightarrow> source \<Rightarrow> rat \<Rightarrow> bool \<Rightarrow> (('w, 'z) coord_scheme, coord_exn + bool) state" where
  "observe_source_volume d source native_value initial =
     (case native_to_listening_level source native_value of
        None \<Rightarrow> ret (Inr False)
      | Some level \<Rightarrow> do {
          inactive \<leftarrow> ignore_inactive_source d source;
          if inactive then ret (Inr False)
          else do {
            r \<leftarrow> mutation d False (observe_locked d source level initial);
            case r of
              Inl e \<Rightarrow> ret (Inl e)
            | Inr None \<Rightarrow> ret (Inr False)
            | Inr (Some publish) \<Rightarrow> do { onlyif publish (publish_volume_context d); ret (Inr True) }
          }
        })"

section \<open>Every verb preserves the invariant\<close>

definition uuid_ok :: "('w, 'y) doors_scheme \<Rightarrow> bool" where
  "uuid_ok d \<longleftrightarrow> (\<forall>w. fst (d_uuid d w) \<noteq> [] \<and> length (fst (d_uuid d w)) \<le> 128)"

lemma pres_coord_dispatch [pres_intros]:
  assumes "valid_floor_db (d_floor d)" "0 \<le> level" "level \<le> 100"
  shows "pres coord_inv (dispatch d level persist change given)"
  unfolding dispatch_def by (intro pres_intros assms)

lemma pres_coord_publish_then_dispatch [pres_intros]:
  assumes "valid_floor_db (d_floor d)" "0 \<le> level" "level \<le> 100"
  shows "pres coord_inv (publish_then_dispatch d level restore)"
  unfolding publish_then_dispatch_def Let_def by (intro pres_intros assms)

lemma pres_coord_clear_latch [pres_intros]: "pres coord_inv (clear_latch d)"
  unfolding clear_latch_def
  by (intro pres_intros pres_modify) (auto simp: coord_inv_def intent_ok_def memory_inv_def)

lemma pres_coord_published [pres_intros]:
  "valid_floor_db (d_floor d) \<Longrightarrow> pres coord_inv m \<Longrightarrow> pres coord_inv (published d m)"
  unfolding published_def by (intro pres_intros)

lemma pres_coord_set_level:
  "0 \<le> l \<Longrightarrow> l \<le> 100 \<Longrightarrow> pres coord_inv (modify (\<lambda>s. s\<lparr>co_level := l\<rparr>))"
  by (rule pres_modify) (auto simp: coord_inv_def intent_ok_def memory_inv_def)

lemma pres_coord_refuse [pres_intros]: "pres coord_inv (refuse_level_write d)"
  unfolding refuse_level_write_def by (intro pres_intros)

text \<open>A result whose range follows from the invariant.\<close>

lemma pres_bind_inv:
  "(\<And>s. I s \<Longrightarrow> wp m (\<lambda>a s'. R a \<and> I s') s) \<Longrightarrow> (\<And>a. R a \<Longrightarrow> pres I (k a)) \<Longrightarrow> pres I (m \<bind> k)"
  by (rule pres_wpI, simp add: wp_bind) (rule wp_mono, blast, simp add: pres_def wp_def)

lemma pres_gets_level:
  "(\<And>l. 0 \<le> l \<Longrightarrow> l \<le> 100 \<Longrightarrow> pres coord_inv (k l)) \<Longrightarrow> pres coord_inv (gets co_level \<bind> k)"
  by (rule pres_bind_inv [where R = "\<lambda>l. 0 \<le> l \<and> l \<le> 100"]) (auto simp: wp_gets coord_inv_def intent_ok_def)

lemma clamp_level_range: "0 \<le> max 0 (min 100 l)" "max 0 (min 100 l) \<le> (100::int)"
  by simp_all

lemma pres_coord_latch: "0 \<le> l \<Longrightarrow> l \<le> 100 \<Longrightarrow> pres coord_inv (modify (\<lambda>s. s\<lparr>co_pre_mute := Some l, co_token := t\<rparr>))"
  by (rule pres_modify) (auto simp: coord_inv_def intent_ok_def memory_inv_def)

lemma pres_coord_mute_locked [pres_intros]:
  assumes "valid_floor_db (d_floor d)"
  shows "pres coord_inv (mute_locked d)"
  unfolding mute_locked_def Let_def
  by (intro pres_bind [OF pres_gets] pres_gets_level pres_intros pres_coord_latch assms) simp_all

lemma pres_coord_unmute_locked [pres_intros]:
  assumes "valid_floor_db (d_floor d)"
  shows "pres coord_inv (unmute_locked d fallback)"
  unfolding unmute_locked_def Let_def
  by (intro pres_intros pres_coord_set_level assms clamp_level_range)

lemma pres_coord_with_state [pres_intros]: "pres coord_inv m \<Longrightarrow> pres coord_inv (with_state m)"
  unfolding with_state_def by (intro pres_intros)

lemma regress_percent_range:
  assumes "0 \<le> low" "low \<le> 100" "0 \<le> high" "high \<le> 100" "0 \<le> boot" "boot \<le> 100"
    and "\<forall>l \<in> set_option pct. 0 \<le> l \<and> l \<le> 100"
  shows "0 \<le> fst (regress_percent pct age stale low high boot) \<and>
    fst (regress_percent pct age stale low high boot) \<le> 100"
  using assms by (auto simp: regress_percent_def split: option.splits)

lemma pres_coord_initialize:
  fixes d :: "('w, 'y) vol_doors_scheme"
  assumes "valid_floor_db (d_floor d)"
    and "0 \<le> low" "low \<le> 100" "0 \<le> high" "high \<le> 100" "0 \<le> boot" "boot \<le> 100"
  shows "pres coord_inv (initialize d stale low high boot ::
    (('w, 'z) coord_scheme, coord_exn + int \<times> regress_reason) state)"
proof -
  have loaded: "wp (load d) (\<lambda>r s'. (\<forall>x \<in> set_option r. record_ok x) \<and> coord_inv s') s" if "coord_inv s"
    for s :: "('w, 'z) coord_scheme"
    unfolding wp_conj
    by (intro conjI wp_pres [OF pres_coord_load that])
      (auto simp: load_def wp_simps dest!: load_file_ok split: outcome.splits option.splits)
  have pin: "-61 \<le> canonical_target_db (d_floor d) l PUSH None" "canonical_target_db (d_floor d) l PUSH None \<le> 1" for l
    using level_db_savable [OF assms(1), of 0] by (auto simp: canonical_target_db_def)
  have restore: "pres coord_inv (boot_restore d l)" if "0 \<le> l" "l \<le> 100" for l
    unfolding boot_restore_def using that level_db_savable [OF assms(1), of l]
    by (intro pres_intros pres_coord_save_now pres_coord_set_camilla_db pin assms) auto
  have body: "pres coord_inv (do { modify (\<lambda>s. s\<lparr>co_level := l\<rparr>); boot_restore d l; clear_latch d;
      save_listening_level d l False; ret (Inr (l, reason)) })" if "0 \<le> l" "l \<le> 100" for l reason
    using that by (intro pres_intros pres_coord_set_level restore assms)
  show ?thesis
    unfolding initialize_def
  proof (rule pres_bind_inv [OF loaded])
    fix r assume "\<forall>x \<in> set_option r. record_ok x"
    then have "\<forall>l \<in> set_option (Option.bind r listening_level). 0 \<le> l \<and> l \<le> 100"
      by (cases r) (auto simp: record_ok_def)
    from regress_percent_range [OF assms(2-) this]
    have range: "0 \<le> fst (regress_listening_level_if_stale r now stale low high boot)"
      "fst (regress_listening_level_if_stale r now stale low high boot) \<le> 100" for now
      by (simp_all add: regress_listening_level_if_stale_def Let_def)
    show "pres coord_inv (do { now \<leftarrow> peek (d_utc d);
        let (target, reason) = regress_listening_level_if_stale r now stale low high boot;
        published d (mutation d True (do { modify (\<lambda>s. s\<lparr>co_level := target\<rparr>); boot_restore d target;
          clear_latch d; save_listening_level d target False; ret (Inr (target, reason)) })) })"
      by (simp only: Let_def case_prod_unfold)
        (intro pres_bind [OF pres_peek] pres_coord_published pres_coord_mutation body range assms)
  qed
qed

lemma pres_coord_observe [pres_intros]:
  assumes "valid_floor_db (d_floor d)" "0 \<le> level" "level \<le> 100"
  shows "pres coord_inv (observe_locked d source level initial)"
proof -
  have confirm: "pres coord_inv (modify (\<lambda>s. s\<lparr>co_confirmed := f s\<rparr>))" for f
    by (rule pres_modify) simp
  have echo: "pres coord_inv (ignore_echo d source level)"
    unfolding ignore_echo_def is_own_echo_def is_recent_cross_process_write_def by (intro pres_intros)
  show ?thesis
    unfolding observe_locked_def ignore_moved_source_def persisted_mute_latch_def
      defer_initial_while_latched_def observe_latched_def observe_accepted_def Let_def
      confirm_push_mute_zero_def defer_until_mute_zero_def accept_user_side_change_def
      sync_observed_carrier_def sync_camilla_observed_level_def
    by (intro pres_intros confirm echo pres_coord_set_level assms)
qed

lemma pres_coord_observe_volume [pres_intros]:
  assumes "valid_floor_db (d_floor d)"
  shows "pres coord_inv (observe_source_volume d source native initial)"
proof -
  have range: "0 \<le> l \<and> l \<le> 100" if "native_to_listening_level source native = Some l" for l
    using that bluetooth.reading_range spotify.reading_range
    by (cases source) (auto simp del: of_int_le_iff)
  show ?thesis
    unfolding observe_source_volume_def ignore_inactive_source_def
    by (intro pres_intros pres_coord_observe assms) (use range in auto)
qed

abbreviation boot :: "('w, 'y) vol_doors_scheme \<Rightarrow> (('w, 'z) coord_scheme, coord_exn + int \<times> regress_reason) state" where
  "boot d \<equiv> initialize d REGRESS_AFTER_SEC REGRESS_SAFE_LOW_PCT REGRESS_SAFE_HIGH_PCT FIRST_BOOT_DEFAULT_PCT"

lemma pres_coord_set_listening_level [pres_intros]:
  assumes "valid_floor_db (d_floor d)"
  shows "pres coord_inv (set_listening_level d percent)"
  unfolding set_listening_level_def Let_def
  by (intro pres_intros pres_coord_set_level clamp_level_range assms)

lemma pres_coord_adjust [pres_intros]:
  assumes "valid_floor_db (d_floor d)"
  shows "pres coord_inv (adjust_listening_level d delta)"
  unfolding adjust_listening_level_def Let_def
  by (intro pres_intros pres_coord_set_level clamp_level_range assms)

text \<open>
  C38. No verb ever leaves the coordinator or the speaker outside its bounds. Boot, set, adjust, mute,
  unmute, explicit and toggled mute, an observed renderer volume, a mux handoff and its undoing, the
  observer's transition and the reconciler all preserve the invariant, on every branch and whatever
  the other daemons write in between: the level and the mute restore level stay in 0..100, the claim
  ledger stays a ledger, every volume file written loads again, every fader value written is between
  -150 and 0 dB, every level pushed to a renderer is in 0..100 and goes to a push-mode renderer, and
  no context published claims a level above 0 dB.
\<close>

theorem coordinator_keeps_invariant:
  fixes d :: "('w, 'y) vol_doors_scheme"
  defines "I \<equiv> coord_inv :: ('w, 'z) coord_scheme \<Rightarrow> bool"
  assumes "valid_floor_db (d_floor d)"
  shows "pres I (boot d) \<and> pres I (set_listening_level d percent) \<and>
    pres I (adjust_listening_level d delta) \<and> pres I (mute d) \<and> pres I (unmute d fallback) \<and>
    pres I (set_muted d want fallback) \<and> pres I (toggle_mute d fallback) \<and>
    pres I (observe_source_volume d source native initial) \<and>
    pres I (prepare_source_handoff d prev source reason) \<and> pres I (finalize_source_handoff d h) \<and>
    pres I (abort_source_handoff d h) \<and> pres I (apply_transition d prev source) \<and>
    pres I (maybe_reconcile_camilla d given)"
  unfolding I_def mute_def unmute_def set_muted_def toggle_mute_def
proof (intro conjI)
  show "pres coord_inv (boot d)"
    by (rule pres_coord_initialize [OF assms(2)])
      (simp_all add: REGRESS_SAFE_LOW_PCT_def REGRESS_SAFE_HIGH_PCT_def FIRST_BOOT_DEFAULT_PCT_def)
qed (intro pres_intros assms)+

lemma coordinator_keeps_invariant_witness:
  "coord_inv (snd (run_state (set_listening_level demo_doors 250) demo_coord)) \<and>
   coord_inv (snd (run_state (mute demo_doors) demo_coord))"
proof -
  have "pres coord_inv (set_listening_level demo_doors 250 :: (demo coord, coord_exn + int) state) \<and>
      pres coord_inv (mute demo_doors :: (demo coord, coord_exn + int) state)"
    using coordinator_keeps_invariant [OF demo_floor_valid, where percent = 250] by blast
  with demo_coord_inv show ?thesis by (simp add: pres_def)
qed

end
