(* ===== verification/Volume_Intent.thy ===== *)
theory Volume_Intent
  imports Volume_Coordinator
begin

text \<open>
  What the verbs do to the household's intent on disk: the listening level, the mute restore level and
  the mute token of the stored record. Carrier work (handoffs, reconciling, dispatching) leaves it
  alone; each verb changes it as its contract says.
\<close>

section \<open>The stored intent\<close>

type_synonym intent = "int option \<times> int option \<times> string option"

definition intent_of :: "volume_record \<Rightarrow> intent" where
  "intent_of r = (listening_level r, pre_mute_level r, mute_token r)"

definition stores :: "intent \<Rightarrow> ('w, 'z) pers_scheme \<Rightarrow> bool" where
  "stores i s \<longleftrightarrow> (\<exists>r. file_reads s (Some r) \<and> intent_of r = i)"

lemma stores_file: "the_file s' = the_file s \<Longrightarrow> stores i s' = stores i s"
  by (simp add: stores_def file_reads_def)

lemma pres_stores_keeps: "keeps the_file m \<Longrightarrow> pres (stores i) m"
  by (simp add: pres_def keeps_def stores_def file_reads_def)

lemma intent_rewritten: "record_ok r \<Longrightarrow> intent_of (rewritten now r) = intent_of r"
  by (auto simp: intent_of_def rewritten_def stored_record_def record_ok_def)

lemma file_reads_ok: "file_reads s (Some r) \<Longrightarrow> record_ok r"
  using load_file_ok by (auto simp: file_reads_def)

text \<open>Writing the memory copy of a record: the file becomes that record, or stays.\<close>

lemma wp_write_full_memory:
  assumes "record_ok r'" "s1 = remember r' s0"
  shows "wp (write_full d) (\<lambda>_ s'. the_file s' = the_file s1 \<or> stores (intent_of r') s') s1"
proof -
  have mem: "mem_db s1 = Some (main_volume_db r')" "mem_level s1 = listening_level r'"
    "mem_pre_mute s1 = pre_mute_level r'" "mem_token s1 = mute_token r'" "mem_last_used s1 = last_used_at r'"
    by (simp_all add: assms(2) remember_def)
  have ok: "memory_ok (main_volume_db r') (listening_level r') (pre_mute_level r') (mute_token r')"
    using assms(1) by (auto simp: record_ok_def memory_ok_def)
  have "intent_of (stored_record now (main_volume_db r') (listening_level r') (last_used_at r')
      (pre_mute_level r') (mute_token r')) = intent_of r'" for now
    using intent_rewritten [OF assms(1), of now] by (simp add: rewritten_def)
  then show ?thesis
    using load_written [OF ok]
    by (auto simp: write_full_def wp_simps Let_def mem stores_def file_reads_def)
qed

lemma wp_write_stores:
  assumes "record_ok r'" "the_file s0 = the_file s" "stores (intent_of r') s"
  shows "wp (write_full d) (\<lambda>_. stores (intent_of r')) (remember r' s0)"
proof (rule wp_mono [OF wp_write_full_memory [OF assms(1) refl]])
  fix a s'
  assume "the_file s' = the_file (remember r' s0) \<or> stores (intent_of r') s'"
  moreover have "the_file (remember r' s0) = the_file s"
    using assms(2) by (simp add: remember_def)
  ultimately show "stores (intent_of r') s'"
    using assms(3) stores_file [of s' s "intent_of r'"] by metis
qed

lemma wp_state_update_stores:
  assumes "file_undisturbed d" "file_reads s (Some r)"
  shows "wp (state_update d) (\<lambda>_ s'. \<exists>s0. s' = remember r s0 \<and> the_file s0 = the_file s) s"
  using assms
  by (auto simp: state_update_def load_def wp_simps file_reads_def file_undisturbed_def)

lemma wp_save_now_stores:
  fixes s :: "('w, 'z) pers_scheme"
  assumes "file_undisturbed d" "-61 \<le> db" "db \<le> 1" "stores i s"
  shows "wp (save_now d db) (\<lambda>_. stores i) s"
proof -
  obtain r where r: "file_reads s (Some r)" "intent_of r = i"
    using assms(4) by (auto simp: stores_def)
  let ?r = "r\<lparr>main_volume_db := db\<rparr>"
  have ok: "record_ok ?r" using file_reads_ok [OF r(1)] assms by (auto simp: record_ok_def)
  have i: "intent_of ?r = i" using r(2) by (simp add: intent_of_def)
  have upd: "remember r s0\<lparr>mem_db := Some db\<rparr> = remember ?r s0" for s0 :: "('w, 'z) pers_scheme"
    by (simp add: remember_def)
  show ?thesis
    unfolding save_now_def
    apply (simp only: wp_bind)
    apply (rule wp_mono [OF wp_state_update_stores [OF assms(1) r(1)]])
    apply (clarsimp simp: wp_simps upd)
    using wp_write_stores [OF ok, unfolded i, OF _ assms(4)] by blast
qed

lemma pres_stores_save_now:
  "file_undisturbed d \<Longrightarrow> -61 \<le> db \<Longrightarrow> db \<le> 1 \<Longrightarrow> pres (stores i) (save_now d db)"
  by (rule pres_wpI) (rule wp_save_now_stores)

section \<open>Carrier work keeps the intent\<close>

lemma keeps_file_onlyif_stamp: "keeps the_file (stamp_outbound d src)"
  unfolding stamp_outbound_def by (intro keeps_intros) simp

lemma keeps_file_emit [keeps_intros]: "keeps the_file (emit e)"
  by (simp add: keeps_def)

lemma keeps_file_accounts: "file_undisturbed d \<Longrightarrow> keeps the_file (push_to_accounts d pct as)"
  by (induction as) (auto intro!: keeps_intros keeps_await_file)

lemma keeps_file_push: "file_undisturbed d \<Longrightarrow> keeps the_file (push_source d src level)"
  unfolding push_source_def push_spotify_volume_def push_bluetooth_volume_def Let_def
  by (intro keeps_intros keeps_file_accounts keeps_await_file keeps_file_onlyif_stamp)

lemma keeps_file_fresh: "keeps the_file (fresh_level d)"
  unfolding fresh_level_def get_volume_state_def by (intro keeps_intros keeps_file_refresh)

lemma keeps_file_publish:
  assumes "file_undisturbed d"
  shows "keeps the_file (publish_context d p ctx)" "keeps the_file (publish_intent d src l m)"
    "keeps the_file (publish_volume_context d)"
proof -
  show 1: "keeps the_file (publish_context d p ctx)" for p ctx
    unfolding publish_context_def by (intro keeps_intros keeps_await_file assms)
  show "keeps the_file (publish_intent d src l m)" "keeps the_file (publish_volume_context d)"
    unfolding publish_intent_def publish_volume_context_def
    by (intro keeps_intros 1 keeps_file_load keeps_file_snapshot keeps_file_carrier assms)+
qed

lemma keeps_file_sync: "keeps the_file (sync f)"
  by (rule keeps_sync) simp

lemmas keeps_file = keeps_file_load keeps_file_refresh keeps_file_fresh keeps_file_push
  keeps_file_audible keeps_file_publish keeps_file_carrier keeps_await_file keeps_file_onlyif_stamp

text \<open>The rules that show a program keeps the stored intent, for an undisturbed file.\<close>

named_theorems stores_intros "programs that keep the stored intent"

lemma stores_keeps [stores_intros]:
  assumes "file_undisturbed d"
  shows "pres (stores i) (load d)" "pres (stores i) (refresh_from_disk d)" "pres (stores i) (fresh_level d)"
    "pres (stores i) (push_source d src level)" "pres (stores i) (audible_source d)"
    "pres (stores i) (publish_intent d src l m)" "pres (stores i) (publish_volume_context d)"
    "pres (stores i) (read_volume_and_mute d)" "pres (stores i) (write_main_mute d b)"
    "pres (stores i) (write_db_with_mute d db)" "pres (stores i) (await d f)"
    "pres (stores i) (stamp_outbound d src)"
  using assms by (auto intro!: pres_stores_keeps keeps_file)

lemma stores_emit [stores_intros]: "pres (stores i) (emit e)"
  by (rule pres_stores_keeps [OF keeps_file_emit])

lemma stores_modify:
  "(\<And>s. the_file (f s) = the_file s) \<Longrightarrow> pres (stores i) (modify f)"
  by (rule pres_modify) (simp add: stores_def file_reads_def)

lemma stores_set_camilla_db:
  "file_undisturbed d \<Longrightarrow> -61 \<le> db \<Longrightarrow> db \<le> 1 \<Longrightarrow> pres (stores i) (set_camilla_db d db persist)"
  unfolding set_camilla_db_def by (intro pres_intros stores_intros pres_stores_save_now)

lemma stores_carrier_level [stores_intros]:
  assumes "file_undisturbed d" "valid_floor_db (d_floor d)"
  shows "pres (stores i) (set_camilla_db d (level_db (d_floor d) l) persist)"
    "pres (stores i) (set_camilla_db d 0 persist)"
    "pres (stores i) (set_camilla_db d (percent_to_db (d_floor d) 0) persist)"
    "pres (stores i) (set_camilla d l)" "pres (stores i) (save_now d (level_db (d_floor d) l))"
  using level_db_savable [OF assms(2), of l] level_db_savable [OF assms(2), of 0] assms(1)
  unfolding set_camilla_def Let_def
  by (intro stores_set_camilla_db pres_intros stores_intros pres_stores_save_now; simp)+

lemma stores_confirm [stores_intros]:
  assumes "file_undisturbed d" "valid_floor_db (d_floor d)"
  shows "pres (stores i) (clear_confirmed_push_guard d src)"
    "pres (stores i) (confirm_push_mode_carrier_with_mutation d src level live)"
    "pres (stores i) (confirm_push_mode_carrier d src level live)"
    "pres (stores i) (push_or_guard d src level)"
proof -
  show 1: "pres (stores i) (clear_confirmed_push_guard d src)"
    unfolding clear_confirmed_push_guard_def persisted_main_volume_db_def
    by (intro pres_intros stores_intros assms)
  show 2: "pres (stores i) (confirm_push_mode_carrier_with_mutation d src level live)" for live
    unfolding confirm_push_mode_carrier_with_mutation_def persisted_main_volume_db_def
    by (intro pres_intros stores_intros 1 assms)
  show 3: "pres (stores i) (confirm_push_mode_carrier d src level live)" for live
    unfolding confirm_push_mode_carrier_def by (intro pres_intros 2)
  show "pres (stores i) (push_or_guard d src level)"
    unfolding push_or_guard_def guard_camilla_after_push_failure_def
    by (intro pres_intros stores_intros 3 assms)
qed

lemma stores_settle [stores_intros]:
  assumes "file_undisturbed d" "valid_floor_db (d_floor d)"
  shows "pres (stores i) (settle_handoff_guard d n guard ms)"
proof (induction n arbitrary: guard ms)
  case 0
  show ?case
    by (subst settle_handoff_guard.simps, unfold settle_wait_def)
      (intro pres_intros stores_intros assms, simp, intro pres_intros)
next
  case (Suc n)
  then show ?case
    by (subst settle_handoff_guard.simps, unfold settle_wait_def)
      (intro pres_intros stores_intros assms, simp, intro pres_intros stores_intros assms)
qed

lemma stores_handoff [stores_intros]:
  assumes "file_undisturbed d" "valid_floor_db (d_floor d)"
  shows "pres (stores i) (prepare_source_handoff d prev cur reason)"
    "pres (stores i) (finalize_source_handoff d h)" "pres (stores i) (abort_source_handoff d h)"
proof -
  show "pres (stores i) (prepare_source_handoff d prev cur reason)"
    unfolding prepare_source_handoff_def prepare_camilla_master_def prepare_push_def push_latest_def
      guard_failed_push_def Let_def
    by (intro pres_intros stores_intros assms)
  show "pres (stores i) (finalize_source_handoff d h)"
    unfolding finalize_source_handoff_def finalize_push_def push_settle_wait_def Let_def
    by (intro pres_intros stores_intros assms)
  show "pres (stores i) (abort_source_handoff d h)"
    unfolding abort_source_handoff_def by (intro pres_intros stores_intros assms)
qed

lemma stores_mutation [stores_intros]:
  "file_undisturbed d \<Longrightarrow> pres (stores i) body \<Longrightarrow> pres (stores i) (mutation d refresh body)"
  unfolding mutation_def by (intro pres_intros stores_intros)

lemma stores_transition [stores_intros]:
  assumes "file_undisturbed d" "valid_floor_db (d_floor d)"
  shows "pres (stores i) (apply_transition d prev cur)"
  unfolding apply_transition_def transition_locked_def read_mux_handoff_def last_handoff_def
    voice_session_active_def
  by (intro pres_intros stores_intros stores_modify assms) simp_all

lemma stores_gate [stores_intros]:
  assumes "file_undisturbed d"
  shows "pres (stores i) (lapse_stranded d)" "pres (stores i) (holds_fader d)"
    "pres (stores i) (read_fader_hold d)" "pres (stores i) gate_active"
  using assms unfolding lapse_stranded_def holds_fader_def gate_active_def update_gate_def
    read_fader_hold_def Let_def
  by (intro pres_intros stores_intros stores_modify; simp)+

lemma stores_reconcile [stores_intros]:
  assumes "file_undisturbed d" "valid_floor_db (d_floor d)"
  shows "pres (stores i) (maybe_reconcile_camilla d src)"
  unfolding maybe_reconcile_camilla_def preflight_def write_under_lease_def gated_write_def
    reconcile_write_def defer_for_dsp_writer_def defer_for_measurement_hold_def defer_tick_def
    voice_session_active_def Let_def
  by (intro pres_intros stores_intros stores_modify assms) simp_all

text \<open>
  Moving the carrier never changes what the household asked for. Preparing, finishing and undoing
  a source handoff, the observer's transition and the 1 Hz reconciler leave the listening level, the
  mute restore level and the mute token on disk exactly as they were, on every branch and whether the
  writes of the fader, the renderers or the file itself succeed or fail.
\<close>

theorem carrier_work_keeps_intent:
  fixes i :: intent
  assumes "file_undisturbed d" "valid_floor_db (d_floor d)"
  shows "pres (stores i) (prepare_source_handoff d prev cur reason) \<and>
    pres (stores i) (finalize_source_handoff d h) \<and> pres (stores i) (abort_source_handoff d h) \<and>
    pres (stores i) (apply_transition d prev cur) \<and> pres (stores i) (maybe_reconcile_camilla d given)"
  by (intro conjI stores_intros assms)

lemma demo_coord_stores: "stores (Some 60, None, None) demo_coord"
  using demo_coord_reads by (auto simp: stores_def intent_of_def demo_record_def)

lemma carrier_work_keeps_intent_witness:
  "stores (Some 60, None, None)
     (snd (run_state (prepare_source_handoff demo_doors BLUETOOTH AIRPLAY ''test'') demo_coord))"
proof -
  have "pres (stores (Some 60, None, None))
      (prepare_source_handoff demo_doors BLUETOOTH AIRPLAY ''test'' :: (demo coord, source_handoff) state)"
    by (rule conjunct1 [OF carrier_work_keeps_intent [OF demo_doors_undisturbed(1) demo_floor_valid]])
  with demo_coord_stores show ?thesis by (simp add: pres_def)
qed

section \<open>What the verbs do to the intent\<close>

text \<open>In sync: the coordinator's memory agrees with the stored record.\<close>

fun in_sync :: "intent \<Rightarrow> ('w, 'z) coord_scheme \<Rightarrow> bool" where
  "in_sync (l, p, t) s \<longleftrightarrow> stores (l, p, t) s \<and> co_pre_mute s = p \<and> co_token s = t \<and>
     co_level s = (case l of Some x \<Rightarrow> x | None \<Rightarrow> FIRST_BOOT_DEFAULT_PCT)"

lemma wp_refresh_sync:
  assumes "stores i s"
  shows "wp (refresh_from_disk d) (\<lambda>_ s'. in_sync i s') s"
proof -
  obtain r where r: "file_reads s (Some r)" "intent_of r = i"
    using assms by (auto simp: stores_def)
  have level: "vs_level (state_from_record (Some r)) = (case listening_level r of Some x \<Rightarrow> x | None \<Rightarrow> FIRST_BOOT_DEFAULT_PCT)"
    by (rule record_ok_state [OF file_reads_ok [OF r(1)]])
  have rest: "vs_pre_mute (state_from_record (Some r)) = pre_mute_level r"
    "vs_token (state_from_record (Some r)) = mute_token r"
    by (simp_all add: state_from_record_def)
  have kept: "stores i (remember r s\<lparr>co_level := a, co_pre_mute := b, co_token := c\<rparr>)" for a b c
    using assms by (simp add: stores_def file_reads_def remember_def)
  show ?thesis
    using r level rest kept
    by (cases i) (auto simp: refresh_from_disk_def load_def wp_simps file_reads_def intent_of_def Let_def)
qed

lemma wp_mutation_sync:
  assumes "file_undisturbed d" "stores i s"
    and "\<And>s1. in_sync i s1 \<Longrightarrow> wp body Q s1" "\<And>s1. stores i s1 \<Longrightarrow> Q (Inl LeaseTimeout) s1"
  shows "wp (mutation d True body) Q s"
proof -
  have step: "wp m Q' s1" if "stores i s1" "pres (stores i) m" "\<And>a s2. stores i s2 \<Longrightarrow> Q' a s2" for m Q' s1
    using wp_mono [OF wp_pres [OF that(2,1)]] that(3) by blast
  show ?thesis
    unfolding mutation_def wp_bind wp_if onlyif_def
    by (rule step [OF assms(2) stores_keeps(11) [OF assms(1)]],
        rule step [OF _ stores_keeps(11) [OF assms(1)]], assumption)
      (auto simp: wp_return assms(4) intro: wp_mono [OF wp_refresh_sync] assms(3))
qed

lemma wp_published:
  assumes "wp m Q s" "\<And>a. pres (Q (Inr a)) (publish_volume_context d)"
  shows "wp (published d m) Q s"
  unfolding published_def wp_bind
  by (rule wp_mono [OF assms(1)])
    (use assms(2) in \<open>auto simp: wp_simps wp_def pres_def split: sum.split\<close>)

lemma stores_dispatch [stores_intros]:
  assumes "file_undisturbed d" "valid_floor_db (d_floor d)"
  shows "pres (stores i) (dispatch d level False change given)"
  unfolding dispatch_def by (intro pres_intros stores_intros assms) simp

lemma wp_save_level_stores:
  assumes "file_undisturbed d" "writes_land d" "stores (l, p, t) s"
  shows "wp (save_listening_level d level mark) (\<lambda>_. stores (Some (clamp 0 100 level), p, t)) s"
proof -
  obtain r where r: "file_reads s (Some r)" "intent_of r = (l, p, t)"
    using assms(3) by (auto simp: stores_def)
  have "intent_of (rewritten now (r\<lparr>listening_level := Some (clamp 0 100 level), last_used_at := used\<rparr>))
      = (Some (clamp 0 100 level), p, t)" for now used
    using intent_rewritten [of "r\<lparr>listening_level := Some (clamp 0 100 level), last_used_at := used\<rparr>"]
      file_reads_ok [OF r(1)] r(2) clamp_bounds [of "0::int" 100 level]
    by (auto simp: record_ok_def intent_of_def)
  then show ?thesis
    by (intro wp_mono [OF wp_save_level_reads [OF assms(1,2) r(1)]]) (auto simp: stores_def)
qed

lemma wp_save_mute_stores:
  assumes "file_undisturbed d" "writes_land d" "stores (l, p, t) s" "pre = None \<longleftrightarrow> tok = None"
    and "\<forall>x \<in> set_option pre. 0 \<le> x \<and> x \<le> 100" "\<forall>x \<in> set_option tok. x \<noteq> [] \<and> length x \<le> 128"
  shows "wp (save_mute_state d pre tok) (\<lambda>a s'. a = Ret () \<and> stores (l, pre, tok) s') s"
proof -
  obtain r where r: "file_reads s (Some r)" "intent_of r = (l, p, t)"
    using assms(3) by (auto simp: stores_def)
  have "intent_of (rewritten now (r\<lparr>pre_mute_level := pre, mute_token := tok\<rparr>)) = (l, pre, tok)" for now
    using intent_rewritten [of "r\<lparr>pre_mute_level := pre, mute_token := tok\<rparr>"] file_reads_ok [OF r(1)]
      r(2) assms(4-) by (auto simp: record_ok_def intent_of_def)
  then show ?thesis
    by (intro wp_mono [OF wp_save_mute_state_reads [OF assms(1,2) r(1) assms(4-)]]) (auto simp: stores_def)
qed

lemma wp_clear_latch_stores:
  assumes "file_undisturbed d" "writes_land d" "stores (l, p, t) s"
  shows "wp (clear_latch d) (\<lambda>_. stores (l, None, None)) s"
proof -
  have "stores (l, p, t) (s\<lparr>co_pre_mute := None, co_token := None\<rparr>)"
    using assms(3) by (simp add: stores_def file_reads_def)
  from wp_save_mute_stores [OF assms(1,2) this, of None None] show ?thesis
    unfolding clear_latch_def wp_bind wp_modify wp_return by (rule wp_mono) simp_all
qed

lemma wp_pres_bind:
  "pres I m \<Longrightarrow> I s \<Longrightarrow> (\<And>a s'. I s' \<Longrightarrow> wp (k a) Q s') \<Longrightarrow> wp (m \<bind> k) Q s"
  unfolding wp_bind by (rule wp_mono [OF wp_pres])

lemma wp_dispatch_stores:
  assumes "file_undisturbed d" "writes_land d" "valid_floor_db (d_floor d)" "stores (l, p, t) s"
  shows "wp (dispatch d level True change (Some src)) (\<lambda>_. stores (Some (clamp 0 100 level), p, t)) s"
proof -
  have carrier: "pres (stores (l, p, t)) (if volume_mode src = PUSH
      then do { _ \<leftarrow> push_or_guard d src level; ret () } else do { _ \<leftarrow> set_camilla d level; ret () })"
    by (intro pres_intros stores_intros assms)
  show ?thesis
    unfolding dispatch_def option.case onlyif_def if_True
    by (simp only: wp_bind wp_return)
      (rule wp_mono [OF wp_pres [OF carrier assms(4)]], rule wp_save_level_stores [OF assms(1,2)])
qed

lemma wp_level_dispatch_stores:
  assumes "file_undisturbed d" "writes_land d" "valid_floor_db (d_floor d)" "stores (l, p, t) s"
  shows "wp (publish_then_dispatch d level None) (\<lambda>_. stores (Some (clamp 0 100 level), p, t)) s"
proof -
  have assert: "pres (stores (l, p, t)) (onlyif muted (do { _ \<leftarrow> write_main_mute d True; ret () }))" for muted
    by (intro pres_intros stores_intros assms)
  show ?thesis
    unfolding publish_then_dispatch_def Let_def simp_thms
    by (rule wp_pres_bind [OF stores_keeps(5) [OF assms(1)] assms(4)],
        rule wp_pres_bind [OF stores_keeps(6) [OF assms(1)]], assumption,
        rule wp_pres_bind [OF assert], assumption, rule wp_dispatch_stores [OF assms(1-3)])
qed

lemma stores_mute_dispatch:
  assumes "file_undisturbed d" "valid_floor_db (d_floor d)"
  shows "pres (stores i) (publish_then_dispatch d level (Some l))"
  unfolding publish_then_dispatch_def Let_def
  by (intro pres_intros stores_intros assms) (simp, intro stores_intros assms)

text \<open>A level verb's body after its refusal check.\<close>

lemma wp_level_body:
  assumes "file_undisturbed d" "writes_land d" "valid_floor_db (d_floor d)" "stores (l, p, t) s"
  shows "wp (do { modify (\<lambda>s. s\<lparr>co_level := x\<rparr>); clear_latch d; publish_then_dispatch d level None; ret (Inr level) })
    (\<lambda>r s'. r = Inr level \<and> stores (Some (clamp 0 100 level), None, None) s') s"
proof -
  have "stores (l, p, t) (s\<lparr>co_level := x\<rparr>)"
    using assms(4) by (simp add: stores_def file_reads_def)
  note cleared = wp_clear_latch_stores [OF assms(1,2) this]
  show ?thesis
    unfolding wp_bind wp_modify
    by (rule wp_mono [OF cleared], rule wp_mono [OF wp_level_dispatch_stores [OF assms(1-3)]])
      (simp_all add: wp_return)
qed

lemma stores_low [simp]: "stores j (s\<lparr>co_level := y\<rparr>) = stores j s"
  by (rule stores_file) simp

text \<open>A verb's answer and what it stored: nothing new on an error.\<close>

definition answers :: "intent \<Rightarrow> (int \<Rightarrow> ('w, 'z) coord_scheme \<Rightarrow> bool) \<Rightarrow> coord_exn + int \<Rightarrow>
    ('w, 'z) coord_scheme \<Rightarrow> bool" where
  "answers i Q r s \<longleftrightarrow> (case r of Inl e \<Rightarrow> stores i s | Inr y \<Rightarrow> Q y s)"

definition base_level :: "intent \<Rightarrow> int" where
  "base_level i = (case fst i of Some x \<Rightarrow> x | None \<Rightarrow> FIRST_BOOT_DEFAULT_PCT)"

lemma stores_range:
  assumes "stores (l, p, t) s"
  shows "0 \<le> base_level (l, p, t) \<and> base_level (l, p, t) \<le> 100" "(p = None) = (t = None)"
    "\<forall>x \<in> set_option p. 0 \<le> x \<and> x \<le> 100" "\<forall>x \<in> set_option t. x \<noteq> [] \<and> length x \<le> 128"
  using assms file_reads_ok
  by (fastforce simp: stores_def intent_of_def base_level_def record_ok_def FIRST_BOOT_DEFAULT_PCT_def
      split: option.splits)+

lemma wp_refuse:
  assumes "\<And>s'. stores i s' \<Longrightarrow> current_volume_state s' = current_volume_state s \<Longrightarrow> co_level s' = co_level s \<Longrightarrow> wp (k False) Q s'"
    and "\<And>s'. stores i s' \<Longrightarrow> wp (k True) Q s'" and "stores i s"
  shows "wp (refuse_level_write d \<bind> k) Q s"
  using assms(3)
  by (auto simp: refuse_level_write_def holds_fader_def update_gate_def wp_simps stores_def file_reads_def
      current_volume_state_def intro!: assms(1,2))

lemma wp_set_level_stores:
  assumes d: "file_undisturbed d" "writes_land d" "valid_floor_db (d_floor d)" and i: "stores i s"
  shows "wp (set_listening_level d x) (answers i (\<lambda>y s'. y = clamp 0 100 x \<and> stores (Some y, None, None) s')) s"
proof -
  obtain l p t where i': "i = (l, p, t)" by (cases i)
  have target: "max 0 (min 100 x) = clamp 0 100 x" by (simp add: clamp_def)
  have "wp (set_listening_level d x) (answers i (\<lambda>y s'. y = clamp 0 100 x \<and> stores (Some y, None, None) s')) s"
    unfolding set_listening_level_def Let_def target
  proof (intro wp_published wp_mutation_sync [OF d(1) i], goal_cases)
    case (1 s1)
    then have s1: "stores i s1" using i' by simp
    show ?case
      apply (rule wp_pres_bind [OF stores_keeps(2) [OF d(1)] s1])
      apply (rule wp_refuse [where i = i])
        apply (simp only: if_False)
        apply (rule wp_mono [OF wp_level_body [OF d]], simp add: i')
        apply (simp add: answers_def)
       apply (simp_all add: wp_return answers_def)
      done
  next
    case (2 s1)
    then show ?case by (simp add: answers_def)
  next
    case (3 a)
    show ?case
      using stores_keeps(7) [OF d(1), of "(Some a, None, None)"]
      by (auto simp: answers_def pres_def)
  qed
  then show ?thesis .
qed

text \<open>A published answer keeps what it says as long as the file does.\<close>

lemma answers_published:
  fixes d :: "('w, 'y) vol_doors_scheme" and Q :: "int \<Rightarrow> ('w, 'z) coord_scheme \<Rightarrow> bool"
  assumes "file_undisturbed d" "\<And>y. \<exists>j. \<forall>s. Q y s \<longleftrightarrow> P y \<and> stores j s"
  shows "pres (answers i Q (Inr a)) (publish_volume_context d)"
proof -
  obtain j where j: "\<And>s. Q a s \<longleftrightarrow> P a \<and> stores j s" using assms(2) by blast
  have "pres (stores j) (publish_volume_context d :: (('w, 'z) coord_scheme, unit) state)"
    by (rule stores_keeps(7) [OF assms(1)])
  then show ?thesis by (simp add: answers_def pres_def j)
qed

lemma wp_adjust_level_stores:
  assumes d: "file_undisturbed d" "writes_land d" "valid_floor_db (d_floor d)" and i: "stores i s"
  shows "wp (adjust_listening_level d x)
    (answers i (\<lambda>y s'. y = clamp 0 100 (base_level i + x) \<and> stores (Some y, None, None) s')) s"
    (is "wp _ (answers i ?Q) s")
proof -
  obtain l p t where i': "i = (l, p, t)" by (cases i)
  have target: "max 0 (min 100 y) = clamp 0 100 y" for y :: int by (simp add: clamp_def)
  show ?thesis
    unfolding adjust_listening_level_def Let_def target
  proof (intro wp_published wp_mutation_sync [OF d(1) i], goal_cases)
    case (1 s1)
    then have s1: "stores i s1" using i' by simp
    show ?case
      unfolding wp_bind wp_gets
    proof (rule wp_mono [OF wp_refresh_sync [OF s1]], goal_cases)
      case (1 _ s2)
      then have s2: "stores i s2" "co_level s2 = base_level i"
        by (simp_all add: i' base_level_def)
      show ?case
        unfolding s2(2)
        apply (rule wp_refuse [where i = i, unfolded wp_bind])
          apply (simp only: if_False)
          apply (rule wp_mono [OF wp_level_body [OF d]], simp add: i')
          apply (simp add: answers_def)
         apply (simp_all add: wp_return answers_def s2)
        done
    qed
  next
    case (2 s1)
    then show ?case by (simp add: answers_def)
  next
    case (3 a)
    show ?case
      by (rule answers_published [OF d(1), where P = "\<lambda>y. y = clamp 0 100 (base_level i + x)"]) auto
  qed
qed

lemma wp_unmute_locked_stores:
  assumes d: "file_undisturbed d" "writes_land d" "valid_floor_db (d_floor d)"
    and i: "in_sync i s"
  shows "wp (unmute_locked d fb) (answers i (\<lambda>y s'.
    y = clamp 0 100 (case fst (snd i) of Some q \<Rightarrow> q | None \<Rightarrow> fb) \<and> stores (Some y, None, None) s')) s"
proof -
  obtain l p t where i': "i = (l, p, t)" by (cases i)
  have s: "stores i s" "co_pre_mute s = p" using i by (simp_all add: i')
  have target: "max 0 (min 100 y) = clamp 0 100 y" for y :: int by (simp add: clamp_def)
  have body: "wp (do { clear_latch d; modify (\<lambda>s. s\<lparr>co_level := y\<rparr>); publish_then_dispatch d y None; ret (Inr y) })
      (\<lambda>r s'. r = Inr y \<and> stores (Some (clamp 0 100 y), None, None) s') s1" if s1: "stores i s1" for y s1
    unfolding wp_bind wp_modify
    by (rule wp_mono [OF wp_clear_latch_stores [OF d(1,2) s1 [unfolded i']]],
        rule wp_mono [OF wp_level_dispatch_stores [OF d, where l = l and p = None and t = None]])
      (simp_all add: wp_return)
  show ?thesis
    unfolding unmute_locked_def Let_def target
  proof (rule wp_refuse [OF _ _ s(1)], goal_cases)
    case (1 s1)
    then have "co_pre_mute s1 = p" using s(2) by (simp add: current_volume_state_def)
    then show ?case
      unfolding if_False
      by (intro wp_gets_bind wp_mono [OF body [OF 1(1)]]) (simp add: answers_def i')
  next
    case (2 s1)
    then show ?case by (simp add: wp_return answers_def)
  qed
qed

lemma wp_mute_locked_stores:
  fixes s :: "('w, 'z) coord_scheme"
  assumes d: "file_undisturbed d" "writes_land d" "valid_floor_db (d_floor d)" "uuid_ok d"
    and i: "in_sync i s"
  shows "wp (mute_locked d) (answers i (\<lambda>y s'.
    y = (case fst (snd i) of Some q \<Rightarrow> q | None \<Rightarrow> base_level i) \<and>
    (if fst (snd i) = None \<and> 0 < base_level i then \<exists>tok. stores (fst i, Some (base_level i), Some tok) s'
     else stores i s'))) s"
proof -
  obtain l p t where i': "i = (l, p, t)" by (cases i)
  have s: "stores (l, p, t) s" "co_pre_mute s = p" "co_token s = t" "co_level s = base_level i"
    using i by (simp_all add: i' base_level_def)
  note range = stores_range [OF s(1)]
  have body: "wp (do { stored \<leftarrow> save_mute_state d pre tok;
        if stored \<noteq> Ret () then ret (Inl BadToken)
        else do { publish_then_dispatch d 0 (Some x); ret (Inr x) } })
      (\<lambda>r s'. r = Inr x \<and> stores (l, pre, tok) s') s1"
    if "stores (l, p, t) s1" "pre = None \<longleftrightarrow> tok = None" "\<forall>x \<in> set_option pre. 0 \<le> x \<and> x \<le> 100"
      "\<forall>x \<in> set_option tok. x \<noteq> [] \<and> length x \<le> 128" for pre tok x s1
  proof -
    show ?thesis
      unfolding wp_bind
    proof (rule wp_mono [OF wp_save_mute_stores [OF d(1,2) that]], goal_cases)
      case (1 a s2)
      then show ?case
        by (simp add: wp_simps) (rule wp_pres [OF stores_mute_dispatch [OF d(1,3)]], simp)
    qed
  qed
  have latch: "stores (l, p, t) (s\<lparr>world := w, co_pre_mute := a, co_token := b\<rparr>)" for w a b
    using s(1) by (simp add: stores_def file_reads_def)
  have uuid: "fst (d_uuid d w) \<noteq> []" "length (fst (d_uuid d w)) \<le> 128" for w
    using d(4) by (simp_all add: uuid_ok_def)
  let ?save = "\<lambda>pre tok x. do { stored \<leftarrow> save_mute_state d pre tok;
        if stored \<noteq> Ret () then ret (Inl BadToken)
        else do { publish_then_dispatch d 0 (Some x); ret (Inr x) } } :: (('w, 'z) coord_scheme, coord_exn + int) state"
  show ?thesis
  proof (cases "p = None \<and> 0 < base_level i")
    case True
    let ?tok = "fst (d_uuid d (world s))"
    let ?s1 = "s\<lparr>world := snd (d_uuid d (world s)), co_pre_mute := Some (base_level i), co_token := Some ?tok\<rparr>"
    have run: "wp (mute_locked d) Q s = wp (?save (Some (base_level i)) (Some ?tok) (base_level i)) Q ?s1" for Q
      using True by (simp add: mute_locked_def Let_def wp_bind wp_gets wp_modify wp_sync onlyif_def s cong: if_cong)
    show ?thesis
      unfolding run
      by (rule wp_mono [OF body [OF latch]]) (use True range(1) uuid in \<open>auto simp: answers_def i'\<close>)
  next
    case False
    have run: "wp (mute_locked d) Q s = wp (?save p t (case p of Some l \<Rightarrow> l | None \<Rightarrow> 0)) Q s" for Q
      using False by (auto simp: mute_locked_def Let_def wp_bind wp_gets onlyif_def s wp_return cong: if_cong)
    show ?thesis
      unfolding run
      by (rule wp_mono [OF body [OF s(1) range(2-4)]])
        (use False range(1) in \<open>auto simp: answers_def i' split: option.splits\<close>)
  qed
qed

lemma answers_mono:
  "answers i Q r s \<Longrightarrow> (\<And>y. r = Inr y \<Longrightarrow> Q y s \<Longrightarrow> Q' y s) \<Longrightarrow> answers i Q' r s"
  by (auto simp: answers_def split: sum.splits)

text \<open>What muting stores: the restore level and a fresh token, or nothing new.\<close>

definition muted_from :: "intent \<Rightarrow> int \<Rightarrow> ('w, 'z) coord_scheme \<Rightarrow> bool" where
  "muted_from i y s \<longleftrightarrow> y = (case fst (snd i) of Some q \<Rightarrow> q | None \<Rightarrow> base_level i) \<and>
     (if fst (snd i) = None \<and> 0 < base_level i then \<exists>tok. stores (fst i, Some (base_level i), Some tok) s
      else stores i s)"

definition unmuted_from :: "intent \<Rightarrow> int \<Rightarrow> int \<Rightarrow> ('w, 'z) coord_scheme \<Rightarrow> bool" where
  "unmuted_from i fb y s \<longleftrightarrow> y = clamp 0 100 (case fst (snd i) of Some q \<Rightarrow> q | None \<Rightarrow> fb) \<and>
     stores (Some y, None, None) s"

lemma stores_published_run:
  "file_undisturbed d \<Longrightarrow> stores j s \<Longrightarrow> stores j (snd (run_state (publish_volume_context d) s))"
  using stores_keeps(7) [of d j] unfolding pres_def by blast

lemma wp_mute_stores:
  fixes s :: "('w, 'z) coord_scheme"
  assumes d: "file_undisturbed d" "writes_land d" "valid_floor_db (d_floor d)" "uuid_ok d"
    and i: "stores i s"
  shows "wp (mute d) (answers i (muted_from i)) s"
  unfolding mute_def
proof (rule wp_published, rule wp_mutation_sync [OF d(1) i])
  show "wp (mute_locked d) (answers i (muted_from i)) s1" if "in_sync i s1" for s1 :: "('w, 'z) coord_scheme"
    using wp_mute_locked_stores [OF d that] unfolding muted_from_def .
  show "pres (answers i (muted_from i) (Inr a)) (publish_volume_context d)" for a
    using stores_published_run [OF d(1)] by (auto simp: answers_def muted_from_def pres_def; blast)
qed (simp add: answers_def)

lemma wp_unmute_stores:
  fixes s :: "('w, 'z) coord_scheme"
  assumes d: "file_undisturbed d" "writes_land d" "valid_floor_db (d_floor d)" and i: "stores i s"
  shows "wp (unmute d fb) (answers i (unmuted_from i fb)) s"
  unfolding unmute_def
proof (rule wp_published, rule wp_mutation_sync [OF d(1) i])
  show "wp (unmute_locked d fb) (answers i (unmuted_from i fb)) s1" if "in_sync i s1"
    for s1 :: "('w, 'z) coord_scheme"
    using wp_unmute_locked_stores [OF d that] unfolding unmuted_from_def .
  show "pres (answers i (unmuted_from i fb) (Inr a)) (publish_volume_context d)" for a
    using stores_published_run [OF d(1)] by (auto simp: answers_def unmuted_from_def pres_def; blast)
qed (simp add: answers_def)


lemma demo_uuid [simp]: "uuid_ok demo_doors"
  by (simp add: uuid_ok_def)


text \<open>
  A mute is undone exactly. From an unmuted speaker, muting and then unmuting (with nobody else
  writing in between) answers the same level twice and leaves the stored level, mute latch and token
  as they were; in between, the stored record is muted: its effective level is 0.
\<close>

theorem mute_unmute_round_trip:
  fixes s :: "('w, 'z) coord_scheme"
  assumes "file_undisturbed d" "writes_land d" "valid_floor_db (d_floor d)" "uuid_ok d"
    and "stores (Some l, None, None) s" "0 < l"
  shows "wp (mute d) (\<lambda>a s1. \<forall>x. a = Inr x \<longrightarrow> x = l \<and> (\<exists>tok. stores (Some l, Some l, Some tok) s1) \<and>
    wp (unmute d fb) (\<lambda>b s2. \<forall>y. b = Inr y \<longrightarrow> y = l \<and> stores (Some l, None, None) s2) s1) s"
proof (rule wp_mono [OF wp_mute_stores [OF assms(1-5)]], intro allI impI)
  fix a x and s1 :: "('w, 'z) coord_scheme"
  assume r: "answers (Some l, None, None) (muted_from (Some l, None, None)) a s1" "a = Inr x"
  then obtain tok where tok: "stores (Some l, Some l, Some tok) s1" "x = l"
    using assms(6) by (auto simp: answers_def muted_from_def base_level_def)
  have "0 \<le> l \<and> l \<le> 100"
    using stores_range(3) [OF tok(1)] by simp
  then have "wp (unmute d fb) (\<lambda>b s2. \<forall>y. b = Inr y \<longrightarrow> y = l \<and> stores (Some l, None, None) s2) s1"
    by (intro wp_mono [OF wp_unmute_stores [OF assms(1-3) tok(1)]])
      (auto simp: answers_def unmuted_from_def)
  with tok show "x = l \<and> (\<exists>tok. stores (Some l, Some l, Some tok) s1) \<and>
    wp (unmute d fb) (\<lambda>b s2. \<forall>y. b = Inr y \<longrightarrow> y = l \<and> stores (Some l, None, None) s2) s1" by blast
qed

lemma mute_unmute_round_trip_witness:
  "wp (mute demo_doors) (\<lambda>a s1. \<forall>x. a = Inr x \<longrightarrow> x = 60 \<and> (\<exists>tok. stores (Some 60, Some 60, Some tok) s1) \<and>
    wp (unmute demo_doors 50) (\<lambda>b s2. \<forall>y. b = Inr y \<longrightarrow> y = 60 \<and> stores (Some 60, None, None) s2) s1) demo_coord"
  by (rule mute_unmute_round_trip [OF demo_doors_undisturbed demo_floor_valid demo_uuid demo_coord_stores]) simp

end
