(* ===== verification/Volume_Guards.thy ===== *)
theory Volume_Guards
  imports Volume_Intent
begin

text \<open>
  The order of a verb's actions and the gates in front of them: errors that touch nothing, mute before
  every slow actuator, observations that are declined, and what boot may write.
\<close>

section \<open>Traces of the verbs\<close>

lemma emits_mutation:
  assumes "emits R body" "R (Inl LeaseTimeout) []"
  shows "emits R (mutation d refresh body)"
proof -
  have body: "emits R (do { onlyif refresh (refresh_from_disk d); body })"
    using emits_after_silent [OF silent_refresh assms(1)] emits_after_silent [OF keeps_return assms(1)]
    by (cases refresh) (simp_all add: onlyif_def)
  show ?thesis
    unfolding mutation_def
    by (intro emits_after_silent [OF silent_await] emits_if body) (simp add: emits_def assms(2))
qed

text \<open>Publishing afterwards only extends the trace of an answer.\<close>

lemma emits_publish: "emits (\<lambda>_ _. True) (publish_volume_context d)"
proof -
  have silent_attempt: "silent (snapshot_attempt d)" "silent (snapshot_degraded d)"
    unfolding snapshot_attempt_def snapshot_degraded_def by (intro keeps_intros)+
  have "silent (snapshot_loop d n)" for n
    by (induction n) (auto intro!: keeps_intros silent_attempt)
  then have "silent (snapshot d)" by (simp add: snapshot_def)
  then show ?thesis
    unfolding publish_volume_context_def publish_context_def
    by (intro emits_intros emits_after_silent silent_await keeps_intros)
      (auto simp: emits_def onlyif_def)
qed

lemma emits_published:
  assumes "emits R m" "\<And>a es fs. R (Inr a) es \<Longrightarrow> R (Inr a) (es @ fs)"
  shows "emits R (published d m)"
  unfolding published_def
proof (rule emits_bind [OF assms(1)])
  show "emits (\<lambda>b fs. b = r \<and> (\<forall>e. r = Inl e \<longrightarrow> fs = []))
      (do { (case r of Inl e \<Rightarrow> ret () | Inr a \<Rightarrow> publish_volume_context d); ret r })" for r
    using emits_publish [of d]
    by (cases r) (auto simp: emits_def split_beta)
  fix a b and es fs :: "event list"
  assume "R a es" "b = a \<and> (\<forall>e. a = Inl e \<longrightarrow> fs = [])"
  then show "R b (es @ fs)"
    using assms(2) by (cases a) auto
qed

section \<open>Mute first\<close>

text \<open>Only the intent on disk and the fan-in message come before the mute.\<close>

definition quick_event :: "event \<Rightarrow> bool" where
  "quick_event e \<longleftrightarrow> (\<exists>m. e = Saved m) \<or> (\<exists>x y. e = Context True x y)"

definition mutes_first :: "event list \<Rightarrow> bool" where
  "mutes_first es \<longleftrightarrow> (\<exists>pre ok rest. es = pre @ MainMute True ok # rest \<and> (\<forall>e \<in> set pre. quick_event e))"

lemma mutes_first_after: "\<forall>e \<in> set pre. quick_event e \<Longrightarrow> mutes_first es \<Longrightarrow> mutes_first (pre @ es)"
  unfolding mutes_first_def by (metis Un_iff append_assoc set_append)

lemma mutes_first_Cons: "mutes_first (MainMute True ok # fs)"
  unfolding mutes_first_def by (intro exI [of _ "[]"]) simp

lemma mutes_first_extend: "mutes_first es \<Longrightarrow> mutes_first (es @ fs)"
  unfolding mutes_first_def by (metis append_Cons append_assoc)

lemma emits_intent_muted: "emits_only quick_event (publish_intent d src l True)"
  unfolding publish_intent_def publish_context_def
  by (intro emits_intros emits_silent [OF silent_load] emits_silent [OF silent_await])
    (auto simp: quick_event_def)

text \<open>Every program of the stack only appends.\<close>

abbreviation grows :: "(('w, 'z) proc_scheme, 'a) state \<Rightarrow> bool" where
  "grows m \<equiv> emits_only (\<lambda>_. True) m"

lemma growsI: "emits R m \<Longrightarrow> grows m"
  by (rule emits_mono) simp_all

lemma grows_silent: "silent m \<Longrightarrow> grows m"
  by (rule emits_silent) simp_all

lemma grows_save [emits_intros]:
  "grows (save_now d db)" "grows (save_listening_level d l mark)" "grows (save_mute_state d p t)"
  unfolding save_now_def save_listening_level_def save_mute_state_def state_update_def write_full_def Let_def
  by (intro emits_intros grows_silent [OF silent_load] TrueI; simp)+

lemma grows_carrier [emits_intros]:
  "grows (read_volume_and_mute d)" "grows (write_main_mute d b)" "grows (write_db_with_mute d db)"
  "grows (push_source d src l)" "grows (load d)" "grows (refresh_from_disk d)" "grows (fresh_level d)"
  "grows (audible_source d)" "grows (publish_volume_context d)" "grows (publish_intent d src l m)"
proof -
  show "grows (publish_intent d src l m)"
    unfolding publish_intent_def publish_context_def
    by (intro emits_intros grows_silent [OF silent_load] grows_silent [OF silent_read_volume_and_mute]) simp
qed (intro grows_silent silent_read_volume_and_mute silent_load silent_refresh silent_fresh_level silent_audible
  growsI [OF emits_write_main_mute] growsI [OF emits_write_db_with_mute] growsI [OF emits_push_source]
  growsI [OF emits_publish])+

lemma grows_dispatch [emits_intros]: "grows (dispatch d level persist change given)"
  unfolding dispatch_def push_or_guard_def guard_camilla_after_push_failure_def confirm_push_mode_carrier_def
    confirm_push_mode_carrier_with_mutation_def clear_confirmed_push_guard_def persisted_main_volume_db_def
    set_camilla_db_def set_camilla_def Let_def
  by (intro emits_intros)

lemma emits_mute_dispatch:
  assumes "restore \<noteq> None \<or> main_mute_for_level level"
  shows "emits (\<lambda>_. mutes_first) (publish_then_dispatch d level restore)"
proof -
  have assert: "emits (\<lambda>_. mutes_first) (do { onlyif True (do { _ \<leftarrow> write_main_mute d True; ret () });
      dispatch d level (restore = None) True (Some src) })" for src
    unfolding onlyif_def if_True
    by (rule emits_bind [OF emits_bind [OF emits_write_main_mute, where R' = "\<lambda>_ _ es. es = []"
          and Q = "\<lambda>_ es. \<exists>ok. es = [MainMute True ok]"], where R' = "\<lambda>_ _ _. True"])
      (auto simp: emits_def [of _ "ret ()"] mutes_first_Cons intro: emits_mono [OF grows_dispatch])
  have muted: "(restore \<noteq> None \<or> main_mute_for_level level) = True" using assms by simp
  show ?thesis
    unfolding publish_then_dispatch_def Let_def muted
    apply (rule emits_after_silent [OF silent_audible])
    apply (rule emits_bind [OF emits_intent_muted])
     apply (rule assert)
    apply (rule mutes_first_after, assumption+)
    done
qed

text \<open>The verbs: an error did nothing; an answer of silence was muted first.\<close>

definition verb_trace :: "bool \<Rightarrow> coord_exn + int \<Rightarrow> event list \<Rightarrow> bool" where
  "verb_trace always r es \<longleftrightarrow>
     (case r of Inl e \<Rightarrow> es = [] | Inr y \<Rightarrow> always \<or> main_mute_for_level y \<longrightarrow> mutes_first es)"

lemma emits_verb:
  assumes "emits (verb_trace always) body"
  shows "emits (verb_trace always) (published d (mutation d True body))"
  by (rule emits_published [OF emits_mutation [OF assms]])
    (auto simp: verb_trace_def intro: mutes_first_extend)

lemma emits_clear_latch: "emits_only quick_event (clear_latch d)"
  unfolding clear_latch_def save_mute_state_def state_update_def write_full_def Let_def
  by (intro emits_intros emits_silent [OF silent_load]; simp add: quick_event_def)

lemma emits_level_dispatch:
  "emits (\<lambda>_ es. main_mute_for_level y \<longrightarrow> mutes_first es) (publish_then_dispatch d y None)"
proof (cases "main_mute_for_level y")
  case True
  then show ?thesis by (intro emits_mono [OF emits_mute_dispatch]) simp_all
next
  case False
  have "grows (publish_then_dispatch d y None)"
    unfolding publish_then_dispatch_def Let_def by (intro emits_intros)
  with False show ?thesis by (simp add: emits_def)
qed

lemma emits_level_body:
  "emits (verb_trace False) (do { clear_latch d; m; publish_then_dispatch d y None; ret (Inr y) })"
  if "silent m"
proof (rule emits_bind [OF emits_clear_latch])
  show "emits (\<lambda>r es. r = Inr y \<and> (main_mute_for_level y \<longrightarrow> mutes_first es))
      (do { m; publish_then_dispatch d y None; ret (Inr y) })"
    by (rule emits_after_silent [OF that])
      (rule emits_bind [OF emits_level_dispatch, where R' = "\<lambda>_ r es. r = Inr y \<and> es = []"], auto simp: emits_def)
qed (auto simp: verb_trace_def intro: mutes_first_after)

lemma emits_refuse:
  assumes "\<And>b. emits R (k b)"
  shows "emits R (refuse_level_write d \<bind> k)"
proof -
  have "silent (refuse_level_write d)"
    unfolding refuse_level_write_def holds_fader_def update_gate_def by (intro keeps_intros) simp
  then show ?thesis using assms by (intro emits_after_silent)
qed

lemma emits_refused: "emits (verb_trace always) (ret (Inl e))"
  by (simp add: emits_def verb_trace_def)

lemma emits_set_level: "emits (verb_trace False) (set_listening_level d x)"
  unfolding set_listening_level_def Let_def
proof (rule emits_verb, rule emits_after_silent [OF silent_refresh])
  show "emits (verb_trace False) (do { refused \<leftarrow> refuse_level_write d;
     if refused then ret (Inl ClaimRefused)
     else do { modify (\<lambda>s. s\<lparr>co_level := y\<rparr>); clear_latch d; publish_then_dispatch d y None; ret (Inr y) } })" for y
    by (intro emits_refuse emits_refused emits_if emits_after_silent [OF keeps_modify]
        emits_level_body [where m = "ret ()", simplified]) (auto simp: keeps_return)
qed

lemma emits_adjust_level: "emits (verb_trace False) (adjust_listening_level d x)"
  unfolding adjust_listening_level_def Let_def
proof (rule emits_verb, rule emits_after_silent [OF silent_refresh], rule emits_after_silent [OF keeps_gets])
  show "emits (verb_trace False) (do { refused \<leftarrow> refuse_level_write d;
     if refused then ret (Inl ClaimRefused)
     else do { modify (\<lambda>s. s\<lparr>co_level := y\<rparr>); clear_latch d; publish_then_dispatch d y None; ret (Inr y) } })" for y
    by (intro emits_refuse emits_refused emits_if emits_after_silent [OF keeps_modify]
        emits_level_body [where m = "ret ()", simplified]) (auto simp: keeps_return)
qed

lemma emits_unmute: "emits (verb_trace False) (unmute d fb)"
  unfolding unmute_def unmute_locked_def Let_def
  by (intro emits_verb emits_refuse emits_refused emits_if emits_after_silent [OF keeps_gets] emits_level_body)
    (auto simp: keeps_modify)

lemma emits_save_mute: "emits (\<lambda>r es. if r = Ret () then \<forall>e \<in> set es. quick_event e else es = []) (save_mute_state d p t)"
proof -
  have full: "emits_only quick_event (write_full d)"
    unfolding write_full_def Let_def by (intro emits_intros; simp add: quick_event_def)
  have update: "silent (state_update d)"
    unfolding state_update_def by (intro keeps_intros silent_load)
  have landed: "emits (\<lambda>r es. r = Ret () \<and> (\<forall>e \<in> set es. quick_event e)) (do { write_full d; ret (Ret ()) })"
    by (rule emits_bind [OF full, where R' = "\<lambda>_ r es. r = Ret () \<and> es = []"]) (auto simp: emits_def)
  show ?thesis
    unfolding save_mute_state_def Let_def
    by (intro emits_after_silent [OF update] emits_if emits_after_silent [OF keeps_modify]
        emits_after_silent [OF keeps_gets] emits_mono [OF landed]) (auto simp: emits_def)
qed

lemma emits_mute: "emits (verb_trace True) (mute d)"
proof -
  have assert: "emits (\<lambda>r es. r = Inr x \<and> mutes_first es) (do { publish_then_dispatch d 0 (Some x); ret (Inr x) })" for x
    by (rule emits_bind [OF emits_mute_dispatch, where R' = "\<lambda>_ r es. r = Inr x \<and> es = []"])
      (auto simp: emits_def)
  have save: "emits (verb_trace True) (do { stored \<leftarrow> save_mute_state d p t;
      if stored \<noteq> Ret () then ret (Inl BadToken) else do { publish_then_dispatch d 0 (Some x); ret (Inr x) } })"
    for p t x
  proof (rule emits_bind [OF emits_save_mute])
    show "emits (\<lambda>r es. if a = Ret () then r = Inr x \<and> mutes_first es else r = Inl BadToken \<and> es = [])
        (if a \<noteq> Ret () then ret (Inl BadToken) else do { publish_then_dispatch d 0 (Some x); ret (Inr x) })" for a
      using assert [of x] by (cases "a = Ret ()") (auto simp: emits_def)
  qed (auto simp: verb_trace_def intro: mutes_first_after split: if_splits)
  have token: "silent (onlyif b (do { t \<leftarrow> sync (d_uuid d); modify (f t) }))"
    if "\<And>t s. trace (f t s) = trace s" for b and f :: "string \<Rightarrow> ('a, 'b) coord_scheme \<Rightarrow> ('a, 'b) coord_scheme"
    using that by (intro keeps_intros) simp_all
  show ?thesis
    unfolding mute_def mute_locked_def Let_def
    by (intro emits_verb emits_after_silent [OF keeps_gets] emits_after_silent [OF token] save) simp
qed

section \<open>The measurement gate\<close>

text \<open>Raised, for less than its auto-clear time, with nobody lowering it.\<close>

definition gate_held :: "('w, 'y) doors_scheme \<Rightarrow> gate_state \<Rightarrow> bool" where
  "gate_held d g \<longleftrightarrow> g_active g \<and> (\<forall>w h. sh_gate (d_env d w h) = sh_gate h) \<and>
     (\<forall>w. d_mono d w - g_active_at g < MEASUREMENT_AUTOCLEAR_SEC)"

abbreviation the_gate :: "('w, 'z) proc_scheme \<Rightarrow> gate_state" where
  "the_gate \<equiv> \<lambda>s. sh_gate (shared s)"

lemma keeps_gate_refresh: "keeps the_gate (refresh_from_disk d)"
  unfolding refresh_from_disk_def load_def Let_def by (intro keeps_intros) (simp_all add: remember_def)

lemma wp_refused:
  assumes "gate_held d (the_gate s)" "wp (k True) Q s"
  shows "wp (refuse_level_write d \<bind> k) Q s"
  using assms by (simp add: refuse_level_write_def holds_fader_def wp_simps gate_held_def)

definition was_refused :: "coord_exn + 'a \<Rightarrow> bool" where
  "was_refused r \<longleftrightarrow> r = Inl ClaimRefused \<or> r = Inl LeaseTimeout"

lemma wp_held_mutation:
  assumes held: "gate_held d (the_gate s)"
    and body: "\<And>s1. the_gate s1 = the_gate s \<Longrightarrow> wp body (\<lambda>r _. was_refused r) s1"
  shows "wp (published d (mutation d True body)) (\<lambda>r _. was_refused r) s"
proof -
  have env: "sh_gate (d_env d w h) = sh_gate h" for w h
    using held by (simp add: gate_held_def)
  have "wp (do { refresh_from_disk d; body }) (\<lambda>r _. was_refused r) s1" if "the_gate s1 = the_gate s" for s1
    unfolding wp_bind by (rule wp_mono [OF wp_keeps [OF keeps_gate_refresh]]) (rule body, simp add: that)
  then have "wp (mutation d True body) (\<lambda>r _. was_refused r) s"
    by (simp add: mutation_def onlyif_def wp_bind wp_await wp_if wp_return env was_refused_def [of "Inl LeaseTimeout"])
  then show ?thesis
    by (rule wp_published) (auto simp: was_refused_def pres_def)
qed

lemma wp_held_refuse:
  "gate_held d (the_gate s) \<Longrightarrow> wp (do { refused \<leftarrow> refuse_level_write d;
     if refused then ret (Inl ClaimRefused) else m }) (\<lambda>r _. was_refused r) s"
  by (rule wp_refused) (simp_all add: wp_return was_refused_def)

lemma wp_held_refresh:
  assumes "gate_held d (the_gate s)" "\<And>s2. the_gate s2 = the_gate s \<Longrightarrow> wp k Q s2"
  shows "wp (do { refresh_from_disk d; k }) Q s"
  unfolding wp_bind by (rule wp_mono [OF wp_keeps [OF keeps_gate_refresh]]) (rule assms(2))

lemma wp_held_verbs:
  assumes held: "gate_held d (the_gate s)"
  shows "wp (set_listening_level d x) (\<lambda>r _. was_refused r) s"
    and "wp (adjust_listening_level d x) (\<lambda>r _. was_refused r) s"
    and "wp (unmute d x) (\<lambda>r _. was_refused r) s"
proof -
  show "wp (set_listening_level d x) (\<lambda>r _. was_refused r) s"
    unfolding set_listening_level_def Let_def
    by (rule wp_held_mutation [OF held], rule wp_held_refresh, simp add: held, rule wp_held_refuse)
      (simp add: held)
  show "wp (adjust_listening_level d x) (\<lambda>r _. was_refused r) s"
    unfolding adjust_listening_level_def Let_def
    by (rule wp_held_mutation [OF held], rule wp_held_refresh, simp add: held, rule wp_gets_bind,
        rule wp_held_refuse) (simp add: held)
  show "wp (unmute d x) (\<lambda>r _. was_refused r) s"
    unfolding unmute_def unmute_locked_def Let_def
    by (rule wp_held_mutation [OF held], rule wp_held_refuse) (simp add: held)
qed



section \<open>Observations\<close>

lemma map_sum_Some [simp]: "map_sum id Some a \<noteq> Inr None" "map_sum id Some a = Inl e \<longleftrightarrow> a = Inl e"
  by (cases a; simp)+

lemma emits_observe_locked:
  fixes d :: "('w, 'y) vol_doors_scheme"
  shows "emits (\<lambda>r es. r = Inr None \<or> (\<exists>e. r = Inl e) \<longrightarrow> es = [])
    (observe_locked d src level initial :: (('w, 'z) coord_scheme, coord_exn + bool option) state)"
  (is "emits ?R _")
proof -
  have none: "emits ?R (ret (Inr None))" "emits ?R (ret (Inl e))" for e
    by (simp_all add: emits_def)
  have confirm: "grows (confirm_push_mode_carrier_with_mutation d src x live)" for x live
    unfolding confirm_push_mode_carrier_with_mutation_def clear_confirmed_push_guard_def
      persisted_main_volume_db_def set_camilla_db_def
    by (intro emits_intros)
  have sync: "grows (sync_observed_carrier d src x)" for x
    unfolding sync_observed_carrier_def sync_camilla_observed_level_def set_camilla_def Let_def
    by (intro emits_intros confirm)
  have accept: "grows (accept_user_side_change d src x)" for x
    unfolding accept_user_side_change_def clear_latch_def
    by (intro emits_intros sync) simp_all
  have quiet: "silent (ignore_echo d src x)" "silent (ignore_moved_source d src)" "silent (holds_fader d)"
    "silent (persisted_mute_latch d)" "silent (defer_initial_while_latched d p b c)"
    "silent (defer_until_mute_zero d src t)" for x p b c t
    unfolding ignore_echo_def is_own_echo_def is_recent_cross_process_write_def ignore_moved_source_def
      holds_fader_def update_gate_def persisted_mute_latch_def defer_initial_while_latched_def
      defer_until_mute_zero_def
    by (intro keeps_intros silent_audible silent_refresh silent_load; simp)+
  have accepted: "emits ?R (observe_accepted d src level
      :: (('w, 'z) coord_scheme, coord_exn + bool option) state)"
  proof -
    have 1: "emits ?R (do { publish \<leftarrow> sync_observed_carrier d src level; ret (Inr (Some publish)) })"
      by (rule emits_bind [OF sync, where R' = "\<lambda>a b es. b = Inr (Some a)"]) (auto simp: emits_def)
    have 2: "emits ?R (do { accept_user_side_change d src level; ret (Inr (Some True)) })"
      by (rule emits_bind [OF accept, where R' = "\<lambda>a b es. b = Inr (Some True)"]) (auto simp: emits_def)
    show ?thesis
      unfolding observe_accepted_def
      by (intro emits_after_silent [OF quiet(1)] emits_if none emits_after_silent [OF silent_refresh]
          emits_after_silent [OF keeps_gets] 1 2)
  qed
  have zero: "emits ?R (do { publish \<leftarrow> confirm_push_mute_zero d src t; ret (map_sum id Some publish) }
      :: (('w, 'z) coord_scheme, coord_exn + bool option) state)" for t
  proof (rule emits_bind [where R = "\<lambda>a es. \<forall>e. a = Inl e \<longrightarrow> es = []"
        and R' = "\<lambda>a b es. b = map_sum id Some a \<and> es = []"])
    have landed: "emits (\<lambda>a es. \<forall>e. a = Inl e \<longrightarrow> es = [])
        (do { (_, publish_needed) \<leftarrow> confirm_push_mode_carrier_with_mutation d src 0 True; ret (Inr publish_needed) }
          :: (('w, 'z) coord_scheme, coord_exn + bool) state)"
      by (rule emits_bind [OF confirm, where R' = "\<lambda>a b es. b = Inr (snd a)"]) (auto simp: emits_def)
    show "emits (\<lambda>a es. \<forall>e. a = Inl e \<longrightarrow> es = []) (confirm_push_mute_zero d src t :: (('w, 'z) coord_scheme, coord_exn + bool) state)"
      unfolding confirm_push_mute_zero_def
      by (intro emits_case_option emits_after_silent [OF keeps_modify] emits_after_silent [OF silent_refresh] landed)
        (auto simp: emits_def)
  qed (auto simp: emits_def)
  have latched: "emits ?R (observe_latched d src level t
      :: (('w, 'z) coord_scheme, coord_exn + bool option) state)" for t
    unfolding observe_latched_def
    by (intro emits_if zero emits_after_silent [OF quiet(6)] emits_case_sum none accepted)
  show ?thesis
    unfolding observe_locked_def Let_def
    by (intro emits_after_silent [OF quiet(2)] emits_if none emits_after_silent quiet emits_case_prod latched
        accepted keeps_intros) simp_all
qed

text \<open>What an observation may do to the intent: nothing, or the observed level when it was accepted.\<close>

definition observed_intent :: "intent \<Rightarrow> int \<Rightarrow> bool \<Rightarrow> ('w, 'z) coord_scheme \<Rightarrow> bool" where
  "observed_intent i level accepted s \<longleftrightarrow> stores i s \<or> accepted \<and> stores (Some level, None, None) s"

lemma stores_observe [stores_intros]:
  assumes "file_undisturbed d" "valid_floor_db (d_floor d)"
  shows "pres (stores i) (ignore_echo d src level)" "pres (stores i) (ignore_moved_source d src)"
    "pres (stores i) (sync_observed_carrier d src level)" "pres (stores i) (confirm_push_mute_zero d src t)"
    "pres (stores i) (defer_until_mute_zero d src t)" "pres (stores i) (persisted_mute_latch d)"
    "pres (stores i) (defer_initial_while_latched d p b c)"
  unfolding ignore_echo_def is_own_echo_def is_recent_cross_process_write_def ignore_moved_source_def
    sync_observed_carrier_def sync_camilla_observed_level_def confirm_push_mute_zero_def
    defer_until_mute_zero_def persisted_mute_latch_def defer_initial_while_latched_def
  by (intro pres_intros stores_intros stores_modify assms; simp)+

lemma wp_accept_stores:
  assumes d: "file_undisturbed d" "writes_land d" "valid_floor_db (d_floor d)" and s: "stores (l, p, t) s"
  shows "wp (accept_user_side_change d src level) (\<lambda>_. stores (Some (clamp 0 100 level), None, None)) s"
proof -
  have low: "stores (l, p, t) (s\<lparr>co_level := level\<rparr>)" using s by simp
  have low': "stores j (s1\<lparr>co_confirmed := c\<rparr>) = stores j s1" for j c and s1 :: "('a, 'b) coord_scheme"
    by (rule stores_file) simp
  show ?thesis
    unfolding accept_user_side_change_def wp_bind wp_modify
    apply (rule wp_mono [OF wp_clear_latch_stores [OF d(1,2) low]])
    apply (rule wp_mono [OF wp_save_level_stores [OF d(1,2), where l = l and p = None and t = None]])
     apply (rule iffD2 [OF stores_file], simp_all)
    apply (rule wp_mono [OF wp_pres [OF stores_observe(3) [OF d(1,3)]]], assumption)
    apply (simp add: wp_return)
    done
qed

lemma wp_observe_accepted_stores:
  assumes d: "file_undisturbed d" "writes_land d" "valid_floor_db (d_floor d)" and s: "stores i s"
  shows "wp (observe_accepted d src level)
    (\<lambda>r s'. observed_intent i (clamp 0 100 level) (\<exists>b. r = Inr (Some b)) s') s"
proof -
  obtain l p t where i: "i = (l, p, t)" by (cases i)
  have declined: "wp (ret r) (\<lambda>r s'. observed_intent i (clamp 0 100 level) (\<exists>b. r = Inr (Some b)) s') s1"
    if "stores i s1" for r :: "coord_exn + bool option" and s1
    using that by (simp add: wp_return observed_intent_def)
  show ?thesis
    unfolding observe_accepted_def
    apply (rule wp_pres_bind [OF stores_observe(1) [OF d(1,3)] s])
    apply (rule wp_ifI, rule declined, assumption)
    apply (rule wp_pres_bind [OF stores_keeps(2) [OF d(1)]], assumption)
    apply (rule wp_gets_bind, rule wp_gets_bind, rule wp_ifI)
     apply (rule wp_pres_bind [OF stores_observe(3) [OF d(1,3)]], assumption, rule declined, assumption)
    apply (simp only: wp_bind)
    apply (rule wp_mono [OF wp_accept_stores [OF d]], simp add: i)
    apply (auto simp: wp_return observed_intent_def intro: exI [of _ True])
    done
qed

lemma wp_observe_locked_stores:
  assumes d: "file_undisturbed d" "writes_land d" "valid_floor_db (d_floor d)" and s: "stores i s"
  shows "wp (observe_locked d src level initial)
    (\<lambda>r s'. observed_intent i (clamp 0 100 level) (\<exists>b. r = Inr (Some b)) s') s"
proof -
  have declined: "wp (ret r) (\<lambda>r s'. observed_intent i (clamp 0 100 level) (\<exists>b. r = Inr (Some b)) s') s1"
    if "stores i s1" for r :: "coord_exn + bool option" and s1
    using that by (simp add: wp_return observed_intent_def)
  have confirm: "pres (stores i) (onlyif c (modify (\<lambda>s. s\<lparr>co_confirmed := (co_confirmed s)(src := None)\<rparr>)))" for c
    by (intro pres_intros stores_modify) simp
  have held: "pres (stores i) (if 0 < level then holds_fader d else ret False)"
    by (intro pres_intros stores_intros d)
  have latched: "wp (observe_latched d src level t)
      (\<lambda>r s'. observed_intent i (clamp 0 100 level) (\<exists>b. r = Inr (Some b)) s') s1" if "stores i s1" for t s1
    unfolding observe_latched_def
    apply (rule wp_ifI)
     apply (rule wp_pres_bind [OF stores_observe(4) [OF d(1,3)] that], rule declined, assumption)
    apply (rule wp_pres_bind [OF stores_observe(5) [OF d(1,3)] that])
    apply (simp only: wp_case_sum wp_if split: sum.split if_split)
    apply (intro conjI allI impI declined wp_observe_accepted_stores [OF d], assumption+)
    done
  show ?thesis
    unfolding observe_locked_def Let_def
    apply (rule wp_pres_bind [OF stores_observe(2) [OF d(1,3)] s])
    apply (rule wp_ifI, rule declined, assumption)
    apply (rule wp_pres_bind [OF held], assumption)
    apply (rule wp_ifI, rule declined, assumption)
    apply (rule wp_pres_bind [OF stores_observe(6) [OF d(1,3)]], assumption)
    apply (simp only: wp_case_prod split: prod.split, intro allI impI)
    apply (rule wp_pres_bind [OF stores_observe(7) [OF d(1,3)]], assumption)
    apply (rule wp_ifI, rule declined, assumption)
    apply (rule wp_pres_bind [OF confirm], assumption)
    apply (rule wp_ifI, rule latched, assumption)
    apply (rule wp_observe_accepted_stores [OF d], assumption)
    done
qed

text \<open>The barrier: a push-mode renderer that has not been seen at zero for this mute.\<close>

definition unconfirmed :: "intent \<Rightarrow> source \<Rightarrow> ('w, 'z) coord_scheme \<Rightarrow> bool" where
  "unconfirmed i src s \<longleftrightarrow> stores i s \<and> co_confirmed s src \<noteq> snd (snd i)"

lemma pres_unconfirmed:
  fixes m :: "(('w, 'z) coord_scheme, 'a) state"
  assumes "pres (stores i) m" "keeps co_confirmed m"
  shows "pres (unconfirmed i src) m"
  using assms by (simp add: pres_def keeps_def unconfirmed_def)

lemma keeps_confirmed:
  "keeps co_confirmed (audible_source d)" "keeps co_confirmed (refresh_from_disk d)"
  "keeps co_confirmed (load d)" "keeps co_confirmed (await d f)" "keeps co_confirmed (holds_fader d)"
proof -
  have aw: "keeps co_confirmed (await d f)" for f by (rule keeps_await) simp
  have ld: "keeps co_confirmed (load d)" unfolding load_def by (intro keeps_intros) (simp add: remember_def)
  show "keeps co_confirmed (audible_source d)" "keeps co_confirmed (refresh_from_disk d)"
    "keeps co_confirmed (load d)" "keeps co_confirmed (await d f)" "keeps co_confirmed (holds_fader d)"
    unfolding audible_source_def selected_source_def refresh_from_disk_def holds_fader_def update_gate_def Let_def
    by (intro keeps_intros aw ld; simp)+
qed

lemma wp_latch_read:
  assumes "unconfirmed (l, p, t) src s" "\<And>s1. unconfirmed (l, p, t) src s1 \<Longrightarrow> wp (k (p, t)) Q s1"
  shows "wp (persisted_mute_latch d \<bind> k) Q s"
proof -
  obtain r where r: "file_reads s (Some r)" "intent_of r = (l, p, t)"
    using assms(1) by (auto simp: unconfirmed_def stores_def)
  have "unconfirmed (l, p, t) src (remember r s)"
    using assms(1) by (simp add: unconfirmed_def stores_def file_reads_def remember_def)
  from assms(2) [OF this] show ?thesis
    using r by (simp add: persisted_mute_latch_def load_def wp_simps file_reads_def intent_of_def)
qed

lemma wp_barrier_locked:
  fixes s :: "('w, 'z) coord_scheme"
  assumes d: "file_undisturbed d" "valid_floor_db (d_floor d)" and push: "volume_mode src = PUSH"
    and level: "0 < level" and s: "unconfirmed (l, Some p, Some tok) src s"
  shows "wp (observe_locked d src level initial) (\<lambda>r _. r = Inr None) s"
proof -
  let ?i = "(l, Some p, Some tok) :: intent"
  have declined: "wp (ret (Inr None)) (\<lambda>r _. r = Inr None) s1" for s1 :: "('w, 'z) coord_scheme"
    by (simp add: wp_return)
  have held: "pres (unconfirmed ?i src) (if 0 < level then holds_fader d else ret False)"
    by (intro pres_unconfirmed pres_intros stores_intros keeps_intros keeps_confirmed d)
  have moved: "pres (unconfirmed ?i src) (ignore_moved_source d src)"
    unfolding ignore_moved_source_def
    by (intro pres_unconfirmed pres_intros stores_intros keeps_intros keeps_confirmed d)
  have latched: "wp (observe_latched d src level (Some tok)) (\<lambda>r _. r = Inr None) s1"
    if "unconfirmed ?i src s1" for s1 :: "('w, 'z) coord_scheme"
    using that level by (simp add: observe_latched_def defer_until_mute_zero_def wp_simps unconfirmed_def wp_any)
  show ?thesis
    unfolding observe_locked_def Let_def
    apply (rule wp_pres_bind [OF moved s], rule wp_ifI, rule declined)
    apply (rule wp_pres_bind [OF held], assumption, rule wp_ifI, rule declined)
    apply (rule wp_latch_read, assumption)
    apply (simp add: defer_initial_while_latched_def push wp_simps onlyif_def latched)
    done
qed

lemma wp_observe_outer:
  fixes s :: "('w, 'z) coord_scheme"
  assumes level: "native_to_listening_level src native = Some level"
    and I: "I s" "pres I (yield d)" "pres I (audible_source d)" "pres I (await d (d_oplock d))"
    and locked: "\<And>s1. I s1 \<Longrightarrow> wp (observe_locked d src level initial) Q s1"
    and stop: "\<And>s1. I s1 \<Longrightarrow> P (Inr False) s1" "\<And>s1. I s1 \<Longrightarrow> P (Inl LeaseTimeout) s1"
    and post: "\<And>e s1. Q (Inl e) s1 \<Longrightarrow> P (Inl e) s1" "\<And>s1. Q (Inr None) s1 \<Longrightarrow> P (Inr False) s1"
      "\<And>b s1. Q (Inr (Some b)) s1 \<Longrightarrow> P (Inr True) s1"
      "\<And>s1. P (Inr True) s1 \<Longrightarrow> wp (publish_volume_context d) (\<lambda>_. P (Inr True)) s1"
  shows "wp (observe_source_volume d src native initial) P s"
proof -
  have inner: "wp (case r of Inl e \<Rightarrow> ret (Inl e) | Inr None \<Rightarrow> ret (Inr False)
      | Inr (Some publish) \<Rightarrow> do { onlyif publish (publish_volume_context d); ret (Inr True) }) P s1"
    if "Q r s1" for r and s1 :: "('w, 'z) coord_scheme"
    using that post by (auto simp: wp_simps split: sum.splits option.splits)
  have mut: "wp (mutation d False (observe_locked d src level initial)) (\<lambda>r s1. Q r s1 \<or> r = Inl LeaseTimeout \<and> I s1) s1"
    if "I s1" for s1 :: "('w, 'z) coord_scheme"
    unfolding mutation_def onlyif_def if_False
    apply (rule wp_pres_bind [OF I(2) that], rule wp_pres_bind [OF I(4)], assumption)
    apply (rule wp_ifI, simp add: wp_return)
    apply (simp add: wp_bind wp_return)
    apply (rule wp_mono [OF locked], simp_all)
    done
  have stop': "wp (case r of Inl e \<Rightarrow> ret (Inl e) | Inr None \<Rightarrow> ret (Inr False)
      | Inr (Some publish) \<Rightarrow> do { onlyif publish (publish_volume_context d); ret (Inr True) }) P s1"
    if "Q r s1 \<or> r = Inl LeaseTimeout \<and> I s1" for r and s1 :: "('w, 'z) coord_scheme"
    using that inner stop(2) by (auto simp: wp_return)
  show ?thesis
    unfolding observe_source_volume_def level option.case ignore_inactive_source_def
    apply (simp only: wp_bind wp_return)
    apply (rule wp_mono [OF wp_pres [OF I(3) I(1)]])
    apply (rule wp_ifI, simp add: wp_return stop(1))
    apply (simp only: wp_bind)
    apply (rule wp_mono [OF mut], assumption)
    apply (rule stop', assumption)
    done
qed

lemma emits_observe:
  "emits (\<lambda>r es. r = Inr False \<or> (\<exists>e. r = Inl e) \<longrightarrow> es = []) (observe_source_volume d src native initial)"
proof -
  have quiet: "silent (ignore_inactive_source d src)"
    unfolding ignore_inactive_source_def by (intro keeps_intros silent_audible)
  have locked: "emits (\<lambda>r es. r = Inr None \<or> (\<exists>e. r = Inl e) \<longrightarrow> es = [])
      (mutation d False (observe_locked d src level initial))" for level
    by (rule emits_mutation [OF emits_observe_locked]) simp
  have rest: "emits (\<lambda>r es. r = Inr False \<or> (\<exists>e. r = Inl e) \<longrightarrow> es = [])
      (do { r \<leftarrow> mutation d False (observe_locked d src level initial);
            case r of Inl e \<Rightarrow> ret (Inl e) | Inr None \<Rightarrow> ret (Inr False)
            | Inr (Some publish) \<Rightarrow> do { onlyif publish (publish_volume_context d); ret (Inr True) } })" for level
  proof (rule emits_bind [OF locked])
    show "emits (\<lambda>b es. (case r of Inl e \<Rightarrow> b = Inl e \<and> es = [] | Inr None \<Rightarrow> b = Inr False \<and> es = []
          | Inr (Some _) \<Rightarrow> b = Inr True))
        (case r of Inl e \<Rightarrow> ret (Inl e) | Inr None \<Rightarrow> ret (Inr False)
         | Inr (Some publish) \<Rightarrow> do { onlyif publish (publish_volume_context d); ret (Inr True) })" for r
      using emits_publish [of d]
      by (auto simp: emits_def onlyif_def split_beta split: sum.split option.split)
  qed (auto split: sum.splits option.splits)
  show ?thesis
    unfolding observe_source_volume_def
    by (intro emits_case_option emits_after_silent [OF quiet] emits_if rest) (simp_all add: emits_def)
qed

lemma wp_observe_intent:
  fixes s :: "('w, 'z) coord_scheme"
  assumes d: "file_undisturbed d" "writes_land d" "valid_floor_db (d_floor d)"
    and "native_to_listening_level src native = Some level" "stores i s"
  shows "wp (observe_source_volume d src native initial)
    (\<lambda>r s'. observed_intent i (clamp 0 100 level) (r = Inr True) s') s"
proof (rule wp_observe_outer [OF assms(4), where I = "stores i"
      and Q = "\<lambda>r s'. observed_intent i (clamp 0 100 level) (\<exists>b. r = Inr (Some b)) s'"])
  show "wp (publish_volume_context d) (\<lambda>_ s'. observed_intent i (clamp 0 100 level) (Inr True = (Inr True :: coord_exn + bool)) s') s1"
    if "observed_intent i (clamp 0 100 level) (Inr True = (Inr True :: coord_exn + bool)) s1"
    for s1 :: "('w, 'z) coord_scheme"
    using that unfolding observed_intent_def wp_def
    by (auto intro: stores_published_run [OF d(1)])
  show "wp (observe_locked d src level initial)
      (\<lambda>r s'. observed_intent i (clamp 0 100 level) (\<exists>b. r = Inr (Some b)) s') s1"
    if "stores i s1" for s1 :: "('w, 'z) coord_scheme"
    by (rule wp_observe_locked_stores [OF d that])
qed (use assms(5) in \<open>auto simp: observed_intent_def intro!: stores_keeps [OF d(1)] keeps_intros\<close>)

lemma wp_observe_barrier:
  fixes s :: "('w, 'z) coord_scheme"
  assumes d: "file_undisturbed d" "valid_floor_db (d_floor d)" and push: "volume_mode src = PUSH" "0 < level"
    and "native_to_listening_level src native = Some level" "unconfirmed (l, Some p, Some tok) src s"
  shows "wp (observe_source_volume d src native initial) (\<lambda>r _. r = Inr False \<or> r = Inl LeaseTimeout) s"
proof (rule wp_observe_outer [OF assms(5), where I = "unconfirmed (l, Some p, Some tok) src"
      and Q = "\<lambda>r _. r = Inr None"])
  show "pres (unconfirmed (l, Some p, Some tok) src) (yield d :: (('w, 'z) coord_scheme, unit) state)"
    "pres (unconfirmed (l, Some p, Some tok) src) (audible_source d :: (('w, 'z) coord_scheme, source) state)"
    "pres (unconfirmed (l, Some p, Some tok) src) (await d (d_oplock d) :: (('w, 'z) coord_scheme, bool) state)"
    by (intro pres_unconfirmed stores_keeps [OF d(1)] keeps_confirmed)+
qed (use assms(6) wp_barrier_locked [OF d push] in \<open>auto simp: wp_any\<close>)



end
