(* ===== verification/Volume_Progress.thy ===== *)
theory Volume_Progress
  imports Volume_Guards
begin

text \<open>
  Every level verb comes back with an answer. With the operation lease granted and no measurement
  active, none of them can be refused or fail, whatever the fader, the renderers, the fan-in socket
  and the volume file do: the verbs of \<open>jasper/audio_control/volume_coordinator.py\<close> treat all of those
  as best effort.
\<close>

section \<open>Nothing to be refused by\<close>

definition lease_free :: "('w, 'y) vol_doors_scheme \<Rightarrow> bool" where
  "lease_free d \<longleftrightarrow> (\<forall>w. fst (d_oplock d w))"

definition gate_down :: "('w, 'y) doors_scheme \<Rightarrow> gate_state \<Rightarrow> bool" where
  "gate_down d g \<longleftrightarrow> \<not> g_active g \<and> (\<forall>w h. sh_gate (d_env d w h) = sh_gate h)"

text \<open>The token in memory is one the volume file takes.\<close>

definition token_fits :: "('w, 'z) coord_scheme \<Rightarrow> bool" where
  "token_fits s \<longleftrightarrow> (\<forall>t. co_token s = Some t \<longrightarrow> t \<noteq> [] \<and> length t \<le> 128)"

definition at_rest :: "('w, 'y) vol_doors_scheme \<Rightarrow> ('w, 'z) coord_scheme \<Rightarrow> bool" where
  "at_rest d s \<longleftrightarrow> gate_down d (the_gate s) \<and> token_fits s"

lemma at_rest_await: "at_rest d s \<Longrightarrow> at_rest d (s\<lparr>world := w, shared := d_env d w' (shared s)\<rparr>)"
  by (simp add: at_rest_def gate_down_def token_fits_def)

lemma pres_rest_await [pres_intros]: "pres (at_rest d) (await d f)"
  by (simp add: pres_def run_await at_rest_await)

lemma wp_refresh_token_fits:
  assumes "token_fits s"
  shows "wp (refresh_from_disk d) (\<lambda>_ s'. token_fits s') s"
proof -
  have "token_fits (remember r s\<lparr>co_level := l, co_pre_mute := p, co_token := mute_token r\<rparr>)" if "record_ok r" for r l p
    using that by (auto simp: token_fits_def record_ok_def)
  then show ?thesis
    using assms by (auto simp: refresh_from_disk_def load_def wp_simps Let_def state_from_record_def
        dest!: load_file_ok split: outcome.splits option.splits)
qed

lemma pres_rest_refresh [pres_intros]:
  "pres (at_rest d) (refresh_from_disk d :: (('w, 'z) coord_scheme, unit) state)"
proof (rule pres_wpI)
  fix s :: "('w, 'z) coord_scheme"
  assume s: "at_rest d s"
  then have "token_fits s" by (simp add: at_rest_def)
  then have "wp (refresh_from_disk d) (\<lambda>_ s'. the_gate s' = the_gate s \<and> token_fits s') s"
    by (simp add: wp_conj wp_keeps [OF keeps_gate_refresh] wp_refresh_token_fits)
  with s show "wp (refresh_from_disk d) (\<lambda>_ s'. at_rest d s') s"
    by (auto simp: at_rest_def elim: wp_mono)
qed

definition answered :: "coord_exn + 'a \<Rightarrow> bool" where
  "answered r \<longleftrightarrow> (\<exists>a. r = Inr a)"

lemma answered_Inr [simp]: "answered (Inr a)"
  by (simp add: answered_def)

lemma wp_answers_tail: "wp (m \<bind> (\<lambda>_. ret (Inr a))) (\<lambda>r _. answered r) s"
  by (rule wp_bind_any) (simp add: wp_return)

lemma wp_rest_mutation:
  assumes "lease_free d" "at_rest d s"
    and body: "\<And>s1. at_rest d s1 \<Longrightarrow> wp body (\<lambda>r _. answered r) s1"
  shows "wp (mutation d True body) (\<lambda>r _. answered r) s"
proof -
  have "wp (do { refresh_from_disk d; body }) (\<lambda>r _. answered r) s1" if "at_rest d s1" for s1
    unfolding wp_bind by (rule wp_mono [OF wp_pres [OF pres_rest_refresh that]]) (rule body)
  then show ?thesis
    unfolding mutation_def onlyif_def if_True
    by (intro wp_pres_bind [OF pres_rest_await assms(2)])
      (use assms(1) in \<open>simp add: wp_bind [of "await _ _"] wp_await at_rest_await lease_free_def\<close>)
qed

lemma wp_rest_published:
  assumes "wp m (\<lambda>r _. answered r) s"
  shows "wp (published d m) (\<lambda>r _. answered r) s"
  by (rule wp_published [OF assms]) (simp add: pres_def)

lemma wp_rest_refuse:
  assumes "at_rest d s" "wp m Q s"
  shows "wp (do { refused \<leftarrow> refuse_level_write d; if refused then ret (Inl ClaimRefused) else m }) Q s"
  using assms by (simp add: refuse_level_write_def holds_fader_def wp_simps at_rest_def gate_down_def)

section \<open>The verbs\<close>

lemma wp_rest_save_mute:
  assumes "case tok of None \<Rightarrow> True | Some t \<Rightarrow> t \<noteq> [] \<and> length t \<le> 128"
  shows "wp (save_mute_state d pre tok) (\<lambda>a _. a = Ret ()) s"
  using assms unfolding save_mute_state_def Let_def
  by (intro wp_bind_any) (auto simp: wp_bind wp_return wp_gets wp_modify wp_any split: option.splits)

lemma wp_rest_mute_locked:
  fixes s :: "('w, 'z) coord_scheme"
  assumes "uuid_ok d" "at_rest d s"
  shows "wp (mute_locked d) (\<lambda>r _. answered r) s"
proof -
  have tail: "wp (do { stored \<leftarrow> save_mute_state d pre tok;
        if stored \<noteq> Ret () then ret (Inl BadToken)
        else do { publish_then_dispatch d 0 (Some x); ret (Inr x) } }) (\<lambda>r _. answered r) s1"
    if "case tok of None \<Rightarrow> True | Some t \<Rightarrow> t \<noteq> [] \<and> length t \<le> 128" for pre tok x s1
    unfolding wp_bind
    by (rule wp_mono [OF wp_rest_save_mute [OF that]]) (simp add: wp_any wp_bind wp_return)
  have fits: "case co_token s1 of None \<Rightarrow> True | Some t \<Rightarrow> t \<noteq> [] \<and> length t \<le> 128"
    if "at_rest d s1" for s1 :: "('w, 'z) coord_scheme"
    using that by (auto simp: at_rest_def token_fits_def split: option.splits)
  have latch: "pres (at_rest d) (onlyif b (do { t \<leftarrow> sync (d_uuid d);
      modify (\<lambda>s :: ('w, 'z) coord_scheme. s\<lparr>co_pre_mute := Some l, co_token := Some t\<rparr>) }))" for b l
    using assms(1)
    by (auto simp: pres_def onlyif_def run_sync at_rest_def gate_down_def token_fits_def uuid_ok_def)
  show ?thesis
    unfolding mute_locked_def Let_def
    apply (rule wp_gets_bind)+
    apply (rule wp_pres_bind [OF latch assms(2)])
    apply (rule wp_gets_bind)+
    apply (rule tail, erule fits)
    done
qed

lemma wp_rest_unmute_locked: "at_rest d s \<Longrightarrow> wp (unmute_locked d fb) (\<lambda>r _. answered r) s"
  unfolding unmute_locked_def Let_def
  by (erule wp_rest_refuse) (intro wp_bind_any, simp add: wp_return)

lemma wp_rest_with_state:
  "wp m (\<lambda>r _. answered r) s \<Longrightarrow> wp (with_state m) (\<lambda>r _. answered r) s"
  unfolding with_state_def wp_bind
  by (erule wp_mono) (auto simp: answered_def wp_simps)

lemma wp_rest_set_level:
  assumes "lease_free d" "at_rest d s"
  shows "wp (set_listening_level d x) (\<lambda>r _. answered r) s"
    and "wp (adjust_listening_level d x) (\<lambda>r _. answered r) s"
proof -
  have tail: "wp (do { modify f; clear_latch d; publish_then_dispatch d y None; ret (Inr y) }) (\<lambda>r _. answered r) s1"
    for f y s1
    by (intro wp_bind_any) (simp add: wp_return)
  have again: "wp (refresh_from_disk d \<bind> k) (\<lambda>r _. answered r) s1"
    if "at_rest d s1" "\<And>s2. at_rest d s2 \<Longrightarrow> wp (k ()) (\<lambda>r _. answered r) s2" for k s1
    unfolding wp_bind by (rule wp_mono [OF wp_pres [OF pres_rest_refresh that(1)]]) (simp add: that(2))
  show "wp (set_listening_level d x) (\<lambda>r _. answered r) s"
    unfolding set_listening_level_def Let_def
    by (rule wp_rest_published, rule wp_rest_mutation [OF assms], rule again, assumption,
        erule wp_rest_refuse, rule tail)
  show "wp (adjust_listening_level d x) (\<lambda>r _. answered r) s"
    unfolding adjust_listening_level_def Let_def
    by (rule wp_rest_published, rule wp_rest_mutation [OF assms], rule again, assumption,
        rule wp_gets_bind, erule wp_rest_refuse, rule tail)
qed

lemma wp_rest_mutes:
  assumes "lease_free d" "uuid_ok d" "at_rest d s"
  shows "wp (mute d) (\<lambda>r _. answered r) s" and "wp (unmute d fb) (\<lambda>r _. answered r) s"
  unfolding mute_def unmute_def
  by (rule wp_rest_published, rule wp_rest_mutation [OF assms(1,3)],
      erule wp_rest_mute_locked [OF assms(2)] wp_rest_unmute_locked)+

lemma wp_rest_set_muted:
  fixes s :: "('w, 'z) coord_scheme"
  assumes "lease_free d" "uuid_ok d" "at_rest d s"
  shows "wp (set_muted d b fb) (\<lambda>r _. answered r) s"
proof -
  have body: "wp (do { pre \<leftarrow> gets co_pre_mute;
       if b \<and> pre = None then with_state (mute_locked d)
       else if \<not> b \<and> pre \<noteq> None then with_state (unmute_locked d fb)
       else do { v \<leftarrow> gets current_volume_state; ret (Inr (False, v)) } }) (\<lambda>r _. answered r) s1"
    if "at_rest d s1" for s1 :: "('w, 'z) coord_scheme"
    using wp_rest_with_state [OF wp_rest_mute_locked [OF assms(2) that]]
      wp_rest_with_state [OF wp_rest_unmute_locked [OF that]]
    by (simp add: wp_bind wp_gets wp_if wp_return)
  show ?thesis
    unfolding set_muted_def wp_bind
    by (rule wp_mono [OF wp_rest_mutation [OF assms(1,3) body]])
      (auto simp: answered_def wp_simps onlyif_def wp_any split: prod.splits)
qed

lemma wp_rest_toggle:
  fixes s :: "('w, 'z) coord_scheme"
  assumes "lease_free d" "uuid_ok d" "at_rest d s"
  shows "wp (toggle_mute d fb) (\<lambda>r _. answered r) s"
proof -
  have body: "wp (do { pre \<leftarrow> gets co_pre_mute;
       if pre \<noteq> None then with_state (unmute_locked d fb)
       else with_state (mute_locked d) }) (\<lambda>r _. answered r) s1"
    if "at_rest d s1" for s1 :: "('w, 'z) coord_scheme"
    using wp_rest_with_state [OF wp_rest_mute_locked [OF assms(2) that]]
      wp_rest_with_state [OF wp_rest_unmute_locked [OF that]]
    by (simp add: wp_bind wp_gets wp_if)
  show ?thesis
    unfolding toggle_mute_def wp_bind
    by (rule wp_mono [OF wp_rest_published [OF wp_rest_mutation [OF assms(1,3) body]]])
      (auto simp: answered_def wp_return)
qed


lemma demo_at_rest: "lease_free demo_doors" "gate_down demo_doors (the_gate demo_coord)" "token_fits demo_coord"
  by (simp_all add: lease_free_def gate_down_def token_fits_def demo_coord_def demo_shared_def)


end
