(* ===== verification/Mux_Mode.thy ===== *)
theory Mux_Mode
  imports Volume_Progress
begin

text \<open>
  Mux's selection mode on disk (\<open>jasper/playback_state/mux_mode_persistence.py\<close>): the household's
  manual pin, or auto, across restarts of the daemon.
\<close>

section \<open>The mode file\<close>

text \<open>\<open>isinstance(label, str) and label\<close>.\<close>

fun str_label :: "json \<Rightarrow> string option" where
  "str_label (JStr w _ _ _) = (if w = [] then None else Some w)"
| "str_label _ = None"

fun is_word :: "json \<Rightarrow> string \<Rightarrow> bool" where
  "is_word (JStr w _ _ _) v \<longleftrightarrow> w = v"
| "is_word _ _ \<longleftrightarrow> False"

text \<open>
  \<open>read_manual_source\<close>: None is auto. A missing or unreadable file, text that is not JSON and a value
  of another shape are caught; \<open>read_text\<close> of bytes that are not UTF-8 raises \<open>UnicodeDecodeError\<close>,
  which is neither an \<open>OSError\<close> nor a \<open>JSONDecodeError\<close>: \<open>Fatal\<close>.
\<close>

definition read_manual_source :: "vfile \<Rightarrow> source option outcome" where
  "read_manual_source f =
     (case f of
        FBadUtf8 \<Rightarrow> Fatal
      | FObject data \<Rightarrow>
          Ret (if \<not> is_word (jget data ''mode'') ''manual'' then None
               else case str_label (jget data ''selected_source'') of
                      None \<Rightarrow> None
                    | Some label \<Rightarrow>
                        (case source_of_value label of
                           None \<Rightarrow> None
                         | Some source \<Rightarrow> if source \<in> set MUSIC_SOURCES then Some source else None))
      | _ \<Rightarrow> Ret None)"

definition mode_payload :: "source option \<Rightarrow> (string \<rightharpoonup> json)" where
  "mode_payload manual_source =
     (case manual_source of
        None \<Rightarrow> [''mode'' \<mapsto> JStr ''auto'' None None None]
      | Some s \<Rightarrow> [''mode'' \<mapsto> JStr ''manual'' None None None,
                   ''selected_source'' \<mapsto> JStr (source_value s) None None None])"

section \<open>Correctness\<close>

lemma source_value_not_Nil [simp]: "source_value s \<noteq> []"
  by (cases s) simp_all

lemma read_mode_payload:
  "read_manual_source (FObject (mode_payload m)) = Ret (if m = Some IDLE then None else m)"
  using source_of_value_source_value [of IDLE]
  by (auto simp: read_manual_source_def mode_payload_def jget_def split: option.split)

lemma read_manual_source_selectable: "read_manual_source f = Ret (Some s) \<Longrightarrow> s \<noteq> IDLE"
  by (auto simp: read_manual_source_def split: vfile.splits if_splits option.splits)

lemma read_manual_source_raises: "(\<nexists>m. read_manual_source f = Ret m) \<longleftrightarrow> f = FBadUtf8"
  by (auto simp: read_manual_source_def split: vfile.splits)

text \<open>
  The selection mode survives a restart, and a damaged file falls open to auto. A mode written for
  a selectable source, or for auto, reads back as itself; a pin read from any file is a selectable
  music source. Every file but one reads as a mode: a file whose bytes are not UTF-8 raises, against
  the module's promise to fail open on any unreadable or malformed file.
\<close>

theorem mode_file_round_trip:
  "(m \<noteq> Some IDLE \<longrightarrow> read_manual_source (FObject (mode_payload m)) = Ret m) \<and>
   (\<forall>f s. read_manual_source f = Ret (Some s) \<longrightarrow> s \<in> set MUSIC_SOURCES) \<and>
   (\<forall>f. (\<nexists>m. read_manual_source f = Ret m) \<longleftrightarrow> f = FBadUtf8)"
  using read_mode_payload [of m] read_manual_source_selectable read_manual_source_raises
  by auto

lemma mode_file_round_trip_witness:
  "read_manual_source (FObject (mode_payload (Some AIRPLAY))) = Ret (Some AIRPLAY)"
  using mode_file_round_trip [of "Some AIRPLAY"] by simp

end
