(* ===== verification/Mux_State.thy ===== *)
theory Mux_State
  imports Mux_Mode
begin

text \<open>
  The memory of \<open>Mux\<close> (\<open>jasper/mux.py\<close>), its doors, and the small operations on the fan-in gate and
  the USB lane that its handlers are made of, with \<open>jasper/playback_state/airplay_session.py\<close>.

  Mux runs several tasks over one memory: the reconcile loop and one task per control client. A task
  sees the others at its awaits: \<open>mawait\<close> is an await after which the other tasks of mux may have
  rewritten the memory \<open>mx\<close> (\<open>d_rival\<close>, arbitrary unless a theorem restricts it). \<open>_transition_lock\<close>
  is the field \<open>mx_lock\<close>; what the other tasks leave alone while this task holds it is stated by
  \<open>rivals_respect_lock\<close>.
\<close>

section \<open>Values\<close>

text \<open>JSON as fan-in's STATUS carries it.\<close>

datatype jval = VNull | VBool bool | VNum rat | VStr string | VList "jval list" | VObj "(string \<times> jval) list"

text \<open>\<open>d.get(key)\<close> after \<open>json.loads\<close>: of a repeated key the last value stays.\<close>

fun vget :: "jval \<Rightarrow> string \<Rightarrow> jval" where
  "vget (VObj kvs) k = (case map_of (rev kvs) k of Some v \<Rightarrow> v | None \<Rightarrow> VNull)"
| "vget _ _ = VNull"

datatype observation = Unknown | UnknownExpired | Active | Inactive

datatype lock_owner = Free | Mine | Theirs

text \<open>An exit status of \<open>busctl\<close>; None is a call that did not run.\<close>

record busctl_reply =
  bc_returncode :: int
  bc_name_absent :: bool

datatype cleanup_reason =
  NotAttempted | CleanupPending | DropAcknowledged | StopUnconfirmed | CleanupFailed | ReceiverAbsent

datatype cleanup_status = Unobserved | CleanupOk | CleanupDegraded

record cleanup =
  cl_status :: cleanup_status
  cl_reason :: cleanup_reason
  cl_attempts :: nat
  cl_attempted_at :: "rat option"

record handoff_record =
  hr_id :: nat
  hr_from :: source
  hr_to :: source
  hr_reason :: string
  hr_level :: int
  hr_guard_db :: "rat option"
  hr_camilla_before_db :: "rat option"
  hr_prev_mode :: volume_mode
  hr_target_mode :: volume_mode
  hr_push_ok :: "bool option"
  hr_settled_ms :: int
  hr_result :: string
  hr_detail :: string
  hr_elapsed_ms :: int

datatype trigger = Startup | AlertAndPatrol | Alert | Patrol

record reconcile_record =
  rr_id :: nat
  rr_trigger :: trigger
  rr_dirty :: "source set"
  rr_changed :: bool
  rr_winner :: "source option"
  rr_elapsed_ms :: rat

section \<open>The memory\<close>

record mux_mem =
  mx_playing :: "source \<Rightarrow> bool"
  mx_observations :: "source \<Rightarrow> observation"
  mx_known_at :: "source \<Rightarrow> rat"
  mx_started_seq :: "source \<Rightarrow> nat"
  mx_seq :: nat
  mx_winner :: "source option"
  mx_manual :: "source option"
  mx_age :: nat
  mx_preempted :: bool
  mx_pending :: "source option"
  mx_test_label :: "string option"
  mx_test_owner :: "string option"
  mx_test_expires :: "rat option"
  mx_lock :: lock_owner
  mx_last_name :: string
  mx_last_handoff :: "handoff_record option"
  mx_handoff_seq :: nat
  mx_dirty :: "source set"
  mx_received :: "source \<Rightarrow> nat"
  mx_coalesced :: "source \<Rightarrow> nat"
  mx_notified :: "source \<Rightarrow> (string \<times> rat) option"
  mx_wake :: bool
  mx_reconcile_seq :: nat
  mx_probe_due :: "source \<Rightarrow> rat"
  mx_patrols :: nat
  mx_repairs :: nat
  mx_last_reconcile :: "reconcile_record option"
  mx_last_alert_at :: rat
  mx_none_asserted :: bool
  mx_gate_failures :: nat
  mx_airplay :: cleanup
  mx_mode_file :: vfile

record 'w mux = "'w coord" +
  mx :: mux_mem

text \<open>\<open>Mux.__init__\<close>; None is the exception of an unreadable mode file.\<close>

definition initial_cleanup :: cleanup where
  "initial_cleanup =
     \<lparr>cl_status = Unobserved, cl_reason = NotAttempted, cl_attempts = 0, cl_attempted_at = None\<rparr>"

definition mux_init :: "vfile \<Rightarrow> mux_mem option" where
  "mux_init mode_file =
     (case read_manual_source mode_file of
        Ret manual \<Rightarrow> Some
          \<lparr>mx_playing = (\<lambda>_. False), mx_observations = (\<lambda>_. Unknown), mx_known_at = (\<lambda>_. 0),
           mx_started_seq = (\<lambda>_. 0), mx_seq = 0, mx_winner = None, mx_manual = manual, mx_age = 0,
           mx_preempted = False, mx_pending = None, mx_test_label = None, mx_test_owner = None,
           mx_test_expires = None, mx_lock = Free, mx_last_name = source_value IDLE,
           mx_last_handoff = None, mx_handoff_seq = 0, mx_dirty = {}, mx_received = (\<lambda>_. 0),
           mx_coalesced = (\<lambda>_. 0), mx_notified = (\<lambda>_. None), mx_wake = False, mx_reconcile_seq = 0,
           mx_probe_due = (\<lambda>_. 0), mx_patrols = 0, mx_repairs = 0, mx_last_reconcile = None,
           mx_last_alert_at = 0, mx_none_asserted = False, mx_gate_failures = 0,
           mx_airplay = initial_cleanup, mx_mode_file = mode_file\<rparr>
      | _ \<Rightarrow> None)"

section \<open>Doors\<close>

record spotify_device =
  sd_account :: nat
  sd_active :: bool

record 'w mux_doors = "'w vol_doors" +
  d_rival :: "'w \<Rightarrow> mux_mem \<Rightarrow> mux_mem"                  \<comment> \<open>the other tasks of mux\<close>
  d_fanin :: "string \<Rightarrow> 'w \<Rightarrow> unit outcome \<times> 'w"          \<comment> \<open>\<open>fanin_command\<close>\<close>
  d_fanin_status :: "'w \<Rightarrow> jval option \<times> 'w"
  d_spotify_playing :: "'w \<Rightarrow> bool option \<times> 'w"
  d_airplay_playing :: "'w \<Rightarrow> bool option \<times> 'w"
  d_bluetooth_playing :: "'w \<Rightarrow> bool option \<times> 'w"
  d_mode_write :: "'w \<Rightarrow> bool \<times> 'w"                      \<comment> \<open>False: the \<open>OSError\<close> of \<open>atomic_write_text\<close>\<close>
  d_drop_session :: "'w \<Rightarrow> busctl_reply option \<times> 'w"
  d_mpris_stop :: "'w \<Rightarrow> busctl_reply option \<times> 'w"
  d_avrcp_pause :: "'w \<Rightarrow> unit outcome \<times> 'w"
  d_web_router :: bool
  d_web_devices :: "'w \<Rightarrow> spotify_device list outcome \<times> 'w"
  d_web_pause :: "spotify_device \<Rightarrow> 'w \<Rightarrow> unit outcome \<times> 'w"
  d_try_restart :: "'w \<Rightarrow> bool outcome \<times> 'w"
  d_wait_wake :: "rat \<Rightarrow> 'w \<Rightarrow> 'w"                     \<comment> \<open>until the wake event or the timeout\<close>

section \<open>Tasks and the lock\<close>

definition on_mx :: "(mux_mem \<Rightarrow> mux_mem) \<Rightarrow> (('w, 'z) mux_scheme, unit) state" where
  "on_mx f = modify (\<lambda>s. s\<lparr>mx := f (mx s)\<rparr>)"

definition get_mx :: "(mux_mem \<Rightarrow> 'a) \<Rightarrow> (('w, 'z) mux_scheme, 'a) state" where
  "get_mx f = gets (\<lambda>s. f (mx s))"

definition rival :: "('w, 'y) mux_doors_scheme \<Rightarrow> (('w, 'z) mux_scheme, unit) state" where
  "rival d = modify (\<lambda>s. s\<lparr>mx := d_rival d (world s) (mx s)\<rparr>)"

definition mawait ::
  "('w, 'y) mux_doors_scheme \<Rightarrow> ('w \<Rightarrow> 'a \<times> 'w) \<Rightarrow> (('w, 'z) mux_scheme, 'a) state" where
  "mawait d f = do { a \<leftarrow> await d f; rival d; ret a }"

text \<open>A call into the volume coordinator, which never touches mux's memory.\<close>

definition coordinated ::
  "('w, 'y) mux_doors_scheme \<Rightarrow> (('w, 'z) mux_scheme, 'a) state \<Rightarrow> (('w, 'z) mux_scheme, 'a) state" where
  "coordinated d m = do { a \<leftarrow> m; rival d; ret a }"

text \<open>\<open>async with self._transition_lock\<close>: an uncontended lock is taken without an await.\<close>

definition with_transition_lock ::
  "('w, 'y) mux_doors_scheme \<Rightarrow> (('w, 'z) mux_scheme, 'a) state \<Rightarrow> (('w, 'z) mux_scheme, 'a) state" where
  "with_transition_lock d body = do {
     lock \<leftarrow> get_mx mx_lock;
     onlyif (lock \<noteq> Free) (mawait d (\<lambda>w. ((), w)));
     on_mx (mx_lock_update (\<lambda>_. Mine));
     a \<leftarrow> body;
     on_mx (mx_lock_update (\<lambda>_. Free));
     ret a
   }"

text \<open>
  What the code's other tasks leave alone while this task holds the lock: everything assigned only
  under \<open>_transition_lock\<close>. The winner can still be cleared by the idle branch of \<open>_tick\<close>, which
  runs outside the lock.
\<close>

definition lock_respected :: "mux_mem \<Rightarrow> mux_mem \<Rightarrow> bool" where
  "lock_respected m m' \<longleftrightarrow> mx_lock m' = Mine \<and> mx_manual m' = mx_manual m \<and>
     mx_test_label m' = mx_test_label m \<and> mx_test_owner m' = mx_test_owner m \<and>
     mx_test_expires m' = mx_test_expires m \<and> mx_mode_file m' = mx_mode_file m \<and>
     (mx_winner m' = mx_winner m \<or> mx_winner m' = None)"

definition rivals_respect_lock :: "('w, 'y) mux_doors_scheme \<Rightarrow> bool" where
  "rivals_respect_lock d \<longleftrightarrow>
     (\<forall>w m. mx_lock m = Mine \<longrightarrow> lock_respected m (d_rival d w m))"

text \<open>No other task runs: only the reconcile loop, and no client connects.\<close>

definition no_rivals :: "('w, 'y) mux_doors_scheme \<Rightarrow> bool" where
  "no_rivals d \<longleftrightarrow> (\<forall>w m. d_rival d w m = m)"

section \<open>The fan-in gate\<close>

text \<open>The command lines of \<open>jasper/platform/wire.py\<close>.\<close>

definition FANIN_NONE :: string where "FANIN_NONE = ''NONE''"

definition fanin_select_line :: "string \<Rightarrow> string" where
  "fanin_select_line label = ''SELECT '' @ label"

definition fanin_lane_mute_line :: "string \<Rightarrow> bool \<Rightarrow> string" where
  "fanin_lane_mute_line label muted = (if muted then ''MUTE '' else ''UNMUTE '') @ label"

definition USBSINK_FANIN_LABEL :: string where
  "USBSINK_FANIN_LABEL = (case SOURCE_TO_FANIN_LABEL USBSINK of Some l \<Rightarrow> l | None \<Rightarrow> [])"

definition fanin_gate ::
  "('w, 'y) mux_doors_scheme \<Rightarrow> string \<Rightarrow> (('w, 'z) mux_scheme, unit outcome) state" where
  "fanin_gate d command = do {
     r \<leftarrow> mawait d (d_fanin d command);
     emit (Gate command (r = Ret ()));
     on_mx (mx_gate_failures_update (\<lambda>n. if r = Ret () then 0 else n + 1));
     ret r
   }"

definition fanin_select_label ::
  "('w, 'y) mux_doors_scheme \<Rightarrow> string \<Rightarrow> (('w, 'z) mux_scheme, unit outcome) state" where
  "fanin_select_label d label = do {
     on_mx (mx_none_asserted_update (\<lambda>_. False));
     fanin_gate d (fanin_select_line label)
   }"

text \<open>\<open>SOURCE_TO_FANIN_LABEL[source]\<close> raises \<open>KeyError\<close> for \<open>IDLE\<close>.\<close>

definition fanin_select ::
  "('w, 'y) mux_doors_scheme \<Rightarrow> source \<Rightarrow> (('w, 'z) mux_scheme, unit outcome) state" where
  "fanin_select d source =
     (case SOURCE_TO_FANIN_LABEL source of
        None \<Rightarrow> ret Fatal
      | Some label \<Rightarrow> fanin_select_label d label)"

definition fanin_none :: "('w, 'y) mux_doors_scheme \<Rightarrow> (('w, 'z) mux_scheme, unit outcome) state" where
  "fanin_none d = do {
     r \<leftarrow> fanin_gate d FANIN_NONE;
     onlyif (r = Ret ()) (on_mx (mx_none_asserted_update (\<lambda>_. True)));
     ret r
   }"

definition fanin_none_best_effort :: "('w, 'y) mux_doors_scheme \<Rightarrow> (('w, 'z) mux_scheme, unit) state" where
  "fanin_none_best_effort d = do { _ \<leftarrow> fanin_none d; ret () }"

definition fanin_lane_mute ::
  "('w, 'y) mux_doors_scheme \<Rightarrow> string \<Rightarrow> bool \<Rightarrow> (('w, 'z) mux_scheme, unit outcome) state" where
  "fanin_lane_mute d label muted = do {
     r \<leftarrow> mawait d (d_fanin d (fanin_lane_mute_line label muted));
     emit (LaneMute muted (r = Ret ()));
     ret r
   }"

section \<open>The USB lane's preempt mute\<close>

definition usbsink_set_preempt ::
  "('w, 'y) mux_doors_scheme \<Rightarrow> bool \<Rightarrow> (('w, 'z) mux_scheme, unit) state" where
  "usbsink_set_preempt d silenced = do {
     current \<leftarrow> get_mx mx_preempted;
     if current = silenced then ret ()
     else do {
       r \<leftarrow> fanin_lane_mute d USBSINK_FANIN_LABEL silenced;
       onlyif (r = Ret ()) (on_mx (mx_preempted_update (\<lambda>_. silenced)))
     }
   }"

definition reassert_usbsink_preempt_mute ::
  "('w, 'y) mux_doors_scheme \<Rightarrow> (('w, 'z) mux_scheme, unit) state" where
  "reassert_usbsink_preempt_mute d = do {
     preempted \<leftarrow> get_mx mx_preempted;
     onlyif preempted (do { _ \<leftarrow> fanin_lane_mute d USBSINK_FANIN_LABEL True; ret () })
   }"

section \<open>Releasing the AirPlay session\<close>

text \<open>\<open>time.time()\<close> is the door \<open>d_utc\<close>.\<close>

definition set_cleanup ::
  "cleanup_status \<Rightarrow> cleanup_reason \<Rightarrow> (('w, 'z) mux_scheme, unit) state" where
  "set_cleanup status reason =
     on_mx (mx_airplay_update (\<lambda>c. c\<lparr>cl_status := status, cl_reason := reason\<rparr>))"

definition airplay_release :: "('w, 'y) mux_doors_scheme \<Rightarrow> (('w, 'z) mux_scheme, unit) state" where
  "airplay_release d = do {
     now \<leftarrow> peek (d_utc d);
     on_mx (mx_airplay_update (\<lambda>c. c\<lparr>cl_attempts := cl_attempts c + 1, cl_attempted_at := Some now\<rparr>));
     set_cleanup Unobserved CleanupPending;
     dropped \<leftarrow> mawait d (d_drop_session d);
     emit (Pause AIRPLAY (dropped \<noteq> None \<and> bc_returncode (the dropped) = 0));
     if dropped \<noteq> None \<and> bc_returncode (the dropped) = 0 then set_cleanup CleanupOk DropAcknowledged
     else if dropped \<noteq> None \<and> bc_name_absent (the dropped) then set_cleanup CleanupOk ReceiverAbsent
     else do {
       stopped \<leftarrow> mawait d (d_mpris_stop d);
       set_cleanup CleanupDegraded
         (if stopped \<noteq> None \<and> bc_returncode (the stopped) = 0 then StopUnconfirmed else CleanupFailed)
     }
   }"

section \<open>Pausing a losing renderer\<close>

text \<open>Active devices first (the sort is stable); the first account that pauses ends the pass.\<close>

fun pause_first :: "('w, 'y) mux_doors_scheme \<Rightarrow> spotify_device list \<Rightarrow> (('w, 'z) mux_scheme, bool) state" where
  "pause_first d [] = ret False"
| "pause_first d (dev # devs) = do {
     r \<leftarrow> mawait d (d_web_pause d dev);
     if r = Ret () then ret True else pause_first d devs
   }"

definition spotify_pause_via_web_api ::
  "('w, 'y) mux_doors_scheme \<Rightarrow> (('w, 'z) mux_scheme, bool outcome) state" where
  "spotify_pause_via_web_api d =
     (if \<not> d_web_router d then ret (Ret False)
      else do {
        devices \<leftarrow> mawait d (d_web_devices d);
        case devices of
          Ret ds \<Rightarrow> do { ok \<leftarrow> pause_first d (filter sd_active ds @ filter (\<lambda>x. \<not> sd_active x) ds); ret (Ret ok) }
        | IoError \<Rightarrow> ret IoError
        | Fatal \<Rightarrow> ret Fatal
      })"

definition spotify_force_restart_librespot ::
  "('w, 'y) mux_doors_scheme \<Rightarrow> (('w, 'z) mux_scheme, bool outcome) state" where
  "spotify_force_restart_librespot d = mawait d (d_try_restart d)"

text \<open>\<open>_pause_best_effort\<close>: whatever \<open>_pause\<close> raises is logged.\<close>

definition pause_source ::
  "('w, 'y) mux_doors_scheme \<Rightarrow> source \<Rightarrow> (('w, 'z) mux_scheme, unit) state" where
  "pause_source d source =
     (if source = SPOTIFY then do {
        ok \<leftarrow> spotify_pause_via_web_api d;
        emit (Pause SPOTIFY (ok = Ret True));
        onlyif (ok = Ret False) (do { _ \<leftarrow> spotify_force_restart_librespot d; ret () })
      }
      else if source = BLUETOOTH then do {
        r \<leftarrow> mawait d (d_avrcp_pause d);
        emit (Pause BLUETOOTH (r = Ret ()))
      }
      else onlyif (source = USBSINK) (usbsink_set_preempt d True))"

definition write_mode ::
  "('w, 'y) mux_doors_scheme \<Rightarrow> source option \<Rightarrow> (('w, 'z) mux_scheme, unit) state" where
  "write_mode d manual_source = do {
     ok \<leftarrow> sync (d_mode_write d);
     onlyif ok (on_mx (mx_mode_file_update (\<lambda>_. FObject (mode_payload manual_source))));
     emit (ModeSaved (map_option source_value manual_source))
   }"

end
