(* ===== verification/Mux_Observe.thy ===== *)
theory Mux_Observe
  imports Mux_State "HOL-Library.Product_Lexorder"
begin

text \<open>
  How mux sees its renderers (\<open>jasper/mux.py\<close>, \<open>source_state.usbsink_direct_streaming\<close>,
  \<open>jasper/fanin/status.py\<close>): the probes and their bounded hold on an unreadable one, the order of
  starts, and the choice of the latest started source; with the proof that the sequence counters
  implement a plain list of sources ordered by their last start.
\<close>

section \<open>USB liveness in fan-in's STATUS\<close>

definition USBSINK_INPUT_LABEL :: string where "USBSINK_INPUT_LABEL = ''usbsink''"
definition FANIN_INPUT_SOURCE_DIRECT :: string where "FANIN_INPUT_SOURCE_DIRECT = ''direct''"

fun labelled_entry :: "jval \<Rightarrow> (string \<times> jval) option" where
  "labelled_entry (VObj kvs) = (case vget (VObj kvs) ''label'' of VStr l \<Rightarrow> Some (l, VObj kvs) | _ \<Rightarrow> None)"
| "labelled_entry _ = None"

fun fanin_inputs_by_label :: "jval option \<Rightarrow> (string \<rightharpoonup> jval)" where
  "fanin_inputs_by_label (Some (VObj kvs)) =
     (case vget (VObj kvs) ''inputs'' of
        VList entries \<Rightarrow> map_of (rev (List.map_filter labelled_entry entries))
      | _ \<Rightarrow> Map.empty)"
| "fanin_inputs_by_label _ = Map.empty"

definition fanin_usbsink_input :: "jval option \<Rightarrow> jval option" where
  "fanin_usbsink_input status = fanin_inputs_by_label status USBSINK_INPUT_LABEL"

definition usbsink_direct_streaming :: "jval option \<Rightarrow> bool option" where
  "usbsink_direct_streaming status =
     (case fanin_usbsink_input status of
        None \<Rightarrow> None
      | Some lane \<Rightarrow>
          if vget lane ''source'' \<noteq> VStr FANIN_INPUT_SOURCE_DIRECT then None
          else (case vget lane ''direct'' of
                  VObj kvs \<Rightarrow> (case vget (VObj kvs) ''streaming'' of VBool b \<Rightarrow> Some b | _ \<Rightarrow> None)
                | _ \<Rightarrow> None))"

definition usbsink_streaming :: "('w, 'y) mux_doors_scheme \<Rightarrow> (('w, 'z) mux_scheme, bool option) state" where
  "usbsink_streaming d = do { status \<leftarrow> mawait d (d_fanin_status d); ret (usbsink_direct_streaming status) }"

section \<open>Probing\<close>

definition UNKNOWN_ACTIVE_HOLD_SEC :: rat where "UNKNOWN_ACTIVE_HOLD_SEC = 5"
definition EVENT_BACKED_PROBE_SEC :: rat where "EVENT_BACKED_PROBE_SEC = UNKNOWN_ACTIVE_HOLD_SEC"

definition event_backed :: "source list" where
  "event_backed = [AIRPLAY, BLUETOOTH]"

definition deferrable_probes :: "rat \<Rightarrow> mux_mem \<Rightarrow> source set \<Rightarrow> source set" where
  "deferrable_probes now m dirty = {s \<in> set event_backed. s \<notin> dirty \<and> now < mx_probe_due m s}"

text \<open>One source after its probe answered \<open>value\<close>: whether it plays, and the label of the observation.\<close>

fun resolve_one :: "rat \<Rightarrow> bool \<Rightarrow> rat \<Rightarrow> bool option \<Rightarrow> bool \<times> observation" where
  "resolve_one now playing known None =
     (if playing \<and> now - known \<ge> UNKNOWN_ACTIVE_HOLD_SEC then (False, UnknownExpired)
      else (playing, Unknown))"
| "resolve_one now playing known (Some v) = (v, if v then Active else Inactive)"

text \<open>The part of \<open>_probe_sources\<close> after the probes answered; a deferred source is not in \<open>readings\<close>.\<close>

definition resolve_probes ::
  "rat \<Rightarrow> (source \<rightharpoonup> bool option) \<Rightarrow> mux_mem \<Rightarrow> (source \<Rightarrow> bool) \<times> mux_mem" where
  "resolve_probes now readings m =
     (let seen = (\<lambda>s v. resolve_one now (mx_playing m s) (mx_known_at m s) v)
      in (\<lambda>s. case readings s of None \<Rightarrow> mx_playing m s | Some v \<Rightarrow> fst (seen s v),
          m\<lparr>mx_probe_due := (\<lambda>s. if s \<notin> set event_backed then mx_probe_due m s
              else case readings s of None \<Rightarrow> mx_probe_due m s
                   | Some v \<Rightarrow> if v \<noteq> None then now + EVENT_BACKED_PROBE_SEC else 0),
            mx_observations := (\<lambda>s. case readings s of None \<Rightarrow> mx_observations m s | Some v \<Rightarrow> snd (seen s v)),
            mx_known_at := (\<lambda>s. case readings s of Some (Some _) \<Rightarrow> now | _ \<Rightarrow> mx_known_at m s)\<rparr>))"

definition probe_unless ::
  "('w, 'y) mux_doors_scheme \<Rightarrow> source set \<Rightarrow> source \<Rightarrow> ('w \<Rightarrow> bool option \<times> 'w) \<Rightarrow> (source \<rightharpoonup> bool option) \<Rightarrow>
   (('w, 'z) mux_scheme, source \<rightharpoonup> bool option) state" where
  "probe_unless d defer source door readings =
     (if source \<in> defer then ret readings
      else do { v \<leftarrow> mawait d door; ret (readings(source \<mapsto> v)) })"

definition probe_sources ::
  "('w, 'y) mux_doors_scheme \<Rightarrow> source set \<Rightarrow> (('w, 'z) mux_scheme, source \<Rightarrow> bool) state" where
  "probe_sources d defer = do {
     spotify \<leftarrow> mawait d (d_spotify_playing d);
     usb \<leftarrow> usbsink_streaming d;
     readings \<leftarrow> probe_unless d defer AIRPLAY (d_airplay_playing d) [SPOTIFY \<mapsto> spotify, USBSINK \<mapsto> usb];
     readings \<leftarrow> probe_unless d defer BLUETOOTH (d_bluetooth_playing d) readings;
     now \<leftarrow> peek (d_mono d);
     m \<leftarrow> get_mx id;
     let (resolved, m') = resolve_probes now readings m;
     on_mx (\<lambda>_. m');
     ret resolved
   }"

section \<open>Starts and the winner\<close>

fun record_starts :: "(source \<Rightarrow> bool) \<Rightarrow> source list \<Rightarrow> mux_mem \<Rightarrow> source list \<times> mux_mem" where
  "record_starts current [] m = ([], m)"
| "record_starts current (s # ss) m =
     (if current s \<and> \<not> mx_playing m s then
        let n = mx_seq m + 1;
            (started, m') = record_starts current ss
              (m\<lparr>mx_seq := n, mx_started_seq := (mx_started_seq m)(s := n)\<rparr>)
        in (s # started, m')
      else record_starts current ss m)"

definition record_source_observation ::
  "(source \<Rightarrow> bool) \<Rightarrow> mux_mem \<Rightarrow> source list \<times> mux_mem" where
  "record_source_observation current m =
     (let (newly_started, m') = record_starts current MUSIC_SOURCES m
      in (newly_started, m'\<lparr>mx_playing := current\<rparr>))"

text \<open>The observation lock is not modelled: other tasks' observations are part of \<open>d_rival\<close>.\<close>

definition observe_sources ::
  "('w, 'y) mux_doors_scheme \<Rightarrow> source set \<Rightarrow>
   (('w, 'z) mux_scheme, (source \<Rightarrow> bool) \<times> source list) state" where
  "observe_sources d defer = do {
     current \<leftarrow> probe_sources d defer;
     m \<leftarrow> get_mx id;
     let (newly_started, m') = record_source_observation current m;
     on_mx (\<lambda>_. m');
     ret (current, newly_started)
   }"

definition active_sources :: "(source \<Rightarrow> bool) \<Rightarrow> source list" where
  "active_sources current = filter current MUSIC_SOURCES"

text \<open>\<open>registry_order[source]\<close> and \<open>max(active, key=...)\<close>, which keeps the first of equals.\<close>

definition registry_order :: "source \<Rightarrow> nat" where
  "registry_order s = length (takeWhile (\<lambda>t. t \<noteq> s) MUSIC_SOURCES)"

fun max_by :: "('a \<Rightarrow> 'k::linorder) \<Rightarrow> 'a \<Rightarrow> 'a list \<Rightarrow> 'a" where
  "max_by key best [] = best"
| "max_by key best (x # xs) = max_by key (if key best < key x then x else best) xs"

definition pick_winner :: "mux_mem \<Rightarrow> (source \<Rightarrow> bool) \<Rightarrow> source option" where
  "pick_winner m current =
     (case active_sources current of
        [] \<Rightarrow> None
      | s # ss \<Rightarrow> Some (max_by (\<lambda>s. (mx_started_seq m s, registry_order s)) s ss))"

section \<open>The latest start wins\<close>

text \<open>
  The specification keeps one list of sources, the latest start first. Starting moves a source to the
  front; the winner is the first source of the list that is playing.
\<close>

definition fresh_starts :: "(source \<Rightarrow> bool) \<Rightarrow> (source \<Rightarrow> bool) \<Rightarrow> source list" where
  "fresh_starts current playing = filter (\<lambda>s. current s \<and> \<not> playing s) MUSIC_SOURCES"

definition restarted :: "source list \<Rightarrow> source list \<Rightarrow> source list" where
  "restarted new h = rev new @ filter (\<lambda>s. s \<notin> set new) h"

definition counts_starts :: "source list \<Rightarrow> mux_mem \<Rightarrow> bool" where
  "counts_starts h m \<longleftrightarrow> set h = {s. s \<noteq> IDLE \<and> 0 < mx_started_seq m s} \<and>
     sorted_wrt (\<lambda>a b. mx_started_seq m b < mx_started_seq m a) h \<and> (\<forall>s. mx_started_seq m s \<le> mx_seq m)"

definition ordered_by_start :: "source list \<Rightarrow> mux_mem \<Rightarrow> bool" where
  "ordered_by_start h m \<longleftrightarrow> counts_starts h m \<and> (\<forall>s. s \<noteq> IDLE \<and> mx_playing m s \<longrightarrow> s \<in> set h)"

lemma restarted_Nil [simp]: "restarted [] h = h"
  by (simp add: restarted_def)

lemma restarted_Cons:
  "s \<notin> set new \<Longrightarrow> restarted new (s # filter (\<lambda>t. t \<noteq> s) h) = restarted (s # new) h"
  by (simp add: restarted_def conj_commute)

lemma counts_one_start:
  assumes "counts_starts h m" "s \<noteq> IDLE"
  shows "counts_starts (s # filter (\<lambda>t. t \<noteq> s) h)
    (m\<lparr>mx_seq := mx_seq m + 1, mx_started_seq := (mx_started_seq m)(s := mx_seq m + 1)\<rparr>)"
proof -
  have "sorted_wrt (\<lambda>a b. mx_started_seq m b < mx_started_seq m a) (filter (\<lambda>t. t \<noteq> s) h)"
    using assms(1) by (simp add: counts_starts_def sorted_wrt_filter)
  then have "sorted_wrt (\<lambda>a b. ((mx_started_seq m)(s := mx_seq m + 1)) b < ((mx_started_seq m)(s := mx_seq m + 1)) a)
      (filter (\<lambda>t. t \<noteq> s) h)"
    by (rule sorted_wrt_mono_rel [rotated]) auto
  with assms show ?thesis
    by (auto simp: counts_starts_def less_Suc_eq_le intro: le_SucI)
qed

lemma record_starts_counts:
  assumes "counts_starts h m" "distinct ss" "IDLE \<notin> set ss"
  shows "fst (record_starts current ss m) = filter (\<lambda>s. current s \<and> \<not> mx_playing m s) ss \<and>
    mx_playing (snd (record_starts current ss m)) = mx_playing m \<and>
    counts_starts (restarted (fst (record_starts current ss m)) h) (snd (record_starts current ss m))"
  using assms
proof (induction ss arbitrary: h m)
  case (Cons s ss)
  let ?m = "m\<lparr>mx_seq := mx_seq m + 1, mx_started_seq := (mx_started_seq m)(s := mx_seq m + 1)\<rparr>"
  let ?h = "s # filter (\<lambda>t. t \<noteq> s) h"
  have tail: "distinct ss" "IDLE \<notin> set ss" and s: "s \<noteq> IDLE" "s \<notin> set ss"
    using Cons.prems by auto
  note started = counts_one_start [OF Cons.prems(1) s(1)]
  note same = Cons.IH [OF Cons.prems(1) tail]
  note other = Cons.IH [OF started tail]
  obtain st m2 where r: "record_starts current ss ?m = (st, m2)" by fastforce
  obtain st' m2' where r': "record_starts current ss m = (st', m2')" by fastforce
  have "s \<notin> set st"
    using other s(2) unfolding r by simp
  note front = restarted_Cons [OF this, of h]
  let ?new = "filter (\<lambda>s. current s \<and> \<not> mx_playing m s) ss"
  have pl: "mx_playing ?m = mx_playing m" by simp
  have o: "st = ?new" "mx_playing m2 = mx_playing m" "counts_starts (restarted (s # st) h) m2"
    using other unfolding r fst_conv snd_conv front pl by blast+
  have o': "st' = ?new" "mx_playing m2' = mx_playing m" "counts_starts (restarted st' h) m2'"
    using same unfolding r' fst_conv snd_conv by blast+
  have step: "record_starts current (s # ss) m =
      (if current s \<and> \<not> mx_playing m s then (s # st, m2) else (st', m2'))"
    unfolding record_starts.simps Let_def r r' prod.case ..
  show ?case
    unfolding step using o o' by (cases "current s \<and> \<not> mx_playing m s") simp_all
qed simp_all

lemma counts_starts_playing [simp]: "counts_starts h (m\<lparr>mx_playing := p\<rparr>) = counts_starts h m"
  by (simp add: counts_starts_def)

lemma max_by_in: "max_by key b xs \<in> insert b (set xs)"
  by (induction xs arbitrary: b) (auto split: if_splits)

lemma max_by_ge: "x \<in> insert b (set xs) \<Longrightarrow> key x \<le> key (max_by key b xs)"
proof (induction xs arbitrary: b x)
  case (Cons y ys)
  let ?b = "if key b < key y then y else b"
  have b: "key ?b \<le> key (max_by key ?b ys)" and y: "key b \<le> key ?b" "key y \<le> key ?b"
    using Cons.IH [of ?b ?b] by auto
  show ?case
  proof (cases "x \<in> set ys")
    case True
    then show ?thesis using Cons.IH [of x ?b] by simp
  next
    case False
    then have "key x \<le> key ?b" using Cons.prems y by auto
    then show ?thesis using b unfolding max_by.simps by (rule order_trans)
  qed
qed simp

lemma find_first_active:
  assumes "sorted_wrt (\<lambda>a b. f b < (f a :: nat)) h" "find P h = Some w" "s \<in> set h" "P s"
  shows "f s \<le> f w \<and> (s \<noteq> w \<longrightarrow> f s < f w)"
  using assms by (induction h) (auto split: if_splits)

lemma pick_winner_cases:
  "case pick_winner m current of
     None \<Rightarrow> active_sources current = []
   | Some w \<Rightarrow> w \<in> set (active_sources current) \<and>
       (\<forall>x \<in> set (active_sources current). (mx_started_seq m x, registry_order x) \<le> (mx_started_seq m w, registry_order w))"
proof (cases "active_sources current")
  case (Cons s ss)
  then show ?thesis
    using max_by_in [of "\<lambda>s. (mx_started_seq m s, registry_order s)" s ss]
      max_by_ge [of _ s ss "\<lambda>s. (mx_started_seq m s, registry_order s)"]
    by (simp add: pick_winner_def)
qed (simp add: pick_winner_def)

lemma pick_winner_active:
  "pick_winner m current = Some w \<Longrightarrow> w \<noteq> IDLE \<and> current w"
  using pick_winner_cases [of current m] by (simp add: active_sources_def)

lemma pick_winner_first:
  assumes "counts_starts h m" "\<And>s. s \<noteq> IDLE \<Longrightarrow> current s \<Longrightarrow> s \<in> set h"
  shows "pick_winner m current = find current h"
proof (cases "find current h")
  case None
  then have "\<not> current s" if "s \<noteq> IDLE" for s
    using assms(2) [OF that] by (auto simp: find_None_iff)
  then have "active_sources current = []"
    by (simp add: active_sources_def filter_empty_conv)
  with None show ?thesis by (simp add: pick_winner_def)
next
  case (Some w)
  then have w: "w \<in> set h" "current w"
    by (auto simp: find_Some_iff)
  then have active: "w \<in> set (active_sources current)"
    using assms(1) by (auto simp: active_sources_def counts_starts_def)
  then obtain v where v: "pick_winner m current = Some v" "v \<in> set (active_sources current)"
      "(mx_started_seq m w, registry_order w) \<le> (mx_started_seq m v, registry_order v)"
    using pick_winner_cases [of current m] by (cases "pick_winner m current") auto
  then have "v \<in> set h" "current v"
    using assms(2) by (auto simp: active_sources_def)
  moreover have "sorted_wrt (\<lambda>a b. mx_started_seq m b < mx_started_seq m a) h"
    using assms(1) by (simp add: counts_starts_def)
  ultimately have "v \<noteq> w \<longrightarrow> mx_started_seq m v < mx_started_seq m w"
    using find_first_active [where f = "mx_started_seq m", OF _ Some] by blast
  moreover have "mx_started_seq m w \<le> mx_started_seq m v"
    using v(3) by (auto simp: less_eq_prod_def)
  ultimately have "v = w" by linarith
  with v Some show ?thesis by simp
qed

lemma record_observation_ordered:
  assumes "ordered_by_start h m"
  shows "fst (record_source_observation current m) = fresh_starts current (mx_playing m)"
    "mx_playing (snd (record_source_observation current m)) = current"
    "ordered_by_start (restarted (fresh_starts current (mx_playing m)) h) (snd (record_source_observation current m))"
    "s \<noteq> IDLE \<Longrightarrow> current s \<Longrightarrow> s \<in> set (restarted (fresh_starts current (mx_playing m)) h)"
proof -
  have h: "counts_starts h m" and playing: "\<And>s. s \<noteq> IDLE \<Longrightarrow> mx_playing m s \<Longrightarrow> s \<in> set h"
    using assms by (auto simp: ordered_by_start_def)
  note r = record_starts_counts [OF h, of MUSIC_SOURCES current, simplified]
  show "fst (record_source_observation current m) = fresh_starts current (mx_playing m)"
    "mx_playing (snd (record_source_observation current m)) = current"
    using r by (simp_all add: record_source_observation_def fresh_starts_def split_beta)
  show in_new: "s \<in> set (restarted (fresh_starts current (mx_playing m)) h)" if "s \<noteq> IDLE" "current s" for s
    using that playing by (auto simp: restarted_def fresh_starts_def)
  have "counts_starts (restarted (fresh_starts current (mx_playing m)) h)
      (snd (record_starts current MUSIC_SOURCES m)\<lparr>mx_playing := current\<rparr>)"
    using r unfolding fresh_starts_def counts_starts_playing by metis
  then show "ordered_by_start (restarted (fresh_starts current (mx_playing m)) h) (snd (record_source_observation current m))"
    using in_new by (simp add: ordered_by_start_def record_source_observation_def split_beta)
qed

text \<open>
  C33. Latest start wins. The sequence counters of mux implement a list of sources with the latest start
  first. At start-up the list is empty. An observation reports exactly the sources that play now and did
  not before, in registry order, and moves them to the front of the list; the winner picked afterwards
  is the first source of the list that plays: the one started last, the later registry entry when two
  starts are first seen together, and none exactly when nothing plays.
\<close>

theorem latest_start_wins:
  fixes current :: "source \<Rightarrow> bool"
  assumes "ordered_by_start h m"
  defines "h' \<equiv> restarted (fresh_starts current (mx_playing m)) h"
    and "seen \<equiv> record_source_observation current m"
  shows "fst seen = fresh_starts current (mx_playing m) \<and> ordered_by_start h' (snd seen) \<and>
    pick_winner (snd seen) current = find current h' \<and>
    (mux_init f = Some m0 \<longrightarrow> ordered_by_start [] m0)"
proof -
  note r = record_observation_ordered [OF assms(1), where current = current]
  have "counts_starts h' (snd seen)"
    using r(3) by (simp add: h'_def seen_def ordered_by_start_def)
  then have "pick_winner (snd seen) current = find current h'"
    by (rule pick_winner_first) (use r(4) in \<open>simp add: h'_def\<close>)
  moreover have "mux_init f = Some m0 \<longrightarrow> ordered_by_start [] m0"
    by (auto simp: mux_init_def ordered_by_start_def counts_starts_def split: outcome.splits)
  ultimately show ?thesis
    using r(1,3) by (simp add: h'_def seen_def)
qed

definition demo_mux :: mux_mem where
  "demo_mux = the (mux_init FMissing)"

lemma demo_mux_init: "mux_init FMissing = Some demo_mux"
  by (simp add: demo_mux_def mux_init_def read_manual_source_def)

text \<open>Spotify and USB are first seen together: USB, the later registry entry, wins.\<close>

lemma latest_start_wins_witness:
  "pick_winner (snd (record_source_observation (\<lambda>s. s = SPOTIFY \<or> s = USBSINK) demo_mux))
     (\<lambda>s. s = SPOTIFY \<or> s = USBSINK) = Some USBSINK"
proof -
  have "ordered_by_start [] demo_mux"
    by (simp add: demo_mux_def mux_init_def read_manual_source_def ordered_by_start_def counts_starts_def)
  from latest_start_wins [OF this, of "\<lambda>s. s = SPOTIFY \<or> s = USBSINK" FMissing demo_mux]
  show ?thesis
    by (simp add: fresh_starts_def restarted_def MUSIC_SOURCES_eq demo_mux_def mux_init_def read_manual_source_def)
qed

section \<open>A probe that cannot be read\<close>

text \<open>A history of probe rounds: when each was resolved, and what it answered.\<close>

type_synonym probe_round = "rat \<times> (source \<rightharpoonup> bool option)"

definition probe_round :: "probe_round \<Rightarrow> mux_mem \<Rightarrow> mux_mem" where
  "probe_round r m = (let (current, m') = resolve_probes (fst r) (snd r) m in m'\<lparr>mx_playing := current\<rparr>)"

definition no_answer :: "source \<Rightarrow> probe_round \<Rightarrow> bool" where
  "no_answer s r \<longleftrightarrow> (\<forall>v. snd r s \<noteq> Some (Some v))"

definition unread_in_time :: "source \<Rightarrow> rat \<Rightarrow> probe_round \<Rightarrow> bool" where
  "unread_in_time s t0 r \<longleftrightarrow> (snd r s = Some None \<longrightarrow> fst r - t0 < UNKNOWN_ACTIVE_HOLD_SEC)"

lemma probe_round_answer:
  "snd r s = Some (Some v) \<Longrightarrow> mx_playing (probe_round r m) s = v \<and> mx_known_at (probe_round r m) s = fst r"
  by (simp add: probe_round_def resolve_probes_def Let_def)

lemma probe_round_silent:
  "no_answer s r \<Longrightarrow> mx_known_at (probe_round r m) s = mx_known_at m s \<and>
     mx_playing (probe_round r m) s = (mx_playing m s \<and> unread_in_time s (mx_known_at m s) r)"
  by (cases "snd r s"; cases "the (snd r s)")
    (auto simp: probe_round_def resolve_probes_def Let_def no_answer_def unread_in_time_def)

lemma probe_rounds_silent:
  "list_all (no_answer s) rs \<Longrightarrow> mx_known_at (fold probe_round rs m) s = mx_known_at m s \<and>
     mx_playing (fold probe_round rs m) s = (mx_playing m s \<and> list_all (unread_in_time s (mx_known_at m s)) rs)"
  by (induction rs arbitrary: m) (auto simp: probe_round_silent)

text \<open>
  C34. An unreadable probe neither invents a stop nor keeps a vanished source for ever. After any
  history of probe rounds whose last readable answer for a source was \<open>v\<close> at time \<open>t0\<close>, the source
  counts as playing exactly when \<open>v\<close> says so and every later unreadable probe of it came less than
  five seconds after \<open>t0\<close>; rounds that deferred its probe change nothing.
\<close>

theorem unreadable_probe_is_bounded:
  assumes "snd r s = Some (Some v)" "list_all (no_answer s) later"
  shows "mx_playing (fold probe_round (before @ r # later) m) s \<longleftrightarrow>
    v \<and> list_all (unread_in_time s (fst r)) later"
  using probe_rounds_silent [OF assms(2), of "probe_round r (fold probe_round before m)"]
    probe_round_answer [OF assms(1), of "fold probe_round before m"] by simp

text \<open>AirPlay plays at 1 s, is deferred at 2 s, unreadable at 3 s and still at 6 s: dropped then.\<close>

lemma unreadable_probe_is_bounded_witness:
  "mx_playing (fold probe_round ([] @ (1, [AIRPLAY \<mapsto> Some True]) # [(2, Map.empty), (3, [AIRPLAY \<mapsto> None])]) demo_mux) AIRPLAY \<and>
   \<not> mx_playing (fold probe_round ([] @ (1, [AIRPLAY \<mapsto> Some True]) #
        [(2, Map.empty), (3, [AIRPLAY \<mapsto> None]), (6, [AIRPLAY \<mapsto> None])]) demo_mux) AIRPLAY"
  by (subst (1 2) unreadable_probe_is_bounded [where v = True])
    (simp_all add: no_answer_def unread_in_time_def UNKNOWN_ACTIVE_HOLD_SEC_def)

end
