(* ===== verification/Py_Text.thy ===== *)
theory Py_Text
  imports Prelude
begin

text \<open>
  Python's \<open>str\<close> methods the modelled code uses, on characters of one byte (the code points up to 255):
  \<open>strip\<close>, \<open>splitlines\<close>, \<open>lower\<close>, \<open>int\<close>, and joining lines.
\<close>

section \<open>Whitespace\<close>

text \<open>The whitespace \<open>str.strip\<close> and \<open>str.split\<close> know, among the characters of one byte.\<close>

definition is_space :: "char \<Rightarrow> bool" where
  "is_space c \<longleftrightarrow> (let n = of_char c :: nat in 9 \<le> n \<and> n \<le> 13 \<or> 28 \<le> n \<and> n \<le> 32 \<or> n = 133 \<or> n = 160)"

definition py_strip :: "string \<Rightarrow> string" where
  "py_strip w = rev (dropWhile is_space (rev (dropWhile is_space w)))"

text \<open>What \<open>splitlines\<close> splits at.\<close>

definition line_end :: "char \<Rightarrow> bool" where
  "line_end c \<longleftrightarrow> (let n = of_char c :: nat in 10 \<le> n \<and> n \<le> 13 \<or> 28 \<le> n \<and> n \<le> 30 \<or> n = 133)"

lemma line_end_space: "line_end c \<Longrightarrow> is_space c"
  by (auto simp: line_end_def is_space_def Let_def)

definition one_line :: "string \<Rightarrow> bool" where
  "one_line w \<longleftrightarrow> (\<forall>c \<in> set w. \<not> line_end c)"

lemma one_line_simps [simp]:
  "one_line []" "one_line (c # w) \<longleftrightarrow> \<not> line_end c \<and> one_line w" "one_line (v @ w) \<longleftrightarrow> one_line v \<and> one_line w"
  by (auto simp: one_line_def)

definition stripped :: "string \<Rightarrow> bool" where
  "stripped w \<longleftrightarrow> (w \<noteq> [] \<longrightarrow> \<not> is_space (hd w) \<and> \<not> is_space (last w))"

lemma stripped_Nil [simp]: "stripped []"
  by (simp add: stripped_def)

lemma py_strip_stripped: "stripped (py_strip w)"
proof -
  let ?v = "dropWhile is_space w"
  have end_ok: "u \<noteq> [] \<Longrightarrow> u = rev (dropWhile is_space (rev v)) \<Longrightarrow> \<not> is_space (last u)" for u v
    by (metis hd_dropWhile last_rev rev_is_Nil_conv)
  have "\<not> is_space (hd (rev (dropWhile is_space (rev v))))"
    if "rev (dropWhile is_space (rev v)) \<noteq> []" "\<not> is_space (hd v)" for v
  proof -
    have "rev (dropWhile is_space (rev v)) @ rev (takeWhile is_space (rev v)) = v"
      by (metis rev_append rev_rev_ident takeWhile_dropWhile_id)
    with that show ?thesis by (metis hd_append2)
  qed
  moreover have "?v \<noteq> [] \<Longrightarrow> \<not> is_space (hd ?v)"
    by (rule hd_dropWhile)
  ultimately show ?thesis
    unfolding stripped_def py_strip_def using end_ok by (metis dropWhile.simps(1) rev.simps(1))
qed

lemma py_strip_id: "stripped w \<Longrightarrow> py_strip w = w"
  using dropWhile_eq_self_iff [of is_space w] dropWhile_eq_self_iff [of is_space "rev w"]
  by (simp add: stripped_def py_strip_def hd_rev disj_commute) (cases w; simp)

lemma py_strip_eq_iff: "py_strip w = w \<longleftrightarrow> stripped w"
  using py_strip_stripped py_strip_id by metis

lemma py_strip_idem [simp]: "py_strip (py_strip w) = py_strip w"
  by (simp add: py_strip_id py_strip_stripped)

lemma set_py_strip: "set (py_strip w) \<subseteq> set w"
  unfolding py_strip_def by (metis set_dropWhileD set_rev subsetI)

lemma one_line_strip: "one_line w \<Longrightarrow> one_line (py_strip w)"
  using set_py_strip by (force simp: one_line_def)

section \<open>Lines\<close>

function splitlines :: "string \<Rightarrow> string list" where
  "splitlines s =
     (if s = [] then []
      else takeWhile (\<lambda>c. \<not> line_end c) s #
        (case dropWhile (\<lambda>c. \<not> line_end c) s of
           [] \<Rightarrow> []
         | c # rest \<Rightarrow> splitlines (if c = CHR 0x0D \<and> rest \<noteq> [] \<and> hd rest = CHR 0x0A then tl rest else rest)))"
  by pat_completeness auto

lemma after_line_shorter:
  "dropWhile p s = c # rest \<Longrightarrow> length (if b then tl rest else rest) < length s"
  using length_dropWhile_le [of p s] by (cases b) simp_all

termination splitlines
  apply (relation "measure length")
   apply simp
  apply (simp only: in_measure, rule after_line_shorter, assumption)
  done

declare splitlines.simps [simp del]

lemma splitlines_Nil [simp]: "splitlines [] = []"
  by (subst splitlines.simps) (rule if_P, rule refl)

lemma one_line_first: "one_line (takeWhile (\<lambda>c. \<not> line_end c) s)"
  by (auto simp: one_line_def dest: set_takeWhileD)

lemma splitlines_one_line: "\<forall>w \<in> set (splitlines s). one_line w"
proof (induction s rule: splitlines.induct)
  case (1 s)
  show ?case
  proof (cases "s = []")
    case False
    then show ?thesis
      using 1 [OF False]
      by (subst splitlines.simps) (simp only: if_False list.set one_line_first ball_simps split: list.split; blast)
  qed simp
qed

definition join_lines :: "string list \<Rightarrow> string" where
  "join_lines lines = concat (map (\<lambda>l. l @ [CHR 0x0A]) lines)"

lemma line_end_newline [simp]: "line_end (CHR 0x0A)"
  by (simp add: line_end_def)

lemma splitlines_line:
  assumes "one_line l" "line_end c" "c \<noteq> CHR 0x0D"
  shows "splitlines (l @ c # rest) = l # splitlines rest"
proof -
  have "takeWhile (\<lambda>c. \<not> line_end c) (l @ c # rest) = l"
    "dropWhile (\<lambda>c. \<not> line_end c) (l @ c # rest) = c # rest"
    using assms by (induction l) auto
  then show ?thesis using assms(3) by (subst splitlines.simps) simp
qed

lemma splitlines_join: "\<forall>l \<in> set lines. one_line l \<Longrightarrow> splitlines (join_lines lines) = lines"
  by (induction lines) (simp_all add: join_lines_def splitlines_line)

section \<open>Trailing whitespace\<close>

definition py_rstrip :: "string \<Rightarrow> string" where
  "py_rstrip w = rev (dropWhile is_space (rev w))"

lemma py_strip_rstrip_after: "py_strip w = py_rstrip (dropWhile is_space w)"
  by (simp add: py_strip_def py_rstrip_def)

lemma rstrip_split: "\<exists>t. w = py_rstrip w @ t \<and> (\<forall>c \<in> set t. is_space c)"
  by (rule exI [of _ "rev (takeWhile is_space (rev w))"])
    (auto simp: py_rstrip_def simp flip: rev_append dest: set_takeWhileD)

lemma rstrip_append_space: "\<forall>c \<in> set t. is_space c \<Longrightarrow> py_rstrip (w @ t) = py_rstrip w"
  by (simp add: py_rstrip_def dropWhile_append)

lemma py_rstrip_last: "py_rstrip w \<noteq> [] \<Longrightarrow> \<not> is_space (last (py_rstrip w))"
  unfolding py_rstrip_def by (metis hd_dropWhile last_rev rev_is_Nil_conv)

lemma py_strip_rstrip: "py_strip (py_rstrip w) = py_strip w"
proof -
  obtain t where t: "w = py_rstrip w @ t" "\<forall>c \<in> set t. is_space c"
    using rstrip_split by blast
  show ?thesis
  proof (cases "py_rstrip w = []")
    case True
    then have "dropWhile is_space w = []" using t by (simp add: dropWhile_eq_Nil_conv)
    then show ?thesis by (simp only: True py_strip_rstrip_after dropWhile.simps)
  next
    case False
    then have "dropWhile is_space (py_rstrip w @ t) = dropWhile is_space (py_rstrip w) @ t"
      using py_rstrip_last [of w] by (intro dropWhile_append1 [OF last_in_set])
    then show ?thesis
      using t by (metis py_strip_rstrip_after rstrip_append_space)
  qed
qed

lemma set_py_rstrip: "set (py_rstrip w) \<subseteq> set w"
  unfolding py_rstrip_def by (metis set_dropWhileD set_rev subsetI)

lemma py_rstrip_id: "w = [] \<or> \<not> is_space (last w) \<Longrightarrow> py_rstrip w = w"
  using dropWhile_eq_self_iff [of is_space "rev w"] by (auto simp: py_rstrip_def hd_rev)

lemma py_strip_middle:
  assumes "k = [] \<or> \<not> is_space (hd k)" "\<not> is_space c"
  shows "py_strip (k @ c # v) = k @ c # py_rstrip v"
proof -
  have "dropWhile is_space (k @ c # v) = k @ c # v"
    using assms by (cases k) (simp_all add: dropWhile_eq_self_iff)
  then show ?thesis
    using assms(2) by (auto simp: py_strip_rstrip_after py_rstrip_def dropWhile_append)
qed

end
