(* ===== verification/Mux_Lease.thy ===== *)
theory Mux_Lease
  imports Mux_Observe Py_Text
begin

text \<open>
  Mux's STATUS answer and the diagnostic lane lease of \<open>jasper/mux.py\<close>: a measurement takes the fan-in
  gate for a bounded time, nobody else selects a source meanwhile, and the household gate is restored
  when it releases or expires.
\<close>

section \<open>Replies\<close>

datatype mux_error =
  UnknownSource string | NotMusicSource string | NotSelectable string | NotPreemptable string
| GateOwned string string      \<comment> \<open>the action refused and the owner of the test gate\<close>
| BadTestLabel string | EmptyOwner | TestGateOwned string | TestSelectFailed | TestRestoreFailed
| BadArity string | UnknownCommand string | Raised

record source_status =
  ss_playing :: bool
  ss_observation :: observation
  ss_notifications :: nat
  ss_coalesced :: nat
  ss_via :: "string option"
  ss_age_ms :: "int option"
  ss_started_seq :: nat

record mux_status =
  st_mode :: string
  st_selected :: "string option"
  st_test_source :: "string option"
  st_test_owner :: "string option"
  st_lease_remaining :: "rat option"
  st_active_source :: string
  st_winner :: "string option"
  st_last_handoff :: "handoff_record option"
  st_cleanup :: cleanup
  st_sources :: "(string \<times> source_status) list"
  st_patrols :: nat
  st_repairs :: nat
  st_pending :: "source set"
  st_last_reconcile :: "reconcile_record option"

datatype reply = RError mux_error | RStatus mux_status | RAccepted source | RPreempted cleanup

text \<open>What leaves a handler as an exception: the volume lease's \<open>TimeoutError\<close>, a gate command's
  \<open>OSError\<close>, \<open>TimeoutError\<close>, \<open>RuntimeError\<close> or \<open>ValueError\<close>, or anything else.\<close>

datatype mux_exn = LeaseRaised | GateRaised | OtherRaised

section \<open>STATUS\<close>

definition resolve_active_source_name :: "(source \<Rightarrow> bool) \<Rightarrow> mux_mem \<Rightarrow> string" where
  "resolve_active_source_name current m =
     (case mx_test_label m of
        Some label \<Rightarrow> label
      | None \<Rightarrow>
          (case mx_manual m of
             Some s \<Rightarrow> source_value s
           | None \<Rightarrow>
               (case mx_winner m of
                  Some w \<Rightarrow> if current w then source_value w else source_value IDLE
                | None \<Rightarrow> source_value IDLE)))"

definition active_source_name :: "(source \<Rightarrow> bool) \<Rightarrow> (('w, 'z) mux_scheme, string) state" where
  "active_source_name current = do {
     m \<leftarrow> get_mx id;
     let name = resolve_active_source_name current m;
     if name = source_value IDLE \<and> mx_lock m \<noteq> Free then ret (mx_last_name m)
     else do { on_mx (mx_last_name_update (\<lambda>_. name)); ret name }
   }"

definition source_status_payload :: "rat \<Rightarrow> mux_mem \<Rightarrow> (source \<Rightarrow> bool) \<Rightarrow> source \<Rightarrow> source_status" where
  "source_status_payload now m current s =
     \<lparr>ss_playing = current s, ss_observation = mx_observations m s, ss_notifications = mx_received m s,
      ss_coalesced = mx_coalesced m s, ss_via = map_option fst (mx_notified m s),
      ss_age_ms = map_option (\<lambda>n. py_round ((now - snd n) * 1000)) (mx_notified m s),
      ss_started_seq = mx_started_seq m s\<rparr>"

text \<open>\<open>current or self._state.playing\<close>: a snapshot is never an empty dictionary.\<close>

definition status_payload ::
  "('w, 'y) mux_doors_scheme \<Rightarrow> (source \<Rightarrow> bool) option \<Rightarrow> (('w, 'z) mux_scheme, mux_status) state" where
  "status_payload d given = do {
     playing \<leftarrow> get_mx mx_playing;
     let current = (case given of Some c \<Rightarrow> c | None \<Rightarrow> playing);
     active \<leftarrow> active_source_name current;
     now \<leftarrow> peek (d_mono d);
     m \<leftarrow> get_mx id;
     ret \<lparr>st_mode = (if mx_manual m \<noteq> None then ''manual'' else ''auto''),
          st_selected = map_option source_value (mx_manual m),
          st_test_source = mx_test_label m, st_test_owner = mx_test_owner m,
          st_lease_remaining = map_option (\<lambda>t. max 0 (t - now)) (mx_test_expires m),
          st_active_source = active, st_winner = map_option source_value (mx_winner m),
          st_last_handoff = mx_last_handoff m, st_cleanup = mx_airplay m,
          st_sources = map (\<lambda>s. (source_value s, source_status_payload now m current s)) MUSIC_SOURCES,
          st_patrols = mx_patrols m, st_repairs = mx_repairs m, st_pending = mx_dirty m,
          st_last_reconcile = mx_last_reconcile m\<rparr>
   }"

definition playing_status :: "('w, 'y) mux_doors_scheme \<Rightarrow> (('w, 'z) mux_scheme, mux_exn + reply) state" where
  "playing_status d = do {
     playing \<leftarrow> get_mx mx_playing;
     st \<leftarrow> status_payload d (Some playing);
     ret (Inr (RStatus st))
   }"

section \<open>The test lease\<close>

definition FANIN_TEST_LABELS :: "string list" where "FANIN_TEST_LABELS = [''correction'']"
definition FANIN_TEST_LEASE_SEC :: rat where "FANIN_TEST_LEASE_SEC = 60"

definition test_gate_error :: "string \<Rightarrow> mux_mem \<Rightarrow> mux_error option" where
  "test_gate_error action m = map_option (GateOwned action) (mx_test_owner m)"

definition set_lease ::
  "string option \<Rightarrow> string option \<Rightarrow> rat option \<Rightarrow> (('w, 'z) mux_scheme, unit) state" where
  "set_lease label owner expires =
     on_mx (\<lambda>m. m\<lparr>mx_test_label := label, mx_test_owner := owner, mx_test_expires := expires\<rparr>)"

definition restore_normal_fanin_gate ::
  "('w, 'y) mux_doors_scheme \<Rightarrow> (('w, 'z) mux_scheme, unit outcome) state" where
  "restore_normal_fanin_gate d = do {
     m \<leftarrow> get_mx id;
     case mx_manual m of
       Some s \<Rightarrow> fanin_select d s
     | None \<Rightarrow>
         (case mx_winner m of
            Some w \<Rightarrow> if mx_playing m w then fanin_select d w else fanin_none d
          | None \<Rightarrow> fanin_none d)
   }"

text \<open>The \<open>except\<close> clauses name \<open>OSError\<close>, \<open>TimeoutError\<close>, \<open>RuntimeError\<close> and \<open>ValueError\<close>.\<close>

definition test_select_rollback ::
  "('w, 'y) mux_doors_scheme \<Rightarrow> (('w, 'z) mux_scheme, mux_exn + reply) state" where
  "test_select_rollback d = do {
     r \<leftarrow> restore_normal_fanin_gate d;
     case r of
       Ret _ \<Rightarrow> do { set_lease None None None; ret (Inr (RError TestSelectFailed)) }
     | IoError \<Rightarrow> ret (Inr (RError TestSelectFailed))
     | Fatal \<Rightarrow> ret (Inl OtherRaised)
   }"

definition select_test_locked ::
  "('w, 'y) mux_doors_scheme \<Rightarrow> string \<Rightarrow> string \<Rightarrow> (('w, 'z) mux_scheme, mux_exn + reply option) state" where
  "select_test_locked d label owner = do {
     holder \<leftarrow> get_mx mx_test_owner;
     if holder \<noteq> None \<and> holder \<noteq> Some owner then ret (Inr (Some (RError (TestGateOwned (the holder)))))
     else do {
       now \<leftarrow> peek (d_mono d);
       set_lease (Some label) (Some owner) (Some (now + FANIN_TEST_LEASE_SEC));
       r \<leftarrow> fanin_select_label d label;
       case r of
         Ret _ \<Rightarrow> ret (Inr None)
       | Fatal \<Rightarrow> ret (Inl OtherRaised)
       | IoError \<Rightarrow>
           if holder = Some owner then ret (Inr (Some (RError TestSelectFailed)))
           else do { e \<leftarrow> test_select_rollback d; ret (map_sum id Some e) }
     }
   }"

definition select_test_fanin_label ::
  "('w, 'y) mux_doors_scheme \<Rightarrow> string \<Rightarrow> string \<Rightarrow> (('w, 'z) mux_scheme, mux_exn + reply) state" where
  "select_test_fanin_label d label owner = do {
     let label = py_strip label;
     let owner = py_strip owner;
     if label \<notin> set FANIN_TEST_LABELS then ret (Inr (RError (BadTestLabel label)))
     else if owner = [] then ret (Inr (RError EmptyOwner))
     else do {
       r \<leftarrow> with_transition_lock d (select_test_locked d label owner);
       case r of
         Inl e \<Rightarrow> ret (Inl e)
       | Inr (Some answer) \<Rightarrow> ret (Inr answer)
       | Inr None \<Rightarrow> playing_status d
     }
   }"

definition release_test_locked ::
  "('w, 'y) mux_doors_scheme \<Rightarrow> string \<Rightarrow> (('w, 'z) mux_scheme, mux_exn + reply option) state" where
  "release_test_locked d owner = do {
     holder \<leftarrow> get_mx mx_test_owner;
     if holder \<noteq> None \<and> holder \<noteq> Some owner then ret (Inr (Some (RError (TestGateOwned (the holder)))))
     else do {
       r \<leftarrow> restore_normal_fanin_gate d;
       case r of
         Ret _ \<Rightarrow> do { set_lease None None None; ret (Inr None) }
       | IoError \<Rightarrow> ret (Inr (Some (RError TestRestoreFailed)))
       | Fatal \<Rightarrow> ret (Inl OtherRaised)
     }
   }"

definition release_test_fanin_label ::
  "('w, 'y) mux_doors_scheme \<Rightarrow> string \<Rightarrow> (('w, 'z) mux_scheme, mux_exn + reply) state" where
  "release_test_fanin_label d owner = do {
     let owner = py_strip owner;
     if owner = [] then ret (Inr (RError EmptyOwner))
     else do {
       r \<leftarrow> with_transition_lock d (release_test_locked d owner);
       case r of
         Inl e \<Rightarrow> ret (Inl e)
       | Inr (Some answer) \<Rightarrow> ret (Inr answer)
       | Inr None \<Rightarrow> playing_status d
     }
   }"

definition reassert_test_fanin_label ::
  "('w, 'y) mux_doors_scheme \<Rightarrow> (('w, 'z) mux_scheme, unit) state" where
  "reassert_test_fanin_label d = with_transition_lock d (do {
     label \<leftarrow> get_mx mx_test_label;
     case label of
       None \<Rightarrow> ret ()
     | Some l \<Rightarrow> do { _ \<leftarrow> fanin_select_label d l; ret () }
   })"

end
