(* ===== verification/Mux_Select.thy ===== *)
theory Mux_Select
  imports Mux_Lease
begin

text \<open>
  The policy of \<open>jasper/mux.py\<close>: moving the audible lane as one volume operation, the reconcile tick,
  and the manual and automatic selection verbs.
\<close>

section \<open>Moving the lane\<close>

definition record_handoff ::
  "('w, 'y) mux_doors_scheme \<Rightarrow> source_handoff \<Rightarrow> rat \<Rightarrow> nat \<Rightarrow> string \<Rightarrow> (('w, 'z) mux_scheme, unit) state" where
  "record_handoff d h started handoff_id result = do {
     now \<leftarrow> peek (d_mono d);
     on_mx (mx_last_handoff_update (\<lambda>_. Some
       \<lparr>hr_id = handoff_id, hr_from = ho_prev h, hr_to = ho_current h, hr_reason = ho_reason h,
        hr_level = ho_level h, hr_guard_db = ho_guard_db h, hr_camilla_before_db = ho_camilla_before_db h,
        hr_prev_mode = ho_prev_mode h, hr_target_mode = ho_current_mode h,
        hr_push_ok = ho_push_ok h, hr_settled_ms = ho_settled_ms h, hr_result = result,
        hr_detail = ho_detail h, hr_elapsed_ms = py_round ((now - started) * 1000)\<rparr>))
   }"

definition next_handoff_id :: "(('w, 'z) mux_scheme, nat) state" where
  "next_handoff_id = do { on_mx (mx_handoff_seq_update Suc); get_mx mx_handoff_seq }"

definition transition_volume_and_gate ::
  "('w, 'y) mux_doors_scheme \<Rightarrow> source \<Rightarrow> source \<Rightarrow> string \<Rightarrow> (('w, 'z) mux_scheme, bool) state" where
  "transition_volume_and_gate d prev_source source reason = do {
     started \<leftarrow> peek (d_mono d);
     handoff_id \<leftarrow> next_handoff_id;
     handoff \<leftarrow> coordinated d (prepare_source_handoff d prev_source source reason);
     if \<not> ho_ok handoff then do {
       record_handoff d handoff started handoff_id (ho_result handoff);
       ret False
     }
     else do {
       r \<leftarrow> fanin_select d source;
       if r \<noteq> Ret () then do {
         _ \<leftarrow> coordinated d (abort_source_handoff d handoff);
         record_handoff d handoff started handoff_id ''fanin_select_failed'';
         ret False
       }
       else do {
         finalized \<leftarrow> coordinated d (finalize_source_handoff d handoff);
         record_handoff d handoff started handoff_id
           (if finalized then ho_result handoff else ''finalize_failed'');
         ret True
       }
     }
   }"

definition transition_to_source ::
  "('w, 'y) mux_doors_scheme \<Rightarrow> source \<Rightarrow> source \<Rightarrow> string \<Rightarrow> (('w, 'z) mux_scheme, unit) state \<Rightarrow>
   (('w, 'z) mux_scheme, mux_exn + bool) state" where
  "transition_to_source d prev_source source reason commit_selection = do {
     r \<leftarrow> coordinated d (mutation d True (do {
       rival d;
       selected \<leftarrow> transition_volume_and_gate d prev_source source reason;
       onlyif selected commit_selection;
       ret (Inr selected)
     }));
     case r of
       Inl _ \<Rightarrow> ret (Inl LeaseRaised)
     | Inr selected \<Rightarrow> do { coordinated d (publish_volume_context d); ret (Inr selected) }
   }"

definition commit_auto_winner :: "source \<Rightarrow> (('w, 'z) mux_scheme, unit) state" where
  "commit_auto_winner source =
     on_mx (\<lambda>m. m\<lparr>mx_winner := Some source, mx_pending := None, mx_age := 0\<rparr>)"

definition commit_manual_selection ::
  "('w, 'y) mux_doors_scheme \<Rightarrow> source \<Rightarrow> (('w, 'z) mux_scheme, unit) state" where
  "commit_manual_selection d source = do {
     commit_auto_winner source;
     on_mx (mx_manual_update (\<lambda>_. Some source));
     write_mode d (Some source)
   }"

definition commit_auto_selection ::
  "('w, 'y) mux_doors_scheme \<Rightarrow> source \<Rightarrow> (('w, 'z) mux_scheme, unit) state" where
  "commit_auto_selection d source = do {
     commit_auto_winner source;
     on_mx (mx_manual_update (\<lambda>_. None));
     write_mode d None
   }"

definition release_airplay_locked ::
  "('w, 'y) mux_doors_scheme \<Rightarrow> source \<Rightarrow> (('w, 'z) mux_scheme, unit) state" where
  "release_airplay_locked d target = onlyif (target \<noteq> AIRPLAY) (airplay_release d)"

text \<open>The end of a handoff that failed: nothing audible owns the gate when no winner is left.\<close>

definition gate_none_unless_winner ::
  "('w, 'y) mux_doors_scheme \<Rightarrow> (('w, 'z) mux_scheme, unit) state" where
  "gate_none_unless_winner d = do {
     winner \<leftarrow> get_mx mx_winner;
     onlyif (winner = None) (fanin_none_best_effort d)
   }"

fun pause_all :: "('w, 'y) mux_doors_scheme \<Rightarrow> source list \<Rightarrow> (('w, 'z) mux_scheme, unit) state" where
  "pause_all d [] = ret ()"
| "pause_all d (s # ss) = do { pause_source d s; pause_all d ss }"

definition pause_losers ::
  "('w, 'y) mux_doors_scheme \<Rightarrow> (source \<Rightarrow> bool) \<Rightarrow> source \<Rightarrow> (('w, 'z) mux_scheme, unit) state" where
  "pause_losers d current target =
     pause_all d (filter (\<lambda>s. s \<noteq> target \<and> s \<noteq> AIRPLAY \<and> current s) MUSIC_SOURCES)"

definition release_preempt_when_idle ::
  "('w, 'y) mux_doors_scheme \<Rightarrow> (source \<Rightarrow> bool) \<Rightarrow> (('w, 'z) mux_scheme, unit) state" where
  "release_preempt_when_idle d current = do {
     preempted \<leftarrow> get_mx mx_preempted;
     let others_playing = (\<exists>s \<in> set MUSIC_SOURCES. s \<noteq> USBSINK \<and> current s);
     onlyif (preempted \<and> \<not> others_playing) (usbsink_set_preempt d False)
   }"

section \<open>The tick\<close>

definition test_lease_expired :: "rat \<Rightarrow> mux_mem \<Rightarrow> bool" where
  "test_lease_expired now m \<longleftrightarrow> mx_test_label m \<noteq> None \<and> mx_test_owner m \<noteq> None \<and>
     (case mx_test_expires m of None \<Rightarrow> False | Some t \<Rightarrow> t \<le> now)"

text \<open>What auto mode wants: the target, its reason, and whether an older retry stays pending.\<close>

definition auto_target ::
  "mux_mem \<Rightarrow> (source \<Rightarrow> bool) \<Rightarrow> source list \<Rightarrow> source option \<times> string \<times> bool" where
  "auto_target m current newly_started =
     (let pending_ok = (case mx_pending m of None \<Rightarrow> False
                        | Some p \<Rightarrow> current p \<and> mx_winner m \<noteq> Some p)
      in if newly_started \<noteq> [] then (Some (last newly_started), ''auto_new_source'', False)
         else if pending_ok then (mx_pending m, ''auto_retry'', True)
         else (case mx_winner m of
                 Some w \<Rightarrow> if current w then (None, [], False)
                           else (pick_winner m current, ''auto_winner_stopped'', False)
               | None \<Rightarrow> (case pick_winner m current of
                           None \<Rightarrow> (None, [], False)
                         | Some t \<Rightarrow> (Some t, ''auto_startup_active'', False))))"

definition reassert_manual_source :: "('w, 'y) mux_doors_scheme \<Rightarrow> (('w, 'z) mux_scheme, unit) state" where
  "reassert_manual_source d = with_transition_lock d (do {
     manual \<leftarrow> get_mx mx_manual;
     case manual of
       None \<Rightarrow> ret ()
     | Some source \<Rightarrow> do {
         _ \<leftarrow> fanin_select d source;
         preempted \<leftarrow> get_mx mx_preempted;
         onlyif preempted (usbsink_set_preempt d False);
         on_mx (\<lambda>m. m\<lparr>mx_winner := Some source, mx_pending := None\<rparr>)
       }
   })"

definition reassert_auto_winner ::
  "('w, 'y) mux_doors_scheme \<Rightarrow> (source \<Rightarrow> bool) \<Rightarrow> (('w, 'z) mux_scheme, unit) state" where
  "reassert_auto_winner d current = with_transition_lock d (do {
     m \<leftarrow> get_mx id;
     case (mx_manual m, mx_winner m) of
       (None, Some w) \<Rightarrow> onlyif (current w) (do { _ \<leftarrow> fanin_select d w; ret () })
     | _ \<Rightarrow> ret ()
   })"

text \<open>None: a manual selection got in first, and the tick ends.\<close>

definition auto_transition_locked ::
  "('w, 'y) mux_doors_scheme \<Rightarrow> source \<Rightarrow> string \<Rightarrow> (('w, 'z) mux_scheme, mux_exn + bool option) state" where
  "auto_transition_locked d target reason = do {
     manual \<leftarrow> get_mx mx_manual;
     if manual \<noteq> None then ret (Inr None)
     else do {
       preempted \<leftarrow> get_mx mx_preempted;
       onlyif (target = USBSINK \<and> preempted) (usbsink_set_preempt d False);
       winner \<leftarrow> get_mx mx_winner;
       r \<leftarrow> transition_to_source d (case winner of Some w \<Rightarrow> w | None \<Rightarrow> IDLE) target reason
              (commit_auto_winner target);
       case r of
         Inl e \<Rightarrow> ret (Inl e)
       | Inr False \<Rightarrow> do {
           on_mx (mx_pending_update (\<lambda>_. Some target));
           gate_none_unless_winner d;
           ret (Inr (Some False))
         }
       | Inr True \<Rightarrow> do { release_airplay_locked d target; ret (Inr (Some True)) }
     }
   }"

definition auto_transition ::
  "('w, 'y) mux_doors_scheme \<Rightarrow> (source \<Rightarrow> bool) \<Rightarrow> source \<Rightarrow> string \<Rightarrow>
   (('w, 'z) mux_scheme, mux_exn + bool) state" where
  "auto_transition d current target reason = do {
     r \<leftarrow> with_transition_lock d (auto_transition_locked d target reason);
     case r of
       Inl e \<Rightarrow> ret (Inl e)
     | Inr selected \<Rightarrow> do {
         onlyif (selected = Some True) (pause_losers d current target);
         ret (Inr (selected = Some True))
       }
   }"

definition auto_idle ::
  "('w, 'y) mux_doors_scheme \<Rightarrow> (source \<Rightarrow> bool) \<Rightarrow> (('w, 'z) mux_scheme, unit) state" where
  "auto_idle d current = do {
     winner \<leftarrow> get_mx mx_winner;
     if (case winner of Some w \<Rightarrow> current w | None \<Rightarrow> False) then reassert_auto_winner d current
     else do {
       on_mx (\<lambda>m. m\<lparr>mx_winner := None, mx_pending := None\<rparr>);
       asserted \<leftarrow> get_mx mx_none_asserted;
       onlyif (\<not> asserted) (fanin_none_best_effort d)
     }
   }"

definition tick_auto ::
  "('w, 'y) mux_doors_scheme \<Rightarrow> (source \<Rightarrow> bool) \<Rightarrow> source list \<Rightarrow>
   (('w, 'z) mux_scheme, mux_exn + unit) state" where
  "tick_auto d current newly_started = do {
     m \<leftarrow> get_mx id;
     let (target, reason, keep_pending) = auto_target m current newly_started;
     onlyif (\<not> keep_pending) (on_mx (mx_pending_update (\<lambda>_. None)));
     r \<leftarrow> (case target of
            Some t \<Rightarrow> if mx_winner m \<noteq> Some t then auto_transition d current t reason else ret (Inr True)
          | None \<Rightarrow> do { auto_idle d current; ret (Inr True) });
     case r of
       Inl e \<Rightarrow> ret (Inl e)
     | Inr False \<Rightarrow> ret (Inr ())
     | Inr True \<Rightarrow> do {
         release_preempt_when_idle d current;
         reassert_usbsink_preempt_mute d;
         ret (Inr ())
       }
   }"

definition expire_test_lease ::
  "('w, 'y) mux_doors_scheme \<Rightarrow> (('w, 'z) mux_scheme, mux_exn + unit) state" where
  "expire_test_lease d = do {
     now \<leftarrow> peek (d_mono d);
     m \<leftarrow> get_mx id;
     if test_lease_expired now m then do {
       r \<leftarrow> release_test_fanin_label d (the (mx_test_owner m));
       ret (map_sum id (\<lambda>_. ()) r)
     }
     else ret (Inr ())
   }"

definition tick :: "('w, 'y) mux_doors_scheme \<Rightarrow> source set \<Rightarrow> (('w, 'z) mux_scheme, mux_exn + unit) state" where
  "tick d defer_probes = do {
     (current, newly_started) \<leftarrow> observe_sources d defer_probes;
     on_mx (mx_age_update Suc);
     expired \<leftarrow> expire_test_lease d;
     case expired of
       Inl e \<Rightarrow> ret (Inl e)
     | Inr _ \<Rightarrow> do {
         label \<leftarrow> get_mx mx_test_label;
         manual \<leftarrow> get_mx mx_manual;
         if label \<noteq> None then do { reassert_test_fanin_label d; ret (Inr ()) }
         else if manual \<noteq> None then do { reassert_manual_source d; ret (Inr ()) }
         else tick_auto d current newly_started
       }
   }"

section \<open>Manual and automatic selection\<close>

definition status_after_observation ::
  "('w, 'y) mux_doors_scheme \<Rightarrow> (('w, 'z) mux_scheme, mux_exn + reply) state" where
  "status_after_observation d = do {
     (current, _) \<leftarrow> observe_sources d {};
     st \<leftarrow> status_payload d (Some current);
     ret (Inr (RStatus st))
   }"

definition previous_lane :: "mux_mem \<Rightarrow> source" where
  "previous_lane m = (case mx_winner m of Some w \<Rightarrow> w
     | None \<Rightarrow> (case mx_manual m of Some s \<Rightarrow> s | None \<Rightarrow> IDLE))"

definition select_source_locked ::
  "('w, 'y) mux_doors_scheme \<Rightarrow> source \<Rightarrow> (('w, 'z) mux_scheme, mux_exn + mux_error option) state" where
  "select_source_locked d source = do {
     m \<leftarrow> get_mx id;
     case test_gate_error ''source selection'' m of
       Some e \<Rightarrow> ret (Inr (Some e))
     | None \<Rightarrow> do {
         on_mx (mx_pending_update (\<lambda>_. None));
         r \<leftarrow> transition_to_source d (previous_lane m) source ''manual'' (commit_manual_selection d source);
         case r of
           Inl e \<Rightarrow> ret (Inl e)
         | Inr True \<Rightarrow> do {
             preempted \<leftarrow> get_mx mx_preempted;
             onlyif preempted (usbsink_set_preempt d False);
             ret (Inr None)
           }
         | Inr False \<Rightarrow> do { gate_none_unless_winner d; ret (Inr None) }
       }
   }"

definition select_source ::
  "('w, 'y) mux_doors_scheme \<Rightarrow> source \<Rightarrow> (('w, 'z) mux_scheme, mux_exn + reply) state" where
  "select_source d source = do {
     r \<leftarrow> with_transition_lock d (select_source_locked d source);
     case r of
       Inl e \<Rightarrow> ret (Inl e)
     | Inr (Some e) \<Rightarrow> ret (Inr (RError e))
     | Inr None \<Rightarrow> status_after_observation d
   }"

definition auto_select_winner_locked ::
  "('w, 'y) mux_doors_scheme \<Rightarrow> source \<Rightarrow> (('w, 'z) mux_scheme, mux_exn + mux_error + bool) state" where
  "auto_select_winner_locked d new_winner = do {
     m \<leftarrow> get_mx id;
     case test_gate_error ''automatic selection'' m of
       Some e \<Rightarrow> ret (Inr (Inl e))
     | None \<Rightarrow> do {
         r \<leftarrow> transition_to_source d (previous_lane m) new_winner ''auto_select''
                (commit_auto_selection d new_winner);
         case r of
           Inl e \<Rightarrow> ret (Inl e)
         | Inr True \<Rightarrow> do {
             preempted \<leftarrow> get_mx mx_preempted;
             onlyif (new_winner = USBSINK \<and> preempted) (usbsink_set_preempt d False);
             release_airplay_locked d new_winner;
             ret (Inr (Inr True))
           }
         | Inr False \<Rightarrow> do {
             on_mx (mx_pending_update (\<lambda>_. Some new_winner));
             gate_none_unless_winner d;
             ret (Inr (Inr False))
           }
       }
   }"

definition auto_select_idle_locked ::
  "('w, 'y) mux_doors_scheme \<Rightarrow> (('w, 'z) mux_scheme, mux_exn + mux_error + bool) state" where
  "auto_select_idle_locked d = do {
     m \<leftarrow> get_mx id;
     case test_gate_error ''automatic selection'' m of
       Some e \<Rightarrow> ret (Inr (Inl e))
     | None \<Rightarrow> do {
         on_mx (\<lambda>m. m\<lparr>mx_winner := None, mx_manual := None, mx_pending := None\<rparr>);
         write_mode d None;
         r \<leftarrow> fanin_none d;
         ret (case r of Ret _ \<Rightarrow> Inr (Inr True) | IoError \<Rightarrow> Inl GateRaised | Fatal \<Rightarrow> Inl OtherRaised)
       }
   }"

definition auto_select :: "('w, 'y) mux_doors_scheme \<Rightarrow> (('w, 'z) mux_scheme, mux_exn + reply) state" where
  "auto_select d = do {
     m \<leftarrow> get_mx id;
     case test_gate_error ''automatic selection'' m of
       Some e \<Rightarrow> ret (Inr (RError e))
     | None \<Rightarrow> do {
         (current, _) \<leftarrow> observe_sources d {};
         m \<leftarrow> get_mx id;
         let new_winner = pick_winner m current;
         r \<leftarrow> with_transition_lock d (case new_winner of
                Some w \<Rightarrow> auto_select_winner_locked d w
              | None \<Rightarrow> auto_select_idle_locked d);
         case r of
           Inl e \<Rightarrow> ret (Inl e)
         | Inr (Inl e) \<Rightarrow> ret (Inr (RError e))
         | Inr (Inr selected) \<Rightarrow> do {
             (case new_winner of
                Some w \<Rightarrow> onlyif selected (pause_losers d current w)
              | None \<Rightarrow> ret ());
             onlyif selected (release_preempt_when_idle d current);
             st \<leftarrow> status_payload d (Some current);
             ret (Inr (RStatus st))
           }
       }
   }"

end
