(* ===== verification/Mux_Control.thy ===== *)
theory Mux_Control
  imports Mux_Select
begin

text \<open>
  The edges of \<open>jasper/mux.py\<close>: wake hints, the reconcile entry point and the run loop around it, and
  the control socket's commands, with the formatters of \<open>jasper/platform/wire.py\<close> its clients use.
\<close>

section \<open>Wake hints\<close>

definition notify_source_changed ::
  "('w, 'y) mux_doors_scheme \<Rightarrow> source \<Rightarrow> string \<Rightarrow> (('w, 'z) mux_scheme, unit) state" where
  "notify_source_changed d source via =
     (if source \<notin> set MUSIC_SOURCES then ret ()
      else do {
        now \<leftarrow> peek (d_mono d);
        on_mx (\<lambda>m. m\<lparr>
          mx_received := (mx_received m)(source := mx_received m source + 1),
          mx_coalesced := (if source \<in> mx_dirty m
            then (mx_coalesced m)(source := mx_coalesced m source + 1) else mx_coalesced m),
          mx_dirty := insert source (mx_dirty m),
          mx_notified := (mx_notified m)(source := Some (via, now)),
          mx_wake := True\<rparr>)
      })"

section \<open>Reconciling\<close>

definition POLL_INTERVAL_SEC :: rat where "POLL_INTERVAL_SEC = 1"
definition ALERT_COALESCE_SEC :: rat where "ALERT_COALESCE_SEC = 1 / 20"

definition is_patrol :: "trigger \<Rightarrow> bool" where
  "is_patrol t \<longleftrightarrow> t = AlertAndPatrol \<or> t = Patrol"

definition winner_and_playing :: "mux_mem \<Rightarrow> source option \<times> bool list" where
  "winner_and_playing m = (mx_winner m, map (mx_playing m) MUSIC_SOURCES)"

definition reconcile ::
  "('w, 'y) mux_doors_scheme \<Rightarrow> trigger \<Rightarrow> source set \<Rightarrow> (('w, 'z) mux_scheme, mux_exn + unit) state" where
  "reconcile d trigger dirty_sources = do {
     started \<leftarrow> peek (d_mono d);
     m \<leftarrow> get_mx id;
     r \<leftarrow> tick d (deferrable_probes started m dirty_sources);
     case r of
       Inl e \<Rightarrow> ret (Inl e)
     | Inr _ \<Rightarrow> do {
         now \<leftarrow> peek (d_mono d);
         m' \<leftarrow> get_mx id;
         let changed = (winner_and_playing m \<noteq> winner_and_playing m');
         on_mx (\<lambda>m. m\<lparr>
           mx_patrols := (if is_patrol trigger then mx_patrols m + 1 else mx_patrols m),
           mx_repairs := (if is_patrol trigger \<and> changed \<and> dirty_sources = {} then mx_repairs m + 1
                          else mx_repairs m),
           mx_reconcile_seq := mx_reconcile_seq m + 1,
           mx_last_alert_at := (if dirty_sources \<noteq> {} then now else mx_last_alert_at m),
           mx_last_reconcile := Some
             \<lparr>rr_id = mx_reconcile_seq m + 1, rr_trigger = trigger, rr_dirty = dirty_sources,
              rr_changed = changed, rr_winner = mx_winner m,
              rr_elapsed_ms = py_round_dec 1 ((now - started) * 1000)\<rparr>\<rparr>);
         ret (Inr ())
       }
   }"

section \<open>The run loop\<close>

text \<open>\<open>while next_patrol <= now: next_patrol += POLL_INTERVAL_SEC\<close>.\<close>

function advance_patrol :: "rat \<Rightarrow> rat \<Rightarrow> rat" where
  "advance_patrol now next_patrol =
     (if next_patrol \<le> now then advance_patrol now (next_patrol + POLL_INTERVAL_SEC) else next_patrol)"
  by pat_completeness auto

termination advance_patrol
  by (relation "measure (\<lambda>(now, next_patrol). nat \<lceil>now - next_patrol + 1\<rceil>)")
    (auto simp: POLL_INTERVAL_SEC_def, linarith)

declare advance_patrol.simps [simp del]

definition run_trigger :: "source set \<Rightarrow> bool \<Rightarrow> trigger" where
  "run_trigger dirty patrol_due =
     (if dirty \<noteq> {} \<and> patrol_due then AlertAndPatrol else if dirty \<noteq> {} then Alert else Patrol)"

text \<open>Waiting for an alert or the next patrol, and letting a burst of alerts settle.\<close>

definition await_work :: "('w, 'y) mux_doors_scheme \<Rightarrow> rat \<Rightarrow> (('w, 'z) mux_scheme, unit) state" where
  "await_work d next_patrol = do {
     now \<leftarrow> peek (d_mono d);
     mawait d (\<lambda>w. ((), d_wait_wake d (max 0 (next_patrol - now)) w));
     woke \<leftarrow> get_mx mx_wake;
     on_mx (mx_wake_update (\<lambda>_. False));
     onlyif woke (do {
       now \<leftarrow> peek (d_mono d);
       last_alert \<leftarrow> get_mx mx_last_alert_at;
       onlyif (now - last_alert < ALERT_COALESCE_SEC)
         (mawait d (\<lambda>w. ((), d_sleep d (ALERT_COALESCE_SEC - (now - last_alert)) w)));
       on_mx (mx_wake_update (\<lambda>_. False))
     })
   }"

text \<open>One round of \<open>while True\<close>; an exception is logged and the loop goes on.\<close>

definition run_round :: "('w, 'y) mux_doors_scheme \<Rightarrow> rat \<Rightarrow> (('w, 'z) mux_scheme, rat) state" where
  "run_round d next_patrol = do {
     await_work d next_patrol;
     now \<leftarrow> peek (d_mono d);
     let patrol_due = (next_patrol \<le> now);
     dirty \<leftarrow> get_mx mx_dirty;
     on_mx (mx_dirty_update (\<lambda>_. {}));
     if dirty = {} \<and> \<not> patrol_due then ret next_patrol
     else do {
       _ \<leftarrow> reconcile d (run_trigger dirty patrol_due) dirty;
       ret (advance_patrol now next_patrol)
     }
   }"

fun run_rounds :: "('w, 'y) mux_doors_scheme \<Rightarrow> nat \<Rightarrow> rat \<Rightarrow> (('w, 'z) mux_scheme, rat) state" where
  "run_rounds d 0 next_patrol = ret next_patrol"
| "run_rounds d (Suc n) next_patrol = do { t \<leftarrow> run_round d next_patrol; run_rounds d n t }"

text \<open>\<open>run\<close>, cut after \<open>n\<close> rounds.\<close>

definition mux_run :: "('w, 'y) mux_doors_scheme \<Rightarrow> nat \<Rightarrow> (('w, 'z) mux_scheme, rat) state" where
  "mux_run d n = do {
     fanin_none_best_effort d;
     now \<leftarrow> peek (d_mono d);
     _ \<leftarrow> reconcile d Startup {};
     run_rounds d n (now + POLL_INTERVAL_SEC)
   }"

section \<open>The control socket\<close>

datatype arity = Words nat | Rest

datatype verb_method =
  ControlStatus | AutoSelect | ControlNotify | ControlPreempt | ControlSelect | TestSelect | TestRelease

record control_verb =
  cv_arity :: arity
  cv_method :: verb_method
  cv_bad_arity :: "string option"

definition CONTROL_VERBS :: "string \<rightharpoonup> control_verb" where
  "CONTROL_VERBS =
     [''STATUS'' \<mapsto> \<lparr>cv_arity = Words 0, cv_method = ControlStatus, cv_bad_arity = None\<rparr>,
      ''AUTO'' \<mapsto> \<lparr>cv_arity = Words 0, cv_method = AutoSelect, cv_bad_arity = None\<rparr>,
      ''NOTIFY'' \<mapsto> \<lparr>cv_arity = Rest, cv_method = ControlNotify, cv_bad_arity = None\<rparr>,
      ''PREEMPT'' \<mapsto> \<lparr>cv_arity = Rest, cv_method = ControlPreempt, cv_bad_arity = None\<rparr>,
      ''SELECT'' \<mapsto> \<lparr>cv_arity = Rest, cv_method = ControlSelect, cv_bad_arity = None\<rparr>,
      ''TEST_SELECT'' \<mapsto> \<lparr>cv_arity = Words 2, cv_method = TestSelect,
                          cv_bad_arity = Some ''TEST_SELECT requires a label and owner''\<rparr>,
      ''TEST_RELEASE'' \<mapsto> \<lparr>cv_arity = Words 1, cv_method = TestRelease,
                           cv_bad_arity = Some ''TEST_RELEASE requires an owner''\<rparr>]"

text \<open>\<open>s.split(None, 1)\<close> and \<open>s.split()\<close>.\<close>

definition word_of :: "string \<Rightarrow> string" where
  "word_of w = takeWhile (\<lambda>c. \<not> is_space c) w"

definition after_word :: "string \<Rightarrow> string" where
  "after_word w = dropWhile (\<lambda>c. \<not> is_space c) w"

definition split_once :: "string \<Rightarrow> string list" where
  "split_once s =
     (let w = dropWhile is_space s; rest = dropWhile is_space (after_word w)
      in if w = [] then [] else if rest = [] then [word_of w] else [word_of w, rest])"

function py_split :: "string \<Rightarrow> string list" where
  "py_split s =
     (let w = dropWhile is_space s in if w = [] then [] else word_of w # py_split (after_word w))"
  by pat_completeness auto

lemma after_word_shorter: "w = dropWhile is_space s \<Longrightarrow> w \<noteq> [] \<Longrightarrow> length (after_word w) < length s"
proof -
  assume w: "w = dropWhile is_space s" "w \<noteq> []"
  then obtain c cs where "w = c # cs" "\<not> is_space c"
    by (metis hd_dropWhile list.collapse)
  then have "length (after_word w) < length w"
    by (simp add: after_word_def less_Suc_eq_le length_dropWhile_le)
  also have "length w \<le> length s"
    by (simp add: w length_dropWhile_le)
  finally show ?thesis .
qed

termination py_split
  by (relation "measure length") (auto intro: after_word_shorter)

declare py_split.simps [simp del]

definition control_args :: "string \<Rightarrow> arity \<Rightarrow> string list option" where
  "control_args command arity =
     (let parts = split_once command; rest = (if length parts = 2 then parts ! 1 else [])
      in case arity of
           Rest \<Rightarrow> if length parts = 2 then Some [py_strip rest] else None
         | Words n \<Rightarrow> let args = py_split rest in if length args = n then Some args else None)"

definition music_source :: "string \<Rightarrow> source option" where
  "music_source name = (if name \<in> set MUSIC_SOURCE_VALUES then source_of_value name else None)"

definition source_error :: "string \<Rightarrow> mux_error \<Rightarrow> mux_error" where
  "source_error name rejected = (if source_of_value name = None then UnknownSource name else rejected)"

definition control_status ::
  "('w, 'y) mux_doors_scheme \<Rightarrow> (('w, 'z) mux_scheme, mux_exn + reply) state" where
  "control_status d = do { st \<leftarrow> status_payload d None; ret (Inr (RStatus st)) }"

definition control_notify ::
  "('w, 'y) mux_doors_scheme \<Rightarrow> string \<Rightarrow> (('w, 'z) mux_scheme, mux_exn + reply) state" where
  "control_notify d source_name =
     (case music_source source_name of
        None \<Rightarrow> ret (Inr (RError (source_error source_name (NotMusicSource source_name))))
      | Some source \<Rightarrow> do { notify_source_changed d source ''uds''; ret (Inr (RAccepted source)) })"

definition control_preempt ::
  "('w, 'y) mux_doors_scheme \<Rightarrow> string \<Rightarrow> (('w, 'z) mux_scheme, mux_exn + reply) state" where
  "control_preempt d source_name =
     (if source_name \<noteq> source_value AIRPLAY then ret (Inr (RError (NotPreemptable source_name)))
      else with_transition_lock d (do {
        airplay_release d;
        c \<leftarrow> get_mx mx_airplay;
        ret (Inr (RPreempted c))
      }))"

definition control_select ::
  "('w, 'y) mux_doors_scheme \<Rightarrow> string \<Rightarrow> (('w, 'z) mux_scheme, mux_exn + reply) state" where
  "control_select d source_name =
     (case music_source source_name of
        None \<Rightarrow> ret (Inr (RError (source_error source_name (NotSelectable source_name))))
      | Some source \<Rightarrow> select_source d source)"

text \<open>\<open>await getattr(self, verb.method)(*args)\<close>; \<open>control_args\<close> gave each method its arguments.\<close>

fun call_verb ::
  "('w, 'y) mux_doors_scheme \<Rightarrow> verb_method \<Rightarrow> string list \<Rightarrow> (('w, 'z) mux_scheme, mux_exn + reply) state" where
  "call_verb d ControlStatus [] = control_status d"
| "call_verb d AutoSelect [] = auto_select d"
| "call_verb d ControlNotify [name] = control_notify d name"
| "call_verb d ControlPreempt [name] = control_preempt d name"
| "call_verb d ControlSelect [name] = control_select d name"
| "call_verb d TestSelect [label, owner] = select_test_fanin_label d label owner"
| "call_verb d TestRelease [owner] = release_test_fanin_label d owner"
| "call_verb d _ _ = ret (Inl OtherRaised)"

text \<open>One client line to one reply line; an exception becomes an error reply.\<close>

definition handle_control_line ::
  "('w, 'y) mux_doors_scheme \<Rightarrow> string \<Rightarrow> (('w, 'z) mux_scheme, reply) state" where
  "handle_control_line d raw = do {
     let command = py_strip raw;
     let verb = (case split_once command of [] \<Rightarrow> None | w # _ \<Rightarrow> CONTROL_VERBS w);
     case verb of
       None \<Rightarrow> ret (RError (UnknownCommand command))
     | Some v \<Rightarrow>
         (case control_args command (cv_arity v) of
            None \<Rightarrow> ret (RError (case cv_bad_arity v of Some e \<Rightarrow> BadArity e | None \<Rightarrow> UnknownCommand command))
          | Some args \<Rightarrow> do {
              r \<leftarrow> call_verb d (cv_method v) args;
              ret (case r of Inl _ \<Rightarrow> RError Raised | Inr answer \<Rightarrow> answer)
            })
   }"

text \<open>What the clients send (\<open>wire.py\<close>).\<close>

definition mux_select_line :: "string \<Rightarrow> string" where "mux_select_line source = ''SELECT '' @ source"
definition mux_preempt_line :: "string \<Rightarrow> string" where "mux_preempt_line source = ''PREEMPT '' @ source"

definition mux_test_select_line :: "string \<Rightarrow> string \<Rightarrow> string" where
  "mux_test_select_line label owner = ''TEST_SELECT '' @ label @ '' '' @ owner"

definition mux_test_release_line :: "string \<Rightarrow> string" where
  "mux_test_release_line owner = ''TEST_RELEASE '' @ owner"

end
