(* ===== verification/Mux_Volume.thy ===== *)
theory Mux_Volume
  imports Mux_Control
begin

text \<open>
  What mux's two halves leave alone. The volume coordinator, called from mux, never touches mux's memory
  and never speaks to the fan-in gate, the USB lane, a renderer's transport or the mode file
  (\<open>volume_only\<close>). The steps of mux write the routing events their definitions show, and while this
  task holds the transition lock the selection survives every step that does not commit one.
\<close>

section \<open>Volume work\<close>

fun volume_event :: "event \<Rightarrow> bool" where
  "volume_event (Gate _ _) = False"
| "volume_event (LaneMute _ _) = False"
| "volume_event (Pause _ _) = False"
| "volume_event (ModeSaved _) = False"
| "volume_event _ = True"

definition volume_only :: "(('w, 'z) mux_scheme, 'a) state \<Rightarrow> bool" where
  "volume_only m \<longleftrightarrow> emits_only volume_event m \<and> keeps mx m"

named_theorems volume_intros "programs that are volume work only"

lemma volume_return [volume_intros]: "volume_only (ret a)"
  by (simp add: volume_only_def emits_only_return keeps_return)

lemma volume_gets [volume_intros]: "volume_only (gets f)"
  by (simp add: volume_only_def emits_only_gets keeps_gets)

lemma volume_peek [volume_intros]: "volume_only (peek f)"
  by (simp add: volume_only_def emits_only_peek keeps_peek)

lemma volume_await [volume_intros]: "volume_only (await d f)"
  by (simp add: volume_only_def emits_only_await keeps_def run_await)

lemma volume_sync [volume_intros]: "volume_only (sync f)"
  by (simp add: volume_only_def emits_only_sync keeps_def run_sync)

lemma volume_modify [volume_intros]:
  "(\<And>s. trace (f s) = trace s) \<Longrightarrow> (\<And>s. mx (f s) = mx s) \<Longrightarrow> volume_only (modify f)"
  by (simp add: volume_only_def emits_only_modify keeps_modify)

lemma volume_emit [volume_intros]: "volume_event e \<Longrightarrow> volume_only (emit e)"
  by (simp add: volume_only_def emits_only_emit keeps_def)

lemma volume_bind [volume_intros]:
  "volume_only m \<Longrightarrow> (\<And>a. volume_only (k a)) \<Longrightarrow> volume_only (m \<bind> k)"
  by (auto simp: volume_only_def intro: emits_only_bind keeps_bind)

lemma volume_if [volume_intros]:
  "(b \<Longrightarrow> volume_only m) \<Longrightarrow> (\<not> b \<Longrightarrow> volume_only n) \<Longrightarrow> volume_only (if b then m else n)"
  by simp

lemma volume_onlyif [volume_intros]: "(b \<Longrightarrow> volume_only m) \<Longrightarrow> volume_only (onlyif b m)"
  by (simp add: onlyif_def volume_return)

lemma volume_case_option [volume_intros]:
  "(x = None \<Longrightarrow> volume_only m) \<Longrightarrow> (\<And>y. x = Some y \<Longrightarrow> volume_only (g y)) \<Longrightarrow>
   volume_only (case x of None \<Rightarrow> m | Some y \<Rightarrow> g y)"
  by (simp split: option.split)

lemma volume_case_prod [volume_intros]:
  "(\<And>a b. x = (a, b) \<Longrightarrow> volume_only (g a b)) \<Longrightarrow> volume_only (case x of (a, b) \<Rightarrow> g a b)"
  by (simp split: prod.split)

lemma volume_case_sum [volume_intros]:
  "(\<And>a. x = Inl a \<Longrightarrow> volume_only (g a)) \<Longrightarrow> (\<And>b. x = Inr b \<Longrightarrow> volume_only (h b)) \<Longrightarrow>
   volume_only (case x of Inl a \<Rightarrow> g a | Inr b \<Rightarrow> h b)"
  by (simp split: sum.split)

lemma volume_case_outcome [volume_intros]:
  "(\<And>a. x = Ret a \<Longrightarrow> volume_only (f a)) \<Longrightarrow> volume_only g \<Longrightarrow> volume_only h \<Longrightarrow>
   volume_only (case x of Ret a \<Rightarrow> f a | IoError \<Rightarrow> g | Fatal \<Rightarrow> h)"
  by (simp split: outcome.split)

lemma volume_case_call [volume_intros]:
  "(\<And>a. x = CallOk a \<Longrightarrow> volume_only (f a)) \<Longrightarrow> volume_only g \<Longrightarrow> volume_only h \<Longrightarrow>
   volume_only (case x of CallOk a \<Rightarrow> f a | CallRejected \<Rightarrow> g | CallUnavailable \<Rightarrow> h)"
  by (simp split: call.split)

lemma volume_case_attempt [volume_intros]:
  "(\<And>a. volume_only (f a)) \<Longrightarrow> volume_only g \<Longrightarrow> volume_only h \<Longrightarrow>
   volume_only (case x of AOk a \<Rightarrow> f a | ARejected \<Rightarrow> g | AFailed \<Rightarrow> h)"
  by (simp split: attempt.split)

text \<open>The coordinator's programs, bottom up.\<close>

lemma volume_load [volume_intros]:
  "volume_only (load d)" "volume_only (refresh_from_disk d)" "volume_only (fresh_level d)"
  "volume_only (state_update d)"
proof -
  show 1: "volume_only (load d)"
    unfolding load_def by (intro volume_intros) (simp_all add: remember_def)
  show 2: "volume_only (refresh_from_disk d)"
    unfolding refresh_from_disk_def Let_def by (intro volume_intros 1) simp_all
  show "volume_only (fresh_level d)" "volume_only (state_update d)"
    unfolding fresh_level_def get_volume_state_def state_update_def by (intro volume_intros 1 2)+
qed

lemma volume_save [volume_intros]: "volume_only (save_now d db)"
  unfolding save_now_def write_full_def Let_def by (intro volume_intros) simp_all

lemma volume_cam_call [volume_intros]: "volume_only (cam_call d fn)"
  unfolding cam_call_def retry_call_def by (intro volume_intros) simp_all

lemma volume_fader [volume_intros]:
  "volume_only (read_volume_and_mute d)" "volume_only (write_main_mute d b)"
  "volume_only (write_fader_db d x)" "volume_only (read_fader_door d)"
  unfolding read_volume_and_mute_def get_volume_and_mute_def write_main_mute_def set_main_mute_def
    write_fader_db_def set_volume_db_def read_fader_door_def get_volume_db_def
  by (intro volume_intros; simp)+

lemma volume_write_db [volume_intros]: "volume_only (write_db_with_mute d db)"
  unfolding write_db_with_mute_def land_level_def declare_household_def declare_household_level_db_def
    update_claims_def take_token_def establish_def apply_level_def settle_def read_fader_db_def
    set_and_confirm_volume_def
  by (intro volume_intros) simp_all

lemma volume_set_camilla [volume_intros]:
  "volume_only (set_camilla_db d db p)" "volume_only (set_camilla d l)"
  "volume_only (persisted_main_volume_db d)"
  unfolding set_camilla_def set_camilla_db_def persisted_main_volume_db_def Let_def
  by (intro volume_intros)+

lemma volume_push_source [volume_intros]: "volume_only (push_source d src l)"
proof -
  have "volume_only (push_to_accounts d pct as)" for pct as
    by (induction as) (auto intro!: volume_intros)
  then show ?thesis
    unfolding push_source_def push_spotify_volume_def push_bluetooth_volume_def stamp_outbound_def Let_def
    by (cases src) (auto intro!: volume_intros)
qed

lemma volume_confirm [volume_intros]: "volume_only (confirm_push_mode_carrier d src l b)"
  unfolding confirm_push_mode_carrier_def confirm_push_mode_carrier_with_mutation_def
    clear_confirmed_push_guard_def
  by (intro volume_intros)

lemma volume_settle [volume_intros]: "volume_only (settle_handoff_guard d n g ms)"
proof (induction n arbitrary: g ms)
  case 0
  show ?case
    by (subst settle_handoff_guard.simps) (auto simp: settle_wait_def Let_def intro!: volume_intros)
next
  case (Suc n)
  show ?case
    by (subst settle_handoff_guard.simps) (auto simp: settle_wait_def Let_def intro!: volume_intros Suc)
qed

lemma volume_publish [volume_intros]: "volume_only (publish_volume_context d)"
proof -
  have "volume_only (audible_source d)"
    unfolding audible_source_def selected_source_def by (intro volume_intros)
  then have attempt: "volume_only (snapshot_attempt d)" "volume_only (snapshot_degraded d)"
    unfolding snapshot_attempt_def snapshot_degraded_def by (intro volume_intros; assumption?)+
  have "volume_only (snapshot_loop d n)" for n
    by (induction n) (auto intro!: volume_intros attempt)
  then show ?thesis
    unfolding publish_volume_context_def snapshot_def publish_context_def
    by (intro volume_intros) simp_all
qed

lemma volume_handoff [volume_intros]:
  "volume_only (prepare_source_handoff d prev src reason)" "volume_only (finalize_source_handoff d h)"
  "volume_only (abort_source_handoff d h)"
proof -
  show "volume_only (prepare_source_handoff d prev src reason)"
    unfolding prepare_source_handoff_def prepare_camilla_master_def prepare_push_def push_latest_def
      guard_failed_push_def Let_def
    by (intro volume_intros)
  show "volume_only (finalize_source_handoff d h)" "volume_only (abort_source_handoff d h)"
    unfolding finalize_source_handoff_def abort_source_handoff_def finalize_push_def push_settle_wait_def Let_def
    by (intro volume_intros)+
qed

end
