(* ===== verification/Mux_Transition.thy ===== *)
theory Mux_Transition
  imports Mux_Volume
begin

text \<open>
  Moving the audible lane: fan-in exposes a new lane only behind a carrier that is ready for it, and the
  selection changes only with the lane. The volume half is \<open>Volume_Handoff\<close>'s preparation; this theory
  composes it with the gate, the commit and the lease of \<open>_transition_to_source_locked\<close>.
\<close>

section \<open>What the routing steps add to the trace\<close>

lemma silent_mx [keeps_intros]:
  "silent (on_mx f)" "silent (get_mx g)" "silent (rival d)" "silent (mawait d k)"
  unfolding on_mx_def get_mx_def rival_def mawait_def by (intro keeps_intros; simp)+

lemma emits_silent_ret: "silent m \<Longrightarrow> emits (\<lambda>r es. r = a \<and> es = []) (do { _ \<leftarrow> m; ret a })"
  by (erule emits_after_silent) (simp add: emits_def)

lemma emits_coordinated: "emits R m \<Longrightarrow> emits R (coordinated d m)"
  unfolding coordinated_def
  by (erule emits_bind, rule emits_silent_ret [OF silent_mx(3)]) simp

lemma emits_fanin_gate: "emits (\<lambda>r es. es = [Gate c (r = Ret ())]) (fanin_gate d c)"
  unfolding fanin_gate_def
proof (rule emits_after_silent [OF silent_mx(4)])
  show "emits (\<lambda>r es. es = [Gate c (r = Ret ())])
      (do { emit (Gate c (a = Ret ())); on_mx (f a); ret a })" for a f
    by (simp add: emits_def on_mx_def)
qed

lemma emits_fanin_select:
  "emits (\<lambda>r es. case SOURCE_TO_FANIN_LABEL src of
       None \<Rightarrow> es = [] \<and> r = Fatal
     | Some l \<Rightarrow> es = [Gate (fanin_select_line l) (r = Ret ())]) (fanin_select d src)"
proof (cases "SOURCE_TO_FANIN_LABEL src")
  case None
  then show ?thesis by (simp add: fanin_select_def emits_def)
next
  case (Some l)
  then show ?thesis
    by (simp add: fanin_select_def fanin_select_label_def emits_after_silent [OF silent_mx(1)] emits_fanin_gate)
qed

lemma silent_record [keeps_intros]: "silent (record_handoff d h t n r)" "silent next_handoff_id"
  unfolding record_handoff_def next_handoff_id_def by (intro keeps_intros)+

lemma volume_emits: "volume_only m \<Longrightarrow> emits_only volume_event m"
  by (simp add: volume_only_def)

lemma emits_volume_coordinated:
  "volume_only m \<Longrightarrow> emits_only volume_event (coordinated d m)"
  by (intro emits_coordinated volume_emits)

lemma emits_with_result:
  "emits R m \<Longrightarrow> (\<And>s. wp m (\<lambda>a _. P a) s) \<Longrightarrow> emits (\<lambda>a es. R a es \<and> P a) m"
  by (auto simp: emits_def wp_def)

lemma emits_conj: "emits R m \<Longrightarrow> emits Q m \<Longrightarrow> emits (\<lambda>a es. R a es \<and> Q a es) m"
  unfolding emits_def by (metis same_append_eq)

section \<open>The prepared lane\<close>

lemma wp_case_prodI:
  "(\<And>a b. x = (a, b) \<Longrightarrow> wp (g a b) Q s) \<Longrightarrow> wp (case x of (a, b) \<Rightarrow> g a b) Q s"
  by (simp split: prod.split)

lemma wp_prepare_sources:
  fixes s :: "('w, 'z) coord_scheme"
  shows "wp (prepare_source_handoff d prev src reason) (\<lambda>h _. ho_prev h = prev \<and> ho_current h = src) s"
proof -
  let ?P = "\<lambda>h (_ :: ('w, 'z) coord_scheme). ho_prev h = prev \<and> ho_current h = src"
  have failed: "wp (guard_failed_push d h g) ?P s1" if "ho_prev h = prev \<and> ho_current h = src" for h g s1
    unfolding guard_failed_push_def Let_def
    by (intro wp_ifI wp_bind_any wp_case_prodI) (use that in \<open>simp_all add: wp_return\<close>)
  have push: "wp (prepare_push d h) ?P s1" if "ho_prev h = prev \<and> ho_current h = src" for h s1
    unfolding prepare_push_def Let_def
    by (intro wp_ifI wp_bind_any wp_case_prodI failed) (use that in \<open>simp_all add: wp_return\<close>)
  have camilla: "wp (prepare_camilla_master d h b m) ?P s1" if "ho_prev h = prev \<and> ho_current h = src" for h b m s1
    unfolding prepare_camilla_master_def Let_def
    by (intro wp_ifI wp_bind_any wp_case_prodI) (use that in \<open>simp_all add: wp_return\<close>)
  show ?thesis
    unfolding prepare_source_handoff_def Let_def
    by (intro wp_ifI wp_bind_any wp_case_prodI) (simp_all add: wp_return push camilla)
qed

text \<open>The events of a preparation that mux may open the lane of \<open>src\<close> after.\<close>

definition ready_lane :: "source \<Rightarrow> source \<Rightarrow> event list \<Rightarrow> bool" where
  "ready_lane prev src es \<longleftrightarrow> (\<forall>e \<in> set es. volume_event e) \<and>
     (\<exists>h. ho_ok h \<and> ho_prev h = prev \<and> ho_current h = src \<and> (prev \<noteq> src \<longrightarrow> lane_safe h es))"

lemma ready_lane_quiet: "ready_lane prev src es \<Longrightarrow> e \<in> set es \<Longrightarrow> volume_event e"
  by (simp add: ready_lane_def)

lemma emits_prepared:
  "emits (\<lambda>h es. (\<forall>e \<in> set es. volume_event e) \<and> (ho_ok h \<longrightarrow> ready_lane prev src es))
     (coordinated d (prepare_source_handoff d prev src reason))"
  by (rule emits_coordinated, rule emits_mono [OF emits_with_result [OF emits_conj
        [OF emits_prepare volume_emits [OF volume_handoff(1)]] wp_prepare_sources]])
    (auto simp: ready_lane_def)

definition lane_opened :: "source \<Rightarrow> source \<Rightarrow> event list \<Rightarrow> bool" where
  "lane_opened prev src es \<longleftrightarrow> (\<exists>l pre post. SOURCE_TO_FANIN_LABEL src = Some l \<and>
     es = pre @ Gate (fanin_select_line l) True # post \<and> ready_lane prev src pre \<and>
     (\<forall>e \<in> set post. volume_event e \<or> (\<exists>m. e = ModeSaved m)))"

definition lane_unmoved :: "event list \<Rightarrow> bool" where
  "lane_unmoved es \<longleftrightarrow> (\<forall>e \<in> set es. volume_event e \<or> (\<exists>c. e = Gate c False))"

lemma lane_openedI:
  "SOURCE_TO_FANIN_LABEL src = Some l \<Longrightarrow> ready_lane prev src pre \<Longrightarrow>
   \<forall>e \<in> set post. volume_event e \<or> (\<exists>m. e = ModeSaved m) \<Longrightarrow>
   lane_opened prev src (pre @ Gate (fanin_select_line l) True # post)"
  unfolding lane_opened_def by blast

lemma lane_opened_extend:
  "lane_opened prev src es \<Longrightarrow> \<forall>e \<in> set fs. volume_event e \<or> (\<exists>m. e = ModeSaved m) \<Longrightarrow>
   lane_opened prev src (es @ fs)"
proof -
  assume "lane_opened prev src es" and fs: "\<forall>e \<in> set fs. volume_event e \<or> (\<exists>m. e = ModeSaved m)"
  then obtain l pre post where "SOURCE_TO_FANIN_LABEL src = Some l" "es = pre @ Gate (fanin_select_line l) True # post"
      "ready_lane prev src pre" "\<forall>e \<in> set post. volume_event e \<or> (\<exists>m. e = ModeSaved m)"
    by (auto simp: lane_opened_def)
  with fs show ?thesis
    unfolding lane_opened_def
    by (intro exI [of _ l] exI [of _ pre] exI [of _ "post @ fs"]) auto
qed

lemma lane_unmoved_append: "lane_unmoved (es @ fs) \<longleftrightarrow> lane_unmoved es \<and> lane_unmoved fs"
  by (auto simp: lane_unmoved_def)

lemma lane_unmoved_volume: "\<forall>e \<in> set es. volume_event e \<Longrightarrow> lane_unmoved es"
  by (simp add: lane_unmoved_def)

lemma emits_transition_gate:
  "emits (\<lambda>sel es. if sel then lane_opened prev src es else lane_unmoved es)
     (transition_volume_and_gate d prev src reason)"
proof -
  let ?R = "\<lambda>sel es. if sel then lane_opened prev src es else lane_unmoved es"
  have refused: "emits (\<lambda>sel es. \<not> sel \<and> es = []) (do { record_handoff d h t n r; ret False })" for h t n r
    by (rule emits_after_silent [OF silent_record(1)]) (simp add: emits_def)
  have aborted: "emits (\<lambda>sel es. \<not> sel \<and> (\<forall>e \<in> set es. volume_event e))
      (do { _ \<leftarrow> coordinated d (abort_source_handoff d h); record_handoff d h t n r; ret False })" for h t n r
    by (rule emits_bind [OF emits_volume_coordinated [OF volume_handoff(3)] refused]) simp
  have finished: "emits (\<lambda>sel es. sel \<and> (\<forall>e \<in> set es. volume_event e))
      (do { fin \<leftarrow> coordinated d (finalize_source_handoff d h); record_handoff d h t n (r fin); ret True })" for h t n r
    by (rule emits_bind [OF emits_volume_coordinated [OF volume_handoff(2)]
          emits_silent_ret [OF silent_record(1)]]) simp
  have gate: "emits (\<lambda>sel es. \<forall>pre. ready_lane prev src pre \<longrightarrow> ?R sel (pre @ es))
      (do { r \<leftarrow> fanin_select d src;
            if r \<noteq> Ret () then do { _ \<leftarrow> coordinated d (abort_source_handoff d h); record_handoff d h t n a; ret False }
            else do { fin \<leftarrow> coordinated d (finalize_source_handoff d h); record_handoff d h t n (b fin); ret True } })"
    for h t n a b
  proof (rule emits_bind [OF emits_fanin_select])
    show "emits (\<lambda>sel es. (sel \<longleftrightarrow> r = Ret ()) \<and> (\<forall>e \<in> set es. volume_event e))
        (if r \<noteq> Ret () then do { _ \<leftarrow> coordinated d (abort_source_handoff d h); record_handoff d h t n a; ret False }
         else do { fin \<leftarrow> coordinated d (finalize_source_handoff d h); record_handoff d h t n (b fin); ret True })" for r
      using aborted [of h t n a] finished [of h t n b] by (auto intro: emits_mono)
  qed (auto simp: lane_unmoved_def intro: lane_openedI dest: ready_lane_quiet split: option.splits)
  show ?thesis
    unfolding transition_volume_and_gate_def
    apply (rule emits_after_silent [OF keeps_peek], rule emits_after_silent [OF silent_record(2)])
    apply (rule emits_bind [OF emits_prepared, where R' = "\<lambda>h sel es. if ho_ok h then
        (\<forall>pre. ready_lane prev src pre \<longrightarrow> ?R sel (pre @ es)) else \<not> sel \<and> es = []"])
    subgoal for started n h es
      by (cases "ho_ok h"; simp only: if_True if_False simp_thms) (rule gate, rule refused)
    subgoal by (auto simp: lane_unmoved_def ready_lane_def split: if_splits)
    done
qed

section \<open>The gate opens behind its carrier\<close>

definition lane_move :: "source \<Rightarrow> source \<Rightarrow> 'e + bool \<Rightarrow> event list \<Rightarrow> bool" where
  "lane_move prev src r es \<longleftrightarrow> (if r = Inr True then lane_opened prev src es else lane_unmoved es)"

lemma emits_transition:
  assumes commit: "emits_only (\<lambda>e. \<exists>m. e = ModeSaved m) commit"
  shows "emits (lane_move prev src) (transition_to_source d prev src reason commit)"
proof -
  have body: "emits (lane_move prev src) (do {
       rival d;
       selected \<leftarrow> transition_volume_and_gate d prev src reason;
       onlyif selected commit;
       ret (Inr selected) })"
  proof (rule emits_after_silent [OF silent_mx(3)], rule emits_bind [OF emits_transition_gate])
    show "emits (\<lambda>r es. r = Inr sel \<and> (if sel then \<forall>e \<in> set es. \<exists>m. e = ModeSaved m else es = []))
        (do { onlyif sel commit; ret (Inr sel) })" for sel
      by (cases sel) (auto simp: onlyif_def emits_def [of _ "ret ()"]
          intro!: emits_bind [OF commit, where R' = "\<lambda>_ r es. r = Inr True \<and> es = []"] simp: emits_def [of _ "ret _"])
  qed (auto simp: lane_move_def intro: lane_opened_extend split: if_splits)
  have lease: "emits (lane_move prev src) (coordinated d (mutation d True (do {
       rival d;
       selected \<leftarrow> transition_volume_and_gate d prev src reason;
       onlyif selected commit;
       ret (Inr selected) })))"
    by (rule emits_coordinated, rule emits_mutation [OF body]) (simp add: lane_move_def lane_unmoved_def)
  have publish: "emits (\<lambda>r es. r = Inr sel \<and> (\<forall>e \<in> set es. volume_event e))
      (do { coordinated d (publish_volume_context d); ret (Inr sel) })" for sel
    by (rule emits_bind [OF emits_volume_coordinated [OF volume_publish], where R' = "\<lambda>_ r es. r = Inr sel \<and> es = []"])
      (auto simp: emits_def)
  show ?thesis
    unfolding transition_to_source_def
  proof (rule emits_bind [OF lease])
    show "emits (\<lambda>b es. case r of Inl _ \<Rightarrow> b = Inl LeaseRaised \<and> es = []
          | Inr sel \<Rightarrow> b = Inr sel \<and> (\<forall>e \<in> set es. volume_event e))
        (case r of Inl _ \<Rightarrow> ret (Inl LeaseRaised)
         | Inr sel \<Rightarrow> do { coordinated d (publish_volume_context d); ret (Inr sel) })" for r :: "coord_exn + bool"
      using publish by (cases r) (simp_all add: emits_def [of _ "ret _"])
  qed (auto simp: lane_move_def lane_unmoved_append lane_unmoved_volume intro: lane_opened_extend split: sum.splits if_splits)
qed

lemma emits_mode [emits_intros]:
  "emits_only (\<lambda>e. \<exists>m. e = ModeSaved m) (write_mode d m)"
  "emits_only (\<lambda>e. \<exists>m. e = ModeSaved m) (on_mx f)"
  unfolding write_mode_def on_mx_def by (intro emits_intros; simp)+


end
