(* ===== verification/Mux_Lock.thy ===== *)
theory Mux_Lock
  imports Mux_Transition
begin

text \<open>
  What stays of mux's memory across the awaits of a task. The locale \<open>stable_part\<close> is the contract
  between a task and its neighbours: a transitive relation between memories that the other tasks keep
  (\<open>guests\<close>) and the task's own steps keep. It is interpreted on the selection under the transition lock
  and, in \<open>Mux_Safety\<close>, on a held test lease and on a manual pin. The result here: a move that opens no
  lane leaves the selection as it was, one that does commits it, in memory and on disk.
\<close>

section \<open>A part of the memory that stays\<close>

locale stable_part =
  fixes same :: "mux_mem \<Rightarrow> mux_mem \<Rightarrow> bool"
  assumes same_trans: "same m m1 \<Longrightarrow> same m1 m2 \<Longrightarrow> same m m2"
begin

definition guests :: "('w, 'y) mux_doors_scheme \<Rightarrow> bool" where
  "guests d \<longleftrightarrow> (\<forall>w m m1. same m m1 \<longrightarrow> same m1 (d_rival d w m1))"

definition still :: "mux_mem \<Rightarrow> ('w, 'z) mux_scheme \<Rightarrow> bool" where
  "still m s \<longleftrightarrow> same m (mx s)"

lemma volume_still: "volume_only p \<Longrightarrow> pres (still m) p"
  unfolding volume_only_def pres_def keeps_def still_def by simp

lemma rival_still: "guests d \<Longrightarrow> pres (still m) (rival d)"
  unfolding rival_def
  by (rule pres_modify) (auto simp: still_def guests_def intro: same_trans)

lemma mawait_still: "guests d \<Longrightarrow> pres (still m) (mawait d f)"
  unfolding mawait_def by (intro pres_intros rival_still volume_still volume_intros)

lemma coordinated_still: "guests d \<Longrightarrow> volume_only p \<Longrightarrow> pres (still m) (coordinated d p)"
  unfolding coordinated_def by (intro pres_intros rival_still volume_still)

lemma lease_still:
  "guests d \<Longrightarrow> pres (still m) body \<Longrightarrow> pres (still m) (coordinated d (mutation d True body))"
  unfolding coordinated_def mutation_def
  by (intro pres_intros rival_still volume_still [OF volume_await] volume_still [OF volume_load(2)])

lemma on_mx_still: "(\<And>m1. same m m1 \<Longrightarrow> same m (f m1)) \<Longrightarrow> pres (still m) (on_mx f)"
  unfolding on_mx_def by (rule pres_modify) (simp add: still_def)

lemma get_mx_still: "pres (still m) (get_mx f)"
  unfolding get_mx_def by (rule pres_gets)

lemma emit_still: "pres (still m) (emit e)"
  by (simp add: pres_def still_def)

lemma sync_still: "pres (still m) (sync f)"
  by (simp add: pres_def still_def run_sync)

text \<open>The same with a promise about the events since \<open>before\<close>.\<close>

definition calm :: "(event \<Rightarrow> bool) \<Rightarrow> mux_mem \<Rightarrow> event list \<Rightarrow> ('w, 'z) mux_scheme \<Rightarrow> bool" where
  "calm E m before s \<longleftrightarrow> still m s \<and> (\<exists>es. trace s = before @ es \<and> (\<forall>e \<in> set es. E e))"

lemma calmI:
  fixes p :: "(('w, 'z) mux_scheme, 'x) state"
  shows "pres (still m) p \<Longrightarrow> emits_only E p \<Longrightarrow> pres (calm E m before) p"
proof (unfold pres_def, intro allI impI)
  fix s :: "('w, 'z) mux_scheme"
  assume p: "\<forall>s. still m s \<longrightarrow> still m (snd (run_state p s))" "emits_only E p" and s: "calm E m before s"
  obtain fs where "trace (snd (run_state p s)) = trace s @ fs" "\<forall>e \<in> set fs. E e"
    using p(2) unfolding emits_def by blast
  with p(1) s show "calm E m before (snd (run_state p s))"
    by (auto simp: calm_def)
qed

lemma volume_calm: "volume_only p \<Longrightarrow> (\<And>e. volume_event e \<Longrightarrow> E e) \<Longrightarrow> pres (calm E m before) p"
  by (rule calmI [OF volume_still]) (auto simp: volume_only_def intro: emits_mono)

lemma mx_calm:
  "guests d \<Longrightarrow> pres (calm E m before) (rival d)" "guests d \<Longrightarrow> pres (calm E m before) (mawait d f)"
  "pres (calm E m before) (get_mx g)" "pres (calm E m before) (sync h)" "pres (calm E m before) (await d' f')"
  by (intro calmI rival_still mawait_still get_mx_still sync_still volume_still volume_await
      emits_silent silent_mx silent_await keeps_sync; simp)+

lemma on_mx_calm: "(\<And>m1. same m m1 \<Longrightarrow> same m (f m1)) \<Longrightarrow> pres (calm E m before) (on_mx f)"
  by (intro calmI on_mx_still emits_silent silent_mx; simp)

lemma emit_calm: "E e \<Longrightarrow> pres (calm E m before) (emit e)"
  by (intro calmI emit_still emits_intros)

lemma coordinated_calm:
  "guests d \<Longrightarrow> volume_only p \<Longrightarrow> (\<And>e. volume_event e \<Longrightarrow> E e) \<Longrightarrow> pres (calm E m before) (coordinated d p)"
  unfolding coordinated_def by (intro pres_intros mx_calm volume_calm)

lemma get_mx_bind_calm:
  "(\<And>s. calm E m before s \<Longrightarrow> wp (k (g (mx s))) (\<lambda>_. calm E m before) s) \<Longrightarrow>
   pres (calm E m before) (get_mx g \<bind> k)"
  by (rule pres_wpI) (simp add: get_mx_def wp_simps)

lemmas calms = pres_intros mx_calm emit_calm coordinated_calm

lemmas stays = pres_intros rival_still mawait_still coordinated_still get_mx_still emit_still sync_still

end

section \<open>The selection under the transition lock\<close>

lemma lock_respected_trans: "lock_respected m m1 \<Longrightarrow> lock_respected m1 m2 \<Longrightarrow> lock_respected m m2"
  by (auto simp: lock_respected_def)

lemma lock_respected_refl: "mx_lock m = Mine \<Longrightarrow> lock_respected m m"
  by (simp add: lock_respected_def)

interpretation locked: stable_part lock_respected
  by unfold_locales (rule lock_respected_trans)

lemma locked_guests: "rivals_respect_lock d \<Longrightarrow> locked.guests d"
  unfolding locked.guests_def rivals_respect_lock_def by (simp add: lock_respected_def)

text \<open>Updates of the memory that touch none of the locked fields.\<close>

lemma lock_neutral [intro]:
  assumes "lock_respected m m1"
  shows "lock_respected m (mx_none_asserted_update f1 m1)" "lock_respected m (mx_gate_failures_update f2 m1)"
    "lock_respected m (mx_last_handoff_update f3 m1)" "lock_respected m (mx_handoff_seq_update f4 m1)"
    "lock_respected m (mx_preempted_update f5 m1)" "lock_respected m (mx_pending_update f6 m1)"
    "lock_respected m (mx_airplay_update f7 m1)" "lock_respected m (mx_age_update f8 m1)"
  using assms by (simp_all add: lock_respected_def)

lemma gate_locked:
  assumes "locked.guests d"
  shows "pres (locked.still m) (fanin_gate d c)" "pres (locked.still m) (fanin_select d src)"
    "pres (locked.still m) (fanin_select_label d l)"
    "pres (locked.still m) (fanin_none d)" "pres (locked.still m) (fanin_lane_mute d l b)"
proof -
  show 1: "pres (locked.still m) (fanin_gate d c)" for c
    unfolding fanin_gate_def by (intro locked.stays locked.on_mx_still lock_neutral assms)
  show "pres (locked.still m) (fanin_lane_mute d l b)"
    unfolding fanin_lane_mute_def by (intro locked.stays assms)
  show 2: "pres (locked.still m) (fanin_select_label d l)" for l
    unfolding fanin_select_label_def by (intro locked.stays locked.on_mx_still lock_neutral 1 assms)
  show "pres (locked.still m) (fanin_select d src)" "pres (locked.still m) (fanin_none d)"
    unfolding fanin_select_def fanin_none_def
    by (intro locked.stays locked.on_mx_still lock_neutral 1 2 assms)+
qed

lemma preempt_locked:
  assumes "locked.guests d"
  shows "pres (locked.still m) (usbsink_set_preempt d b)" "pres (locked.still m) (gate_none_unless_winner d)"
    "pres (locked.still m) (airplay_release d)" "pres (locked.still m) (release_airplay_locked d src)"
  unfolding usbsink_set_preempt_def gate_none_unless_winner_def fanin_none_best_effort_def
    release_airplay_locked_def airplay_release_def set_cleanup_def
  by (intro locked.stays locked.on_mx_still lock_neutral gate_locked assms; assumption)+

lemma transition_gate_locked:
  assumes "locked.guests d"
  shows "pres (locked.still m) (transition_volume_and_gate d prev src reason)"
  unfolding transition_volume_and_gate_def record_handoff_def next_handoff_id_def
  by (intro locked.stays locked.on_mx_still lock_neutral gate_locked volume_intros assms)

section \<open>Committing\<close>

text \<open>The selection after a commit of \<open>src\<close> with the manual pin \<open>pin\<close>; the mode file may have failed.\<close>

definition committed :: "mux_mem \<Rightarrow> source \<Rightarrow> source option \<Rightarrow> ('w, 'z) mux_scheme \<Rightarrow> bool" where
  "committed m src pin s \<longleftrightarrow> (\<exists>file \<in> {mx_mode_file m, FObject (mode_payload pin)}.
     locked.still (m\<lparr>mx_winner := Some src, mx_manual := pin, mx_mode_file := file\<rparr>) s)"

lemma pres_Bex: "(\<And>f. pres (I f) p) \<Longrightarrow> pres (\<lambda>s. \<exists>f \<in> F. I f s) p"
  unfolding pres_def by blast

lemma committed_volume: "volume_only p \<Longrightarrow> pres (committed m src pin) p"
  unfolding committed_def by (intro pres_Bex locked.volume_still)

lemma committed_rival: "locked.guests d \<Longrightarrow> pres (committed m src pin) (rival d)"
  unfolding committed_def by (intro pres_Bex locked.rival_still)

lemma committed_preempt:
  "locked.guests d \<Longrightarrow> pres (committed m src pin) (usbsink_set_preempt d b)"
  "locked.guests d \<Longrightarrow> pres (committed m src pin) (release_airplay_locked d t)"
  unfolding committed_def by (intro pres_Bex preempt_locked; assumption)+

lemma commits:
  fixes s :: "('w, 'z) mux_scheme"
  assumes "locked.still m s"
  shows "wp (commit_auto_winner src) (\<lambda>_. committed m src (mx_manual m)) s"
    "wp (commit_manual_selection d src) (\<lambda>_. committed m src (Some src)) s"
    "wp (commit_auto_selection d src) (\<lambda>_. committed m src None) s"
  using assms
  by (auto simp: commit_auto_winner_def commit_manual_selection_def commit_auto_selection_def write_mode_def
      on_mx_def wp_simps committed_def locked.still_def lock_respected_def)

lemma wp_mutation_pres:
  assumes "\<And>p :: (('w, 'z) mux_scheme, unit) state. volume_only p \<Longrightarrow> pres I p"
    "\<And>p :: (('w, 'z) mux_scheme, bool) state. volume_only p \<Longrightarrow> pres I p"
    and "I s" "\<And>s1. I s1 \<Longrightarrow> wp body P s1" "\<And>s1. I s1 \<Longrightarrow> P (Inl LeaseTimeout) s1"
  shows "wp (mutation d True body) P (s :: ('w, 'z) mux_scheme)"
  unfolding mutation_def onlyif_def if_True
  apply (rule wp_pres_bind [OF assms(1) [OF volume_await] assms(3)])
  apply (rule wp_pres_bind [OF assms(2) [OF volume_await]], assumption)
  apply (rule wp_ifI, simp add: wp_return assms(5))
  apply (rule wp_pres_bind [OF assms(1) [OF volume_load(2)]], assumption, rule assms(4), assumption)
  done

lemma wp_keep_result: "pres I p \<Longrightarrow> I s \<Longrightarrow> (\<And>s'. I s' \<Longrightarrow> P a s') \<Longrightarrow> wp (do { _ \<leftarrow> p; ret a }) P s"
  by (rule wp_pres_bind [of I]) (simp_all add: wp_return)

lemma wp_transition:
  fixes s :: "('w, 'z) mux_scheme"
  assumes d: "locked.guests d" and s: "locked.still m s"
    and commit: "\<And>s1 :: ('w, 'z) mux_scheme. locked.still m s1 \<Longrightarrow> wp commit (\<lambda>_. committed m src pin) s1"
  shows "wp (transition_to_source d prev src reason commit)
    (\<lambda>r s'. if r = Inr True then committed m src pin s' else locked.still m s') s"
proof -
  define Q :: "bool \<Rightarrow> ('w, 'z) mux_scheme \<Rightarrow> bool" where
    "Q = (\<lambda>b s'. if b then committed m src pin s' else locked.still m s')"
  have keep: "pres (Q b) p" if "volume_only p" for b and p :: "(('w, 'z) mux_scheme, 'x) state"
    using committed_volume [OF that] locked.volume_still [OF that] by (cases b) (simp_all add: Q_def)
  have rival: "pres (Q b) (rival d)" for b
    using committed_rival [OF d] locked.rival_still [OF d] by (cases b) (simp_all add: Q_def)
  have body: "wp (do { rival d; selected \<leftarrow> transition_volume_and_gate d prev src reason;
       onlyif selected commit; ret (Inr selected) }) (\<lambda>r. Q (r = Inr True)) s1" if "locked.still m s1"
    for s1 :: "('w, 'z) mux_scheme"
    apply (rule wp_pres_bind [OF locked.rival_still [OF d] that])
    apply (rule wp_pres_bind [OF transition_gate_locked [OF d]], assumption)
    subgoal for u s2 sel s3
      by (cases sel) (auto simp: wp_bind wp_return onlyif_def Q_def intro: wp_mono [OF commit])
    done
  have lease: "wp (coordinated d (mutation d True (do { rival d;
       selected \<leftarrow> transition_volume_and_gate d prev src reason;
       onlyif selected commit; ret (Inr selected) }))) (\<lambda>r. Q (r = Inr True)) s"
    unfolding coordinated_def wp_bind [of "mutation _ _ _"]
  proof (rule wp_mono [OF wp_mutation_pres [OF locked.volume_still locked.volume_still s body]])
    show "wp (do { _ \<leftarrow> rival d; ret r }) (\<lambda>r. Q (r = Inr True)) s1" if "Q (r = Inr True) s1"
      for r :: "coord_exn + bool" and s1 :: "('w, 'z) mux_scheme"
      by (rule wp_keep_result [OF rival that])
  qed (simp_all add: Q_def)
  have publish: "wp (do { coordinated d (publish_volume_context d); ret (Inr b) }) (\<lambda>r. Q (r = Inr True)) s1"
    if "Q b s1" for b and s1 :: "('w, 'z) mux_scheme"
    unfolding coordinated_def
    by (rule wp_keep_result [OF pres_bind [OF keep [OF volume_publish] pres_bind [OF rival pres_return]] that]) simp
  have "wp (transition_to_source d prev src reason commit) (\<lambda>r. Q (r = Inr True)) s"
    unfolding transition_to_source_def wp_bind [of "coordinated _ _"]
    by (rule wp_mono [OF lease]) (auto simp: wp_return split: sum.split intro!: publish)
  then show ?thesis by (simp add: Q_def)
qed

section \<open>The selection moves with the lane\<close>

definition opens :: "source \<Rightarrow> event list \<Rightarrow> bool" where
  "opens src es \<longleftrightarrow> (\<exists>l. SOURCE_TO_FANIN_LABEL src = Some l \<and> Gate (fanin_select_line l) True \<in> set es)"

definition moves_with_lane ::
  "mux_mem \<Rightarrow> source \<Rightarrow> source option \<Rightarrow> event list \<Rightarrow> ('w, 'z) mux_scheme \<Rightarrow> bool" where
  "moves_with_lane m src pin before s \<longleftrightarrow> (\<exists>es. trace s = before @ es \<and>
     (if opens src es then committed m src pin s else locked.still m s))"

lemma lane_opened_opens: "lane_opened prev src es \<Longrightarrow> opens src es"
  by (auto simp: lane_opened_def opens_def)

lemma lane_unmoved_opens: "lane_unmoved es \<Longrightarrow> \<not> opens src es"
  by (fastforce simp: lane_unmoved_def opens_def)

lemma opens_append: "opens src (es @ fs) \<longleftrightarrow> opens src es \<or> opens src fs"
  by (auto simp: opens_def)

abbreviation no_lane :: "event \<Rightarrow> bool" where
  "no_lane e \<equiv> \<forall>l b. e \<noteq> Gate (fanin_select_line l) b"

lemma emits_no_lane:
  "emits_only no_lane (usbsink_set_preempt d b)" "emits_only no_lane (gate_none_unless_winner d)"
  "emits_only no_lane (release_airplay_locked d t)"
proof -
  have mx: "emits_only no_lane (on_mx f)" "emits_only no_lane (get_mx g)" "emits_only no_lane (mawait d k)" for f g k
    by (intro emits_silent silent_mx; simp)+
  have mute: "emits_only no_lane (fanin_lane_mute d l b)" for l b
    unfolding fanin_lane_mute_def by (intro emits_intros mx) simp
  have none: "emits_only no_lane (fanin_gate d FANIN_NONE)"
    by (rule emits_mono [OF emits_fanin_gate]) (simp add: FANIN_NONE_def fanin_select_line_def)
  show "emits_only no_lane (usbsink_set_preempt d b)" "emits_only no_lane (gate_none_unless_winner d)"
    unfolding usbsink_set_preempt_def gate_none_unless_winner_def fanin_none_best_effort_def fanin_none_def
    by (intro emits_intros mx mute none)+
  show "emits_only no_lane (release_airplay_locked d t)"
    unfolding release_airplay_locked_def airplay_release_def set_cleanup_def
    by (intro emits_intros mx) simp
qed

text \<open>The state after a move, \<open>b\<close> telling whether the lane was opened.\<close>

definition moved :: "mux_mem \<Rightarrow> source \<Rightarrow> source option \<Rightarrow> event list \<Rightarrow> bool \<Rightarrow> ('w, 'z) mux_scheme \<Rightarrow> bool" where
  "moved m src pin before b s \<longleftrightarrow> (\<exists>es. trace s = before @ es \<and> opens src es = b \<and>
     (if b then committed m src pin s else locked.still m s))"

lemma moved_lane: "moved m src pin before b s \<Longrightarrow> moves_with_lane m src pin before s"
  by (auto simp: moved_def moves_with_lane_def split: if_splits)

lemma pres_moved:
  fixes p :: "(('w, 'z) mux_scheme, 'x) state"
  assumes "emits_only no_lane p" "pres (locked.still m) p" "b \<Longrightarrow> pres (committed m src pin) p"
  shows "pres (moved m src pin before b) p"
proof (rule pres_wpI)
  fix s :: "('w, 'z) mux_scheme"
  assume "moved m src pin before b s"
  then obtain es where es: "trace s = before @ es" "opens src es = b" "if b then committed m src pin s else locked.still m s"
    by (auto simp: moved_def)
  have "wp p (\<lambda>_ s'. if b then committed m src pin s' else locked.still m s') s"
    using es(3) wp_pres [OF assms(2)] wp_pres [OF assms(3)] by (cases b) simp_all
  moreover have "wp p (\<lambda>_ s'. \<exists>fs. trace s' = trace s @ fs \<and> \<not> opens src fs) s"
    by (rule wp_mono [OF wp_emits [OF assms(1)]]) (auto simp: opens_def)
  ultimately show "wp p (\<lambda>_. moved m src pin before b) s"
    using es(1,2) unfolding wp_def moved_def by (auto simp: opens_append)
qed

lemma wp_transition_moved:
  fixes s :: "('w, 'z) mux_scheme"
  assumes d: "locked.guests d" and s: "locked.still m s"
    and commit: "\<And>s1 :: ('w, 'z) mux_scheme. locked.still m s1 \<Longrightarrow> wp commit (\<lambda>_. committed m src pin) s1"
    and mode: "emits_only (\<lambda>e. \<exists>m. e = ModeSaved m) commit"
  shows "wp (transition_to_source d prev src reason commit)
    (\<lambda>r. moved m src pin (trace s) (r = Inr True)) s"
  using wp_emits [OF emits_transition [OF mode, where d = d and prev = prev and src = src and reason = reason], where s = s]
    wp_transition [OF d s commit, where prev = prev and reason = reason]
  unfolding wp_def moved_def lane_move_def
  by (auto dest: lane_opened_opens lane_unmoved_opens split: if_splits)

lemma modes:
  "emits_only (\<lambda>e. \<exists>m. e = ModeSaved m) (commit_auto_winner src)"
  "emits_only (\<lambda>e. \<exists>m. e = ModeSaved m) (commit_manual_selection d src)"
  "emits_only (\<lambda>e. \<exists>m. e = ModeSaved m) (commit_auto_selection d src)"
  unfolding commit_auto_winner_def commit_manual_selection_def commit_auto_selection_def
  by (intro emits_intros)+

lemma moved_start: "locked.still m s \<Longrightarrow> moved m src pin (trace s) False s"
  by (simp add: moved_def opens_def)

lemma moved_pending: "pres (moved m src pin before False) (on_mx (mx_pending_update f))"
  by (intro pres_moved locked.on_mx_still lock_neutral emits_silent silent_mx; simp)

lemma moved_preempt:
  assumes "locked.guests d"
  shows "pres (moved m src pin before b) (usbsink_set_preempt d v)"
    "pres (moved m src pin before b) (release_airplay_locked d t)"
    "pres (moved m src pin before False) (gate_none_unless_winner d)"
    "pres (moved m src pin before b) (get_mx g)"
proof -
  show "pres (moved m src pin before b) (get_mx g)"
    unfolding get_mx_def by (rule pres_gets)
qed (intro pres_moved emits_no_lane preempt_locked committed_preempt assms; simp)+

lemma wp_get_mx_bind: "wp (get_mx f \<bind> k) Q s = wp (k (f (mx s))) Q s"
  by (simp add: get_mx_def wp_simps)

lemma wp_on_mx_bind: "wp (on_mx f \<bind> k) Q s = wp (k ()) Q (s\<lparr>mx := f (mx s)\<rparr>)"
  by (simp add: on_mx_def wp_simps)

lemma wp_moved: "pres (moved m src pin before b) p \<Longrightarrow> moved m src pin before b s \<Longrightarrow>
    (\<And>a s'. moved m src pin before b s' \<Longrightarrow> wp (k a) Q s') \<Longrightarrow> wp (p \<bind> k) Q s"
  by (rule wp_pres_bind)

lemma select_source_moves:
  fixes s :: "('w, 'z) mux_scheme"
  assumes d: "locked.guests d" and s: "mx_lock (mx s) = Mine" and owner: "mx_test_owner (mx s) = None"
  shows "wp (select_source_locked d src) (\<lambda>_. moves_with_lane (mx s) src (Some src) (trace s)) s"
proof -
  let ?M = "\<lambda>b. moved (mx s) src (Some src) (trace s) b"
  have start: "locked.still (mx s) s" using s by (simp add: locked.still_def lock_respected_refl)
  have ready: "locked.still (mx s) (s\<lparr>mx := mx_pending_update f (mx s)\<rparr>)" for f
    using start by (simp add: locked.still_def lock_respected_def)
  have failed: "wp (do { gate_none_unless_winner d; ret (Inr None) })
      (\<lambda>_. moves_with_lane (mx s) src (Some src) (trace s)) s1" if "?M False s1" for s1 :: "('w, 'z) mux_scheme"
    by (rule wp_moved [OF moved_preempt(3) [OF d] that]) (simp add: wp_return moved_lane)
  have finished: "wp (do { preempted \<leftarrow> get_mx mx_preempted; onlyif preempted (usbsink_set_preempt d False); ret (Inr None) })
      (\<lambda>_. moves_with_lane (mx s) src (Some src) (trace s)) s1" if "?M True s1" for s1 :: "('w, 'z) mux_scheme"
    by (rule wp_moved [OF moved_preempt(4) [OF d] that],
        rule wp_moved [OF pres_onlyif [OF moved_preempt(1) [OF d]]], assumption)
      (simp add: wp_return moved_lane)
  have lane: "wp (transition_to_source d prev src r (commit_manual_selection d src)) (\<lambda>r. ?M (r = Inr True)) 
      (s\<lparr>mx := mx_pending_update f (mx s)\<rparr>)" for prev r f
    using wp_transition_moved [OF d ready commits(2) modes(2)] by simp
  show ?thesis
    unfolding select_source_locked_def wp_get_mx_bind id_apply test_gate_error_def owner option.map option.case
      wp_on_mx_bind
    apply (rule wp_then [OF lane])
    subgoal for r s1
      by (cases r) (auto intro: failed finished moved_lane simp: wp_return split: bool.split)
    done
qed

lemma moved_trans:
  "moved m src pin before False s1 \<Longrightarrow> moved m src pin (trace s1) b s2 \<Longrightarrow> moved m src pin before b s2"
  by (auto simp: moved_def opens_append)

lemma wp_transition_moves:
  fixes s :: "('w, 'z) mux_scheme"
  assumes d: "locked.guests d" and s: "moved m src pin before False s"
    and commit: "\<And>s1 :: ('w, 'z) mux_scheme. locked.still m s1 \<Longrightarrow> wp commit (\<lambda>_. committed m src pin) s1"
    and mode: "emits_only (\<lambda>e. \<exists>m. e = ModeSaved m) commit"
  shows "wp (transition_to_source d prev src reason commit) (\<lambda>r. moved m src pin before (r = Inr True)) s"
proof -
  have still: "locked.still m s" using s by (auto simp: moved_def)
  show ?thesis
    by (rule wp_mono [OF wp_transition_moved [OF d still commit mode]], assumption, rule moved_trans [OF s])
qed

lemma auto_select_moves:
  fixes s :: "('w, 'z) mux_scheme"
  assumes d: "locked.guests d" and s: "mx_lock (mx s) = Mine" and owner: "mx_test_owner (mx s) = None"
  shows "wp (auto_select_winner_locked d src) (\<lambda>_. moves_with_lane (mx s) src None (trace s)) s"
proof -
  let ?M = "\<lambda>b. moved (mx s) src None (trace s) b"
  have start: "?M False s" using s by (simp add: moved_start locked.still_def lock_respected_refl)
  have failed: "wp (do { on_mx (mx_pending_update f); gate_none_unless_winner d; ret r })
      (\<lambda>_. moves_with_lane (mx s) src None (trace s)) s1" if "?M False s1" for f r and s1 :: "('w, 'z) mux_scheme"
    by (rule wp_moved [OF moved_pending that], rule wp_moved [OF moved_preempt(3) [OF d]], assumption)
      (simp add: wp_return moved_lane)
  have finished: "wp (do { preempted \<leftarrow> get_mx mx_preempted; onlyif (b \<and> preempted) (usbsink_set_preempt d False);
        release_airplay_locked d src; ret r })
      (\<lambda>_. moves_with_lane (mx s) src None (trace s)) s1" if "?M True s1" for b r and s1 :: "('w, 'z) mux_scheme"
    by (rule wp_moved [OF moved_preempt(4) [OF d] that],
        rule wp_moved [OF pres_onlyif [OF moved_preempt(1) [OF d]]], assumption,
        rule wp_moved [OF moved_preempt(2) [OF d]], assumption) (simp add: wp_return moved_lane)
  show ?thesis
    unfolding auto_select_winner_locked_def wp_get_mx_bind id_apply test_gate_error_def owner option.map option.case
    apply (rule wp_then [OF wp_transition_moves [OF d start commits(3) modes(3)]], assumption)
    subgoal for r s1
      by (cases r) (auto intro: failed finished moved_lane simp: wp_return split: bool.split)
    done
qed

lemma auto_transition_moves:
  fixes s :: "('w, 'z) mux_scheme"
  assumes d: "locked.guests d" and s: "mx_lock (mx s) = Mine" and manual: "mx_manual (mx s) = None"
  shows "wp (auto_transition_locked d src reason) (\<lambda>_. moves_with_lane (mx s) src None (trace s)) s"
proof -
  let ?M = "\<lambda>b. moved (mx s) src None (trace s) b"
  have start: "?M False s" using s by (simp add: moved_start locked.still_def lock_respected_refl)
  have failed: "wp (do { on_mx (mx_pending_update f); gate_none_unless_winner d; ret r })
      (\<lambda>_. moves_with_lane (mx s) src None (trace s)) s1" if "?M False s1" for f r and s1 :: "('w, 'z) mux_scheme"
    by (rule wp_moved [OF moved_pending that], rule wp_moved [OF moved_preempt(3) [OF d]], assumption)
      (simp add: wp_return moved_lane)
  have finished: "wp (do { release_airplay_locked d src; ret r })
      (\<lambda>_. moves_with_lane (mx s) src None (trace s)) s1" if "?M True s1" for r and s1 :: "('w, 'z) mux_scheme"
    by (rule wp_moved [OF moved_preempt(2) [OF d] that]) (simp add: wp_return moved_lane)
  have commit: "wp (commit_auto_winner src) (\<lambda>_. committed (mx s) src None) s1"
    if "locked.still (mx s) s1" for s1 :: "('w, 'z) mux_scheme"
    using commits(1) [OF that, of src] manual by simp
  show ?thesis
    unfolding auto_transition_locked_def wp_get_mx_bind manual
    apply (rule wp_ifI, simp)
    unfolding wp_get_mx_bind
    apply (rule wp_moved [OF pres_onlyif [OF moved_preempt(1) [OF d]] start])
    unfolding wp_get_mx_bind
    apply (rule wp_then [OF wp_transition_moves [OF d _ commit modes(1)]], assumption, assumption)
    subgoal for _ _ r s1
      by (cases r) (auto intro: failed finished moved_lane simp: wp_return split: bool.split)
    done
qed


section \<open>A demo mux\<close>

definition demo_mux_doors :: "demo mux_doors" where
  "demo_mux_doors = vol_doors.extend demo_doors (mux_doors.fields
     (\<lambda>_ m. m) (\<lambda>_ w. (Ret (), w)) (\<lambda>w. (None, w))
     (\<lambda>w. (Some True, w)) (\<lambda>w. (Some False, w)) (\<lambda>w. (Some False, w))
     (\<lambda>w. (True, w)) (\<lambda>w. (None, w)) (\<lambda>w. (None, w)) (\<lambda>w. (Ret (), w))
     False (\<lambda>w. (Ret [], w)) (\<lambda>_ w. (Ret (), w)) (\<lambda>w. (Ret True, w)) (\<lambda>t w. w\<lparr>dm_now := dm_now w + t\<rparr>))"

definition demo_mux_state :: "demo mux" where
  "demo_mux_state = coord.extend demo_coord (mux.fields demo_mux)"

lemma demo_mux_state_mx [simp]: "mx demo_mux_state = demo_mux" "trace demo_mux_state = []"
  by (simp_all add: demo_mux_state_def coord.defs mux.defs demo_coord_def)

lemma demo_mux_rival [simp]: "d_rival demo_mux_doors = (\<lambda>_ m. m)"
  by (simp add: demo_mux_doors_def vol_doors.defs mux_doors.defs)

lemma demo_mux_guests: "rivals_respect_lock demo_mux_doors" "no_rivals demo_mux_doors"
  by (simp_all add: rivals_respect_lock_def no_rivals_def lock_respected_refl)

lemma demo_mux_simps [simp]:
  "mx_test_owner demo_mux = None" "mx_manual demo_mux = None" "mx_winner demo_mux = None"
  "mx_test_label demo_mux = None" "mx_none_asserted demo_mux = False" "mx_preempted demo_mux = False"
  by (simp_all add: demo_mux_def mux_init_def read_manual_source_def)


end
