(* ===== verification/Mux_Safety.thy ===== *)
theory Mux_Safety
  imports Mux_Lock
begin

text \<open>
  Who may move the fan-in gate. While a measurement holds the test lease nobody but its owner changes
  the gate or the lease, and while the household pins a source the reconcile loop only ever reasserts
  that pin. Both rest on the locale \<open>stable_part\<close>, interpreted on the lease and on the pin.
\<close>

section \<open>What an observation leaves alone\<close>

lemma record_starts_mem: "\<exists>a b. snd (record_starts current ss m) = m\<lparr>mx_seq := a, mx_started_seq := b\<rparr>"
proof (induction ss arbitrary: m)
  case Nil
  show ?case by (rule exI [of _ "mx_seq m"], rule exI [of _ "mx_started_seq m"]) simp
next
  case (Cons s ss)
  obtain a b where "snd (record_starts current ss (m\<lparr>mx_seq := mx_seq m + 1,
      mx_started_seq := (mx_started_seq m)(s := mx_seq m + 1)\<rparr>)) = m\<lparr>mx_seq := a, mx_started_seq := b\<rparr>"
    using Cons [of "m\<lparr>mx_seq := mx_seq m + 1, mx_started_seq := (mx_started_seq m)(s := mx_seq m + 1)\<rparr>"] by auto
  then show ?case
    using Cons [of m] by (auto simp: Let_def split_beta)
qed

text \<open>A relation between memories that does not look at the observation state.\<close>

definition blind_to_observation :: "(mux_mem \<Rightarrow> mux_mem \<Rightarrow> bool) \<Rightarrow> bool" where
  "blind_to_observation R \<longleftrightarrow> (\<forall>m m1 p q k v n c. R m m1 \<longrightarrow> R m
     (m1\<lparr>mx_playing := p, mx_observations := q, mx_known_at := k, mx_probe_due := v, mx_seq := n,
         mx_started_seq := c\<rparr>))"

lemma blind_record:
  assumes "blind_to_observation R" "R m m1"
  shows "R m (snd (record_source_observation current m1))"
proof -
  obtain a b where "snd (record_starts current MUSIC_SOURCES m1) = m1\<lparr>mx_seq := a, mx_started_seq := b\<rparr>"
    using record_starts_mem by blast
  then have "snd (record_source_observation current m1) = m1\<lparr>mx_playing := current, mx_observations := mx_observations m1,
      mx_known_at := mx_known_at m1, mx_probe_due := mx_probe_due m1, mx_seq := a, mx_started_seq := b\<rparr>"
    by (simp add: record_source_observation_def split_beta)
  with assms show ?thesis
    unfolding blind_to_observation_def by metis
qed

lemma blind_resolve:
  assumes "blind_to_observation R" "R m m1"
  shows "R m (snd (resolve_probes now readings m1))"
proof -
  have "snd (resolve_probes now readings m1) = m1\<lparr>mx_playing := mx_playing m1,
      mx_observations := mx_observations (snd (resolve_probes now readings m1)),
      mx_known_at := mx_known_at (snd (resolve_probes now readings m1)),
      mx_probe_due := mx_probe_due (snd (resolve_probes now readings m1)), mx_seq := mx_seq m1,
      mx_started_seq := mx_started_seq m1\<rparr>"
    by (simp add: resolve_probes_def Let_def)
  with assms show ?thesis
    unfolding blind_to_observation_def by metis
qed

context stable_part
begin

lemma observe_calm:
  assumes "guests d" "blind_to_observation same"
  shows "pres (calm E m before) (observe_sources d defer)"
proof -
  have update: "wp (do { on_mx (\<lambda>_. f (mx s)); ret r }) (\<lambda>_. calm E m before) s"
    if "calm E m before s" "\<And>m1. same m m1 \<Longrightarrow> same m (f m1)" for f r and s :: "('w, 'z) mux_scheme"
    using that by (auto simp: on_mx_def wp_simps calm_def still_def)
  have probe: "pres (calm E m before) (probe_sources d defer)"
    unfolding probe_sources_def usbsink_streaming_def probe_unless_def
    by (intro calms assms get_mx_bind_calm)
      (auto simp: Let_def split_beta id_def intro!: update blind_resolve [OF assms(2)])
  show ?thesis
    unfolding observe_sources_def
    by (intro calms assms probe get_mx_bind_calm)
      (auto simp: Let_def split_beta id_def intro!: update blind_record [OF assms(2)])
qed

end

section \<open>A held test lease\<close>

definition lease_stays :: "mux_mem \<Rightarrow> mux_mem \<Rightarrow> bool" where
  "lease_stays m m1 \<longleftrightarrow> mx_test_owner m \<noteq> None \<longrightarrow> mx_test_owner m1 = mx_test_owner m \<and>
     mx_test_label m1 = mx_test_label m \<and> mx_test_expires m1 = mx_test_expires m"

interpretation leased: stable_part lease_stays
  by unfold_locales (auto simp: lease_stays_def)

lemma lease_blind: "blind_to_observation lease_stays"
  by (simp add: blind_to_observation_def lease_stays_def)

text \<open>The only gate command is \<open>SELECT\<close> of the lane \<open>l\<close>.\<close>

definition only_lane :: "string \<Rightarrow> event \<Rightarrow> bool" where
  "only_lane l e \<longleftrightarrow> (\<forall>c b. e = Gate c b \<longrightarrow> c = fanin_select_line l)"

lemma only_lane_volume: "volume_event e \<Longrightarrow> only_lane l e"
  by (cases e) (simp_all add: only_lane_def)

lemma lease_neutral [intro]:
  assumes "lease_stays m m1"
  shows "lease_stays m (mx_none_asserted_update f1 m1)" "lease_stays m (mx_gate_failures_update f2 m1)"
    "lease_stays m (mx_lock_update f3 m1)" "lease_stays m (mx_last_name_update f4 m1)"
    "lease_stays m (mx_preempted_update f5 m1)" "lease_stays m (mx_pending_update f6 m1)"
    "lease_stays m (mx_airplay_update f7 m1)" "lease_stays m (mx_age_update f8 m1)"
  using assms by (simp_all add: lease_stays_def)

text \<open>\<open>m\<close> is the memory of a mux whose lease \<open>o\<close> holds on the lane \<open>l\<close> until \<open>t\<close>.\<close>

definition lease_of :: "string \<Rightarrow> string \<Rightarrow> rat \<Rightarrow> mux_mem \<Rightarrow> bool" where
  "lease_of owner l t m \<longleftrightarrow>
     mx_test_owner m = Some owner \<and> mx_test_label m = Some l \<and> mx_test_expires m = Some t"

lemma calm_lease: "lease_of owner l t m \<Longrightarrow> leased.calm E m before s \<Longrightarrow> lease_of owner l t (mx s)"
  by (auto simp: leased.calm_def leased.still_def lease_stays_def lease_of_def)

abbreviation leased_calm ::
  "string \<Rightarrow> mux_mem \<Rightarrow> event list \<Rightarrow> ('w, 'z) mux_scheme \<Rightarrow> bool" where
  "leased_calm l m before \<equiv> leased.calm (only_lane l) m before"

lemma calm_with_lock:
  "leased.guests d \<Longrightarrow> pres (leased_calm l m before) body \<Longrightarrow>
   pres (leased_calm l m before) (with_transition_lock d body)"
  unfolding with_transition_lock_def
  by (intro leased.calms leased.on_mx_calm lease_neutral)

lemma calm_select_lane: "leased.guests d \<Longrightarrow> pres (leased_calm l m before) (fanin_select_label d l)"
  unfolding fanin_select_label_def fanin_gate_def
  by (intro leased.calms leased.on_mx_calm lease_neutral) (simp_all add: only_lane_def)

lemma calm_status:
  "pres (leased_calm l m before) (status_payload d g)" "pres (leased_calm l m before) (playing_status d)"
  "pres (leased_calm l m before) (control_status d)"
proof -
  show 1: "pres (leased_calm l m before) (status_payload d g)" for g
    unfolding status_payload_def active_source_name_def Let_def
    by (intro leased.calms leased.on_mx_calm lease_neutral)
  show "pres (leased_calm l m before) (playing_status d)" "pres (leased_calm l m before) (control_status d)"
    unfolding playing_status_def control_status_def by (intro leased.calms 1)+
qed

lemma calm_observe: "leased.guests d \<Longrightarrow> pres (leased_calm l m before) (observe_sources d defer)"
  by (intro leased.observe_calm lease_blind)

lemma calm_answer: "pres I (ret a)" by (rule pres_return)

lemma calm_select_source:
  assumes "leased.guests d" "lease_of owner l t m"
  shows "pres (leased_calm l m before) (select_source d src)" "pres (leased_calm l m before) (auto_select d)"
proof -
  have "pres (leased_calm l m before) (select_source_locked d src)"
    unfolding select_source_locked_def
    by (rule leased.get_mx_bind_calm)
      (frule calm_lease [OF assms(2)], auto simp: test_gate_error_def lease_of_def wp_return)
  then show "pres (leased_calm l m before) (select_source d src)"
    unfolding select_source_def status_after_observation_def
    by (intro leased.calms calm_with_lock calm_observe calm_status assms)
  show "pres (leased_calm l m before) (auto_select d)"
    unfolding auto_select_def
    by (rule leased.get_mx_bind_calm)
      (frule calm_lease [OF assms(2)], auto simp: test_gate_error_def lease_of_def wp_return)
qed

lemma calm_test_verbs:
  assumes "leased.guests d" "lease_of owner l t m" "py_strip name \<noteq> owner"
  shows "pres (leased_calm l m before) (select_test_fanin_label d label name)"
    "pres (leased_calm l m before) (release_test_fanin_label d name)"
proof -
  have "pres (leased_calm l m before) (select_test_locked d lab (py_strip name))" for lab
    unfolding select_test_locked_def
    by (rule leased.get_mx_bind_calm)
      (frule calm_lease [OF assms(2)], use assms(3) in \<open>auto simp: lease_of_def wp_return\<close>)
  then show "pres (leased_calm l m before) (select_test_fanin_label d label name)"
    unfolding select_test_fanin_label_def Let_def
    by (intro leased.calms calm_with_lock calm_status assms)
  have "pres (leased_calm l m before) (release_test_locked d (py_strip name))"
    unfolding release_test_locked_def
    by (rule leased.get_mx_bind_calm)
      (frule calm_lease [OF assms(2)], use assms(3) in \<open>auto simp: lease_of_def wp_return\<close>)
  then show "pres (leased_calm l m before) (release_test_fanin_label d name)"
    unfolding release_test_fanin_label_def Let_def
    by (intro leased.calms calm_with_lock calm_status assms)
qed

lemma calm_notify: "pres (leased_calm l m before) (control_notify d name)"
  unfolding control_notify_def notify_source_changed_def
  by (intro leased.calms leased.on_mx_calm) (simp add: lease_stays_def)

lemma calm_preempt: "leased.guests d \<Longrightarrow> pres (leased_calm l m before) (control_preempt d name)"
  unfolding control_preempt_def airplay_release_def set_cleanup_def
  by (intro leased.calms leased.on_mx_calm lease_neutral calm_with_lock) (simp_all add: only_lane_def)

lemma calm_tick:
  fixes d :: "('w, 'y) mux_doors_scheme"
  assumes "leased.guests d" "lease_of owner l t m" "\<And>w. d_mono d w < t"
  shows "pres (leased_calm l m before) (tick d defer)"
proof -
  have reassert: "pres (leased_calm l m before) (reassert_test_fanin_label d)"
    unfolding reassert_test_fanin_label_def
    by (intro calm_with_lock leased.get_mx_bind_calm assms)
      (frule calm_lease [OF assms(2)], auto simp: lease_of_def intro!: wp_pres leased.calms calm_select_lane [OF assms(1)])
  have rest: "pres (leased_calm l m before) (do {
       label \<leftarrow> get_mx mx_test_label;
       manual \<leftarrow> get_mx mx_manual;
       if label \<noteq> None then do { reassert_test_fanin_label d; ret (Inr ()) }
       else if manual \<noteq> None then do { reassert_manual_source d; ret (Inr ()) }
       else tick_auto d current newly })" for current newly
    by (rule leased.get_mx_bind_calm)
      (frule calm_lease [OF assms(2)], auto simp: lease_of_def intro!: wp_pres leased.calms reassert)
  have "\<not> test_lease_expired (d_mono d w) m1" if "lease_of owner l t m1" for w m1
    using that assms(3) [of w] by (simp add: test_lease_expired_def lease_of_def)
  then have expire: "wp (expire_test_lease d) (\<lambda>r s'. leased_calm l m before s' \<and> r = Inr ()) s"
    if "leased_calm l m before s" for s :: "('w, 'z) mux_scheme"
    using that calm_lease [OF assms(2) that]
    by (simp add: expire_test_lease_def get_mx_def wp_simps)
  show ?thesis
    unfolding tick_def
    apply (rule pres_bind [OF calm_observe [OF assms(1)]], rule pres_case_prod)
    apply (rule pres_bind [OF leased.on_mx_calm [OF lease_neutral(8)]], assumption)
    apply (rule pres_wpI, rule wp_then [OF expire], assumption)
    apply (erule conjE, simp only: sum.case, rule wp_pres [OF rest], assumption)
    done
qed

text \<open>The words after the verb of a control line, and whether the lease owner is among them.\<close>

definition arguments :: "string \<Rightarrow> string list" where
  "arguments raw = (case split_once (py_strip raw) of [_, rest] \<Rightarrow> py_split rest | _ \<Rightarrow> [])"

definition speaks_for :: "string \<Rightarrow> string \<Rightarrow> bool" where
  "speaks_for owner raw \<longleftrightarrow> owner \<in> set (map py_strip (arguments raw))"

lemma control_args_words:
  "control_args (py_strip raw) (Words n) = Some args \<Longrightarrow> args = arguments raw"
  by (auto simp: control_args_def arguments_def Let_def split_once_def py_split.simps [of "[]"] split: if_splits)

lemma calm_call_verb:
  assumes "leased.guests d" "lease_of owner l t m"
    and "meth = TestSelect \<or> meth = TestRelease \<Longrightarrow> owner \<notin> py_strip ` set args"
  shows "pres (leased_calm l m before) (call_verb d meth args)"
  using assms
  by (cases "(d, meth, args)" rule: call_verb.cases)
    (auto simp: control_select_def intro!: pres_return pres_case_option calm_status calm_select_source calm_notify
      calm_preempt calm_test_verbs)

lemma test_verb_arity:
  assumes "CONTROL_VERBS w = Some v" "cv_method v = TestSelect \<or> cv_method v = TestRelease"
  shows "cv_arity v = Words 2 \<or> cv_arity v = Words 1"
  using assms unfolding CONTROL_VERBS_def by (auto split: if_splits)

lemma calm_control_line:
  assumes "leased.guests d" "lease_of owner l t m" "\<not> speaks_for owner raw"
  shows "pres (leased_calm l m before) (handle_control_line d raw)"
proof -
  have call: "pres (leased_calm l m before) (call_verb d (cv_method v) args)"
    if v: "CONTROL_VERBS w = Some v" and a: "control_args (py_strip raw) (cv_arity v) = Some args" for w v args
  proof (rule calm_call_verb [OF assms(1,2)])
    assume "cv_method v = TestSelect \<or> cv_method v = TestRelease"
    then obtain n where "cv_arity v = Words n"
      using test_verb_arity [OF v] by blast
    with control_args_words a assms(3) show "owner \<notin> py_strip ` set args"
      by (auto simp: speaks_for_def)
  qed
  show ?thesis
    unfolding handle_control_line_def Let_def
    by (intro leased.calms) (auto split: list.splits intro: call)
qed

text \<open>
  C29. A measurement's lease is exclusive. While an owner holds the diagnostic lane and nobody else of
  mux's tasks touches the lease, no reconcile tick before the expiry and no control command that does
  not name the owner moves the gate: the only command sent to it is the \<open>SELECT\<close> of the leased lane,
  and the lease (owner, lane and expiry) stays as it is. That covers source selection, the return to
  auto, another client's test verbs, preemption, wake hints, malformed lines and every failure of the
  gate on the way.
\<close>

theorem test_lease_is_exclusive:
  assumes "lease_of owner l t (mx s)" "leased.guests d"
  shows "((\<forall>w. d_mono d w < t) \<longrightarrow> wp (tick d defer) (\<lambda>_ s'. lease_of owner l t (mx s') \<and>
      (\<exists>es. trace s' = trace s @ es \<and> (\<forall>e \<in> set es. only_lane l e))) s) \<and>
    (\<not> speaks_for owner raw \<longrightarrow> wp (handle_control_line d raw) (\<lambda>_ s'. lease_of owner l t (mx s') \<and>
      (\<exists>es. trace s' = trace s @ es \<and> (\<forall>e \<in> set es. only_lane l e))) s)"
proof -
  have start: "leased_calm l (mx s) (trace s) s"
    by (simp add: leased.calm_def leased.still_def lease_stays_def)
  have result: "wp p (\<lambda>_ s'. lease_of owner l t (mx s') \<and>
      (\<exists>es. trace s' = trace s @ es \<and> (\<forall>e \<in> set es. only_lane l e))) s"
    if "pres (leased_calm l (mx s) (trace s)) p" for p
    by (rule wp_mono [OF wp_pres [OF that start]])
      (frule calm_lease [OF assms(1)], auto simp: leased.calm_def)
  show ?thesis
    using calm_tick [OF assms(2,1)] calm_control_line [OF assms(2,1)] by (auto intro!: result)
qed

definition leased_mux :: mux_mem where
  "leased_mux = demo_mux\<lparr>mx_test_label := Some ''correction'', mx_test_owner := Some ''room'',
     mx_test_expires := Some 60\<rparr>"

lemma test_lease_is_exclusive_witness:
  "wp (handle_control_line demo_mux_doors ''SELECT airplay'')
     (\<lambda>_ s'. lease_of ''room'' ''correction'' 60 (mx s') \<and>
        (\<exists>es. trace s' = es \<and> (\<forall>e \<in> set es. only_lane ''correction'' e)))
     (demo_mux_state\<lparr>mx := leased_mux\<rparr>)"
proof -
  let ?s = "demo_mux_state\<lparr>mx := leased_mux\<rparr>"
  have lease: "lease_of ''room'' ''correction'' 60 (mx ?s)"
    by (simp add: lease_of_def leased_mux_def)
  have "leased.guests demo_mux_doors"
    by (simp add: leased.guests_def lease_stays_def)
  moreover have "\<not> speaks_for ''room'' ''SELECT airplay''"
    by code_simp
  ultimately show ?thesis
    using test_lease_is_exclusive [OF lease, of demo_mux_doors "{}" "''SELECT airplay''"] by simp
qed

section \<open>A manual pin\<close>

definition pin_stays :: "mux_mem \<Rightarrow> mux_mem \<Rightarrow> bool" where
  "pin_stays m m1 \<longleftrightarrow> mx_manual m1 = mx_manual m \<and> mx_mode_file m1 = mx_mode_file m \<and>
     mx_test_label m1 = mx_test_label m \<and> mx_test_owner m1 = mx_test_owner m \<and>
     mx_test_expires m1 = mx_test_expires m"

interpretation pinned: stable_part pin_stays
  by unfold_locales (auto simp: pin_stays_def)

lemma pin_blind: "blind_to_observation pin_stays"
  by (simp add: blind_to_observation_def pin_stays_def)

lemma pin_neutral [intro]:
  assumes "pin_stays m m1"
  shows "pin_stays m (mx_none_asserted_update f1 m1)" "pin_stays m (mx_gate_failures_update f2 m1)"
    "pin_stays m (mx_lock_update f3 m1)" "pin_stays m (mx_preempted_update f4 m1)"
    "pin_stays m (mx_age_update f5 m1)"
  using assms by (simp_all add: pin_stays_def)

lemma emits_pin_select:
  "SOURCE_TO_FANIN_LABEL p = Some l \<Longrightarrow>
   emits (\<lambda>_ es. \<exists>b. es = [Gate (fanin_select_line l) b]) (fanin_select d p)"
  by (rule emits_mono [OF emits_fanin_select]) auto

definition reasserted :: "string \<Rightarrow> mux_mem \<Rightarrow> event list \<Rightarrow> ('w, 'z) mux_scheme \<Rightarrow> bool" where
  "reasserted l m before s \<longleftrightarrow> pinned.still m s \<and> (\<exists>es. trace s = before @ es \<and>
     (\<forall>e \<in> set es. only_lane l e) \<and> (\<exists>b. Gate (fanin_select_line l) b \<in> set es))"

lemma reassertedI:
  fixes p :: "(('w, 'z) mux_scheme, 'x) state"
  assumes "pres (pinned.still m) p" "emits_only (only_lane l) p"
  shows "pres (reasserted l m before) p"
proof (rule pres_wpI)
  fix s :: "('w, 'z) mux_scheme"
  assume s: "reasserted l m before s"
  have "wp p (\<lambda>_. pinned.still m) s"
    using s by (intro wp_pres [OF assms(1)]) (simp add: reasserted_def)
  moreover obtain es b where "trace s = before @ es" "\<forall>e \<in> set es. only_lane l e"
      "Gate (fanin_select_line l) b \<in> set es"
    using s by (auto simp: reasserted_def)
  moreover obtain fs where "trace (snd (run_state p s)) = trace s @ fs" "\<forall>e \<in> set fs. only_lane l e"
    using wp_emits [OF assms(2), of s] unfolding wp_def by blast
  ultimately have "trace (snd (run_state p s)) = before @ (es @ fs) \<and> (\<forall>e \<in> set (es @ fs). only_lane l e) \<and>
      (\<exists>b. Gate (fanin_select_line l) b \<in> set (es @ fs))" "pinned.still m (snd (run_state p s))"
    unfolding wp_def by auto
  then show "wp p (\<lambda>_. reasserted l m before) s"
    unfolding wp_def reasserted_def by blast
qed

lemma calm_reasserted:
  assumes "pinned.calm (only_lane l) m before s" "pres (pinned.still m) p"
    "emits (\<lambda>_ es. \<exists>b. es = [Gate (fanin_select_line l) b]) p"
  shows "wp p (\<lambda>_. reasserted l m before) s"
proof -
  have "wp p (\<lambda>_. pinned.still m) s"
    using assms(1) by (intro wp_pres [OF assms(2)]) (simp add: pinned.calm_def)
  moreover obtain b where "trace (snd (run_state p s)) = trace s @ [Gate (fanin_select_line l) b]"
    using wp_emits [OF assms(3), of s] unfolding wp_def by auto
  moreover obtain es where "trace s = before @ es" "\<forall>e \<in> set es. only_lane l e"
    using assms(1) unfolding pinned.calm_def by blast
  ultimately have "trace (snd (run_state p s)) = before @ (es @ [Gate (fanin_select_line l) b]) \<and>
      (\<forall>e \<in> set (es @ [Gate (fanin_select_line l) b]). only_lane l e) \<and>
      (\<exists>c. Gate (fanin_select_line l) c \<in> set (es @ [Gate (fanin_select_line l) b]))"
      "pinned.still m (snd (run_state p s))"
    unfolding wp_def by (auto simp: only_lane_def)
  then show ?thesis
    unfolding wp_def reasserted_def by blast
qed

lemma pin_select_still: "pinned.guests d \<Longrightarrow> pres (pinned.still m) (fanin_select d p)"
  unfolding fanin_select_def fanin_select_label_def fanin_gate_def
  by (intro pinned.stays pinned.on_mx_still pin_neutral)

lemma pin_mute:
  assumes "pinned.guests d"
  shows "pres (pinned.still m) (usbsink_set_preempt d b)" "emits_only (only_lane l) (usbsink_set_preempt d b)"
proof -
  show "pres (pinned.still m) (usbsink_set_preempt d b)"
    unfolding usbsink_set_preempt_def fanin_lane_mute_def
    by (intro pinned.stays pinned.on_mx_still pin_neutral assms)
  have mx: "emits_only (only_lane l) (on_mx f)" "emits_only (only_lane l) (get_mx g)"
    "emits_only (only_lane l) (mawait d k)" for f g k
    by (intro emits_silent silent_mx; simp)+
  show "emits_only (only_lane l) (usbsink_set_preempt d b)"
    unfolding usbsink_set_preempt_def fanin_lane_mute_def
    by (intro emits_intros mx) (simp add: only_lane_def)
qed

lemma wp_with_lock:
  fixes s :: "('w, 'z) mux_scheme"
  assumes "\<And>b f. pres I (onlyif b (mawait d f))" "\<And>v. pres I (on_mx (mx_lock_update (\<lambda>_. v)))" "I s"
    and "\<And>s1. I s1 \<Longrightarrow> wp body (\<lambda>a s2. Q a (s2\<lparr>mx := mx_lock_update (\<lambda>_. Free) (mx s2)\<rparr>)) s1"
  shows "wp (with_transition_lock d body) Q s"
  unfolding with_transition_lock_def wp_get_mx_bind
  apply (rule wp_pres_bind [OF assms(1) assms(3)], rule wp_pres_bind [OF assms(2)], assumption)
  apply (rule wp_then [OF assms(4)], assumption)
  by (simp add: wp_on_mx_bind wp_return)

lemma pinned_reassert:
  fixes s :: "('w, 'z) mux_scheme"
  assumes d: "pinned.guests d" and s: "pinned.calm (only_lane l) m before s"
    and p: "mx_manual m = Some p" "SOURCE_TO_FANIN_LABEL p = Some l"
  shows "wp (reassert_manual_source d)
    (\<lambda>_ s'. reasserted l m before s' \<and> mx_winner (mx s') = Some p \<and> mx_pending (mx s') = None) s"
proof -
  have wait: "pres (pinned.calm (only_lane l) m before) (onlyif b (mawait d f))"
    "pres (pinned.calm (only_lane l) m before) (on_mx (mx_lock_update (\<lambda>_. v)))" for b f v
    by (intro pinned.calms pinned.on_mx_calm pin_neutral d; assumption)+
  have rest: "wp (on_mx (\<lambda>m. m\<lparr>mx_winner := Some p, mx_pending := None\<rparr>))
     (\<lambda>_ s2. reasserted l m before (s2\<lparr>mx := mx_lock_update (\<lambda>_. Free) (mx s2)\<rparr>) \<and>
        mx_winner (mx (s2\<lparr>mx := mx_lock_update (\<lambda>_. Free) (mx s2)\<rparr>)) = Some p \<and>
        mx_pending (mx (s2\<lparr>mx := mx_lock_update (\<lambda>_. Free) (mx s2)\<rparr>)) = None) s1"
    if "reasserted l m before s1" for s1 :: "('w, 'z) mux_scheme"
    using that by (auto simp: on_mx_def wp_simps reasserted_def pinned.still_def pin_stays_def)
  show ?thesis
    unfolding reassert_manual_source_def
  proof (rule wp_with_lock [OF wait s])
    fix s1 :: "('w, 'z) mux_scheme"
    assume s1: "pinned.calm (only_lane l) m before s1"
    then have manual: "mx_manual (mx s1) = Some p"
      using p(1) by (simp add: pinned.calm_def pinned.still_def pin_stays_def)
    show "wp (do { manual \<leftarrow> get_mx mx_manual;
        case manual of None \<Rightarrow> ret () | Some source \<Rightarrow> do {
          _ \<leftarrow> fanin_select d source;
          preempted \<leftarrow> get_mx mx_preempted;
          onlyif preempted (usbsink_set_preempt d False);
          on_mx (\<lambda>m. m\<lparr>mx_winner := Some source, mx_pending := None\<rparr>) } })
      (\<lambda>_ s2. reasserted l m before (s2\<lparr>mx := mx_lock_update (\<lambda>_. Free) (mx s2)\<rparr>) \<and>
        mx_winner (mx (s2\<lparr>mx := mx_lock_update (\<lambda>_. Free) (mx s2)\<rparr>)) = Some p \<and>
        mx_pending (mx (s2\<lparr>mx := mx_lock_update (\<lambda>_. Free) (mx s2)\<rparr>)) = None) s1"
      unfolding wp_get_mx_bind manual option.case
      apply (rule wp_then [OF calm_reasserted [OF s1 pin_select_still [OF d] emits_pin_select [OF p(2)]]])
      unfolding wp_get_mx_bind
      apply (rule wp_pres_bind [OF pres_onlyif [OF reassertedI [OF pin_mute [OF d]]]], assumption)
      apply (rule rest, assumption)
      done
  qed
qed



section \<open>The patrol's schedule\<close>

lemma advance_patrol_closed:
  "advance_patrol now next_patrol = next_patrol + of_int (max 0 (\<lfloor>now - next_patrol\<rfloor> + 1))"
proof (induction now next_patrol rule: advance_patrol.induct)
  case (1 now next_patrol)
  have unit_step: "\<lfloor>now - (next_patrol + 1)\<rfloor> = \<lfloor>now - next_patrol\<rfloor> - 1" by linarith
  show ?case
  proof (cases "next_patrol \<le> now")
    case True
    then have "0 \<le> \<lfloor>now - next_patrol\<rfloor>" by linarith
    then show ?thesis
      using 1 [OF True] True unit_step
      by (subst advance_patrol.simps) (simp add: POLL_INTERVAL_SEC_def max_def)
  next
    case False
    then have "\<lfloor>now - next_patrol\<rfloor> + 1 \<le> 0" by linarith
    then show ?thesis using False by (subst advance_patrol.simps) simp
  qed
qed

definition on_grid :: "rat \<Rightarrow> rat \<Rightarrow> bool" where
  "on_grid t0 t \<longleftrightarrow> (\<exists>k :: nat. t = t0 + of_nat k)"

lemma on_grid_refl: "on_grid t t"
  unfolding on_grid_def by (rule exI [of _ 0]) simp

lemma on_grid_advance: "on_grid t0 t \<Longrightarrow> on_grid t0 (advance_patrol now t)"
  unfolding on_grid_def advance_patrol_closed
  by (metis add.assoc max.cobounded1 of_int_of_nat_eq of_nat_add zero_le_imp_eq_int)

lemma wp_run_round: "on_grid t0 t \<Longrightarrow> wp (run_round d t) (\<lambda>t' _. on_grid t0 t') s"
  unfolding run_round_def Let_def
  apply (rule wp_bind_any)+
  apply (rule wp_ifI)
  apply (simp add: wp_return)
  apply (rule wp_bind_any, simp add: wp_return on_grid_advance)
  done

text \<open>
  The patrol keeps its grid. Catching up takes exactly as many steps as whole intervals have passed,
  and ends with a patrol in the future, at most one interval away; over any number of rounds, whatever the
  alerts and however long a reconcile takes, the next patrol stays a whole number of intervals after the
  first one.
\<close>

theorem patrol_keeps_its_grid:
  fixes now next_patrol :: rat
  shows "advance_patrol now next_patrol = next_patrol + of_int (max 0 (\<lfloor>now - next_patrol\<rfloor> + 1)) \<and>
    now < advance_patrol now next_patrol \<and>
    advance_patrol now next_patrol \<le> max next_patrol (now + POLL_INTERVAL_SEC) \<and>
    wp (run_rounds d n next_patrol) (\<lambda>t _. on_grid next_patrol t) s"
proof (intro conjI)
  show "now < advance_patrol now next_patrol"
    "advance_patrol now next_patrol \<le> max next_patrol (now + POLL_INTERVAL_SEC)"
    unfolding advance_patrol_closed POLL_INTERVAL_SEC_def by linarith+
  have "on_grid t0 t \<Longrightarrow> wp (run_rounds d n t) (\<lambda>t' _. on_grid t0 t') s" for t0 t s
  proof (induction n arbitrary: t s)
    case (Suc n)
    then show ?case by (auto intro: wp_then [OF wp_run_round])
  qed (simp add: wp_return)
  then show "wp (run_rounds d n next_patrol) (\<lambda>t _. on_grid next_patrol t) s" using on_grid_refl by blast
qed (rule advance_patrol_closed)

end
