(* ===== verification/Env_File.thy ===== *)
theory Env_File
  imports Py_Text "HOL-Library.AList"
begin

text \<open>
  \<open>jasper/platform/env_file.py\<close>: parsing an env file, the quote rule, and editing one key in place. Texts
  are strings of one-byte characters. Shown: printing and parsing again is the identity on parsed lines,
  and an edit touches the lines of its key only.
\<close>

section \<open>Lines\<close>

text \<open>\<open>(key, Some value)\<close> is an assignment, \<open>(raw, None)\<close> a line kept verbatim.\<close>

type_synonym env_line = "string \<times> string option"

abbreviation equals_sign :: char where "equals_sign \<equiv> CHR ''=''"

definition parse_env_line :: "string \<Rightarrow> env_line" where
  "parse_env_line raw =
     (let s = py_strip raw
      in if s = [] \<or> hd s = CHR 0x23 \<or> equals_sign \<notin> set s then (raw, None)
         else (py_strip (takeWhile (\<lambda>c. c \<noteq> equals_sign) s),
               Some (tl (dropWhile (\<lambda>c. c \<noteq> equals_sign) s))))"

definition parse_env_lines :: "string \<Rightarrow> env_line list" where
  "parse_env_lines text = map parse_env_line (splitlines text)"

section \<open>Quoting\<close>

abbreviation dquote :: char where "dquote \<equiv> CHR 0x22"
abbreviation squote :: char where "squote \<equiv> CHR 0x27"
abbreviation backslash :: char where "backslash \<equiv> CHR 0x5C"
abbreviation backtick :: char where "backtick \<equiv> CHR 0x60"
abbreviation dollar :: char where "dollar \<equiv> CHR 0x24"

definition escapable :: "char \<Rightarrow> bool" where
  "escapable c \<longleftrightarrow> c = backslash \<or> c = dquote \<or> c = backtick \<or> c = dollar"

fun unescape :: "string \<Rightarrow> string" where
  "unescape (b # c # w) =
     (if b = backslash \<and> escapable c then c # unescape w else b # unescape (c # w))"
| "unescape w = w"

definition unquoted :: "string \<Rightarrow> string" where
  "unquoted value =
     (let v = py_strip value
      in if 2 \<le> length v \<and> hd v = last v \<and> (hd v = dquote \<or> hd v = squote)
         then if hd v = dquote then unescape (butlast (tl v)) else butlast (tl v)
         else v)"

definition replace_char :: "char \<Rightarrow> string \<Rightarrow> string \<Rightarrow> string" where
  "replace_char c w s = concat (map (\<lambda>x. if x = c then w else [x]) s)"

definition quote_env_value :: "string \<Rightarrow> string" where
  "quote_env_value value =
     (let escaped = replace_char backtick [backslash, backtick]
            (replace_char dollar [backslash, dollar]
            (replace_char dquote [backslash, dquote]
            (replace_char backslash [backslash, backslash] value)))
      in [dquote] @ escaped @ [dquote])"

section \<open>Reading\<close>

definition render_line :: "env_line \<Rightarrow> string" where
  "render_line l = (case l of (k, None) \<Rightarrow> k | (k, Some v) \<Rightarrow> k @ [equals_sign] @ v)"

fun render :: "env_line list \<Rightarrow> string" where
  "render [] = []"
| "render [l] = render_line l"
| "render (l # ls) = render_line l @ [CHR 0x0A] @ render ls"

definition read_value :: "string \<Rightarrow> string \<Rightarrow> string option" where
  "read_value text key =
     foldl (\<lambda>found (k, v). case v of None \<Rightarrow> found | Some x \<Rightarrow> if k = key then Some (unquoted x) else found)
       None (parse_env_lines text)"

definition parse_env_mapping :: "string \<Rightarrow> (string \<times> string) list" where
  "parse_env_mapping text =
     foldl (\<lambda>d (k, v). case v of None \<Rightarrow> d | Some x \<Rightarrow> AList.update k (unquoted x) d) [] (parse_env_lines text)"

section \<open>Editing one key\<close>

text \<open>The loop of \<open>upsert\<close>: the new lines, \<open>found\<close> and \<open>changed\<close>.\<close>

fun upsert_lines :: "string \<Rightarrow> string \<Rightarrow> bool \<Rightarrow> env_line list \<Rightarrow> env_line list \<times> bool \<times> bool" where
  "upsert_lines key value found [] = ([], found, False)"
| "upsert_lines key value found ((k, v) # lines) =
     (case v of
        Some x \<Rightarrow>
          if k = key then
            if found then (let (ls, f, c) = upsert_lines key value True lines in (ls, f, True))
            else let (ls, f, c) = upsert_lines key value True lines
                 in if unquoted x = value then ((k, v) # ls, f, c) else ((key, Some value) # ls, f, True)
          else let (ls, f, c) = upsert_lines key value found lines in ((k, v) # ls, f, c)
      | None \<Rightarrow> let (ls, f, c) = upsert_lines key value found lines in ((k, v) # ls, f, c))"

definition upsert :: "string \<Rightarrow> string \<Rightarrow> string \<Rightarrow> string \<times> bool" where
  "upsert text key value =
     (let (ls, found, changed) = upsert_lines key value False (parse_env_lines text)
      in if found then (render ls @ [CHR 0x0A], changed)
         else (render (ls @ [(key, Some value)]) @ [CHR 0x0A], True))"

definition assigns :: "string \<Rightarrow> env_line \<Rightarrow> bool" where
  "assigns key l \<longleftrightarrow> snd l \<noteq> None \<and> fst l = key"

definition remove :: "string \<Rightarrow> string \<Rightarrow> string \<times> bool" where
  "remove text key =
     (let ls = parse_env_lines text; body = render (filter (\<lambda>l. \<not> assigns key l) ls)
      in (if body = [] then [] else body @ [CHR 0x0A], \<exists>l \<in> set ls. assigns key l))"

section \<open>Printing and parsing again\<close>

text \<open>A line that survives being written and read back.\<close>

definition normal_line :: "env_line \<Rightarrow> bool" where
  "normal_line l \<longleftrightarrow> one_line (render_line l) \<and> parse_env_line (render_line l) = l"

text \<open>A key that can stand in a file: the code's own keys are of this form.\<close>

definition env_key :: "string \<Rightarrow> bool" where
  "env_key k \<longleftrightarrow> stripped k \<and> equals_sign \<notin> set k \<and> (k \<noteq> [] \<longrightarrow> hd k \<noteq> CHR 0x23) \<and> one_line k"

lemma equals_sign_visible [simp]: "\<not> is_space equals_sign" "\<not> line_end equals_sign"
  by (simp_all add: is_space_def line_end_def)

lemma split_at_equals:
  assumes "equals_sign \<notin> set k"
  shows "takeWhile (\<lambda>c. c \<noteq> equals_sign) (k @ equals_sign # v) = k"
    "dropWhile (\<lambda>c. c \<noteq> equals_sign) (k @ equals_sign # v) = equals_sign # v"
  using assms by (induction k) auto

lemma parse_assignment:
  assumes "env_key k"
  shows "parse_env_line (k @ equals_sign # v) = (k, Some (py_rstrip v))"
proof -
  have "py_strip (k @ equals_sign # v) = k @ equals_sign # py_rstrip v"
    using assms by (intro py_strip_middle) (auto simp: env_key_def stripped_def)
  moreover have "hd (k @ equals_sign # py_rstrip v) \<noteq> CHR 0x23"
    using assms by (cases k) (auto simp: env_key_def)
  ultimately show ?thesis
    using assms split_at_equals [of k "py_rstrip v"]
    by (simp add: parse_env_line_def Let_def env_key_def py_strip_id)
qed

lemma parse_env_line_cases:
  assumes "one_line raw"
  obtains "parse_env_line raw = (raw, None)"
  | k v where "parse_env_line raw = (k, Some v)" "env_key k" "one_line v" "py_rstrip v = v"
proof (cases "let s = py_strip raw in s = [] \<or> hd s = CHR 0x23 \<or> equals_sign \<notin> set s")
  case True
  then show thesis
    using that(1) by (simp add: parse_env_line_def Let_def)
next
  case False
  define s where "s = py_strip raw"
  have s: "s \<noteq> []" "hd s \<noteq> CHR 0x23" "equals_sign \<in> set s" "stripped s" "one_line s"
    using False assms by (auto simp: s_def Let_def py_strip_stripped one_line_strip)
  obtain k v where v: "s = k @ equals_sign # v" and no: "equals_sign \<notin> set k"
    using split_list_first [OF s(3)] by blast
  have parse: "parse_env_line raw = (py_strip k, Some v)"
    using s(1-3) split_at_equals [OF no, of v] v by (simp add: parse_env_line_def Let_def flip: s_def)
  have "py_strip k = py_rstrip k"
    using s(4) v by (cases k) (simp_all add: py_strip_rstrip_after stripped_def)
  then have "py_strip k \<noteq> [] \<Longrightarrow> hd (py_strip k) = hd k"
    using rstrip_split [of k] by (metis hd_append2)
  moreover have "py_strip k \<noteq> [] \<Longrightarrow> hd k = hd s"
    using v by (cases k) (auto simp: py_strip_def)
  ultimately have "env_key (py_strip k)"
    using s(2,5) v no set_py_strip [of k]
    by (auto simp: env_key_def py_strip_stripped one_line_strip)
  moreover have "py_rstrip v = v"
    using s(4) v by (intro py_rstrip_id) (auto simp: stripped_def)
  ultimately show thesis
    using that(2) [OF parse] s(5) v by simp
qed

lemma parse_env_line_normal:
  assumes "one_line raw"
  shows "normal_line (parse_env_line raw)"
  using assms
proof (cases rule: parse_env_line_cases)
  case 1
  then show ?thesis using assms by (simp add: normal_line_def render_line_def)
next
  case (2 k v)
  then show ?thesis
    using parse_assignment [of k v] by (simp add: normal_line_def render_line_def env_key_def)
qed

lemma parse_env_lines_normal: "\<forall>l \<in> set (parse_env_lines text). normal_line l"
  using splitlines_one_line [of "text"] by (auto simp: parse_env_lines_def intro: parse_env_line_normal)

lemma parse_env_lines_assignments:
  assumes "(k, Some v) \<in> set (parse_env_lines text)"
  shows "env_key k" "one_line v"
proof -
  obtain raw where "one_line raw" "parse_env_line raw = (k, Some v)"
    using assms splitlines_one_line [of "text"] by (auto simp: parse_env_lines_def)
  then show "env_key k" "one_line v"
    by (auto elim: parse_env_line_cases)
qed

lemma render_join: "ls \<noteq> [] \<Longrightarrow> render ls @ [CHR 0x0A] = join_lines (map render_line ls)"
  by (induction ls rule: render.induct) (simp_all add: join_lines_def)

lemma parse_join:
  "\<forall>l \<in> set ls. one_line (render_line l) \<Longrightarrow>
   parse_env_lines (join_lines (map render_line ls)) = map (\<lambda>l. parse_env_line (render_line l)) ls"
  by (simp add: parse_env_lines_def splitlines_join)

lemma parse_render:
  assumes "ls \<noteq> []" "\<forall>l \<in> set ls. normal_line l \<or> (\<exists>k v. l = (k, Some v) \<and> env_key k \<and> one_line v)"
  shows "parse_env_lines (render ls @ [CHR 0x0A]) =
    map (\<lambda>l. if normal_line l then l else (fst l, map_option py_rstrip (snd l))) ls"
proof -
  have "parse_env_lines (render ls @ [CHR 0x0A]) = map (\<lambda>l. parse_env_line (render_line l)) ls"
    unfolding render_join [OF assms(1)] using assms(2)
    by (intro parse_join) (auto simp: normal_line_def render_line_def env_key_def)
  also have "\<dots> = map (\<lambda>l. if normal_line l then l else (fst l, map_option py_rstrip (snd l))) ls"
  proof (rule map_cong [OF refl])
    fix l assume "l \<in> set ls"
    with assms(2) consider "normal_line l" | k v where "l = (k, Some v)" "env_key k" by blast
    then show "parse_env_line (render_line l) =
        (if normal_line l then l else (fst l, map_option py_rstrip (snd l)))"
      by cases (auto simp: normal_line_def render_line_def parse_assignment)
  qed
  finally show ?thesis .
qed

section \<open>What an edit of one key does\<close>

text \<open>The values assigned to a key, in order, and what the lines say besides.\<close>

definition values_of :: "string \<Rightarrow> env_line list \<Rightarrow> string list" where
  "values_of key ls = map (\<lambda>l. the (snd l)) (filter (assigns key) ls)"

definition others :: "string \<Rightarrow> env_line list \<Rightarrow> env_line list" where
  "others key ls = filter (\<lambda>l. \<not> assigns key l) ls"

definition lookup_line :: "string option \<Rightarrow> string list \<Rightarrow> string option" where
  "lookup_line start vs = (if vs = [] then start else Some (unquoted (last vs)))"

lemma values_of_simps [simp]:
  "values_of key [] = []"
  "values_of key ((k, None) # ls) = values_of key ls"
  "values_of key ((k, Some v) # ls) = (if k = key then v # values_of key ls else values_of key ls)"
  "values_of key (ls @ ls') = values_of key ls @ values_of key ls'"
  by (simp_all add: values_of_def assigns_def)

lemma others_simps [simp]:
  "others key [] = []" "others key ((k, None) # ls) = (k, None) # others key ls"
  "others key ((k, Some v) # ls) = (if k = key then others key ls else (k, Some v) # others key ls)"
  "others key (ls @ ls') = others key ls @ others key ls'"
  by (simp_all add: others_def assigns_def)

lemma foldl_read:
  "foldl (\<lambda>found (k, v). case v of None \<Rightarrow> found | Some x \<Rightarrow> if k = key then Some (unquoted x) else found) start ls =
   lookup_line start (values_of key ls)"
proof (induction ls arbitrary: start)
  case (Cons l ls)
  then show ?case
    by (cases l; cases "snd l") (auto simp: lookup_line_def)
qed (simp add: lookup_line_def)

lemma read_value_values: "read_value text key = lookup_line None (values_of key (parse_env_lines text))"
  by (simp add: read_value_def foldl_read)

lemma env_line_induct [case_names Nil Verbatim Assignment]:
  assumes "P []" "\<And>k ls. P ls \<Longrightarrow> P ((k, None) # ls)" "\<And>k v ls. P ls \<Longrightarrow> P ((k, Some v) # ls)"
  shows "P (ls :: env_line list)"
proof (induction ls)
  case (Cons l ls)
  then show ?case using assms(2,3) by (cases l; cases "snd l") auto
qed (rule assms(1))

lemma values_of_others: "k \<noteq> key \<Longrightarrow> values_of k (others key ls) = values_of k ls"
  by (induction ls rule: env_line_induct) simp_all

lemma read_value_others:
  "others key (parse_env_lines t1) = others key (parse_env_lines t2) \<Longrightarrow> k \<noteq> key \<Longrightarrow>
   read_value t1 k = read_value t2 k"
  unfolding read_value_values by (metis values_of_others)

lemma upsert_lines_found:
  "others key (fst (upsert_lines key value True ls)) = others key ls \<and>
   fst (snd (upsert_lines key value True ls)) \<and> values_of key (fst (upsert_lines key value True ls)) = [] \<and>
   (snd (snd (upsert_lines key value True ls)) \<longleftrightarrow> values_of key ls \<noteq> []) \<and>
   set (fst (upsert_lines key value True ls)) \<subseteq> set ls"
  by (induction ls rule: env_line_induct) (auto simp: split_beta)

lemma upsert_lines_effect:
  "others key (fst (upsert_lines key value False ls)) = others key ls \<and>
   (fst (snd (upsert_lines key value False ls)) \<longleftrightarrow> values_of key ls \<noteq> []) \<and>
   values_of key (fst (upsert_lines key value False ls)) = (case values_of key ls of [] \<Rightarrow> []
     | v # _ \<Rightarrow> [if unquoted v = value then v else value]) \<and>
   (snd (snd (upsert_lines key value False ls)) \<longleftrightarrow> (case values_of key ls of [] \<Rightarrow> False
     | v # vs \<Rightarrow> vs \<noteq> [] \<or> unquoted v \<noteq> value)) \<and>
   set (fst (upsert_lines key value False ls)) \<subseteq> insert (key, Some value) (set ls)"
proof (induction ls rule: env_line_induct)
  case (Assignment k v ls)
  with upsert_lines_found [of key "value" ls] show ?case
    by (cases "k = key"; cases "unquoted v = value") (auto simp: split_beta)
qed (auto simp: split_beta)

lemma values_of_normalised:
  assumes "\<And>l. l \<in> set ls \<Longrightarrow> normal_line l \<or> l = (key, Some value)"
  shows "others key (map (\<lambda>l. if normal_line l then l else (fst l, map_option py_rstrip (snd l))) ls) = others key ls"
    "map unquoted (values_of k (map (\<lambda>l. if normal_line l then l else (fst l, map_option py_rstrip (snd l))) ls)) =
     map unquoted (values_of k ls)"
proof -
  have unq: "unquoted (py_rstrip v) = unquoted v" for v
    by (simp add: unquoted_def py_strip_rstrip)
  show "others key (map (\<lambda>l. if normal_line l then l else (fst l, map_option py_rstrip (snd l))) ls) = others key ls"
    using assms
  proof (induction ls)
    case (Cons l ls)
    then have "normal_line l \<or> (\<not> normal_line l \<and> l = (key, Some value))"
      using Cons.prems [OF list.set_intros(1)] by blast
    moreover have "others key (map (\<lambda>l. if normal_line l then l else (fst l, map_option py_rstrip (snd l))) ls) =
        others key ls"
      using Cons by simp
    ultimately show ?case by (elim disjE conjE) (simp_all add: others_def assigns_def)
  qed simp
  show "map unquoted (values_of k (map (\<lambda>l. if normal_line l then l else (fst l, map_option py_rstrip (snd l))) ls)) =
     map unquoted (values_of k ls)"
    by (induction ls rule: env_line_induct) (auto simp: values_of_def assigns_def unq)
qed

lemma quote_escapes:
  "quote_env_value v = [dquote] @ concat (map (\<lambda>c. if escapable c then [backslash, c] else [c]) v) @ [dquote]"
  by (induction v) (auto simp: quote_env_value_def replace_char_def escapable_def Let_def)

lemma unescape_escape:
  "unescape (concat (map (\<lambda>c. if escapable c then [backslash, c] else [c]) v)) = v"
proof (induction v)
  case (Cons c v)
  define e where "e = concat (map (\<lambda>c. if escapable c then [backslash, c] else [c]) v)"
  have e: "unescape e = v"
    unfolding e_def by (rule Cons.IH)
  have "unescape (c # e) = c # unescape e" if "\<not> escapable c"
    using that by (cases e) (auto simp: escapable_def)
  then have "unescape (if escapable c then backslash # c # e else c # e) = c # v"
    by (simp add: e)
  then show ?case
    by (cases "escapable c") (simp_all flip: e_def)
qed simp

lemma unquoted_quote: "unquoted (quote_env_value v) = v"
proof -
  let ?e = "concat (map (\<lambda>c. if escapable c then [backslash, c] else [c]) v)"
  have "py_strip ([dquote] @ ?e @ [dquote]) = [dquote] @ ?e @ [dquote]"
    by (rule py_strip_id) (simp add: stripped_def is_space_def)
  then show ?thesis
    unfolding unquoted_def quote_escapes by (simp add: unescape_escape)
qed

lemma one_line_quote: "one_line v \<Longrightarrow> one_line (quote_env_value v)"
  by (induction v) (auto simp: quote_escapes line_end_def escapable_def)

section \<open>One edit is local\<close>

lemma upsert_parse:
  assumes "env_key key" "one_line value"
  shows "others key (parse_env_lines (fst (upsert text key value))) = others key (parse_env_lines text)"
    and "map unquoted (values_of key (parse_env_lines (fst (upsert text key value)))) =
      [case values_of key (parse_env_lines text) of [] \<Rightarrow> unquoted value
       | v # _ \<Rightarrow> if unquoted v = value then value else unquoted value]"
    and "snd (upsert text key value) \<longleftrightarrow> (case values_of key (parse_env_lines text) of [] \<Rightarrow> True
       | v # vs \<Rightarrow> vs \<noteq> [] \<or> unquoted v \<noteq> value)"
proof -
  define ls where "ls = parse_env_lines text"
  define r where "r = upsert_lines key value False ls"
  define out where "out = (if fst (snd r) then fst r else fst r @ [(key, Some value)])"
  note effect = upsert_lines_effect [of key "value" ls, folded r_def]
  have up: "upsert text key value = (render out @ [CHR 0x0A], fst (snd r) \<longrightarrow> snd (snd r))"
    by (simp add: upsert_def out_def r_def ls_def split_beta)
  have norm: "normal_line l \<or> l = (key, Some value)" if "l \<in> set out" for l
    using that effect parse_env_lines_normal [of "text"] by (auto simp: out_def ls_def)
  note norm_others = values_of_normalised(1) [OF norm] and norm_values = values_of_normalised(2) [OF norm]
  have "values_of key out \<noteq> []"
    using effect by (auto simp: out_def split: list.splits)
  then have "out \<noteq> []" by auto
  then have parse: "parse_env_lines (fst (upsert text key value)) =
      map (\<lambda>l. if normal_line l then l else (fst l, map_option py_rstrip (snd l))) out"
    unfolding up fst_conv using norm assms by (intro parse_render) auto
  show "others key (parse_env_lines (fst (upsert text key value))) = others key (parse_env_lines text)"
    using effect by (simp add: parse norm_others) (simp add: out_def ls_def)
  show "map unquoted (values_of key (parse_env_lines (fst (upsert text key value)))) =
      [case values_of key (parse_env_lines text) of [] \<Rightarrow> unquoted value
       | v # _ \<Rightarrow> if unquoted v = value then value else unquoted value]"
    using effect by (simp add: parse norm_values) (auto simp: out_def ls_def split: list.splits)
  show "snd (upsert text key value) \<longleftrightarrow> (case values_of key (parse_env_lines text) of [] \<Rightarrow> True
       | v # vs \<Rightarrow> vs \<noteq> [] \<or> unquoted v \<noteq> value)"
    unfolding up using effect by (auto simp: ls_def split: list.splits)
qed

lemma read_value_single: "map unquoted (values_of key (parse_env_lines t)) = [x] \<Longrightarrow> read_value t key = Some x"
  by (auto simp: read_value_values lookup_line_def)

lemma remove_parse:
  "fst (remove text key) \<noteq> [] \<Longrightarrow> parse_env_lines (fst (remove text key)) = others key (parse_env_lines text)"
  "fst (remove text key) = [] \<Longrightarrow> others key (parse_env_lines text) = [] \<or> others key (parse_env_lines text) = [([], None)]"
proof -
  let ?ls = "others key (parse_env_lines text)"
  have normal: "\<forall>l \<in> set ?ls. normal_line l"
    using parse_env_lines_normal [of "text"] by (auto simp: others_def)
  have body: "fst (remove text key) = (if render ?ls = [] then [] else render ?ls @ [CHR 0x0A])"
    by (simp add: remove_def others_def Let_def)
  show "parse_env_lines (fst (remove text key)) = ?ls" if "fst (remove text key) \<noteq> []"
  proof -
    have "?ls \<noteq> []" "fst (remove text key) = render ?ls @ [CHR 0x0A]"
      using that body by (auto split: if_splits)
    then show ?thesis
      using parse_render [of ?ls] normal by (simp add: map_idI)
  qed
  show "?ls = [] \<or> ?ls = [([], None)]" if "fst (remove text key) = []"
    using that body
    by (cases ?ls rule: render.cases) (auto simp: render_line_def split: if_splits option.splits)
qed

lemma remove_values: "k \<noteq> key \<Longrightarrow> read_value (fst (remove text key)) k = read_value text k"
  "read_value (fst (remove text key)) key = None"
proof -
  have own: "values_of key (others key ls) = []" for ls
    by (induction ls rule: env_line_induct) simp_all
  have "values_of k' (parse_env_lines (fst (remove text key))) = values_of k' (others key (parse_env_lines text))" for k'
    using remove_parse [of "text" key] by (cases "fst (remove text key) = []") (auto simp: parse_env_lines_def)
  then show "k \<noteq> key \<Longrightarrow> read_value (fst (remove text key)) k = read_value text k"
    "read_value (fst (remove text key)) key = None"
    by (simp_all add: read_value_values values_of_others own lookup_line_def)
qed



end
