(* ===== verification/Env_Rewrite.thy ===== *)
theory Env_Rewrite
  imports Env_File
begin

text \<open>
  The env-file writers of \<open>jasper/platform/atomic_io.py\<close>: the whole-file rewrites that go through a
  dict, and the reconcilers' edits of single keys under the file's lock. A Python dict is an association
  list in insertion order (\<open>AList.update\<close> keeps the place of a key it overwrites); a file is a
  \<open>text_file\<close>, and the advisory lock makes each function one step on it.
\<close>

section \<open>Rewriting a whole file through a dict\<close>

text \<open>\<open>format_env_text\<close>; None is its \<open>ValueError\<close>. The dict is its items in order.\<close>

definition format_env_text :: "string option \<Rightarrow> (string \<times> string) list \<Rightarrow> string option" where
  "format_env_text owner values =
     (if \<exists>(k, v) \<in> set values. CHR 0x0A \<in> set v \<or> CHR 0x0D \<in> set v then None
      else Some ((case owner of None \<Rightarrow> [] | Some o' \<Rightarrow> ''# Written by '' @ o' @ ''.'' @ [CHR 0x0A]) @
             concat (map (\<lambda>(k, v). k @ [equals_sign] @ v @ [CHR 0x0A]) values)))"

text \<open>A file as \<open>read_regular_bytes_nofollow\<close> and the decoding see it.\<close>

datatype text_file = TMissing | TUnreadable | TBadUtf8 | TText string

datatype env_exn = EnvOSError | EnvDecodeError | EnvValueError

definition env_state :: "text_file \<Rightarrow> env_exn + (string \<times> string) list" where
  "env_state f =
     (case f of TMissing \<Rightarrow> Inr [] | TUnreadable \<Rightarrow> Inl EnvOSError | TBadUtf8 \<Rightarrow> Inl EnvDecodeError
      | TText t \<Rightarrow> Inr (parse_env_mapping t))"

text \<open>Formatting and publishing under the lock; the write can fail and leaves the old file then.\<close>

definition publish_env ::
  "bool \<Rightarrow> string option \<Rightarrow> (string \<times> string) list \<Rightarrow> text_file \<Rightarrow> (env_exn + (string \<times> string) list) \<times> text_file" where
  "publish_env write_ok owner state f =
     (case format_env_text owner state of
        None \<Rightarrow> (Inl EnvValueError, f)
      | Some t \<Rightarrow> if write_ok then (Inr state, TText t) else (Inl EnvOSError, f))"

definition locked_update_env_file ::
  "bool \<Rightarrow> string option \<Rightarrow> (string \<times> string) list \<Rightarrow> text_file \<Rightarrow>
   (env_exn + (string \<times> string) list) \<times> text_file" where
  "locked_update_env_file write_ok owner updates f =
     (case env_state f of
        Inl e \<Rightarrow> (Inl e, f)
      | Inr state \<Rightarrow> publish_env write_ok owner (foldl (\<lambda>d (k, v). AList.update k v d) state updates) f)"

text \<open>None deletes the file.\<close>

definition locked_transform_env_file ::
  "bool \<Rightarrow> string option \<Rightarrow> ((string \<times> string) list \<Rightarrow> (string \<times> string) list option) \<Rightarrow> text_file \<Rightarrow>
   (env_exn + (string \<times> string) list option) \<times> text_file" where
  "locked_transform_env_file write_ok owner transform f =
     (case env_state f of
        Inl e \<Rightarrow> (Inl e, f)
      | Inr state \<Rightarrow>
          (case transform state of
             None \<Rightarrow> if write_ok \<or> f = TMissing then (Inr None, TMissing) else (Inl EnvOSError, f)
           | Some new_state \<Rightarrow> apfst (map_sum id Some) (publish_env write_ok owner new_state f)))"

text \<open>The per-key edits under the lock, on the text; a file that is not UTF-8 raises \<open>OSError\<close> here.\<close>

type_synonym env_action = "string \<times> string option"

definition env_key_action :: "string \<Rightarrow> string \<Rightarrow> string \<Rightarrow> env_action" where
  "env_key_action action key value = (key, if action = ''set'' then Some value else None)"

definition apply_action :: "string \<times> bool \<Rightarrow> env_action \<Rightarrow> string \<times> bool" where
  "apply_action acc act =
     (let (t, moved) = (case snd act of None \<Rightarrow> remove (fst acc) (fst act)
                        | Some value \<Rightarrow> upsert (fst acc) (fst act) value)
      in (t, snd acc \<or> moved))"

definition apply_actions :: "string \<Rightarrow> env_action list \<Rightarrow> string \<times> bool" where
  "apply_actions t acts = foldl apply_action (t, False) acts"

definition locked_upsert_env_file ::
  "bool \<Rightarrow> bool \<Rightarrow> (string \<Rightarrow> env_action list) \<Rightarrow> text_file \<Rightarrow> (env_exn + string \<times> bool) \<times> text_file" where
  "locked_upsert_env_file write_ok delete_when_empty build_actions f =
     (case (case f of TMissing \<Rightarrow> Inr [] | TText t \<Rightarrow> Inr t | _ \<Rightarrow> Inl EnvOSError) of
        Inl e \<Rightarrow> (Inl e, f)
      | Inr t0 \<Rightarrow>
          (let (t, changed) = apply_actions t0 (build_actions t0)
           in if \<not> changed then (Inr (t, False), f)
              else if t = [] \<and> delete_when_empty
                   then if write_ok \<or> f = TMissing then (Inr (t, True), TMissing) else (Inl EnvOSError, f)
              else if write_ok then (Inr (t, True), TText t) else (Inl EnvOSError, f)))"

section \<open>What the rewrites keep\<close>

lemma foldl_mapping:
  "map_of (foldl (\<lambda>d (k, v). case v of None \<Rightarrow> d | Some x \<Rightarrow> AList.update k (unquoted x) d) d ls) key =
   lookup_line (map_of d key) (values_of key ls)"
  by (induction ls arbitrary: d rule: env_line_induct)
    (auto simp: lookup_line_def update_conv)

lemma map_of_parse_env_mapping: "map_of (parse_env_mapping text) key = read_value text key"
  by (simp add: parse_env_mapping_def foldl_mapping read_value_values)

lemma mapping_distinct:
  fixes ls :: "env_line list"
  shows "distinct (map fst d) \<Longrightarrow> distinct (map fst
     (foldl (\<lambda>d (k, v). case v of None \<Rightarrow> d | Some x \<Rightarrow> AList.update k (unquoted x) d) d ls))"
  by (induction ls arbitrary: d rule: env_line_induct) (auto simp: distinct_update)

lemma updates_distinct: "distinct (map fst d) \<Longrightarrow> distinct (map fst (foldl (\<lambda>d (k, v). AList.update k v d) d us))"
  by (induction us arbitrary: d) (auto simp: distinct_update)

lemma map_of_updates:
  "distinct (map fst us) \<Longrightarrow> map_of (foldl (\<lambda>d (k, v). AList.update k v d) d us) k =
   (case map_of us k of Some v \<Rightarrow> Some v | None \<Rightarrow> map_of d k)"
proof (induction us arbitrary: d)
  case (Cons p us)
  have "map_of us (fst p) = None"
    using Cons.prems by (simp add: map_of_eq_None_iff)
  moreover have "distinct (map fst us)" using Cons.prems by simp
  note Cons.IH [OF this]
  ultimately show ?case
    by (cases "k = fst p") (simp_all add: split_beta update_conv split: option.split)
qed simp

lemma one_line_unquoted: "one_line v \<Longrightarrow> one_line (unquoted v)"
proof -
  have unescape: "set (unescape w) \<subseteq> set w" for w
    by (induction w rule: unescape.induct) auto
  have "set (unquoted v) \<subseteq> set (py_strip v)"
    using unescape [of "butlast (tl (py_strip v))"]
    by (auto simp: unquoted_def Let_def dest!: in_set_butlastD list.set_sel(2) [rotated])
  then show "one_line v \<Longrightarrow> one_line (unquoted v)"
    using set_py_strip [of v] by (force simp: one_line_def)
qed

definition header_lines :: "string option \<Rightarrow> string list" where
  "header_lines owner = (case owner of None \<Rightarrow> [] | Some o' \<Rightarrow> [''# Written by '' @ o' @ ''.''])"

lemma format_env_lines:
  "format_env_text owner st = Some t \<Longrightarrow>
   t = join_lines (header_lines owner @ map (\<lambda>(k, v). k @ equals_sign # v) st)"
  by (auto simp: format_env_text_def join_lines_def header_lines_def case_prod_unfold comp_def
      split: if_splits option.splits)

lemma parse_header: "parse_env_line (''# Written by '' @ w) = (''# Written by '' @ w, None)"
proof -
  let ?w = "''# Written by '' @ w"
  have "dropWhile is_space ?w = ?w" by (simp add: is_space_def)
  then have "py_strip ?w = py_rstrip ?w" by (simp only: py_strip_rstrip_after)
  moreover obtain u where "?w = py_rstrip ?w @ u" using rstrip_split by blast
  then have "py_rstrip ?w = [] \<or> hd (py_rstrip ?w) = CHR 0x23"
    by (metis append_Cons hd_append2 list.sel(1))
  ultimately show ?thesis by (auto simp: parse_env_line_def Let_def)
qed

lemma values_of_assignments:
  "\<forall>(k, v) \<in> set st. env_key k \<Longrightarrow>
   values_of key (map (\<lambda>(k, v). parse_env_line (k @ equals_sign # v)) st) =
   map (py_rstrip \<circ> snd) (filter (\<lambda>p. fst p = key) st)"
  by (induction st) (auto simp: parse_assignment)

lemma filter_distinct_key:
  "distinct (map fst st) \<Longrightarrow> filter (\<lambda>p. fst p = key) st = (case map_of st key of None \<Rightarrow> [] | Some v \<Rightarrow> [(key, v)])"
proof (induction st)
  case (Cons p st)
  have "filter (\<lambda>p. fst p = key) st = []" if "fst p = key"
    using Cons.prems that by (auto simp: filter_empty_conv) (metis fst_conv image_eqI)
  with Cons show ?case by (cases p) auto
qed simp

lemma read_formatted:
  assumes "format_env_text owner st = Some t" "distinct (map fst st)" "\<forall>(k, v) \<in> set st. env_key k \<and> one_line v"
    and "\<forall>o' \<in> set_option owner. one_line o'"
  shows "read_value t key = map_option unquoted (map_of st key)"
proof -
  have "splitlines t = header_lines owner @ map (\<lambda>(k, v). k @ equals_sign # v) st"
    unfolding format_env_lines [OF assms(1)] using assms(3,4)
    by (intro splitlines_join) (auto simp: header_lines_def env_key_def line_end_def split: option.splits)
  moreover have "values_of key (map parse_env_line (header_lines owner)) = []"
    by (simp add: header_lines_def parse_header split: option.split del: append_Cons)
  ultimately have "values_of key (parse_env_lines t) = map (py_rstrip \<circ> snd) (filter (\<lambda>p. fst p = key) st)"
    using values_of_assignments [of st key] assms(3) by (simp add: parse_env_lines_def comp_def case_prod_unfold)
  then show ?thesis
    by (auto simp: read_value_values filter_distinct_key [OF assms(2)] lookup_line_def unquoted_def py_strip_rstrip
        split: option.split)
qed

lemma set_update_subset: "set (AList.update k v d) \<subseteq> insert (k, v) (set d)"
  by (induction d) auto

lemma parsed_items:
  fixes ls :: "env_line list"
  assumes "\<forall>(k, v) \<in> set d. env_key k \<and> one_line v" "\<And>k v. (k, Some v) \<in> set ls \<Longrightarrow> env_key k \<and> one_line v"
  shows "\<forall>(k, v) \<in> set (foldl (\<lambda>d (k, v). case v of None \<Rightarrow> d | Some x \<Rightarrow> AList.update k (unquoted x) d) d ls).
    env_key k \<and> one_line v"
  using assms
proof (induction ls arbitrary: d rule: env_line_induct)
  case (Assignment k v ls)
  have "\<forall>(k', v') \<in> set (AList.update k (unquoted v) d). env_key k' \<and> one_line v'"
    using Assignment.prems(1) Assignment.prems(2) [of k v] set_update_subset [of k "unquoted v" d]
    by (auto intro: one_line_unquoted)
  then have "\<forall>(k, v) \<in> set (foldl (\<lambda>d (k, v). case v of None \<Rightarrow> d | Some x \<Rightarrow> AList.update k (unquoted x) d)
      (AList.update k (unquoted v) d) ls). env_key k \<and> one_line v"
    using Assignment.prems(2) by (intro Assignment.IH) auto
  then show ?case by simp
qed simp_all

lemma parse_env_mapping_items:
  "distinct (map fst (parse_env_mapping text)) \<and> (\<forall>(k, v) \<in> set (parse_env_mapping text). env_key k \<and> one_line v)"
  unfolding parse_env_mapping_def
  by (intro conjI mapping_distinct parsed_items) (auto dest: parse_env_lines_assignments)

lemma updated_items:
  assumes "\<forall>(k, v) \<in> set d. env_key k \<and> one_line v" "\<forall>(k, v) \<in> set us. env_key k \<and> one_line v"
  shows "\<forall>(k, v) \<in> set (foldl (\<lambda>d (k, v). AList.update k v d) d us). env_key k \<and> one_line v"
  using assms
proof (induction us arbitrary: d)
  case (Cons p us)
  have "\<forall>(k, v) \<in> set (AList.update (fst p) (snd p) d). env_key k \<and> one_line v"
  proof (rule ballI)
    fix q assume "q \<in> set (AList.update (fst p) (snd p) d)"
    then have "q = p \<or> q \<in> set d"
      using set_update_subset [of "fst p" "snd p" d] by auto
    then show "case q of (k, v) \<Rightarrow> env_key k \<and> one_line v"
      using Cons.prems by auto
  qed
  moreover have "\<forall>(k, v) \<in> set us. env_key k \<and> one_line v"
    using Cons.prems(2) by (intro ballI) (rule bspec, assumption, rule list.set_intros(2))
  ultimately have "\<forall>(k, v) \<in> set (foldl (\<lambda>d (k, v). AList.update k v d) (AList.update (fst p) (snd p) d) us).
      env_key k \<and> one_line v"
    by (rule Cons.IH)
  then show ?case by (simp only: foldl.simps case_prod_unfold)
qed simp

lemma one_line_no_newline: "one_line v \<Longrightarrow> CHR 0x0A \<notin> set v \<and> CHR 0x0D \<notin> set v"
  by (force simp: one_line_def line_end_def)

lemma format_env_text_Some:
  "\<forall>(k, v) \<in> set st. one_line v \<Longrightarrow> \<exists>t. format_env_text owner st = Some t"
proof -
  assume "\<forall>(k, v) \<in> set st. one_line v"
  then have "\<not> (\<exists>(k, v) \<in> set st. CHR 0x0A \<in> set v \<or> CHR 0x0D \<in> set v)"
    using one_line_no_newline by blast
  then show ?thesis unfolding format_env_text_def by (simp only: if_False) blast
qed

text \<open>
  A read-modify-write through the dict resolves the other keys a second time. An update of a
  readable file succeeds when the write does, and every key it names reads as its new value resolved; but
  a key it does not name reads as its old value resolved once more, so it survives exactly when
  that value is a fixed point of the quote rule. A co-writer's value that itself carries outer quotes or
  outer blanks is changed by an unrelated update. A file that cannot be read or decoded, a value with a
  newline and a failed write leave the file as it was and raise.
\<close>

theorem dict_update_resolves_again:
  assumes "distinct (map fst updates)" "\<forall>(k, v) \<in> set updates. env_key k \<and> one_line v"
    and "\<forall>o' \<in> set_option owner. one_line o'"
  shows "(\<exists>st t1. locked_update_env_file True owner updates (TText t0) = (Inr st, TText t1) \<and>
      read_value t1 k = (case map_of updates k of Some v \<Rightarrow> Some (unquoted v)
        | None \<Rightarrow> map_option unquoted (read_value t0 k))) \<and>
    (\<forall>f write_ok us e f1. locked_update_env_file write_ok owner us f = (Inl e, f1) \<longrightarrow> f1 = f)"
proof -
  define st where "st = foldl (\<lambda>d (k, v). AList.update k v d) (parse_env_mapping t0) updates"
  have items: "\<forall>(k, v) \<in> set st. env_key k \<and> one_line v"
    unfolding st_def using parse_env_mapping_items [of t0] assms(2) by (intro updated_items) auto
  then obtain t1 where t1: "format_env_text owner st = Some t1"
    using format_env_text_Some [of st owner] by auto
  have "read_value t1 k = map_option unquoted (map_of st k)"
    using parse_env_mapping_items [of t0] items assms(3)
    by (intro read_formatted [OF t1]) (auto simp: st_def updates_distinct)
  moreover have "map_of st k = (case map_of updates k of Some v \<Rightarrow> Some v | None \<Rightarrow> read_value t0 k)"
    by (simp add: st_def map_of_updates [OF assms(1)] map_of_parse_env_mapping split: option.split)
  ultimately show ?thesis
    using t1 by (auto simp: locked_update_env_file_def publish_env_def env_state_def st_def
        split: option.splits sum.splits if_splits)
qed

text \<open>A room named with literal quotes, and an update of another key.\<close>

lemma dict_update_resolves_again_witness:
  "let t0 = ''ROOM='' @ quote_env_value [dquote, CHR ''x'', dquote]
   in read_value t0 ''ROOM'' = Some [dquote, CHR ''x'', dquote] \<and>
     (\<exists>st t1. locked_update_env_file True None [(''MODE'', ''on'')] (TText t0) = (Inr st, TText t1) \<and>
       read_value t1 ''ROOM'' = Some ''x'')"
proof -
  have pre: "distinct (map fst [(''MODE'', ''on'')])" "\<forall>(k, v) \<in> set [(''MODE'', ''on'')]. env_key k \<and> one_line v"
    "\<forall>o' \<in> set_option (None :: string option). one_line o'"
    by (simp_all add: env_key_def stripped_def is_space_def line_end_def)
  have "read_value (''ROOM='' @ quote_env_value [dquote, CHR ''x'', dquote]) ''ROOM'' = Some [dquote, CHR ''x'', dquote]"
    "unquoted [dquote, CHR ''x'', dquote] = ''x''"
    by code_simp+
  then show ?thesis
    using dict_update_resolves_again [OF pre, of "''ROOM='' @ quote_env_value [dquote, CHR ''x'', dquote]" "''ROOM''"]
    by (simp add: Let_def)
qed

text \<open>
  The newline guard is weaker than the parser. The formatter promises to raise for a value that
  would split into a second assignment, and tests for newline and carriage return only; the parser also
  splits at the vertical tab, the form feed, the separators 0x1C to 0x1E and 0x85. A value with one of
  them is written, and assigns another key of the writer's choosing when the file is read back.
\<close>

theorem newline_guard_misses_separators:
  assumes "env_key k" "env_key k2" "k \<noteq> k2" "one_line a" "one_line b"
    and "line_end c" "c \<noteq> CHR 0x0A" "c \<noteq> CHR 0x0D"
  shows "\<exists>t. format_env_text None [(k, a @ c # k2 @ equals_sign # b)] = Some t \<and>
    read_value t k = Some (unquoted a) \<and> read_value t k2 = Some (unquoted b)"
proof -
  let ?v = "a @ c # k2 @ equals_sign # b"
  have "CHR 0x0A \<notin> set ?v \<and> CHR 0x0D \<notin> set ?v"
    using assms one_line_no_newline [of a] one_line_no_newline [of b] one_line_no_newline [of k2]
    by (auto simp: env_key_def)
  then have format: "format_env_text None [(k, ?v)] = Some ((k @ equals_sign # a) @ c # (k2 @ equals_sign # b) @ CHR 0x0A # [])"
    by (simp add: format_env_text_def)
  moreover have second: "splitlines ((k2 @ equals_sign # b) @ CHR 0x0A # []) = [k2 @ equals_sign # b]"
    using assms by (subst splitlines_line) (simp_all add: env_key_def)
  have "splitlines ((k @ equals_sign # a) @ c # (k2 @ equals_sign # b) @ CHR 0x0A # []) =
      [k @ equals_sign # a, k2 @ equals_sign # b]"
    using assms by (subst splitlines_line) (simp_all only: second, simp_all add: env_key_def)
  ultimately show ?thesis
    using assms(1-3)
    by (simp add: read_value_values parse_env_lines_def parse_assignment lookup_line_def unquoted_def py_strip_rstrip)
qed

lemma newline_guard_misses_separators_witness:
  "\<exists>t. format_env_text None [(''NAME'', ''den'' @ CHR 0x0B # ''MODE'' @ equals_sign # ''on'')] = Some t \<and>
    read_value t ''NAME'' = Some (unquoted ''den'') \<and> read_value t ''MODE'' = Some (unquoted ''on'')"
  by (rule newline_guard_misses_separators)
    (simp_all add: env_key_def stripped_def is_space_def line_end_def)

section \<open>Edits under the lock\<close>

lemma apply_action_reads:
  assumes "env_key (fst act)" "\<forall>v \<in> set_option (snd act). one_line v \<and> unquoted v = v"
  shows "read_value (fst (apply_action acc act)) k = (if k = fst act then snd act else read_value (fst acc) k)"
proof (cases "snd act")
  case None
  then show ?thesis
    using remove_values(1) [of k "fst act" "fst acc"] remove_values(2) [of "fst acc" "fst act"]
    by (simp add: apply_action_def split_beta)
next
  case (Some v)
  have v: "one_line v" "unquoted v = v" using assms(2) Some by auto
  note up = upsert_parse [OF assms(1) v(1), of "fst acc"]
  have "read_value (fst (upsert (fst acc) (fst act) v)) (fst act) = Some v"
    using read_value_single [OF up(2)] v(2) by (simp split: list.splits)
  then show ?thesis
    using Some read_value_others [OF up(1), of k] by (simp add: apply_action_def split_beta)
qed

fun last_action :: "string \<Rightarrow> env_action list \<Rightarrow> string option \<Rightarrow> string option" where
  "last_action k [] before = before"
| "last_action k ((key, v) # acts) before = last_action k acts (if key = k then v else before)"

lemma apply_actions_reads:
  assumes "\<forall>(key, v) \<in> set acts. env_key key \<and> (\<forall>w \<in> set_option v. one_line w \<and> unquoted w = w)"
  shows "read_value (fst (foldl apply_action acc acts)) k = last_action k acts (read_value (fst acc) k)"
  using assms
proof (induction acts arbitrary: acc)
  case (Cons act acts)
  have "read_value (fst (apply_action acc act)) k = (if k = fst act then snd act else read_value (fst acc) k)"
    using Cons.prems by (intro apply_action_reads) (auto simp: case_prod_unfold)
  with Cons show ?case by (cases act) (auto simp: case_prod_unfold)
qed simp

text \<open>
  The reconcilers' edits of a shared env file do what they say. When the locked edit returns, the
  file holds the text it answers with (no file when the edits emptied it and deletion was asked for):
  every key reads as its last action says (the value set, or absent), every other key as before, a
  missing file counting as empty; an answer of no change means the file was not written. When it raises,
  the file is as it was.
\<close>

theorem locked_edits_apply_actions:
  fixes f :: text_file
  assumes "\<And>t. \<forall>(key, v) \<in> set (build t). env_key key \<and> (\<forall>w \<in> set_option v. one_line w \<and> unquoted w = w)"
  defines "t0 \<equiv> (case f of TText t \<Rightarrow> t | _ \<Rightarrow> [])"
  shows "(locked_upsert_env_file write_ok del build f = (Inr (t1, changed), f1) \<longrightarrow>
      (\<forall>k. read_value t1 k = last_action k (build t0) (read_value t0 k)) \<and>
      (changed \<longrightarrow> f1 = (if t1 = [] \<and> del then TMissing else TText t1)) \<and> (\<not> changed \<longrightarrow> f1 = f)) \<and>
    (locked_upsert_env_file write_ok del build f = (Inl e, f1) \<longrightarrow> f1 = f)"
proof -
  have "read_value (fst (apply_actions t0 (build t0))) k = last_action k (build t0) (read_value t0 k)" for k
    using apply_actions_reads [OF assms(1), of "(t0, False)"] by (simp add: apply_actions_def)
  then show ?thesis
    by (cases f) (auto simp: t0_def locked_upsert_env_file_def Let_def split_beta split: if_splits)
qed

lemma locked_edits_apply_actions_witness:
  "\<exists>t1 changed f1. locked_upsert_env_file True True (\<lambda>_. [(''A'', None), (''B'', Some ''2'')]) (TText ''A=1'') =
      (Inr (t1, changed), f1) \<and> read_value t1 ''A'' = None \<and> read_value t1 ''B'' = Some ''2''"
proof -
  let ?build = "\<lambda>_ :: string. [(''A'', None), (''B'', Some ''2'')]"
  have acts: "\<forall>(key, v) \<in> set (?build t). env_key key \<and> (\<forall>w \<in> set_option v. one_line w \<and> unquoted w = w)" for t
    by (simp add: env_key_def stripped_def is_space_def line_end_def) code_simp
  let ?t1 = "''B=2'' @ [CHR 0x0A]"
  have run: "locked_upsert_env_file True True ?build (TText ''A=1'') = (Inr (?t1, True), TText ?t1)"
    by code_simp
  then have "\<forall>k. read_value ?t1 k = last_action k (?build ''A=1'') (read_value ''A=1'' k)"
    using locked_edits_apply_actions [where build = ?build and f = "TText ''A=1''"
      and write_ok = True and del = True and ?t1.0 = ?t1 and changed = True and ?f1.0 = "TText ?t1"] acts by simp
  then show ?thesis using run by auto
qed

end
