(* ===== verification/Source_Probes.thy ===== *)
theory Source_Probes
  imports Env_Rewrite
begin

text \<open>
  How the daemons learn what a renderer does: librespot's state file
  (\<open>jasper/playback_state/librespot_state.py\<close>), the tri-state probes of
  \<open>jasper/playback_state/source_state.py\<close> with the reply parsing of \<open>jasper/platform/busctl.py\<close>, and the
  BlueALSA probe with its failure backoff (\<open>jasper/device_probe/bluealsa_probe.py\<close>). A bool option is a
  probe's answer, None for unknown. Files are \<open>text_file\<close>; byte strings are strings.
\<close>

section \<open>Strings\<close>

definition ascii_lower :: "char \<Rightarrow> char" where
  "ascii_lower c = (let n = of_char c :: nat in if 65 \<le> n \<and> n \<le> 90 then char_of (n + 32) else c)"

text \<open>\<open>str.lower\<close> on one character of one byte.\<close>

definition latin_lower :: "char \<Rightarrow> char" where
  "latin_lower c = (let n = of_char c :: nat
     in if 65 \<le> n \<and> n \<le> 90 \<or> 192 \<le> n \<and> n \<le> 222 \<and> n \<noteq> 215 then char_of (n + 32) else c)"

definition is_digit :: "char \<Rightarrow> bool" where
  "is_digit c \<longleftrightarrow> (let n = of_char c :: nat in 48 \<le> n \<and> n \<le> 57)"

text \<open>\<open>int(s)\<close>; None is its \<open>ValueError\<close>, which more than 4300 digits raise too.\<close>

fun int_body :: "bool \<Rightarrow> string \<Rightarrow> string option" where
  "int_body after_digit [] = (if after_digit then Some [] else None)"
| "int_body after_digit (c # cs) =
     (if is_digit c then map_option (Cons c) (int_body True cs)
      else if c = CHR ''_'' \<and> after_digit then int_body False cs else None)"

definition digits_value :: "string \<Rightarrow> int" where
  "digits_value ds = foldl (\<lambda>n c. 10 * n + (of_char c - 48)) 0 ds"

definition MAX_STR_DIGITS :: nat where "MAX_STR_DIGITS = 4300"

definition py_int :: "string \<Rightarrow> int option" where
  "py_int s =
     (let w = py_strip s;
          body = (if w \<noteq> [] \<and> (hd w = CHR ''+'' \<or> hd w = CHR ''-'') then tl w else w)
      in case int_body False body of
           None \<Rightarrow> None
         | Some ds \<Rightarrow> if MAX_STR_DIGITS < length ds then None
             else Some (if hd w = CHR ''-'' then - digits_value ds else digits_value ds))"

fun contains :: "string \<Rightarrow> string \<Rightarrow> bool" where
  "contains p [] \<longleftrightarrow> p = []"
| "contains p (c # w) \<longleftrightarrow> take (length p) (c # w) = p \<or> contains p w"

section \<open>Librespot's state file\<close>

datatype state_value = SBool bool | SText string

definition BOOL_KEYS :: "string list" where
  "BOOL_KEYS = [''playing'', ''paused'', ''stopped'', ''session_active'']"

definition LIBRESPOT_VOLUME_MAX :: int where "LIBRESPOT_VOLUME_MAX = 65535"

definition librespot_parse :: "string \<Rightarrow> (string \<times> state_value) list" where
  "librespot_parse t =
     foldl (\<lambda>state (key, v). case v of None \<Rightarrow> state
         | Some x \<Rightarrow> let name = map latin_lower key
             in AList.update name (if name \<in> set BOOL_KEYS then SBool (x = ''1'') else SText x) state)
       [] (parse_env_lines t)"

text \<open>\<open>read\<close>: the \<open>UnicodeDecodeError\<close> of \<open>read_text\<close> is not an \<open>OSError\<close> and leaves it (\<open>Fatal\<close>).\<close>

definition librespot_read :: "text_file \<Rightarrow> (string \<times> state_value) list outcome" where
  "librespot_read f = (case f of TMissing \<Rightarrow> Ret [] | TUnreadable \<Rightarrow> Ret [] | TBadUtf8 \<Rightarrow> Fatal
     | TText t \<Rightarrow> Ret (librespot_parse t))"

text \<open>
  \<open>round(int(raw) * 100 / 65535)\<close>: the division is exact up to a rounding that no halfway case feels
  (65535 is odd), and a quotient past the largest double raises \<open>OverflowError\<close> (\<open>Fatal\<close>).
\<close>

definition volume_percent_of :: "(string \<times> state_value) list \<Rightarrow> int option outcome" where
  "volume_percent_of state =
     (case map_of state ''volume'' of
        Some (SText raw) \<Rightarrow>
          (case py_int raw of
             None \<Rightarrow> Ret None
           | Some n \<Rightarrow> if double_overflow * LIBRESPOT_VOLUME_MAX \<le> \<bar>n * 100\<bar> then Fatal
               else Ret (Some (max 0 (min 100
                 (py_round (of_int (n * 100) / of_int LIBRESPOT_VOLUME_MAX))))))
      | _ \<Rightarrow> Ret None)"

definition volume_percent :: "text_file \<Rightarrow> int option outcome" where
  "volume_percent f = (case librespot_read f of Ret state \<Rightarrow> volume_percent_of state
     | IoError \<Rightarrow> IoError | Fatal \<Rightarrow> Fatal)"

definition text_of :: "(string \<times> state_value) list \<Rightarrow> string \<Rightarrow> string option" where
  "text_of state key = (case map_of state key of Some (SText w) \<Rightarrow> if w = [] then None else Some w | _ \<Rightarrow> None)"

definition track_uri :: "text_file \<Rightarrow> string option outcome" where
  "track_uri f = (case librespot_read f of
       Ret state \<Rightarrow> Ret (case text_of state ''uri'' of Some u \<Rightarrow> Some u
         | None \<Rightarrow> (case text_of state ''track_id'' of Some u \<Rightarrow> Some u | None \<Rightarrow> text_of state ''new_track_id''))
     | IoError \<Rightarrow> IoError | Fatal \<Rightarrow> Fatal)"

section \<open>The probes\<close>

definition spotify_playing_observed :: "text_file \<Rightarrow> bool option outcome" where
  "spotify_playing_observed f =
     (case f of TMissing \<Rightarrow> Ret (Some False) | TUnreadable \<Rightarrow> Ret None | TBadUtf8 \<Rightarrow> Fatal
      | TText t \<Rightarrow> let state = librespot_parse t
          in Ret (if state = [] then None else Some (map_of state ''playing'' = Some (SBool True))))"

record busctl_result =
  br_returncode :: int
  br_stdout :: string
  br_stderr :: string

definition name_is_absent :: "string \<Rightarrow> bool" where
  "name_is_absent stderr =
     (let detail = map ascii_lower stderr
      in contains (''name '' @ [dquote]) detail \<and> contains ([dquote] @ '' does not exist'') detail \<or>
         list_ex (\<lambda>marker. contains marker detail)
           [''was not provided by any .service files'', ''name has no owner'', ''is not activatable''])"

definition airplay_nonzero_observation :: "string \<Rightarrow> bool option" where
  "airplay_nonzero_observation stderr = (if name_is_absent stderr then Some False else None)"

text \<open>The title expression, tried at every position; bytes \<open>\s\<close> is ASCII whitespace.\<close>

definition re_space :: "char \<Rightarrow> bool" where
  "re_space c \<longleftrightarrow> (let n = of_char c :: nat in 9 \<le> n \<and> n \<le> 13 \<or> n = 32)"

definition eat :: "string \<Rightarrow> string \<Rightarrow> string option" where
  "eat p w = (if take (length p) w = p then Some (drop (length p) w) else None)"

definition eat_some :: "(char \<Rightarrow> bool) \<Rightarrow> string \<Rightarrow> string option" where
  "eat_some q w = (if takeWhile q w = [] then None else Some (dropWhile q w))"

definition title_here :: "string \<Rightarrow> bool" where
  "title_here w \<longleftrightarrow> Option.bind (eat ([dquote] @ ''xesam:title'' @ [dquote]) w) (\<lambda>w.
     Option.bind (eat_some re_space w) (\<lambda>w. Option.bind (eat ''s'' w) (\<lambda>w.
     Option.bind (eat_some re_space w) (\<lambda>w. Option.bind (eat [dquote] w) (\<lambda>w.
     Option.bind (eat_some (\<lambda>c. c \<noteq> dquote) w) (\<lambda>w. eat [dquote] w)))))) \<noteq> None"

fun anywhere :: "(string \<Rightarrow> bool) \<Rightarrow> string \<Rightarrow> bool" where
  "anywhere q [] \<longleftrightarrow> q []"
| "anywhere q (c # w) \<longleftrightarrow> q (c # w) \<or> anywhere q w"

definition airplay_has_metadata_title_observed :: "busctl_result option \<Rightarrow> bool option" where
  "airplay_has_metadata_title_observed result =
     (case result of None \<Rightarrow> None
      | Some r \<Rightarrow> if br_returncode r \<noteq> 0 then airplay_nonzero_observation (br_stderr r)
          else Some (anywhere title_here (br_stdout r)))"

definition airplay_playbackstatus_observed :: "busctl_result option \<Rightarrow> bool option" where
  "airplay_playbackstatus_observed result =
     (case result of None \<Rightarrow> None
      | Some r \<Rightarrow> if br_returncode r \<noteq> 0 then airplay_nonzero_observation (br_stderr r)
          else Some (contains ([dquote] @ ''Playing'' @ [dquote]) (br_stdout r)))"

text \<open>The metadata call is made only after a playing status.\<close>

definition airplay_playing_observed :: "busctl_result option \<Rightarrow> busctl_result option \<Rightarrow> bool option" where
  "airplay_playing_observed status_call metadata_call =
     (case airplay_playbackstatus_observed status_call of
        Some True \<Rightarrow> airplay_has_metadata_title_observed metadata_call
      | playing \<Rightarrow> playing)"

definition system_busctl :: "busctl_result option \<Rightarrow> string option" where
  "system_busctl result = (case result of None \<Rightarrow> None
     | Some r \<Rightarrow> if br_returncode r \<noteq> 0 then None else Some (br_stdout r))"

definition get_property :: "busctl_result option \<Rightarrow> string option" where
  "get_property result = (case result of None \<Rightarrow> None
     | Some r \<Rightarrow> if br_returncode r \<noteq> 0 then None else Some (py_strip (br_stdout r)))"

section \<open>The BlueALSA probe\<close>

definition BLUEALSA_PROBE_FAILURE_TTL_SEC :: rat where "BLUEALSA_PROBE_FAILURE_TTL_SEC = 60"

record probe_mem =
  suppressed_until :: rat
  last_failure :: string

text \<open>How running \<open>bluealsa-cli list-pcms\<close> ends; \<open>CliOther\<close> is an exception the code does not name.\<close>

datatype cli_end = CliMissing | CliTimeout | CliOther | CliDone int string

definition probe_suppressed :: "rat \<Rightarrow> probe_mem \<Rightarrow> bool" where
  "probe_suppressed now m \<longleftrightarrow> now < suppressed_until m"

definition note_probe_failure :: "rat \<Rightarrow> string \<Rightarrow> probe_mem \<Rightarrow> probe_mem" where
  "note_probe_failure now reason m =
     m\<lparr>last_failure := reason, suppressed_until := now + BLUEALSA_PROBE_FAILURE_TTL_SEC\<rparr>"

definition note_probe_success :: "probe_mem \<Rightarrow> probe_mem" where
  "note_probe_success m = m\<lparr>last_failure := [], suppressed_until := 0\<rparr>"

text \<open>
  \<open>list_pcms\<close> called at \<open>now\<close>, with the subprocess ending as \<open>run\<close> at \<open>finished\<close>. The answer, whether
  the subprocess was started, and the memory; the reason of an exit status is kept as text.
\<close>

definition list_pcms ::
  "rat \<Rightarrow> rat \<Rightarrow> cli_end \<Rightarrow> (int \<Rightarrow> string) \<Rightarrow> probe_mem \<Rightarrow> (string option outcome \<times> bool) \<times> probe_mem" where
  "list_pcms now finished run rc_text m =
     (if probe_suppressed now m then ((Ret None, False), m)
      else case run of
        CliMissing \<Rightarrow> ((Ret None, True), note_probe_failure finished ''FileNotFoundError'' m)
      | CliTimeout \<Rightarrow> ((Ret None, True), note_probe_failure finished ''TimeoutError'' m)
      | CliOther \<Rightarrow> ((Fatal, True), m)
      | CliDone rc out \<Rightarrow>
          if rc \<noteq> 0 then ((Ret None, True), note_probe_failure finished (''rc='' @ rc_text rc) m)
          else ((Ret (Some out), True), note_probe_success m))"

definition hex_or_underscore :: "char \<Rightarrow> bool" where
  "hex_or_underscore c \<longleftrightarrow> is_digit c \<or> (let n = of_char c :: nat in 65 \<le> n \<and> n \<le> 70) \<or> c = CHR ''_''"

text \<open>What is left of \<open>w\<close> after the transport path at its start.\<close>

definition path_here :: "string \<Rightarrow> string option" where
  "path_here w = Option.bind (eat ''/org/bluealsa/hci'' w) (\<lambda>w. Option.bind (eat_some is_digit w) (\<lambda>w.
     Option.bind (eat ''/dev_'' w) (\<lambda>w. Option.bind (eat_some hex_or_underscore w) (eat ''/a2dpsnk/source''))))"

fun first_path :: "string \<Rightarrow> string option" where
  "first_path w =
     (case path_here w of
        Some rest \<Rightarrow> Some (take (length w - length rest) w)
      | None \<Rightarrow> (case w of [] \<Rightarrow> None | _ # v \<Rightarrow> first_path v))"

declare first_path.simps [simp del]

definition active_transport_path ::
  "rat \<Rightarrow> rat \<Rightarrow> cli_end \<Rightarrow> (int \<Rightarrow> string) \<Rightarrow> probe_mem \<Rightarrow> string option outcome \<times> probe_mem" where
  "active_transport_path now finished run rc_text m =
     (let ((r, _), m') = list_pcms now finished run rc_text m
      in (case r of Ret (Some out) \<Rightarrow> Ret (first_path out) | Ret None \<Rightarrow> Ret None
          | IoError \<Rightarrow> IoError | Fatal \<Rightarrow> Fatal, m'))"

section \<open>The failure backoff\<close>

text \<open>
  Calls one after another, each with its clock before and after the subprocess and how that ends; per call:
  when it was made, when it was over, whether the subprocess was started, and the answer.
\<close>

fun probe_log ::
  "(int \<Rightarrow> string) \<Rightarrow> probe_mem \<Rightarrow> (rat \<times> rat \<times> cli_end) list \<Rightarrow>
   (rat \<times> rat \<times> bool \<times> string option outcome) list" where
  "probe_log rc_text m [] = []"
| "probe_log rc_text m ((now, finished, run) # calls) =
     (let ((r, started), m') = list_pcms now finished run rc_text m
      in (now, finished, started, r) # probe_log rc_text m' calls)"

fun clock_runs :: "rat \<Rightarrow> (rat \<times> rat \<times> cli_end) list \<Rightarrow> bool" where
  "clock_runs t [] \<longleftrightarrow> True"
| "clock_runs t ((now, finished, _) # calls) \<longleftrightarrow> t \<le> now \<and> now \<le> finished \<and> clock_runs finished calls"

lemma clock_runs_weaken: "clock_runs t calls \<Longrightarrow> t' \<le> t \<Longrightarrow> clock_runs t' calls"
  by (cases calls) auto

lemma calls_after: "clock_runs t calls \<Longrightarrow> (n, f, b, r) \<in> set (probe_log rc m calls) \<Longrightarrow> t \<le> n"
proof (induction rc m calls arbitrary: t rule: probe_log.induct)
  case (2 rc m now finished run calls)
  then show ?case
    by (auto simp: Let_def split: prod.splits dest: clock_runs_weaken)
      (metis clock_runs_weaken order_trans)
qed simp

lemma no_start_while_suppressed:
  assumes "clock_runs t calls" "T \<le> suppressed_until m" "(n, f, True, r) \<in> set (probe_log rc m calls)"
  shows "T \<le> n"
  using assms
proof (induction rc m calls arbitrary: t rule: probe_log.induct)
  case (2 rc m now finished run calls)
  show ?case
  proof (cases "now < T")
    case True
    then have call: "list_pcms now finished run rc m = ((Ret None, False), m)"
      using 2(3) by (simp add: list_pcms_def probe_suppressed_def)
    show ?thesis
      using 2(1) [OF call [symmetric] refl] 2(2-) call by auto
  next
    case False
    have "now \<le> n"
      by (rule calls_after [OF _ 2(4)]) (use 2(2) in simp)
    then show ?thesis using False by simp
  qed
qed simp

text \<open>
  A failing BlueALSA probe backs off. Over calls made one after another on a clock that does not go back,
  once a started \<open>bluealsa-cli\<close> did not answer, none is started before sixty seconds have passed since that
  failure; a call inside the backoff answers unknown at once; and an answer clears the backoff.
\<close>

theorem failing_probe_backs_off:
  assumes "clock_runs t calls" "i < j" "j < length (probe_log rc m calls)"
    and "probe_log rc m calls ! i = (n, f, True, Ret None)" "probe_log rc m calls ! j = (n', f', True, r)"
  shows "f + BLUEALSA_PROBE_FAILURE_TTL_SEC \<le> n' \<and>
    (now < suppressed_until m \<longrightarrow> list_pcms now fin run rc m = ((Ret None, False), m)) \<and>
    (\<not> probe_suppressed now m \<longrightarrow>
      \<not> probe_suppressed (max 0 later) (snd (list_pcms now fin (CliDone 0 out) rc m)))"
proof (intro conjI impI)
  show "f + BLUEALSA_PROBE_FAILURE_TTL_SEC \<le> n'"
    using assms
  proof (induction rc m calls arbitrary: t i j rule: probe_log.induct)
    case (2 rc m now finished run calls)
    obtain r0 b m' where call: "list_pcms now finished run rc m = ((r0, b), m')"
      by (metis surj_pair)
    obtain j' where j: "j = Suc j'" using 2(3) by (cases j) auto
    have log: "probe_log rc m ((now, finished, run) # calls) = (now, finished, b, r0) # probe_log rc m' calls"
      by (simp add: call)
    show ?case
    proof (cases i)
      case 0
      then have failed: "f = finished" "b" "r0 = Ret None" using 2(5) log by auto
      then have "f + BLUEALSA_PROBE_FAILURE_TTL_SEC \<le> suppressed_until m'"
        using call by (auto simp: list_pcms_def note_probe_failure_def split: cli_end.splits if_splits)
      moreover have "(n', f', True, r) \<in> set (probe_log rc m' calls)"
        using 2(4,6) log j by (auto simp: in_set_conv_nth)
      ultimately show ?thesis
        using 2(2) no_start_while_suppressed by auto
    next
      case (Suc i')
      then show ?thesis using 2 log j call by auto
    qed
  qed simp
  show "list_pcms now fin run rc m = ((Ret None, False), m)" if "now < suppressed_until m"
    using that by (simp add: list_pcms_def probe_suppressed_def)
  show "\<not> probe_suppressed (max 0 later) (snd (list_pcms now fin (CliDone 0 out) rc m))"
    if "\<not> probe_suppressed now m"
    using that by (simp add: list_pcms_def probe_suppressed_def note_probe_success_def)
qed

text \<open>The command is missing at 0, is not tried at 1, and is tried again at 61.\<close>

lemma failing_probe_backs_off_witness:
  "let calls = [(0, 0, CliMissing), (1, 1, CliMissing), (61, 61, CliDone 0 [])];
       log = probe_log (\<lambda>_. []) \<lparr>suppressed_until = 0, last_failure = []\<rparr> calls
   in map (\<lambda>(_, _, b, _). b) log = [True, False, True] \<and> 0 + BLUEALSA_PROBE_FAILURE_TTL_SEC \<le> 61"
proof -
  let ?m = "\<lparr>suppressed_until = 0, last_failure = []\<rparr>"
  let ?calls = "[(0, 0, CliMissing), (1, 1, CliMissing), (61, 61, CliDone 0 [])]"
  have log: "probe_log (\<lambda>_. []) ?m ?calls =
      [(0, 0, True, Ret None), (1, 1, False, Ret None), (61, 61, True, Ret (Some []))]"
    by (simp add: list_pcms_def probe_suppressed_def note_probe_failure_def note_probe_success_def
        BLUEALSA_PROBE_FAILURE_TTL_SEC_def)
  then show ?thesis
    using failing_probe_backs_off [of 0 ?calls 0 2 "\<lambda>_. []" ?m 0 0 61 61 "Ret (Some [])"]
    by simp
qed

end
