(* ===== verification/Volume_Observer.thy ===== *)
theory Volume_Observer
  imports Volume_Guards Source_Probes
begin

text \<open>
  \<open>jasper/audio_control/volume_observers.py\<close>: the 1 Hz task of the voice daemon that follows the audible
  source. A tick runs the coordinator's transition when the source changed, probes the one renderer that
  is audible, reports a volume the coordinator has not accepted yet, and ends with the reconciler.
  The observer's memory extends the coordinator's; its readers are doors and the parsing around them.
\<close>

section \<open>State and doors\<close>

record 'w observer = "'w coord" +
  ob_last_seen :: "source \<rightharpoonup> rat"            \<comment> \<open>native units\<close>
  ob_last_revision :: "source \<rightharpoonup> string"
  ob_last_active :: "source option"
  ob_probe :: probe_mem

record 'w observer_doors = "'w vol_doors" +
  d_librespot_file :: "'w \<Rightarrow> text_file"
  d_list_pcms :: "'w \<Rightarrow> cli_end \<times> 'w"
  d_rc_text :: "int \<Rightarrow> string"
  d_transport_volume :: "string \<Rightarrow> 'w \<Rightarrow> busctl_result option \<times> 'w"

text \<open>What stops a tick: an exception of the coordinator or of a reader.\<close>

datatype observer_exn = CoordRaised coord_exn | ReaderRaised

definition observed_sources :: "source list" where
  "observed_sources = [SPOTIFY, BLUETOOTH]"

section \<open>Readers\<close>

definition read_spotify_percent ::
  "('w, 'y) observer_doors_scheme \<Rightarrow> (('w, 'z) observer_scheme, int option outcome) state" where
  "read_spotify_percent d = do { f \<leftarrow> peek (d_librespot_file d); ret (volume_percent f) }"

text \<open>\<open>re.search(r"\d+", out)\<close>, \<open>int\<close> (a \<open>ValueError\<close> is caught) and the clamp to 0..127.\<close>

definition parse_transport_volume :: "string \<Rightarrow> int option" where
  "parse_transport_volume out =
     (let ds = takeWhile is_digit (dropWhile (\<lambda>c. \<not> is_digit c) out)
      in if ds = [] then None else map_option (\<lambda>v. max 0 (min 127 v)) (py_int ds))"

definition find_transport ::
  "('w, 'y) observer_doors_scheme \<Rightarrow> (('w, 'z) observer_scheme, string option outcome) state" where
  "find_transport d = do {
     now \<leftarrow> peek (d_mono d);
     m \<leftarrow> gets ob_probe;
     if probe_suppressed now m then ret (Ret None)
     else do {
       run \<leftarrow> await d (d_list_pcms d);
       finished \<leftarrow> peek (d_mono d);
       let (r, m') = active_transport_path now finished run (d_rc_text d) m;
       modify (\<lambda>s. s\<lparr>ob_probe := m'\<rparr>);
       ret r
     }
   }"

definition read_bluetooth_volume ::
  "('w, 'y) observer_doors_scheme \<Rightarrow> (('w, 'z) observer_scheme, int option outcome) state" where
  "read_bluetooth_volume d = do {
     path \<leftarrow> find_transport d;
     case path of
       Ret p \<Rightarrow> (case p of
           None \<Rightarrow> ret (Ret None)
         | Some transport \<Rightarrow> do {
             result \<leftarrow> await d (d_transport_volume d transport);
             ret (Ret (Option.bind (get_property result) parse_transport_volume))
           })
     | IoError \<Rightarrow> ret IoError
     | Fatal \<Rightarrow> ret Fatal
   }"

section \<open>One report\<close>

definition forward_observation ::
  "('w, 'y) observer_doors_scheme \<Rightarrow> source \<Rightarrow> rat \<Rightarrow> bool \<Rightarrow> string option \<Rightarrow>
   (('w, 'z) observer_scheme, coord_exn + unit) state" where
  "forward_observation d source value initial revision = do {
     r \<leftarrow> observe_source_volume d source value initial;
     case r of
       Inl e \<Rightarrow> ret (Inl e)
     | Inr accepted \<Rightarrow> do {
         onlyif accepted (modify (\<lambda>s. s\<lparr>ob_last_seen := (ob_last_seen s)(source \<mapsto> value),
           ob_last_revision := (ob_last_revision s)(source := revision)\<rparr>));
         ret (Inr ())
       }
   }"

definition maybe_observe ::
  "('w, 'y) observer_doors_scheme \<Rightarrow> source \<Rightarrow> rat \<Rightarrow> (('w, 'z) observer_scheme, coord_exn + unit) state" where
  "maybe_observe d source value = do {
     last_seen \<leftarrow> gets (\<lambda>s. ob_last_seen s source);
     revision \<leftarrow> source_observation_revision d source;
     last_revision \<leftarrow> gets (\<lambda>s. ob_last_revision s source);
     if (case last_seen of None \<Rightarrow> True | Some v \<Rightarrow> \<bar>value - v\<bar> > 1 / 2) \<or> revision \<noteq> last_revision
     then forward_observation d source value (last_seen = None) revision
     else ret (Inr ())
   }"

section \<open>The tick\<close>

text \<open>A new audible source. Its last report is forgotten, so the first one is forwarded.\<close>

definition follow_active ::
  "('w, 'y) observer_doors_scheme \<Rightarrow> source \<Rightarrow> (('w, 'z) observer_scheme, coord_exn + unit) state" where
  "follow_active d current = do {
     last_active \<leftarrow> gets ob_last_active;
     if last_active = Some current then ret (Inr ())
     else do {
       r \<leftarrow> (case last_active of
              None \<Rightarrow> ret (Inr ())
            | Some prev \<Rightarrow> apply_transition d prev current);
       case r of
         Inl e \<Rightarrow> ret (Inl e)
       | Inr _ \<Rightarrow> do {
           onlyif (current \<in> set observed_sources)
             (modify (\<lambda>s. s\<lparr>ob_last_seen := (ob_last_seen s)(current := None),
               ob_last_revision := (ob_last_revision s)(current := None)\<rparr>));
           modify (\<lambda>s. s\<lparr>ob_last_active := Some current\<rparr>);
           ret (Inr ())
         }
     }
   }"

definition report ::
  "('w, 'y) observer_doors_scheme \<Rightarrow> source \<Rightarrow> int option outcome \<Rightarrow>
   (('w, 'z) observer_scheme, observer_exn + unit) state" where
  "report d source reading =
     (case reading of
        Ret v \<Rightarrow> (case v of
            None \<Rightarrow> ret (Inr ())
          | Some n \<Rightarrow> do { r \<leftarrow> maybe_observe d source (of_int n); ret (map_sum CoordRaised id r) })
      | IoError \<Rightarrow> ret (Inl ReaderRaised)
      | Fatal \<Rightarrow> ret (Inl ReaderRaised))"

definition probe_active ::
  "('w, 'y) observer_doors_scheme \<Rightarrow> source \<Rightarrow> (('w, 'z) observer_scheme, observer_exn + unit) state" where
  "probe_active d current =
     (if current = SPOTIFY then do { reading \<leftarrow> read_spotify_percent d; report d SPOTIFY reading }
      else if current = BLUETOOTH then do { reading \<leftarrow> read_bluetooth_volume d; report d BLUETOOTH reading }
      else ret (Inr ()))"

text \<open>\<open>active_source\<close> answers \<open>IDLE\<close> where a probe raised, so the tick always has a source.\<close>

definition observer_tick ::
  "('w, 'y) observer_doors_scheme \<Rightarrow> (('w, 'z) observer_scheme, observer_exn + unit) state" where
  "observer_tick d = do {
     current \<leftarrow> active_source d;
     followed \<leftarrow> follow_active d current;
     case followed of
       Inl e \<Rightarrow> ret (Inl (CoordRaised e))
     | Inr _ \<Rightarrow> do {
         probed \<leftarrow> probe_active d current;
         case probed of
           Inl e \<Rightarrow> ret (Inl e)
         | Inr _ \<Rightarrow> do { _ \<leftarrow> maybe_reconcile_camilla d (Some current); ret (Inr ()) }
       }
   }"

text \<open>\<open>_run\<close>, cut after \<open>n\<close> ticks: a tick that raised is logged and the loop goes on.\<close>

definition OBSERVER_POLL_INTERVAL_SEC :: rat where "OBSERVER_POLL_INTERVAL_SEC = 1"

fun observer_run ::
  "('w, 'y) observer_doors_scheme \<Rightarrow> nat \<Rightarrow> nat \<Rightarrow> (('w, 'z) observer_scheme, nat) state" where
  "observer_run d 0 failures = ret failures"
| "observer_run d (Suc n) failures = do {
     r \<leftarrow> observer_tick d;
     sleep_for d OBSERVER_POLL_INTERVAL_SEC;
     observer_run d n (case r of Inl _ \<Rightarrow> failures + 1 | Inr _ \<Rightarrow> 0)
   }"

definition observer_init :: "('w, 'z) observer_scheme \<Rightarrow> ('w, 'z) observer_scheme" where
  "observer_init s = s\<lparr>ob_last_seen := Map.empty, ob_last_revision := Map.empty, ob_last_active := None\<rparr>"

section \<open>The coordinator leaves the observer's memory alone\<close>

abbreviation frames :: "(('w, 'z) coord_scheme, 'a) state \<Rightarrow> bool" where
  "frames p \<equiv> keeps coord.more p"

lemma frame_cases [keeps_intros]:
  "(\<And>a. frames (f a)) \<Longrightarrow> frames g \<Longrightarrow> frames h \<Longrightarrow>
    frames (case x of Ret a \<Rightarrow> f a | IoError \<Rightarrow> g | Fatal \<Rightarrow> h)"
  "(\<And>a. frames (f1 a)) \<Longrightarrow> frames g1 \<Longrightarrow> frames h1 \<Longrightarrow>
    frames (case y of CallOk a \<Rightarrow> f1 a | CallRejected \<Rightarrow> g1 | CallUnavailable \<Rightarrow> h1)"
  "(\<And>a. frames (f2 a)) \<Longrightarrow> frames g2 \<Longrightarrow> frames h2 \<Longrightarrow>
    frames (case z of AOk a \<Rightarrow> f2 a | ARejected \<Rightarrow> g2 | AFailed \<Rightarrow> h2)"
  by (simp_all split: outcome.split call.split attempt.split)

lemma frame_load [keeps_intros]:
  "frames (load d)" "frames (refresh_from_disk d)" "frames (fresh_level d)" "frames (state_update d)"
proof -
  show 1: "frames (load d)"
    unfolding load_def by (intro keeps_intros) (simp_all add: remember_def)
  show 2: "frames (refresh_from_disk d)"
    unfolding refresh_from_disk_def Let_def by (intro keeps_intros 1) simp_all
  show "frames (fresh_level d)" "frames (state_update d)"
    unfolding fresh_level_def get_volume_state_def state_update_def by (intro keeps_intros 1 2; simp)+
qed

lemma frame_save [keeps_intros]:
  "frames (save_now d db)" "frames (save_listening_level d l t)" "frames (clear_latch d)" "frames (refuse_level_write d)"
proof -
  show "frames (save_now d db)"
    unfolding save_now_def write_full_def Let_def by (intro keeps_intros; simp)
  show 1: "frames (save_listening_level d l t)"
    unfolding save_listening_level_def write_full_def Let_def by (intro keeps_intros; simp)
  have "frames (holds_fader d)"
    unfolding holds_fader_def update_gate_def by (intro keeps_intros; simp)
  then show "frames (refuse_level_write d)" by (simp add: refuse_level_write_def)
  show "frames (clear_latch d)"
    unfolding clear_latch_def save_mute_state_def write_full_def Let_def by (intro keeps_intros; simp)
qed

lemma frame_camilla [keeps_intros]:
  "frames (read_volume_and_mute d)" "frames (write_main_mute d b)"
  "frames (write_fader_db d x)" "frames (read_fader_door d)"
proof -
  have call: "frames (cam_call d fn)" for fn
    unfolding cam_call_def retry_call_def by (intro keeps_intros; simp)
  show "frames (read_volume_and_mute d)" "frames (write_main_mute d b)"
    "frames (write_fader_db d x)" "frames (read_fader_door d)"
    unfolding read_volume_and_mute_def get_volume_and_mute_def write_main_mute_def set_main_mute_def
      write_fader_db_def set_volume_db_def read_fader_door_def get_volume_db_def
    by (intro keeps_intros call; simp)+
qed

lemma frame_write_db [keeps_intros]: "frames (write_db_with_mute d db)"
  unfolding write_db_with_mute_def land_level_def declare_household_def declare_household_level_db_def
    update_claims_def take_token_def establish_def apply_level_def settle_def read_fader_db_def
    set_and_confirm_volume_def
  by (intro keeps_intros; simp)

lemma frame_set_camilla [keeps_intros]:
  "frames (set_camilla_db d db p)" "frames (set_camilla d l)" "frames (persisted_main_volume_db d)"
  unfolding set_camilla_def set_camilla_db_def persisted_main_volume_db_def Let_def
  by (intro keeps_intros; simp)+

lemma frame_push_source [keeps_intros]: "frames (push_source d src l)"
proof -
  have "frames (push_to_accounts d pct as)" for pct as
    by (induction as) (auto intro!: keeps_intros)
  then show ?thesis
    unfolding push_source_def push_spotify_volume_def push_bluetooth_volume_def stamp_outbound_def Let_def
    by (cases src) (auto intro!: keeps_intros)
qed

lemma frame_confirm [keeps_intros]:
  "frames (confirm_push_mode_carrier d src l b)" "frames (confirm_push_mode_carrier_with_mutation d src l b)"
  unfolding confirm_push_mode_carrier_def confirm_push_mode_carrier_with_mutation_def
    clear_confirmed_push_guard_def
  by (intro keeps_intros; simp)+

lemma frame_publish [keeps_intros]: "frames (publish_volume_context d)" "frames (audible_source d)"
proof -
  show audible: "frames (audible_source d)"
    unfolding audible_source_def selected_source_def by (intro keeps_intros; simp)
  have attempt: "frames (snapshot_attempt d)" "frames (snapshot_degraded d)"
    unfolding snapshot_attempt_def snapshot_degraded_def by (intro keeps_intros audible; simp)+
  have loop: "frames (snapshot_loop d n)" for n
    by (induction n) (auto intro!: keeps_intros attempt)
  show "frames (publish_volume_context d)"
    unfolding publish_volume_context_def snapshot_def publish_context_def
    by (intro keeps_intros loop; simp)
qed

lemma frame_gates [keeps_intros]:
  "frames (holds_fader d)" "frames (lapse_stranded d)" "frames gate_active" "frames voice_session_active"
  "frames (read_fader_hold d)"
proof -
  show 1: "frames gate_active" unfolding gate_active_def by (intro keeps_intros)
  show 2: "frames (holds_fader d)" unfolding holds_fader_def update_gate_def by (intro keeps_intros; simp)
  show "frames (lapse_stranded d)"
    unfolding lapse_stranded_def update_gate_def by (intro keeps_intros 1 2; simp)
  show "frames voice_session_active" "frames (read_fader_hold d)"
    unfolding voice_session_active_def read_fader_hold_def by (intro keeps_intros; simp)+
qed

lemma frame_mutation [keeps_intros]: "frames body \<Longrightarrow> frames (mutation d b body)"
  unfolding mutation_def by (intro keeps_intros; simp)

lemma frame_reconcile [keeps_intros]: "frames (maybe_reconcile_camilla d src)"
proof -
  have later: "frames (defer_tick why)" "frames (defer_for_dsp_writer d)" for why
    unfolding defer_for_dsp_writer_def defer_tick_def by (intro keeps_intros; simp)+
  have "frames (gated_write d b db)" for b db
    unfolding gated_write_def defer_for_measurement_hold_def reconcile_write_def
    by (intro keeps_intros later; simp)
  note gated = this
  have "frames (write_under_lease d)" "frames (preflight d src)"
    unfolding write_under_lease_def preflight_def Let_def by (intro keeps_intros later gated; simp)+
  note parts = this
  show ?thesis
    unfolding maybe_reconcile_camilla_def by (intro keeps_intros parts; simp)
qed

lemma frame_transition [keeps_intros]: "frames (apply_transition d prev cur)"
proof -
  have push: "frames (push_or_guard d src l)" for src l
    unfolding push_or_guard_def guard_camilla_after_push_failure_def Let_def by (intro keeps_intros; simp)
  have handoff: "frames (read_mux_handoff d)"
    unfolding read_mux_handoff_def last_handoff_def by (intro keeps_intros; simp)
  show ?thesis
    unfolding apply_transition_def transition_locked_def stamp_outbound_def Let_def
    by (intro keeps_intros push handoff; simp)
qed

lemma frame_observe [keeps_intros]: "frames (observe_source_volume d src v initial)"
proof -
  have echo: "frames (ignore_echo d src l)" for l
    unfolding ignore_echo_def is_own_echo_def is_recent_cross_process_write_def
    by (intro keeps_intros; simp)
  have sync: "frames (sync_observed_carrier d src l)" for l
    unfolding sync_observed_carrier_def sync_camilla_observed_level_def by (intro keeps_intros; simp)
  have accepted: "frames (observe_accepted d src l)" for l
    unfolding observe_accepted_def accept_user_side_change_def by (intro keeps_intros echo sync; simp)
  have locked: "frames (observe_locked d src l initial)" for l
    unfolding observe_locked_def observe_latched_def confirm_push_mute_zero_def defer_until_mute_zero_def
      ignore_moved_source_def persisted_mute_latch_def defer_initial_while_latched_def Let_def
    by (intro keeps_intros accepted; simp)
  show ?thesis
    unfolding observe_source_volume_def ignore_inactive_source_def by (intro keeps_intros locked; simp)
qed

section \<open>The observer's invariant\<close>

definition native_max :: "source \<Rightarrow> rat" where
  "native_max src = (if src = SPOTIFY then 100 else 127)"

definition seen_ok :: "('w, 'z) observer_scheme \<Rightarrow> bool" where
  "seen_ok s \<longleftrightarrow> (\<forall>src v. ob_last_seen s src = Some v \<longrightarrow>
     src \<in> set observed_sources \<and> 0 \<le> v \<and> v \<le> native_max src)"

definition observer_inv :: "('w, 'z) observer_scheme \<Rightarrow> bool" where
  "observer_inv s \<longleftrightarrow> coord_inv s \<and> seen_ok s"

lemma framed_seen:
  fixes s s' :: "('w, 'z) observer_scheme"
  assumes "coord.more s' = coord.more s"
  shows "ob_last_seen s' = ob_last_seen s" "ob_last_revision s' = ob_last_revision s"
    "ob_last_active s' = ob_last_active s" "ob_probe s' = ob_probe s"
  using assms by (cases s; cases s'; simp)+

lemma framed_inv:
  fixes p :: "(('w, 'z) observer_scheme, 'a) state"
  assumes "frames p" "pres coord_inv p"
  shows "pres observer_inv p"
  unfolding pres_def observer_inv_def seen_ok_def
  using framed_seen(1) [OF assms(1) [unfolded keeps_def, rule_format]] assms(2) [unfolded pres_def] by auto

lemma coord_inv_observer_fields [simp]:
  "coord_inv (s\<lparr>ob_last_seen := f, ob_last_revision := g\<rparr>) = coord_inv s"
  "coord_inv (s\<lparr>ob_last_active := a\<rparr>) = coord_inv s" "coord_inv (s\<lparr>ob_probe := m\<rparr>) = coord_inv s"
  by (simp_all add: coord_inv_def memory_inv_def intent_ok_def)

lemma observer_fields_inv:
  assumes "observer_inv s"
  shows "src \<in> set observed_sources \<Longrightarrow> 0 \<le> v \<Longrightarrow> v \<le> native_max src \<Longrightarrow>
      observer_inv (s\<lparr>ob_last_seen := (ob_last_seen s)(src \<mapsto> v), ob_last_revision := g\<rparr>)"
    "observer_inv (s\<lparr>ob_last_seen := (ob_last_seen s)(src := None), ob_last_revision := g\<rparr>)"
    "observer_inv (s\<lparr>ob_last_active := a\<rparr>)" "observer_inv (s\<lparr>ob_probe := m\<rparr>)"
  using assms by (auto simp: observer_inv_def seen_ok_def)

lemma volume_percent_range: "volume_percent f = Ret (Some n) \<Longrightarrow> 0 \<le> n \<and> n \<le> 100"
  by (auto simp: volume_percent_def volume_percent_of_def Let_def
      split: outcome.splits option.splits state_value.splits if_splits)

lemma transport_volume_range: "parse_transport_volume out = Some n \<Longrightarrow> 0 \<le> n \<and> n \<le> 127"
  by (auto simp: parse_transport_volume_def Let_def split: if_splits)

definition reading_ok :: "source \<Rightarrow> int option outcome \<Rightarrow> bool" where
  "reading_ok src r \<longleftrightarrow> (\<forall>n. r = Ret (Some n) \<longrightarrow> 0 \<le> n \<and> of_int n \<le> native_max src)"

lemma pres_find_transport: "pres observer_inv (find_transport d)"
  unfolding find_transport_def
  by (intro pres_intros framed_inv keeps_intros pres_modify observer_fields_inv; simp)

lemma reading_ranges:
  fixes d :: "('w, 'y) observer_doors_scheme" and s :: "('w, 'z) observer_scheme"
  shows "wp (read_spotify_percent d) (\<lambda>r _. reading_ok SPOTIFY r) s"
  "wp (read_bluetooth_volume d) (\<lambda>r _. reading_ok BLUETOOTH r) s"
proof -
  show "wp (read_spotify_percent d) (\<lambda>r _. reading_ok SPOTIFY r) s"
    by (auto simp: read_spotify_percent_def wp_simps reading_ok_def native_max_def dest!: volume_percent_range)
  have parsed: "reading_ok BLUETOOTH (Ret (Option.bind out parse_transport_volume))" for out
    by (cases out) (auto simp: reading_ok_def native_max_def dest!: transport_volume_range)
  have "wp (case path of
       Ret p \<Rightarrow> (case p of
           None \<Rightarrow> ret (Ret None)
         | Some transport \<Rightarrow> do {
             result \<leftarrow> await d (d_transport_volume d transport);
             ret (Ret (Option.bind (get_property result) parse_transport_volume))
           })
     | IoError \<Rightarrow> ret IoError
     | Fatal \<Rightarrow> ret Fatal) (\<lambda>r _. reading_ok BLUETOOTH r) s1" for path and s1 :: "('w, 'z) observer_scheme"
    by (auto simp: wp_simps parsed split: outcome.split option.split) (simp_all add: reading_ok_def)
  then show "wp (read_bluetooth_volume d) (\<lambda>r _. reading_ok BLUETOOTH r) s"
    unfolding read_bluetooth_volume_def by (rule wp_bind_any)
qed

lemma pres_read_volume: "pres observer_inv (read_spotify_percent d)" "pres observer_inv (read_bluetooth_volume d)"
proof -
  have step: "pres observer_inv (await d f)" for f
    by (intro framed_inv keeps_intros pres_intros; simp)
  show "pres observer_inv (read_spotify_percent d)"
    unfolding read_spotify_percent_def by (intro pres_intros)
  show "pres observer_inv (read_bluetooth_volume d)"
    unfolding read_bluetooth_volume_def
    by (rule pres_bind [OF pres_find_transport]) (auto split: outcome.split option.split intro!: pres_intros step)
qed

lemma pres_maybe_observe:
  assumes "valid_floor_db (d_floor d)" "src \<in> set observed_sources" "0 \<le> v" "v \<le> native_max src"
  shows "pres observer_inv (maybe_observe d src v)"
proof -
  have step: "pres observer_inv (observe_source_volume d src v b)"
    "pres observer_inv (source_observation_revision d src)" for b
    unfolding source_observation_revision_def
    by (intro framed_inv keeps_intros pres_intros assms(1); simp)+
  show ?thesis
    unfolding maybe_observe_def forward_observation_def
    by (intro pres_intros step pres_modify observer_fields_inv(1) assms)
qed

lemma pres_report:
  assumes "valid_floor_db (d_floor d)" "src \<in> set observed_sources" "reading_ok src r"
  shows "pres observer_inv (report d src r)"
  unfolding report_def using assms(3)
  by (auto simp: reading_ok_def split: outcome.split option.split
      intro!: pres_intros pres_maybe_observe [OF assms(1,2)])

lemma pres_observer_tick:
  assumes "valid_floor_db (d_floor d)"
  shows "pres observer_inv (observer_tick d)"
proof -
  have coordinator: "pres observer_inv (active_source d)" "pres observer_inv (apply_transition d prev cur)"
    "pres observer_inv (maybe_reconcile_camilla d src)" for prev cur src
    by (intro framed_inv keeps_intros pres_intros assms)+
  have follow: "pres observer_inv (follow_active d cur)" for cur
    unfolding follow_active_def
    by (intro pres_intros coordinator pres_modify observer_fields_inv; assumption)
  have "pres observer_inv (probe_active d cur)" for cur
    unfolding probe_active_def
    by (intro pres_if pres_return pres_bind_inv [where R = "reading_ok SPOTIFY"]
        pres_bind_inv [where R = "reading_ok BLUETOOTH"] pres_report assms;
      (simp add: observed_sources_def wp_conj reading_ranges wp_pres pres_read_volume)?)
  note probe = this
  show ?thesis
    unfolding observer_tick_def by (intro pres_intros coordinator follow probe)
qed

text \<open>
  The observer keeps the speaker consistent. However many ticks run, whatever the renderers, mux, the
  state file of librespot and the BlueALSA tools answer, and whether ticks fail or not, the coordinator's
  invariant holds and the volumes the observer remembers are native values of the sources it polls.
\<close>

theorem observer_keeps_invariant:
  assumes "valid_floor_db (d_floor d)"
  shows "pres observer_inv (observer_run d n failures) \<and> (coord_inv s \<longrightarrow> observer_inv (observer_init s))"
proof
  have step: "pres observer_inv (await d f)" for f
    by (intro framed_inv keeps_intros pres_intros; simp)
  show "pres observer_inv (observer_run d n failures)"
    by (induction n arbitrary: failures) (auto intro!: pres_intros pres_observer_tick [OF assms] step)
  show "coord_inv s \<longrightarrow> observer_inv (observer_init s)"
    by (simp add: observer_inv_def observer_init_def seen_ok_def coord_inv_def memory_inv_def intent_ok_def)
qed

section \<open>What a report leaves behind\<close>

definition same_cache :: "('w, 'z) observer_scheme \<Rightarrow> ('w, 'z) observer_scheme \<Rightarrow> bool" where
  "same_cache s s' \<longleftrightarrow> ob_last_seen s' = ob_last_seen s \<and> ob_last_revision s' = ob_last_revision s"

lemma wp_revision:
  assumes "stores i s" "src \<in> set observed_sources"
  shows "wp (source_observation_revision d src)
    (\<lambda>r s'. r = snd (snd i) \<and> stores i s' \<and> trace s' = trace s \<and> coord.more s' = coord.more s) s"
  using assms
  by (auto simp: source_observation_revision_def observed_sources_def load_def wp_simps stores_def file_reads_def
      remember_def intent_of_def split: outcome.split)

lemma pres_same_cache:
  fixes p :: "(('w, 'z) observer_scheme, 'a) state"
  assumes "frames p"
  shows "pres (same_cache s0) p"
  unfolding pres_def same_cache_def
  using framed_seen(1,2) [OF assms [unfolded keeps_def, rule_format]] by auto

lemma wp_forward_observation:
  fixes s :: "('w, 'z) observer_scheme"
  assumes d: "file_undisturbed d" "writes_land d" "valid_floor_db (d_floor d)"
    and "native_to_listening_level src v = Some level" "stores i s" "same_cache s0 s"
  shows "wp (forward_observation d src v initial revision)
     (\<lambda>r s'. same_cache s0 s' \<or> r = Inr () \<and> ob_last_seen s' = (ob_last_seen s0)(src \<mapsto> v) \<and>
        ob_last_revision s' = (ob_last_revision s0)(src := revision) \<and>
        observed_intent i (clamp 0 100 level) True s') s"
  unfolding forward_observation_def
proof (rule wp_then)
  show "wp (observe_source_volume d src v initial)
      (\<lambda>r s'. same_cache s0 s' \<and> observed_intent i (clamp 0 100 level) (r = Inr True) s') s"
    unfolding wp_conj
  proof
    show "wp (observe_source_volume d src v initial) (\<lambda>_. same_cache s0) s"
      by (rule wp_pres [OF pres_same_cache [OF frame_observe] assms(6)])
  qed (rule wp_observe_intent [OF assms(1-5)])
  show "wp (case r of
         Inl e \<Rightarrow> ret (Inl e)
       | Inr accepted \<Rightarrow> do {
           onlyif accepted (modify (\<lambda>s. s\<lparr>ob_last_seen := (ob_last_seen s)(src \<mapsto> v),
             ob_last_revision := (ob_last_revision s)(src := revision)\<rparr>));
           ret (Inr ())
         })
     (\<lambda>r s'. same_cache s0 s' \<or> r = Inr () \<and> ob_last_seen s' = (ob_last_seen s0)(src \<mapsto> v) \<and>
        ob_last_revision s' = (ob_last_revision s0)(src := revision) \<and>
        observed_intent i (clamp 0 100 level) True s') s1"
    if "same_cache s0 s1 \<and> observed_intent i (clamp 0 100 level) (r = Inr True) s1"
    for r :: "coord_exn + bool" and s1 :: "('w, 'z) observer_scheme"
    using that
    by (auto simp: wp_simps same_cache_def observed_intent_def stores_def file_reads_def split: sum.split)
qed

text \<open>
  The observer remembers only what the coordinator accepted. While this process alone writes the volume
  file, a report of a renderer's volume leaves the observer's cache as it was, or the coordinator
  accepted it: then the cache holds the value and the mute token that was stored when it was read, and the
  file holds the reported level unmuted or, for a report that confirms the stored intent, that intent. A
  value within half a unit of the cached one under the cached mute token is not reported at all:
  nothing is done and the stored intent stays; a new mute token is reported even at the same value.
\<close>

theorem observer_caches_accepted_reports:
  fixes s :: "('w, 'z) observer_scheme"
  assumes "file_undisturbed d" "writes_land d" "valid_floor_db (d_floor d)" "src \<in> set observed_sources"
    and "native_to_listening_level src v = Some level" "stores i s"
  shows "wp (maybe_observe d src v)
      (\<lambda>r s'. same_cache s s' \<or> r = Inr () \<and> ob_last_seen s' = (ob_last_seen s)(src \<mapsto> v) \<and>
        ob_last_revision s' = (ob_last_revision s)(src := snd (snd i)) \<and>
        observed_intent i (clamp 0 100 level) True s') s \<and>
    (ob_last_seen s src = Some u \<and> \<bar>v - u\<bar> \<le> 1 / 2 \<and> ob_last_revision s src = snd (snd i) \<longrightarrow>
      wp (maybe_observe d src v) (\<lambda>r s'. r = Inr () \<and> same_cache s s' \<and> trace s' = trace s \<and> stores i s') s) \<and>
    (ob_last_seen s src = Some u \<and> ob_last_revision s src \<noteq> snd (snd i) \<longrightarrow>
      wp (maybe_observe d src v) Q s =
      wp (do { revision \<leftarrow> source_observation_revision d src; forward_observation d src v False revision }) Q s)"
proof (intro conjI impI)
  note revision = wp_revision [OF assms(6,4), of d]
  have cache: "same_cache s s1" "ob_last_revision s1 = ob_last_revision s"
    if "coord.more s1 = coord.more s" for s1 :: "('w, 'z) observer_scheme"
    using framed_seen [OF that] by (simp_all add: same_cache_def)
  show "wp (maybe_observe d src v)
      (\<lambda>r s'. same_cache s s' \<or> r = Inr () \<and> ob_last_seen s' = (ob_last_seen s)(src \<mapsto> v) \<and>
        ob_last_revision s' = (ob_last_revision s)(src := snd (snd i)) \<and>
        observed_intent i (clamp 0 100 level) True s') s"
    unfolding maybe_observe_def
    apply (rule wp_gets_bind, rule wp_then [OF revision], elim conjE, frule cache(1), rule wp_gets_bind, rule wp_ifI)
     apply (simp only:, rule wp_forward_observation [OF assms(1-3,5)], assumption, assumption)
    apply (unfold wp_return, rule disjI1, assumption)
    done
  show "wp (maybe_observe d src v) (\<lambda>r s'. r = Inr () \<and> same_cache s s' \<and> trace s' = trace s \<and> stores i s') s"
    if quiet: "ob_last_seen s src = Some u \<and> \<bar>v - u\<bar> \<le> 1 / 2 \<and> ob_last_revision s src = snd (snd i)"
    unfolding maybe_observe_def
    apply (rule wp_gets_bind, rule wp_then [OF revision], elim conjE, frule cache(1), frule cache(2), rule wp_gets_bind)
    using quiet apply (simp add: wp_return)
    done
  show "wp (maybe_observe d src v) Q s =
      wp (do { revision \<leftarrow> source_observation_revision d src; forward_observation d src v False revision }) Q s"
    if news: "ob_last_seen s src = Some u \<and> ob_last_revision s src \<noteq> snd (snd i)"
  proof -
    let ?r = "run_state (source_observation_revision d src) s"
    have r: "fst ?r = snd (snd i) \<and> ob_last_revision (snd ?r) = ob_last_revision s"
      by (rule wp_mono [OF revision, unfolded wp_def]) (blast intro: cache(2))
    have at: "wp (source_observation_revision d src) P s = P (fst ?r) (snd ?r)" for P
      by (simp add: wp_def)
    have "ob_last_revision (snd ?r) src \<noteq> fst ?r" using news r by simp
    then show ?thesis
      using news by (auto simp: maybe_observe_def wp_bind wp_gets at simp del: split_paired_All)
  qed
qed

section \<open>A demo observer\<close>

text \<open>Mux reports Spotify, and librespot's state file is cut inside a character.\<close>

definition demo_observer_doors :: "demo observer_doors" where
  "demo_observer_doors = vol_doors.extend
     (demo_doors\<lparr>d_mux_status := \<lambda>w. (Some \<lparr>mv_active_source = Some ''spotify'', mv_last_handoff = None\<rparr>, w)\<rparr>)
     (observer_doors.fields (\<lambda>_. TBadUtf8) (\<lambda>w. (CliMissing, w)) (\<lambda>_. ''1'') (\<lambda>_ w. (None, w)))"

definition demo_observer :: "demo observer" where
  "demo_observer = coord.extend demo_coord
     (observer.fields Map.empty Map.empty (Some SPOTIFY) \<lparr>suppressed_until = 0, last_failure = ''''\<rparr>)"

lemma demo_observer_doors_simps [simp]:
  "d_env demo_observer_doors = (\<lambda>_ h. h)" "d_write_ok demo_observer_doors = (\<lambda>w. (True, w))"
  "d_floor demo_observer_doors = -50" "d_librespot_file demo_observer_doors = (\<lambda>_. TBadUtf8)"
  "d_mux_status demo_observer_doors =
     (\<lambda>w. (Some \<lparr>mv_active_source = Some ''spotify'', mv_last_handoff = None\<rparr>, w))"
  by (simp_all add: demo_observer_doors_def vol_doors.defs observer_doors.defs)

lemma demo_observer_assumptions:
  "file_undisturbed demo_observer_doors" "writes_land demo_observer_doors"
  "valid_floor_db (d_floor demo_observer_doors)" "stores (Some 60, None, None) demo_observer"
  using demo_coord_stores demo_floor_valid
  by (simp_all add: file_undisturbed_def writes_land_def demo_observer_def coord.defs stores_def file_reads_def)

lemma observer_keeps_invariant_witness:
  "pres observer_inv (observer_run demo_observer_doors 10 0)"
  using observer_keeps_invariant [OF demo_observer_assumptions(3), of 10 0] by blast

lemma observer_caches_accepted_reports_witness:
  "wp (maybe_observe demo_observer_doors SPOTIFY 60)
      (\<lambda>r s'. same_cache demo_observer s' \<or> r = Inr () \<and>
        ob_last_seen s' = (ob_last_seen demo_observer)(SPOTIFY \<mapsto> 60) \<and>
        ob_last_revision s' = (ob_last_revision demo_observer)(SPOTIFY := None) \<and>
        observed_intent (Some 60, None, None) 60 True s') demo_observer"
proof -
  have "native_to_listening_level SPOTIFY 60 = Some 60"
    using py_trunc_of_int [of 60] by (simp add: spotify_percent_to_listening_level_def)
  then show ?thesis
    using observer_caches_accepted_reports
      [OF demo_observer_assumptions(1-3) _ _ demo_observer_assumptions(4), of SPOTIFY 60 60]
    by (simp add: observed_sources_def)
qed

section \<open>A reader that raises\<close>

text \<open>
  A Spotify reading decides whether the tick reaches the reconciler. While mux keeps reporting the
  source the observer already follows, a missing volume lets every tick run the reconciler and nothing
  else; a state file that is not UTF-8, or whose volume overflows a double, makes every tick fail before
  it: in \<open>n\<close> ticks nothing of the speaker is touched, and the failures are counted.
\<close>

theorem failed_reader_starves_the_reconciler:
  fixes s :: "('w, 'z) observer_scheme"
  assumes mux: "\<And>w. Option.bind (fst (d_mux_status d w)) mv_active_source = Some ''spotify''"
    and known: "ob_last_active s = Some SPOTIFY"
  shows "((\<forall>w. volume_percent (d_librespot_file d w) = Ret None) \<longrightarrow>
      wp (observer_tick d) Q s =
      wp (do { _ \<leftarrow> active_source d; _ \<leftarrow> maybe_reconcile_camilla d (Some SPOTIFY); ret (Inr ()) }) Q s) \<and>
    ((\<forall>w. volume_percent (d_librespot_file d w) = Fatal) \<longrightarrow>
      wp (observer_run d n k) (\<lambda>failures s'. failures = k + n \<and> trace s' = trace s \<and>
        coord.more s' = coord.more s) s)"
proof (intro conjI impI)
  have spotify: "source_of_value ''spotify'' = Some SPOTIFY"
    using source_of_value_source_value [of SPOTIFY] by simp
  have reported: "Option.bind (fst (d_mux_status d w)) (\<lambda>v. Option.bind (mv_active_source v) source_of_value) =
      Some SPOTIFY" for w
    using mux [of w] spotify by (cases "fst (d_mux_status d w)") auto
  have audible: "wp (audible_source d) R s = R SPOTIFY (s\<lparr>world := snd (d_mux_status d (world s)),
      shared := d_env d (snd (d_mux_status d (world s))) (shared s)\<rparr>)"
    for R and s :: "('w, 'z) observer_scheme"
    by (simp add: audible_source_def selected_source_def wp_simps reported)
  show "wp (observer_tick d) Q s =
      wp (do { _ \<leftarrow> active_source d; _ \<leftarrow> maybe_reconcile_camilla d (Some SPOTIFY); ret (Inr ()) }) Q s"
    if "\<forall>w. volume_percent (d_librespot_file d w) = Ret None"
    using that known
    by (simp add: observer_tick_def wp_bind audible follow_active_def wp_gets wp_return probe_active_def
        read_spotify_percent_def wp_peek report_def)
  show "wp (observer_run d n k) (\<lambda>failures s'. failures = k + n \<and> trace s' = trace s \<and>
        coord.more s' = coord.more s) s"
    if broken: "\<forall>w. volume_percent (d_librespot_file d w) = Fatal"
    using known
  proof (induction n arbitrary: k s)
    case 0
    then show ?case by (simp add: wp_return)
  next
    case (Suc n)
    let ?w = "d_sleep d OBSERVER_POLL_INTERVAL_SEC (snd (d_mux_status d (world s)))"
    let ?s = "s\<lparr>world := ?w, shared := d_env d ?w (d_env d (snd (d_mux_status d (world s))) (shared s))\<rparr>"
    have "wp (observer_run d (Suc n) k) R s = wp (observer_run d n (Suc k)) R ?s" for R
      using Suc.prems
      by (simp add: observer_tick_def wp_bind audible follow_active_def wp_gets wp_return probe_active_def
          read_spotify_percent_def wp_peek report_def broken wp_await)
    then show ?case using Suc.IH [of ?s "Suc k"] Suc.prems by simp
  qed
qed

lemma failed_reader_starves_the_reconciler_witness:
  "wp (observer_run demo_observer_doors 10 0) (\<lambda>failures s'. failures = 10 \<and> trace s' = [] \<and>
     coord.more s' = coord.more demo_observer) demo_observer"
proof -
  have "trace demo_observer = []" "ob_last_active demo_observer = Some SPOTIFY"
    by (simp_all add: demo_observer_def demo_coord_def coord.defs observer.defs)
  then show ?thesis
    using failed_reader_starves_the_reconciler [of demo_observer_doors demo_observer, where k = 0 and n = 10]
    by (simp add: volume_percent_def librespot_read_def)
qed

end
