(* ===== verification/Librespot_Hook.thy ===== *)
theory Librespot_Hook
  imports Source_Probes
begin

text \<open>
  \<open>deploy/bin/jasper-librespot-event\<close>, the shell hook librespot runs on every player event, against the
  reader of \<open>jasper/playback_state/librespot_state.py\<close>: what the hook writes is what the reader, the source
  probe and the volume observer see.
\<close>

section \<open>The hook\<close>

abbreviation newline :: char where "newline \<equiv> CHR 0x0A"

abbreviation space :: char where "space \<equiv> CHR 0x20"

text \<open>The variables of one event, in the order the hook copies them.\<close>

definition EVENT_KEYS :: "string list" where
  "EVENT_KEYS = [''PLAYER_EVENT'', ''TRACK_ID'', ''VOLUME'', ''POSITION_MS'', ''CLIENT_ID'', ''OLD_TRACK_ID'',
     ''NEW_TRACK_ID'', ''DURATION_MS'', ''REASON'', ''URI'', ''ITEM_TYPE'', ''PLAY_REQUEST_ID'']"

definition play_flags :: "string \<Rightarrow> string \<Rightarrow> string \<Rightarrow> (string \<times> string) list" where
  "play_flags playing paused stopped = [(''PLAYING'', playing), (''PAUSED'', paused), (''STOPPED'', stopped)]"

definition session_flags :: "string \<Rightarrow> (string \<times> string) list" where
  "session_flags event =
     (if event = ''playing'' \<or> event = ''started'' then play_flags ''1'' ''0'' ''0''
      else if event = ''paused'' then play_flags ''0'' ''1'' ''0''
      else if event = ''stopped'' then play_flags ''0'' ''0'' ''1''
      else if event = ''session_disconnected'' then play_flags ''0'' ''0'' ''1'' @ [(''SESSION_ACTIVE'', ''0'')]
      else if event = ''session_connected'' then [(''SESSION_ACTIVE'', ''1'')]
      else [])"

definition event_of :: "(string \<rightharpoonup> string) \<Rightarrow> string" where
  "event_of vars = (case vars ''PLAYER_EVENT'' of None \<Rightarrow> [] | Some e \<Rightarrow> e)"

text \<open>\<open>emit\<close> drops a value with a newline.\<close>

definition emitted :: "(string \<rightharpoonup> string) \<Rightarrow> (string \<times> string) list" where
  "emitted vars = filter (\<lambda>(_, v). newline \<notin> set v)
     ((''LAST_EVENT'', event_of vars) #
      List.map_filter (\<lambda>k. map_option (Pair k) (vars k)) EVENT_KEYS @ session_flags (event_of vars))"

text \<open>\<open>while IFS= read -r line\<close>: an unterminated last line is not seen.\<close>

fun read_lines :: "string \<Rightarrow> string \<Rightarrow> string list" where
  "read_lines acc [] = []"
| "read_lines acc (c # w) = (if c = newline then rev acc # read_lines [] w else read_lines (c # acc) w)"

definition before_equals :: "string \<Rightarrow> string" where
  "before_equals line = takeWhile (\<lambda>c. c \<noteq> equals_sign) line"

definition fresh_keys :: "(string \<times> string) list \<Rightarrow> string" where
  "fresh_keys ems = concat (map (\<lambda>(k, _). space # k) ems)"

definition rewritten :: "string \<Rightarrow> string \<Rightarrow> bool" where
  "rewritten fresh line \<longleftrightarrow> contains ([space] @ before_equals line @ [space]) ([space] @ fresh @ [space])"

definition carried :: "string \<Rightarrow> string \<Rightarrow> string list" where
  "carried fresh old =
     filter (\<lambda>line. equals_sign \<in> set line \<and> \<not> rewritten fresh line) (read_lines [] old)"

definition line_of :: "string \<times> string \<Rightarrow> string" where
  "line_of e = fst e @ equals_sign # snd e"

text \<open>The new state file; a step that fails leaves the old file in place.\<close>

definition librespot_event :: "(string \<rightharpoonup> string) \<Rightarrow> string option \<Rightarrow> string" where
  "librespot_event vars old =
     (let ems = emitted vars
      in join_lines (map line_of ems @
           (case old of None \<Rightarrow> [] | Some t \<Rightarrow> carried (fresh_keys ems) t)))"

section \<open>Which lines are carried\<close>

definition STATE_KEYS :: "string list" where
  "STATE_KEYS = ''LAST_EVENT'' # EVENT_KEYS @ [''PLAYING'', ''PAUSED'', ''STOPPED'', ''SESSION_ACTIVE'']"

text \<open>A file of the hook: one line per key, values on one line.\<close>

definition well_kept :: "(string \<times> string) list \<Rightarrow> bool" where
  "well_kept ems \<longleftrightarrow> distinct (map fst ems) \<and> (\<forall>(k, v) \<in> set ems. k \<in> set STATE_KEYS \<and> one_line v)"

definition hook_text :: "(string \<times> string) list \<Rightarrow> string" where
  "hook_text ems = join_lines (map line_of ems)"

lemma read_lines_join:
  "\<forall>l \<in> set ls. newline \<notin> set l \<Longrightarrow> read_lines [] (join_lines ls) = ls"
proof (induction ls)
  case (Cons l ls)
  have "newline \<notin> set l \<Longrightarrow> read_lines acc (l @ newline # w) = (rev acc @ l) # read_lines [] w" for acc w
    by (induction l arbitrary: acc) auto
  then show ?case using Cons by (simp add: join_lines_def)
qed (simp add: join_lines_def)

lemma state_key:
  assumes "k \<in> set STATE_KEYS"
  shows "k \<noteq> []" "space \<notin> set k" "equals_sign \<notin> set k" "env_key k"
  using assms by (auto simp: STATE_KEYS_def EVENT_KEYS_def env_key_def stripped_def is_space_def line_end_def)

lemma contains_skip:
  "space \<notin> set v \<Longrightarrow> contains (space # p) (v @ w) = contains (space # p) w"
  by (induction v) auto

lemma take_word:
  assumes "space \<notin> set k" "space \<notin> set v"
  shows "take (Suc (length k)) (v @ space # w) = k @ [space] \<longleftrightarrow> k = v"
  using assms
proof (induction k arbitrary: v)
  case Nil
  then show ?case by (cases v) auto
next
  case (Cons c k)
  then show ?case by (cases v) auto
qed

lemma contains_words:
  assumes "k \<noteq> []" "space \<notin> set k" "\<forall>e \<in> set ems. space \<notin> set (fst e)"
  shows "contains (space # k @ [space]) (fresh_keys ems @ [space]) \<longleftrightarrow> k \<in> fst ` set ems"
  using assms(3)
proof (induction ems)
  case Nil
  then show ?case using assms(1) by (auto simp: fresh_keys_def)
next
  case (Cons e ems)
  obtain w where w: "fresh_keys ems @ [space] = space # w"
    by (cases ems) (auto simp: fresh_keys_def split_beta)
  have "contains (space # k @ [space]) (fresh_keys (e # ems) @ [space]) \<longleftrightarrow>
      contains (space # k @ [space]) (space # fst e @ space # w)"
    using w by (simp add: fresh_keys_def split_beta)
  also have "\<dots> \<longleftrightarrow> k = fst e \<or> contains (space # k @ [space]) (space # w)"
    using Cons.prems assms(2) take_word [of k "fst e" w] contains_skip [of "fst e" "k @ [space]" "space # w"]
    by (simp del: contains.simps add: contains.simps(2) [of _ space "fst e @ space # w"])
  finally show ?case using Cons w by auto
qed

lemma contains_rewritten:
  assumes "k \<in> set STATE_KEYS" "\<forall>e \<in> set ems. fst e \<in> set STATE_KEYS"
  shows "rewritten (fresh_keys ems) (line_of (k, v)) \<longleftrightarrow> k \<in> fst ` set ems"
proof -
  note key = state_key [OF assms(1)]
  have free: "\<forall>e \<in> set ems. space \<notin> set (fst e)" using assms(2) state_key(2) by blast
  have before: "before_equals (line_of (k, v)) = k"
    using split_at_equals(1) [OF key(3), of v] by (simp add: before_equals_def line_of_def)
  obtain c k' where k: "k = c # k'" "c \<noteq> space" using key(1,2) by (cases k) auto
  obtain w where w: "fresh_keys ems @ [space] = space # w"
    by (cases ems) (auto simp: fresh_keys_def split_beta)
  have "contains (space # k @ [space]) (space # fresh_keys ems @ [space]) \<longleftrightarrow>
      contains (space # k @ [space]) (fresh_keys ems @ [space])"
    using k by (auto simp: w)
  then show ?thesis
    using contains_words [OF key(1,2) free] by (simp add: rewritten_def before)
qed

lemma carried_hook_text:
  assumes "well_kept old" "\<forall>e \<in> set ems. fst e \<in> set STATE_KEYS"
  shows "carried (fresh_keys ems) (hook_text old) =
    map line_of (filter (\<lambda>e. fst e \<notin> fst ` set ems) old)"
proof -
  have lines: "\<forall>l \<in> set (map line_of old). newline \<notin> set l"
    using assms(1) state_key(4) line_end_newline
    by (fastforce simp: well_kept_def line_of_def env_key_def one_line_def)
  have "rewritten (fresh_keys ems) (line_of e) \<longleftrightarrow> fst e \<in> fst ` set ems" "equals_sign \<in> set (line_of e)"
    if "e \<in> set old" for e
  proof -
    have "fst e \<in> set STATE_KEYS" using that assms(1) by (auto simp: well_kept_def)
    then show "rewritten (fresh_keys ems) (line_of e) \<longleftrightarrow> fst e \<in> fst ` set ems"
      using contains_rewritten [of "fst e" ems "snd e"] assms(2) by simp
    show "equals_sign \<in> set (line_of e)" by (simp add: line_of_def)
  qed
  then show ?thesis
    unfolding carried_def hook_text_def read_lines_join [OF lines]
    by (simp add: filter_map comp_def cong: filter_cong)
qed

text \<open>The assignments \<open>emit\<close> is called with.\<close>

definition calls :: "(string \<rightharpoonup> string) \<Rightarrow> (string \<times> string) list" where
  "calls vars = (''LAST_EVENT'', event_of vars) #
     List.map_filter (\<lambda>k. map_option (Pair k) (vars k)) EVENT_KEYS @ session_flags (event_of vars)"

lemma emitted_calls: "emitted vars = filter (\<lambda>e. newline \<notin> set (snd e)) (calls vars)"
  by (simp add: emitted_def calls_def case_prod_unfold)

lemma calls_cases:
  assumes "e \<in> set (calls vars)"
  obtains "e = (''LAST_EVENT'', event_of vars)"
  | k v where "e = (k, v)" "k \<in> set EVENT_KEYS" "vars k = Some v"
  | "e \<in> set (session_flags (event_of vars))"
  using assms by (auto simp: calls_def map_filter_def)

lemma session_flags_facts:
  "distinct (map fst (session_flags ev))"
  "fst ` set (session_flags ev) \<subseteq> {''PLAYING'', ''PAUSED'', ''STOPPED'', ''SESSION_ACTIVE''}"
  "snd ` set (session_flags ev) \<subseteq> {''0'', ''1''}"
  by (auto simp: session_flags_def play_flags_def)

lemma calls_keys: "e \<in> set (calls vars) \<Longrightarrow> fst e \<in> set STATE_KEYS"
  using session_flags_facts(2) [of "event_of vars"] by (elim calls_cases) (auto simp: STATE_KEYS_def)

lemma emitted_keys: "e \<in> set (emitted vars) \<Longrightarrow> fst e \<in> set STATE_KEYS"
  by (auto simp: emitted_calls intro: calls_keys)

lemma calls_distinct: "distinct (map fst (calls vars))"
proof -
  have keys: "map fst (List.map_filter (\<lambda>k. map_option (Pair k) (vars k)) ks) = filter (\<lambda>k. vars k \<noteq> None) ks"
    for ks by (induction ks) (auto simp: map_filter_simps)
  have "distinct (''LAST_EVENT'' # EVENT_KEYS)"
    "set (''LAST_EVENT'' # EVENT_KEYS) \<inter> {''PLAYING'', ''PAUSED'', ''STOPPED'', ''SESSION_ACTIVE''} = {}"
    by (auto simp: EVENT_KEYS_def)
  then show ?thesis
    using session_flags_facts(1,2) [of "event_of vars"]
    by (auto simp: calls_def keys distinct_filter)
qed

lemma emitted_distinct: "distinct (map fst (emitted vars))"
  using calls_distinct by (simp add: emitted_calls distinct_map_filter)

text \<open>The values librespot sets: one line, or dropped for a newline.\<close>

definition plain_vars :: "(string \<rightharpoonup> string) \<Rightarrow> bool" where
  "plain_vars vars \<longleftrightarrow> (\<forall>k \<in> set EVENT_KEYS. \<forall>v. vars k = Some v \<longrightarrow> newline \<in> set v \<or> one_line v)"

lemma emitted_one_line:
  assumes "plain_vars vars" "e \<in> set (emitted vars)"
  shows "one_line (snd e)"
proof -
  have bit: "one_line w" if "w \<in> {''0'', ''1''}" for w using that by (auto simp: line_end_def)
  have event: "newline \<in> set (event_of vars) \<or> one_line (event_of vars)"
    using assms(1) [unfolded plain_vars_def, rule_format, of "''PLAYER_EVENT''"]
    by (auto simp: event_of_def EVENT_KEYS_def split: option.splits)
  have e: "e \<in> set (calls vars)" "newline \<notin> set (snd e)" using assms(2) by (simp_all add: emitted_calls)
  from e(1) show ?thesis
  proof (cases rule: calls_cases)
    case 1
    then show ?thesis using event e(2) by simp
  next
    case (2 k v)
    then show ?thesis using assms(1) e(2) by (auto simp: plain_vars_def)
  next
    case 3
    then show ?thesis using session_flags_facts(3) [of "event_of vars"] bit by blast
  qed
qed

text \<open>The file after an event, as assignments.\<close>

definition merged :: "(string \<times> string) list \<Rightarrow> (string \<times> string) list \<Rightarrow> (string \<times> string) list" where
  "merged ems old = ems @ filter (\<lambda>e. fst e \<notin> fst ` set ems) old"

lemma well_kept_merged:
  assumes "plain_vars vars" "well_kept old"
  shows "well_kept (merged (emitted vars) old)"
proof -
  have "distinct (map fst (filter P old))" for P
    using assms(2) by (simp add: well_kept_def distinct_map_filter)
  moreover have "fst ` set (emitted vars) \<inter> fst ` set (filter (\<lambda>e. fst e \<notin> fst ` set (emitted vars)) old) = {}"
    by force
  ultimately have "distinct (map fst (merged (emitted vars) old))"
    using emitted_distinct [of vars] by (simp add: merged_def)
  moreover have "fst e \<in> set STATE_KEYS \<and> one_line (snd e)" if "e \<in> set (merged (emitted vars) old)" for e
    using that assms(2) emitted_keys [of e vars] emitted_one_line [OF assms(1), of e]
    by (auto simp: merged_def well_kept_def)
  ultimately show ?thesis by (simp add: well_kept_def split_beta)
qed

lemma librespot_event_merges:
  assumes "well_kept old"
  shows "librespot_event vars (Some (hook_text old)) = hook_text (merged (emitted vars) old)"
  using carried_hook_text [OF assms, of "emitted vars"] emitted_keys
  by (simp add: librespot_event_def Let_def hook_text_def merged_def)

lemma map_of_merged: "map_of (merged ems old) k = (case map_of ems k of Some v \<Rightarrow> Some v | None \<Rightarrow> map_of old k)"
proof -
  have "map_of (filter (\<lambda>e. fst e \<notin> A) old) k = (if k \<in> A then None else map_of old k)" for A
    by (induction old) auto
  moreover have "map_of ems k = None \<longleftrightarrow> k \<notin> fst ` set ems" by (rule map_of_eq_None_iff)
  ultimately show ?thesis
    by (cases "map_of ems k") (simp_all add: merged_def map_add_def)
qed

section \<open>Reading it back\<close>

lemma parse_hook_text:
  assumes "well_kept ems"
  shows "parse_env_lines (hook_text ems) = map (\<lambda>(k, v). (k, Some (py_rstrip v))) ems"
proof -
  have "one_line (line_of e)" "parse_env_line (line_of e) = (fst e, Some (py_rstrip (snd e)))" if "e \<in> set ems" for e
    using that assms state_key(4) [of "fst e"] parse_assignment [of "fst e" "snd e"]
    by (auto simp: well_kept_def line_of_def env_key_def)
  then show ?thesis
    by (simp add: parse_env_lines_def hook_text_def splitlines_join split_beta)
qed

definition as_state :: "string \<Rightarrow> string \<Rightarrow> state_value" where
  "as_state k v =
     (if map latin_lower k \<in> set BOOL_KEYS then SBool (py_rstrip v = ''1'') else SText (py_rstrip v))"

definition recorded :: "string \<Rightarrow> string \<Rightarrow> state_value option" where
  "recorded t k = map_of (librespot_parse t) (map latin_lower k)"

lemma lower_inj: "inj_on (map latin_lower) (set STATE_KEYS)"
  by (auto simp: STATE_KEYS_def EVENT_KEYS_def latin_lower_def inj_on_def)

lemma foldl_updates:
  assumes "distinct (map fst ems)" "\<forall>e \<in> set ems. fst e \<in> K" "inj_on f K" "k \<in> K"
  shows "map_of (foldl (\<lambda>st (k, v). AList.update (f k) (g k v) st) st ems) (f k) =
    (case map_of ems k of Some v \<Rightarrow> Some (g k v) | None \<Rightarrow> map_of st (f k))"
  using assms(1,2)
proof (induction ems arbitrary: st)
  case (Cons e ems)
  obtain k' v where e: "e = (k', v)" by (cases e)
  have "f k' = f k \<longleftrightarrow> k' = k"
    using Cons.prems(2) assms(3,4) e by (auto simp: inj_on_def)
  moreover have "k' \<notin> fst ` set ems" using Cons.prems(1) e by auto
  ultimately show ?case
    using Cons e by (cases "k' = k") (simp_all add: update_conv' map_of_eq_None_iff [THEN iffD2] split: option.split)
qed simp

lemma recorded_hook_text:
  assumes "well_kept ems" "k \<in> set STATE_KEYS"
  shows "recorded (hook_text ems) k = map_option (as_state k) (map_of ems k)"
proof -
  have "librespot_parse (hook_text ems) =
      foldl (\<lambda>st (k, v). AList.update (map latin_lower k) (as_state k v) st) [] ems"
    unfolding librespot_parse_def parse_hook_text [OF assms(1)] foldl_map
    by (rule foldl_cong) (auto simp: as_state_def Let_def)
  moreover have "distinct (map fst ems)" "\<forall>e \<in> set ems. fst e \<in> set STATE_KEYS"
    using assms(1) by (auto simp: well_kept_def)
  ultimately show ?thesis
    unfolding recorded_def
    using foldl_updates [OF _ _ lower_inj assms(2), of ems as_state "[]"]
    by (simp split: option.split)
qed


section \<open>The hook and its readers agree\<close>

lemma recorded_event:
  assumes "well_kept old" "plain_vars vars" "k \<in> set STATE_KEYS"
  shows "recorded (librespot_event vars (Some (hook_text old))) k =
    (case map_of (emitted vars) k of Some v \<Rightarrow> Some (as_state k v) | None \<Rightarrow> recorded (hook_text old) k)"
  using recorded_hook_text [OF well_kept_merged [OF assms(2,1)] assms(3)] recorded_hook_text [OF assms(1,3)]
  by (simp add: librespot_event_merges [OF assms(1)] map_of_merged split: option.split)

lemma emitted_variable:
  assumes "k \<in> set EVENT_KEYS" "vars k = Some v" "newline \<notin> set v"
  shows "map_of (emitted vars) k = Some v"
proof (rule map_of_is_SomeI [OF emitted_distinct])
  have "(k, v) \<in> set (List.map_filter (\<lambda>k. map_option (Pair k) (vars k)) EVENT_KEYS)"
    using assms(1,2) by (auto simp: map_filter_def image_iff intro!: bexI [of _ k])
  then show "(k, v) \<in> set (emitted vars)" using assms(3) by (simp add: emitted_calls calls_def)
qed

lemma emitted_flag:
  assumes "k \<in> {''PLAYING'', ''PAUSED'', ''STOPPED'', ''SESSION_ACTIVE''}"
  shows "map_of (emitted vars) k = map_of (session_flags (event_of vars)) k"
proof -
  let ?flags = "session_flags (event_of vars)"
  let ?a = "(''LAST_EVENT'', event_of vars) # List.map_filter (\<lambda>k. map_option (Pair k) (vars k)) EVENT_KEYS"
  have "fst e \<noteq> k" if "e \<in> set ?a" for e
  proof -
    have "fst e \<in> set (''LAST_EVENT'' # EVENT_KEYS)" using that by (auto simp: map_filter_def)
    moreover have "k \<notin> set (''LAST_EVENT'' # EVENT_KEYS)" using assms by (auto simp: EVENT_KEYS_def)
    ultimately show ?thesis by metis
  qed
  then have none: "map_of (filter P ?a) k = None" for P
    by (auto simp: map_of_eq_None_iff simp del: filter.simps)
  have "newline \<notin> set (snd e)" if "e \<in> set ?flags" for e
    using session_flags_facts(3) [of "event_of vars"] that by auto
  then have flags: "filter (\<lambda>e. newline \<notin> set (snd e)) ?flags = ?flags"
    by (simp add: filter_id_conv)
  have "calls vars = ?a @ ?flags" by (simp add: calls_def)
  then have "emitted vars = filter (\<lambda>e. newline \<notin> set (snd e)) ?a @ ?flags"
    by (simp only: emitted_calls filter_append flags)
  then show ?thesis by (simp only: map_of_append map_add_def none option.case split: option.split)
qed


lemma lower_names [simp]: "map latin_lower ''PLAYING'' = ''playing''" "map latin_lower ''VOLUME'' = ''volume''"
  by code_simp+

definition plays :: "string \<Rightarrow> bool option" where
  "plays event =
     (if event \<in> set [''playing'', ''started''] then Some True
      else if event \<in> set [''paused'', ''stopped'', ''session_disconnected''] then Some False
      else None)"

lemma recorded_playing:
  assumes "well_kept old" "plain_vars vars"
  shows "recorded (librespot_event vars (Some (hook_text old))) ''PLAYING'' =
    (case plays (event_of vars) of Some b \<Rightarrow> Some (SBool b) | None \<Rightarrow> recorded (hook_text old) ''PLAYING'')"
proof -
  have "as_state ''PLAYING'' ''1'' = SBool True" "as_state ''PLAYING'' ''0'' = SBool False"
    unfolding as_state_def lower_names by (simp_all add: BOOL_KEYS_def py_rstrip_def is_space_def)
  moreover have "map_of (session_flags ev) ''PLAYING'' =
      map_option (\<lambda>b. if b then ''1'' else ''0'') (plays ev)" for ev
    by (auto simp: session_flags_def play_flags_def plays_def)
  ultimately show ?thesis
    using recorded_event [OF assms, of "''PLAYING''"]
    by (simp add: STATE_KEYS_def emitted_flag split: option.split)
qed

lemma volume_percent_text:
  "volume_percent (TText t) = (case recorded t ''VOLUME'' of
     Some (SText raw) \<Rightarrow> (case py_int raw of
         None \<Rightarrow> Ret None
       | Some n \<Rightarrow> if double_overflow * LIBRESPOT_VOLUME_MAX \<le> \<bar>n * 100\<bar> then Fatal
           else Ret (Some (max 0 (min 100 (py_round (of_int (n * 100) / of_int LIBRESPOT_VOLUME_MAX))))))
   | _ \<Rightarrow> Ret None)"
  unfolding recorded_def lower_names by (simp add: volume_percent_def librespot_read_def volume_percent_of_def)

lemma py_int_rstrip: "py_int (py_rstrip w) = py_int w"
  by (simp add: py_int_def py_strip_rstrip)




end
