(* ===== verification/Env_Load.thy ===== *)
theory Env_Load
  imports Source_Probes
begin

text \<open>
  \<open>jasper/platform/env_load.py\<close> and the fail-soft readers of \<open>env_file.py\<close>: how the env files of the
  speaker are layered, and the shared vocabulary of switches. A snapshot of the disk maps a path to what
  reading it gives.
\<close>

section \<open>Fail-soft readers\<close>

text \<open>\<open>Inl\<close> is raw text, \<open>Inr\<close> a parsed mapping.\<close>

definition env_value :: "string + (string \<rightharpoonup> string) \<Rightarrow> string \<Rightarrow> string option" where
  "env_value source key = (case source of Inl t \<Rightarrow> read_value t key | Inr m \<Rightarrow> m key)"

definition read_env_file_text :: "text_file \<Rightarrow> string option \<times> env_exn option" where
  "read_env_file_text f = (case f of
     TText t \<Rightarrow> (Some t, None)
   | TMissing \<Rightarrow> (None, None)
   | TUnreadable \<Rightarrow> (None, Some EnvOSError)
   | TBadUtf8 \<Rightarrow> (None, Some EnvDecodeError))"

definition read_env_file :: "text_file \<Rightarrow> (string \<times> string) list" where
  "read_env_file f = (case fst (read_env_file_text f) of None \<Rightarrow> [] | Some t \<Rightarrow> parse_env_mapping t)"

datatype env_status = EnvLoaded | EnvMissing | EnvUnreadable env_exn

record env_file_state =
  es_values :: "(string \<times> string) list"
  es_status :: env_status

definition read_env_file_state :: "text_file \<Rightarrow> env_file_state" where
  "read_env_file_state f = (case read_env_file_text f of
     (None, None) \<Rightarrow> \<lparr>es_values = [], es_status = EnvMissing\<rparr>
   | (None, Some e) \<Rightarrow> \<lparr>es_values = [], es_status = EnvUnreadable e\<rparr>
   | (Some t, _) \<Rightarrow> \<lparr>es_values = parse_env_mapping t, es_status = EnvLoaded\<rparr>)"

definition read_env_file_or_warn :: "text_file \<Rightarrow> (string \<times> string) list" where
  "read_env_file_or_warn f = es_values (read_env_file_state f)"

section \<open>Switches and bounded numbers\<close>

definition TRUE_VALUES :: "string list" where
  "TRUE_VALUES = [''1'', ''true'', ''yes'', ''y'', ''on'', ''enabled'', ''enable'']"

definition FALSE_VALUES :: "string list" where
  "FALSE_VALUES = [''0'', ''false'', ''no'', ''n'', ''off'', ''disabled'', ''disable'']"

definition strip_chars :: "char list \<Rightarrow> string \<Rightarrow> string" where
  "strip_chars cs w = rev (dropWhile (\<lambda>c. c \<in> set cs) (rev (dropWhile (\<lambda>c. c \<in> set cs) w)))"

definition parse_bool_value :: "string option \<Rightarrow> bool option \<Rightarrow> bool option" where
  "parse_bool_value raw fallback =
     (case raw of
        None \<Rightarrow> fallback
      | Some v \<Rightarrow>
          (let w = map latin_lower (py_strip v);
               token = (if fallback \<noteq> None then strip_chars [squote, dquote] w else w)
           in if token \<in> set TRUE_VALUES then Some True
              else if token \<in> set FALSE_VALUES \<or> token = [] \<and> fallback \<noteq> None then Some False
              else fallback))"

definition bounded_env_int :: "(string \<rightharpoonup> string) \<Rightarrow> string \<Rightarrow> int \<Rightarrow> int \<Rightarrow> int \<Rightarrow> int" where
  "bounded_env_int environ name fallback lo hi =
     (let raw = py_strip (case environ name of None \<Rightarrow> [] | Some v \<Rightarrow> v)
      in if raw = [] then fallback
         else (case py_int raw of None \<Rightarrow> fallback | Some v \<Rightarrow> if lo \<le> v \<and> v \<le> hi then v else fallback))"

section \<open>Layers\<close>

definition BASE_ENV_PATH :: string where "BASE_ENV_PATH = ''/etc/jasper/jasper.env''"
definition OUTPUTD_ENV_PATH :: string where "OUTPUTD_ENV_PATH = ''/var/lib/jasper/outputd.env''"
definition OUTPUTD_GROUPING_ENV_FILE :: string where
  "OUTPUTD_GROUPING_ENV_FILE = ''/var/lib/jasper/grouping-outputd.env''"

definition env_file_path :: "(string \<rightharpoonup> string) \<Rightarrow> string" where
  "env_file_path environ = (case environ ''JASPER_ENV_FILE'' of
     Some p \<Rightarrow> if p = [] then BASE_ENV_PATH else p | None \<Rightarrow> BASE_ENV_PATH)"

definition resolved_path :: "(string \<rightharpoonup> string) \<Rightarrow> string \<Rightarrow> string" where
  "resolved_path environ path = (if path = BASE_ENV_PATH then env_file_path environ else path)"

definition update_all :: "(string \<times> string) list \<Rightarrow> (string \<times> string) list \<Rightarrow> (string \<times> string) list" where
  "update_all m new = foldl (\<lambda>d (k, v). AList.update k v d) m new"

fun merge_layers ::
  "bool \<Rightarrow> (string \<Rightarrow> text_file) \<Rightarrow> (string \<times> string) list \<Rightarrow> string list \<Rightarrow> env_exn + (string \<times> string) list" where
  "merge_layers strict disk merged [] = Inr merged"
| "merge_layers strict disk merged (path # paths) =
     (let state = read_env_file_state (disk path)
      in case es_status state of
           EnvUnreadable _ \<Rightarrow> if strict then Inl EnvOSError else merge_layers strict disk merged paths
         | _ \<Rightarrow> merge_layers strict disk (update_all merged (es_values state)) paths)"

definition merged_env_files ::
  "(string \<rightharpoonup> string) \<Rightarrow> (string \<Rightarrow> text_file) \<Rightarrow> string list \<Rightarrow> bool \<Rightarrow> env_exn + (string \<times> string) list" where
  "merged_env_files environ disk paths strict = merge_layers strict disk [] (map (resolved_path environ) paths)"

definition outputd_reconciled_env ::
  "(string \<rightharpoonup> string) \<Rightarrow> (string \<Rightarrow> text_file) \<Rightarrow> string option \<Rightarrow> bool \<Rightarrow> env_exn + (string \<times> string) list" where
  "outputd_reconciled_env environ disk outputd_path strict =
     merged_env_files environ disk
       [BASE_ENV_PATH, case outputd_path of Some p \<Rightarrow> if p = [] then OUTPUTD_ENV_PATH else p | None \<Rightarrow> OUTPUTD_ENV_PATH,
        OUTPUTD_GROUPING_ENV_FILE] strict"

text \<open>\<open>os.environ.setdefault\<close> for every merged key.\<close>

definition load_env_files ::
  "(string \<rightharpoonup> string) \<Rightarrow> (string \<Rightarrow> text_file) \<Rightarrow> string list \<Rightarrow> (string \<rightharpoonup> string)" where
  "load_env_files environ disk paths =
     (case merged_env_files environ disk paths False of
        Inl _ \<Rightarrow> environ
      | Inr merged \<Rightarrow> foldl (\<lambda>env (k, v). if env k = None then env(k \<mapsto> v) else env) environ merged)"

section \<open>What a merge resolves to\<close>

text \<open>What one layer says of a key, and what the last layer that says anything says.\<close>

definition layer_value :: "text_file \<Rightarrow> string \<Rightarrow> string option" where
  "layer_value f key = (case f of TText t \<Rightarrow> read_value t key | _ \<Rightarrow> None)"

fun last_layer :: "(string \<Rightarrow> text_file) \<Rightarrow> string \<Rightarrow> string list \<Rightarrow> string option" where
  "last_layer disk key [] = None"
| "last_layer disk key (path # paths) =
     (case last_layer disk key paths of Some v \<Rightarrow> Some v | None \<Rightarrow> layer_value (disk path) key)"

lemma state_values:
  "map_of (es_values (read_env_file_state f)) k = layer_value f k"
  "distinct (map fst (es_values (read_env_file_state f)))"
proof -
  show "map_of (es_values (read_env_file_state f)) k = layer_value f k"
    by (cases f) (simp_all add: read_env_file_state_def read_env_file_text_def layer_value_def map_of_parse_env_mapping)
  have "distinct (map fst (parse_env_mapping t))" for t
    unfolding parse_env_mapping_def by (rule mapping_distinct) simp
  then show "distinct (map fst (es_values (read_env_file_state f)))"
    by (cases f) (simp_all add: read_env_file_state_def read_env_file_text_def)
qed

lemma merge_layers_lookup:
  "merge_layers strict disk m paths = Inr m' \<Longrightarrow>
   map_of m' k = (case last_layer disk k paths of Some v \<Rightarrow> Some v | None \<Rightarrow> map_of m k)"
proof (induction strict disk m paths rule: merge_layers.induct)
  case (2 strict disk merged path paths)
  let ?s = "read_env_file_state (disk path)"
  have unreadable: "es_status ?s = EnvUnreadable e \<Longrightarrow> layer_value (disk path) k = None" for e
    by (cases "disk path") (auto simp: read_env_file_state_def read_env_file_text_def layer_value_def)
  have new: "map_of (update_all merged (es_values ?s)) k =
      (case layer_value (disk path) k of Some v \<Rightarrow> Some v | None \<Rightarrow> map_of merged k)"
    unfolding update_all_def by (simp add: map_of_updates state_values)
  show ?case
    using 2 unreadable new by (cases "es_status ?s") (auto simp: Let_def split: if_splits option.splits)
qed simp

lemma merge_layers_distinct:
  "distinct (map fst m) \<Longrightarrow> merge_layers strict disk m paths = Inr m' \<Longrightarrow> distinct (map fst m')"
proof (induction strict disk m paths rule: merge_layers.induct)
  case (2 strict disk merged path paths)
  then show ?case
    by (cases "es_status (read_env_file_state (disk path))")
      (auto simp: Let_def update_all_def updates_distinct split: if_splits)
qed simp

lemma merge_layers_total: "\<exists>m'. merge_layers False disk m paths = Inr m'"
  by (induction False disk m paths rule: merge_layers.induct) (auto simp: Let_def split: env_status.split)

lemma setdefault_lookup:
  "distinct (map fst m) \<Longrightarrow>
   foldl (\<lambda>env (k, v). if env k = None then env(k \<mapsto> v) else env) environ m k =
   (case environ k of Some v \<Rightarrow> Some v | None \<Rightarrow> map_of m k)"
proof (induction m arbitrary: environ)
  case (Cons e m)
  have "map_of m (fst e) = None" using Cons.prems by (simp add: map_of_eq_None_iff)
  then show ?case using Cons by (cases e) (auto split: option.split)
qed (simp split: option.split)

text \<open>
  The env layers resolve the way systemd resolves them. A merge gives a key the value of the last
  readable file that assigns it, a missing file counts as empty, an unreadable one too unless the caller
  asks for all to be readable, and then the merge raises exactly when one is not; the loader keeps what the
  shell set and adds the merged value of every other key; the base path goes through \<open>JASPER_ENV_FILE\<close>.
\<close>

theorem env_layers_resolve:
  fixes environ :: "string \<rightharpoonup> string" and disk :: "string \<Rightarrow> text_file" and paths :: "string list"
  shows "(\<exists>m. merged_env_files environ disk paths False = Inr m \<and>
        map_of m key = last_layer disk key (map (resolved_path environ) paths)) \<and>
    merged_env_files environ disk paths True =
      (if list_ex (\<lambda>p. disk p \<in> {TUnreadable, TBadUtf8}) (map (resolved_path environ) paths) then Inl EnvOSError
       else merged_env_files environ disk paths False) \<and>
    load_env_files environ disk paths key =
      (case environ key of Some v \<Rightarrow> Some v | None \<Rightarrow> last_layer disk key (map (resolved_path environ) paths))"
proof (intro conjI)
  define files where "files = map (resolved_path environ) paths"
  obtain m where m: "merge_layers False disk [] files = Inr m" using merge_layers_total by blast
  have resolves: "map_of m key = last_layer disk key files"
    using merge_layers_lookup [OF m, of key] by (simp split: option.split)
  with m show "\<exists>m. merged_env_files environ disk paths False = Inr m \<and>
      map_of m key = last_layer disk key (map (resolved_path environ) paths)"
    by (simp add: merged_env_files_def files_def)
  show "merged_env_files environ disk paths True =
      (if list_ex (\<lambda>p. disk p \<in> {TUnreadable, TBadUtf8}) (map (resolved_path environ) paths) then Inl EnvOSError
       else merged_env_files environ disk paths False)"
  proof -
    have unreadable: "(\<exists>e. es_status (read_env_file_state f) = EnvUnreadable e) \<longleftrightarrow> f \<in> {TUnreadable, TBadUtf8}" for f
      by (cases f) (simp_all add: read_env_file_state_def read_env_file_text_def)
    have "merge_layers True disk m ps =
        (if list_ex (\<lambda>p. disk p \<in> {TUnreadable, TBadUtf8}) ps then Inl EnvOSError else merge_layers False disk m ps)"
      for m ps
    proof (induction ps arbitrary: m)
      case (Cons p ps)
      then show ?case
        using unreadable [of "disk p"] by (cases "es_status (read_env_file_state (disk p))") (auto simp: Let_def)
    qed simp
    then show ?thesis by (simp add: merged_env_files_def files_def)
  qed
  show "load_env_files environ disk paths key =
      (case environ key of Some v \<Rightarrow> Some v | None \<Rightarrow> last_layer disk key (map (resolved_path environ) paths))"
    using m merge_layers_distinct [OF _ m]
    by (simp add: load_env_files_def merged_env_files_def setdefault_lookup resolves flip: files_def split: option.split)
qed

end
