(* ===== verification/Py_Float.thy ===== *)
theory Py_Float
  imports Source_Probes "HOL-Library.Log_Nat"
begin

text \<open>
  Reading and printing Python numbers: \<open>float(text)\<close> with its rounding to a double, \<open>str\<close> of an integer
  and the fixed-point format. A double is a sign and an exact magnitude, an infinity, or NaN.
\<close>

section \<open>Doubles\<close>

datatype pyfloat = PFin bool rat | PInf bool | PNan

fun float_value :: "pyfloat \<Rightarrow> rat option" where
  "float_value (PFin neg m) = Some (if neg then - m else m)"
| "float_value _ = None"

text \<open>\<open>lo <= x <= hi\<close> for finite bounds: infinities fall outside, NaN compares false.\<close>

definition float_in :: "rat \<Rightarrow> rat \<Rightarrow> pyfloat \<Rightarrow> bool" where
  "float_in lo hi x \<longleftrightarrow> (case float_value x of None \<Rightarrow> False | Some v \<Rightarrow> lo \<le> v \<and> v \<le> hi)"

text \<open>The exponent of a positive magnitude: the \<open>e\<close> with \<open>2 ^ e \<le> x < 2 ^ (e + 1)\<close>.\<close>

definition binary_exponent :: "rat \<Rightarrow> int" where
  "binary_exponent x =
     (if 1 \<le> x then int (floorlog 2 (nat \<lfloor>x\<rfloor>)) - 1
      else - int (floorlog 2 (nat (\<lceil>1 / x\<rceil> - 1))))"

definition two_to :: "int \<Rightarrow> rat" where
  "two_to e = (if 0 \<le> e then 2 ^ nat e else 1 / 2 ^ nat (- e))"

text \<open>The nearest double, ties to even, of a magnitude below the overflow threshold.\<close>

definition double_of :: "rat \<Rightarrow> rat" where
  "double_of x =
     (if x \<le> 0 then 0
      else let q = two_to (max (binary_exponent x - 52) (-1074)) in of_int (py_round (x / q)) * q)"

section \<open>Reading\<close>

text \<open>Underscores must stand between digits.\<close>

fun drop_underscores :: "bool \<Rightarrow> string \<Rightarrow> string option" where
  "drop_underscores after_digit [] = Some []"
| "drop_underscores after_digit (c # w) =
     (if c = CHR ''_'' then (if after_digit \<and> w \<noteq> [] \<and> is_digit (hd w) then drop_underscores False w else None)
      else map_option (Cons c) (drop_underscores (is_digit c) w))"

text \<open>The exponent after a mantissa: nothing, or \<open>e\<close> with a signed integer.\<close>

definition parse_exponent :: "string \<Rightarrow> int option" where
  "parse_exponent w =
     (case w of
        [] \<Rightarrow> Some 0
      | c # v \<Rightarrow>
          (let neg = (v \<noteq> [] \<and> hd v = CHR ''-''); ds = (if v \<noteq> [] \<and> hd v \<in> {CHR ''-'', CHR ''+''} then tl v else v)
           in if c \<in> {CHR ''e'', CHR ''E''} \<and> ds \<noteq> [] \<and> list_all is_digit ds
              then Some (if neg then - digits_value ds else digits_value ds) else None))"

definition ten_to :: "int \<Rightarrow> rat" where
  "ten_to e = (if 0 \<le> e then 10 ^ nat e else 1 / 10 ^ nat (- e))"

definition parse_magnitude :: "string \<Rightarrow> rat option" where
  "parse_magnitude w =
     (let ip = takeWhile is_digit w; r = dropWhile is_digit w;
          dot = (r \<noteq> [] \<and> hd r = CHR ''.'');
          fp = (if dot then takeWhile is_digit (tl r) else []);
          rest = (if dot then dropWhile is_digit (tl r) else r)
      in if ip = [] \<and> fp = [] then None
         else map_option (\<lambda>e. of_int (digits_value (ip @ fp)) * ten_to (e - int (length fp))) (parse_exponent rest))"

definition py_float :: "string \<Rightarrow> pyfloat option" where
  "py_float s =
     (let w = py_strip s; neg = (w \<noteq> [] \<and> hd w = CHR ''-'');
          body = (if w \<noteq> [] \<and> hd w \<in> {CHR ''-'', CHR ''+''} then tl w else w);
          name = map ascii_lower body
      in if name = ''inf'' \<or> name = ''infinity'' then Some (PInf neg)
         else if name = ''nan'' then Some PNan
         else Option.bind (drop_underscores False body) (\<lambda>v.
           map_option (\<lambda>m. if of_int double_overflow \<le> m then PInf neg else PFin neg (double_of m))
             (parse_magnitude v)))"

section \<open>Printing\<close>

fun nat_digits :: "nat \<Rightarrow> string" where
  "nat_digits n = (if n < 10 then [char_of (48 + n)] else nat_digits (n div 10) @ [char_of (48 + n mod 10)])"

declare nat_digits.simps [simp del]

definition py_str_int :: "int \<Rightarrow> string" where
  "py_str_int n = (if n < 0 then CHR ''-'' # nat_digits (nat (- n)) else nat_digits (nat n))"

text \<open>\<open>f"{x:.kf}"\<close>, for at least one decimal.\<close>

definition format_fixed :: "nat \<Rightarrow> pyfloat \<Rightarrow> string" where
  "format_fixed k x =
     (case x of
        PFin neg m \<Rightarrow>
          (let n = nat (py_round (m * 10 ^ k)); frac = nat_digits (n mod 10 ^ k)
           in (if neg then ''-'' else []) @ nat_digits (n div 10 ^ k) @ ''.'' @
              replicate (k - length frac) (CHR ''0'') @ frac)
      | PInf neg \<Rightarrow> (if neg then ''-inf'' else ''inf'')
      | PNan \<Rightarrow> ''nan'')"

lemma is_digit_char [simp]: "n < 10 \<Longrightarrow> is_digit (char_of (48 + n :: nat))"
  by (simp add: is_digit_def)

lemma nat_digits_digits: "list_all is_digit (nat_digits n)"
  by (induction n rule: nat_digits.induct) (simp add: nat_digits.simps [of n for n])

lemma nat_digits_nonempty: "nat_digits n \<noteq> []"
  by (subst nat_digits.simps) simp

lemma digits_value_append: "digits_value (v @ [c]) = 10 * digits_value v + (of_char c - 48)"
  by (simp add: digits_value_def)

lemma of_char_digit: "n < 10 \<Longrightarrow> (of_char (char_of (48 + n :: nat)) :: int) = 48 + int n"
  using of_nat_of_char [of "char_of (48 + n)", where 'a = int] by simp

lemma nat_digits_value: "digits_value (nat_digits n) = int n"
proof (induction n rule: nat_digits.induct)
  case (1 n)
  show ?case
  proof (cases "n < 10")
    case True
    then show ?thesis by (subst nat_digits.simps) (simp add: digits_value_def of_char_digit)
  next
    case False
    have "10 * int (n div 10) + int (n mod 10) = int n"
      by presburger
    then show ?thesis using 1 False
      by (subst nat_digits.simps) (simp add: digits_value_append of_char_digit)
  qed
qed

text \<open>Printed numbers hold neither white space nor a separator of the env format.\<close>

definition plain_char :: "char \<Rightarrow> bool" where
  "plain_char c \<longleftrightarrow> (let n = of_char c :: nat in 33 \<le> n \<and> n \<le> 126)"

lemma digit_plain: "is_digit c \<Longrightarrow> plain_char c"
  by (simp add: is_digit_def plain_char_def Let_def)

lemma py_str_int_plain: "list_all plain_char (py_str_int n)" "py_str_int n \<noteq> []"
  using nat_digits_digits digit_plain nat_digits_nonempty
  by (auto simp: py_str_int_def list_all_iff) (simp add: plain_char_def)

end
