(* ===== verification/Grouping_Config.thy ===== *)
theory Grouping_Config
  imports Env_Load Py_Float
begin

text \<open>
  \<open>jasper/multiroom/config.py\<close>: the grouping request of the household, read from \<open>grouping.env\<close>, its one
  validation rule, the roster of a bond, and the role predicates. The reason a request is invalid is a
  constructor instead of an English sentence.
\<close>

section \<open>The request\<close>

definition ALLOWED_CHANNELS :: "string list" where
  "ALLOWED_CHANNELS = [''stereo'', ''left'', ''right'', ''mono'']"

definition ALLOWED_ROLES :: "string list" where "ALLOWED_ROLES = [''leader'', ''follower'']"
definition ALLOWED_CODECS :: "string list" where "ALLOWED_CODECS = [''pcm'', ''flac'', ''opus'']"
definition DEFAULT_CODEC :: string where "DEFAULT_CODEC = ''flac''"
definition DEFAULT_BUFFER_MS :: int where "DEFAULT_BUFFER_MS = 400"
definition BUFFER_MS_LO :: int where "BUFFER_MS_LO = 150"
definition BUFFER_MS_HI :: int where "BUFFER_MS_HI = 1500"
definition DEFAULT_CLIENT_LATENCY_MS :: int where "DEFAULT_CLIENT_LATENCY_MS = 0"
definition CLIENT_LATENCY_MS_LO :: int where "CLIENT_LATENCY_MS_LO = 0"
definition CLIENT_LATENCY_MS_HI :: int where "CLIENT_LATENCY_MS_HI = 1500"
definition CHANNEL_DELAY_MS_LO :: rat where "CHANNEL_DELAY_MS_LO = 0"
definition CHANNEL_DELAY_MS_HI :: rat where "CHANNEL_DELAY_MS_HI = 100"
definition TRIM_DB_MIN :: rat where "TRIM_DB_MIN = -24"
definition TRIM_DB_MAX :: rat where "TRIM_DB_MAX = 0"

lemmas grouping_constants = ALLOWED_CHANNELS_def ALLOWED_ROLES_def ALLOWED_CODECS_def DEFAULT_CODEC_def
  DEFAULT_BUFFER_MS_def BUFFER_MS_LO_def BUFFER_MS_HI_def DEFAULT_CLIENT_LATENCY_MS_def
  CLIENT_LATENCY_MS_LO_def CLIENT_LATENCY_MS_HI_def CHANNEL_DELAY_MS_LO_def CHANNEL_DELAY_MS_HI_def
  TRIM_DB_MIN_def TRIM_DB_MAX_def

record bond_member =
  bm_addr :: string
  bm_name :: string
  bm_channel :: string

datatype grouping_error =
    TrimNotNumber string | LatencyNotInteger string | LatencyRange int | DelayNotNumber string string
  | DelayRange string pyfloat | NoBondId | UnknownChannel string | UnknownCodec string | UnknownRole string
  | NoLeaderAddr | BadLeaderAddr string | TrimRange pyfloat | BadPeerAddr string | BadPeerName
  | BadRosterAddr string | BadRosterChannel string | BadRosterName string

record grouping_config =
  gc_enabled :: bool
  gc_role :: string
  gc_channel :: string
  gc_bond_id :: string
  gc_leader_addr :: string
  gc_buffer_ms :: int
  gc_codec :: string
  gc_error :: "grouping_error option"
  gc_trim_db :: pyfloat
  gc_client_latency_ms :: int
  gc_left_delay_ms :: pyfloat
  gc_right_delay_ms :: pyfloat
  gc_peer_addr :: string
  gc_peer_name :: string
  gc_roster :: "bond_member list"

abbreviation float_zero :: pyfloat where "float_zero \<equiv> PFin False 0"

definition DISABLED :: grouping_config where
  "DISABLED = \<lparr>gc_enabled = False, gc_role = [], gc_channel = ''stereo'', gc_bond_id = [], gc_leader_addr = [],
     gc_buffer_ms = DEFAULT_BUFFER_MS, gc_codec = DEFAULT_CODEC, gc_error = None, gc_trim_db = float_zero,
     gc_client_latency_ms = DEFAULT_CLIENT_LATENCY_MS, gc_left_delay_ms = float_zero,
     gc_right_delay_ms = float_zero, gc_peer_addr = [], gc_peer_name = [], gc_roster = []\<rparr>"

section \<open>Addresses\<close>

fun split_on :: "char \<Rightarrow> string \<Rightarrow> string list" where
  "split_on c [] = [[]]"
| "split_on c (x # w) =
     (if x = c then [] # split_on c w
      else case split_on c w of [] \<Rightarrow> [[x]] | p # ps \<Rightarrow> (x # p) # ps)"

text \<open>A decimal octet of \<open>ipaddress\<close>: one to three ASCII digits, no leading zero, at most 255.\<close>

definition octet :: "string \<Rightarrow> nat option" where
  "octet w =
     (if w = [] \<or> \<not> list_all is_digit w \<or> 3 < length w \<or> (w \<noteq> ''0'' \<and> hd w = CHR ''0'') then None
      else let n = nat (digits_value w) in if 255 < n then None else Some n)"

definition parse_ipv4 :: "string \<Rightarrow> (nat \<times> nat \<times> nat \<times> nat) option" where
  "parse_ipv4 w = (case map octet (split_on CHR ''.'' w) of
     [Some a, Some b, Some c, Some e] \<Rightarrow> Some (a, b, c, e) | _ \<Rightarrow> None)"

text \<open>\<open>is_private or is_loopback\<close> of Python 3.13, network by network.\<close>

definition private_ipv4 :: "nat \<times> nat \<times> nat \<times> nat \<Rightarrow> bool" where
  "private_ipv4 addr = (case addr of (a, b, c, e) \<Rightarrow>
     a = 0 \<or> a = 10 \<or> a = 127 \<or> (a = 169 \<and> b = 254) \<or> (a = 172 \<and> 16 \<le> b \<and> b \<le> 31) \<or>
     (a = 192 \<and> b = 0 \<and> c = 0 \<and> e \<noteq> 9 \<and> e \<noteq> 10) \<or> (a = 192 \<and> b = 0 \<and> c = 2) \<or> (a = 192 \<and> b = 168) \<or>
     (a = 198 \<and> 18 \<le> b \<and> b \<le> 19) \<or> (a = 198 \<and> b = 51 \<and> c = 100) \<or> (a = 203 \<and> b = 0 \<and> c = 113) \<or> 240 \<le> a)"

definition is_private_or_loopback_ipv4 :: "string \<Rightarrow> bool" where
  "is_private_or_loopback_ipv4 v = (case parse_ipv4 v of None \<Rightarrow> False | Some addr \<Rightarrow> private_ipv4 addr)"

definition is_alnum :: "char \<Rightarrow> bool" where
  "is_alnum c \<longleftrightarrow> (let n = of_char c :: nat in 48 \<le> n \<and> n \<le> 57 \<or> 65 \<le> n \<and> n \<le> 90 \<or> 97 \<le> n \<and> n \<le> 122)"

definition host_text :: "string \<Rightarrow> bool" where
  "host_text w \<longleftrightarrow> w \<noteq> [] \<and> is_alnum (hd w) \<and> length w \<le> 254 \<and>
     list_all (\<lambda>c. is_alnum c \<or> c = CHR ''.'' \<or> c = CHR ''-'') (tl w)"

text \<open>\<open>_LEADER_ADDR_RE.match\<close>; its \<open>$\<close> also matches before a final newline.\<close>

definition leader_addr_matches :: "string \<Rightarrow> bool" where
  "leader_addr_matches w \<longleftrightarrow> host_text w \<or> (w \<noteq> [] \<and> last w = CHR 0x0A \<and> host_text (butlast w))"

section \<open>Fields\<close>

definition parse_enabled :: "string \<Rightarrow> bool" where
  "parse_enabled raw \<longleftrightarrow> map latin_lower (py_strip raw) = ''on''"

definition parse_buffer_ms :: "string \<Rightarrow> int" where
  "parse_buffer_ms raw = (case py_int (py_strip raw) of
     None \<Rightarrow> DEFAULT_BUFFER_MS | Some v \<Rightarrow> max BUFFER_MS_LO (min BUFFER_MS_HI v))"

definition parse_client_latency_ms :: "string \<Rightarrow> int \<times> grouping_error option" where
  "parse_client_latency_ms raw =
     (if py_strip raw = [] then (DEFAULT_CLIENT_LATENCY_MS, None)
      else case py_int (py_strip raw) of
        None \<Rightarrow> (DEFAULT_CLIENT_LATENCY_MS, Some (LatencyNotInteger raw))
      | Some v \<Rightarrow> (v, if CLIENT_LATENCY_MS_LO \<le> v \<and> v \<le> CLIENT_LATENCY_MS_HI then None else Some (LatencyRange v)))"

definition parse_channel_delay_ms :: "string \<Rightarrow> string \<Rightarrow> pyfloat \<times> grouping_error option" where
  "parse_channel_delay_ms raw key =
     (if py_strip raw = [] then (float_zero, None)
      else case py_float (py_strip raw) of
        None \<Rightarrow> (float_zero, Some (DelayNotNumber key raw))
      | Some v \<Rightarrow> (v, if float_in CHANNEL_DELAY_MS_LO CHANNEL_DELAY_MS_HI v then None else Some (DelayRange key v)))"

section \<open>The roster\<close>

abbreviation pipe :: char where "pipe \<equiv> CHR 0x7C"
abbreviation comma :: char where "comma \<equiv> CHR 0x2C"
abbreviation blank :: char where "blank \<equiv> CHR 0x20"

definition control_char :: "char \<Rightarrow> bool" where
  "control_char c \<longleftrightarrow> (of_char c :: nat) < 32"

definition scrub_roster_field :: "string \<Rightarrow> string" where
  "scrub_roster_field v = map (\<lambda>c. if c = pipe \<or> c = comma \<or> control_char c then blank else c) v"

definition roster_field :: "nat \<Rightarrow> string \<Rightarrow> string" where
  "roster_field n v = take n (py_strip (scrub_roster_field v))"

fun join_with :: "char \<Rightarrow> string list \<Rightarrow> string" where
  "join_with c [] = []"
| "join_with c [w] = w"
| "join_with c (w # ws) = w @ c # join_with c ws"

definition format_member :: "bond_member \<Rightarrow> string" where
  "format_member m = join_with pipe
     [roster_field 64 (bm_addr m), roster_field 64 (bm_name m), roster_field 32 (bm_channel m)]"

definition format_roster :: "bond_member list \<Rightarrow> string" where
  "format_roster ms = join_with comma
     (map format_member (filter (\<lambda>m. roster_field 64 (bm_addr m) \<noteq> []) ms))"

definition parse_entry :: "string \<Rightarrow> bond_member option" where
  "parse_entry entry = (case split_on pipe entry of
     [a, n, c] \<Rightarrow> if py_strip a = [] then None
       else Some \<lparr>bm_addr = py_strip a, bm_name = py_strip n, bm_channel = py_strip c\<rparr>
   | _ \<Rightarrow> None)"

definition parse_roster :: "string \<Rightarrow> bond_member list" where
  "parse_roster raw = List.map_filter parse_entry (split_on comma raw)"

definition roster_error :: "bond_member \<Rightarrow> grouping_error option" where
  "roster_error m =
     (if \<not> is_private_or_loopback_ipv4 (bm_addr m) then Some (BadRosterAddr (bm_addr m))
      else if bm_channel m \<notin> set ALLOWED_CHANNELS then Some (BadRosterChannel (bm_channel m))
      else if 64 < length (bm_name m) \<or> list_ex control_char (bm_name m) then Some (BadRosterName (bm_name m))
      else None)"

fun first_error :: "grouping_error option list \<Rightarrow> grouping_error option" where
  "first_error [] = None"
| "first_error (Some e # es) = Some e"
| "first_error (None # es) = first_error es"

definition validate_roster :: "bond_member list \<Rightarrow> grouping_error option" where
  "validate_roster ms = first_error (map roster_error ms)"

section \<open>The one validation rule\<close>

definition check :: "bool \<Rightarrow> grouping_error \<Rightarrow> grouping_error option" where
  "check bad e = (if bad then Some e else None)"

definition validate_grouping ::
  "string \<Rightarrow> string \<Rightarrow> string \<Rightarrow> string \<Rightarrow> string \<Rightarrow> pyfloat \<Rightarrow> int \<Rightarrow> pyfloat \<Rightarrow> pyfloat \<Rightarrow> string \<Rightarrow> string \<Rightarrow>
   bond_member list \<Rightarrow> grouping_error option" where
  "validate_grouping role channel bond_id leader_addr codec trim_db latency left right peer_addr peer_name roster =
     first_error
       [check (bond_id = []) NoBondId,
        check (channel \<notin> set ALLOWED_CHANNELS) (UnknownChannel channel),
        check (codec \<notin> set ALLOWED_CODECS) (UnknownCodec codec),
        check (role \<notin> set ALLOWED_ROLES) (UnknownRole role),
        check (role = ''follower'' \<and> leader_addr = []) NoLeaderAddr,
        check (leader_addr \<noteq> [] \<and> \<not> leader_addr_matches leader_addr) (BadLeaderAddr leader_addr),
        check (\<not> float_in TRIM_DB_MIN TRIM_DB_MAX trim_db) (TrimRange trim_db),
        check (\<not> (CLIENT_LATENCY_MS_LO \<le> latency \<and> latency \<le> CLIENT_LATENCY_MS_HI)) (LatencyRange latency),
        check (\<not> float_in CHANNEL_DELAY_MS_LO CHANNEL_DELAY_MS_HI left) (DelayRange ''JASPER_GROUPING_LEFT_DELAY_MS'' left),
        check (\<not> float_in CHANNEL_DELAY_MS_LO CHANNEL_DELAY_MS_HI right) (DelayRange ''JASPER_GROUPING_RIGHT_DELAY_MS'' right),
        check (peer_addr \<noteq> [] \<and> \<not> is_private_or_loopback_ipv4 peer_addr) (BadPeerAddr peer_addr),
        check (peer_name \<noteq> [] \<and> (64 < length peer_name \<or> list_ex control_char peer_name)) BadPeerName,
        validate_roster roster]"

section \<open>Loading\<close>

definition env_get :: "(string \<times> string) list \<Rightarrow> string \<Rightarrow> string" where
  "env_get src key = (case map_of src key of None \<Rightarrow> [] | Some v \<Rightarrow> v)"

definition or_else :: "string \<Rightarrow> string \<Rightarrow> string" where
  "or_else w fallback = (if w = [] then fallback else w)"

definition parse_trim_db :: "string \<Rightarrow> pyfloat \<times> grouping_error option" where
  "parse_trim_db raw = (if raw = [] then (float_zero, None)
     else case py_float raw of None \<Rightarrow> (float_zero, Some (TrimNotNumber raw)) | Some v \<Rightarrow> (v, None))"

definition load_config :: "text_file \<Rightarrow> grouping_config" where
  "load_config f =
     (let src = read_env_file_or_warn f; field = (\<lambda>key. py_strip (env_get src key))
      in if \<not> parse_enabled (case map_of src ''JASPER_GROUPING'' of None \<Rightarrow> ''off'' | Some v \<Rightarrow> v) then DISABLED
         else
           let role = field ''JASPER_GROUPING_ROLE'';
               channel = or_else (field ''JASPER_GROUPING_CHANNEL'') ''stereo'';
               bond_id = field ''JASPER_GROUPING_BOND_ID'';
               leader_addr = field ''JASPER_GROUPING_LEADER_ADDR'';
               codec = or_else (field ''JASPER_GROUPING_CODEC'') DEFAULT_CODEC;
               peer_addr = field ''JASPER_GROUPING_PEER_ADDR'';
               peer_name = field ''JASPER_GROUPING_PEER_NAME'';
               roster = parse_roster (env_get src ''JASPER_GROUPING_ROSTER'');
               (trim_db, trim_error) = parse_trim_db (field ''JASPER_GROUPING_TRIM_DB'');
               (latency, latency_error) = parse_client_latency_ms (env_get src ''JASPER_GROUPING_CLIENT_LATENCY_MS'');
               (left, left_error) = parse_channel_delay_ms (env_get src ''JASPER_GROUPING_LEFT_DELAY_MS'')
                 ''JASPER_GROUPING_LEFT_DELAY_MS'';
               (right, right_error) = parse_channel_delay_ms (env_get src ''JASPER_GROUPING_RIGHT_DELAY_MS'')
                 ''JASPER_GROUPING_RIGHT_DELAY_MS''
           in \<lparr>gc_enabled = True, gc_role = role, gc_channel = channel, gc_bond_id = bond_id,
               gc_leader_addr = leader_addr,
               gc_buffer_ms = parse_buffer_ms (env_get src ''JASPER_GROUPING_BUFFER_MS''), gc_codec = codec,
               gc_error = first_error [trim_error, latency_error, left_error, right_error,
                 validate_grouping role channel bond_id leader_addr codec trim_db latency left right
                   peer_addr peer_name roster],
               gc_trim_db = trim_db, gc_client_latency_ms = latency, gc_left_delay_ms = left,
               gc_right_delay_ms = right, gc_peer_addr = peer_addr, gc_peer_name = peer_name, gc_roster = roster\<rparr>)"

section \<open>Role predicates\<close>

definition is_active_member :: "grouping_config \<Rightarrow> bool" where
  "is_active_member cfg \<longleftrightarrow> gc_enabled cfg \<and> gc_error cfg = None"

definition is_active_leader :: "grouping_config \<Rightarrow> bool" where
  "is_active_leader cfg \<longleftrightarrow> is_active_member cfg \<and> gc_role cfg = ''leader''"

definition follower_leader_addr :: "grouping_config \<Rightarrow> string option" where
  "follower_leader_addr cfg =
     (if is_active_member cfg \<and> gc_role cfg = ''follower'' \<and> gc_leader_addr cfg \<noteq> [] then Some (gc_leader_addr cfg)
      else None)"

definition is_bonded_follower :: "grouping_config \<Rightarrow> bool" where
  "is_bonded_follower cfg \<longleftrightarrow> follower_leader_addr cfg \<noteq> None"

definition BONDED_FOLLOWER :: string where "BONDED_FOLLOWER = ''bonded_follower''"

definition local_sources_park_reason :: "grouping_config \<Rightarrow> string option" where
  "local_sources_park_reason cfg = (if is_bonded_follower cfg then Some BONDED_FOLLOWER else None)"

definition local_sources_parked :: "grouping_config \<Rightarrow> bool" where
  "local_sources_parked cfg \<longleftrightarrow> local_sources_park_reason cfg \<noteq> None"

section \<open>Splitting and joining\<close>

lemma split_on_nonempty: "split_on c w \<noteq> []"
  by (induction w) (auto split: list.split)

lemma split_on_plain: "c \<notin> set w \<Longrightarrow> split_on c w = [w]"
  by (induction w) auto

lemma split_on_append: "c \<notin> set w \<Longrightarrow> split_on c (w @ c # v) = w # split_on c v"
  by (induction w) auto

lemma split_join: "ws \<noteq> [] \<Longrightarrow> \<forall>w \<in> set ws. c \<notin> set w \<Longrightarrow> split_on c (join_with c ws) = ws"
  by (induction c ws rule: join_with.induct) (auto simp: split_on_plain split_on_append)

lemma join_split: "join_with c (split_on c w) = w"
proof (induction w)
  case (Cons x w)
  obtain p ps where "split_on c w = p # ps" using split_on_nonempty by (cases "split_on c w") auto
  then show ?case using Cons by (cases ps) auto
qed simp

section \<open>The roster survives its file\<close>

definition kept_member :: "bond_member \<Rightarrow> bool" where
  "kept_member m \<longleftrightarrow> roster_field 64 (bm_addr m) \<noteq> []"

definition clean_member :: "bond_member \<Rightarrow> bond_member" where
  "clean_member m = \<lparr>bm_addr = py_strip (roster_field 64 (bm_addr m)),
     bm_name = py_strip (roster_field 64 (bm_name m)), bm_channel = py_strip (roster_field 32 (bm_channel m))\<rparr>"

lemma roster_field_free: "pipe \<notin> set (roster_field n v)" "comma \<notin> set (roster_field n v)"
  using set_py_strip [of "scrub_roster_field v"] set_take_subset [of n "py_strip (scrub_roster_field v)"]
  by (auto simp: roster_field_def scrub_roster_field_def split: if_splits)

lemma strip_kept: "roster_field n v \<noteq> [] \<Longrightarrow> py_strip (roster_field n v) \<noteq> []"
proof -
  assume ne: "roster_field n v \<noteq> []"
  have "\<not> is_space (hd (roster_field n v))"
    using ne py_strip_stripped [of "scrub_roster_field v"]
    by (cases "py_strip (scrub_roster_field v)"; cases n) (auto simp: roster_field_def stripped_def)
  then show ?thesis
    using ne by (cases "roster_field n v") (auto simp: py_strip_def)
qed

lemma parse_format_member:
  "kept_member m \<Longrightarrow> parse_entry (format_member m) = Some (clean_member m)"
  using strip_kept [of 64 "bm_addr m"]
  by (simp add: parse_entry_def format_member_def split_on_append split_on_plain roster_field_free
      clean_member_def kept_member_def)

lemma format_member_free: "comma \<notin> set (format_member m)"
  by (simp add: format_member_def roster_field_free)

lemma parse_format_roster: "parse_roster (format_roster ms) = map clean_member (filter kept_member ms)"
proof (cases "filter kept_member ms = []")
  case True
  then show ?thesis
    by (simp add: parse_roster_def format_roster_def parse_entry_def map_filter_simps flip: kept_member_def)
next
  case False
  have "split_on comma (format_roster ms) = map format_member (filter kept_member ms)"
    unfolding format_roster_def kept_member_def [symmetric]
    by (rule split_join) (use False format_member_free in auto)
  moreover have "List.map_filter parse_entry (map format_member ks) = map clean_member ks" if "\<forall>m \<in> set ks. kept_member m" for ks
    using that by (induction ks) (simp_all add: map_filter_simps parse_format_member)
  ultimately show ?thesis by (simp add: parse_roster_def)
qed

lemma octet_digits: "octet w = Some n \<Longrightarrow> list_all is_digit w \<and> length w \<le> 3 \<and> w \<noteq> []"
  by (auto simp: octet_def split: if_splits)

definition addr_char :: "char \<Rightarrow> bool" where
  "addr_char c \<longleftrightarrow> is_digit c \<or> c = CHR ''.''"

lemma parse_ipv4_text:
  assumes "parse_ipv4 v = Some q"
  shows "list_all addr_char v" "length v \<le> 15" "v \<noteq> []"
proof -
  obtain a b c e where parts: "split_on CHR ''.'' v = [a, b, c, e]"
    and octets: "octet a \<noteq> None" "octet b \<noteq> None" "octet c \<noteq> None" "octet e \<noteq> None"
    using assms by (auto simp: parse_ipv4_def split: list.splits option.splits)
  have v: "v = a @ CHR ''.'' # b @ CHR ''.'' # c @ CHR ''.'' # e"
    using join_split [of "CHR ''.''" v] parts by simp
  have "list_all is_digit w \<and> length w \<le> 3 \<and> w \<noteq> []" if "octet w \<noteq> None" for w
    using that octet_digits by blast
  with octets have "list_all is_digit a" "list_all is_digit b" "list_all is_digit c" "list_all is_digit e"
    "length a \<le> 3" "length b \<le> 3" "length c \<le> 3" "length e \<le> 3" by blast+
  then show "list_all addr_char v" "length v \<le> 15" "v \<noteq> []"
    unfolding v by (auto simp: list_all_iff addr_char_def)
qed

lemma addr_char_visible: "addr_char c \<Longrightarrow> \<not> is_space c \<and> c \<noteq> pipe \<and> c \<noteq> comma \<and> \<not> control_char c"
  by (auto simp: addr_char_def is_digit_def is_space_def control_char_def Let_def)

lemma roster_field_id:
  assumes "\<forall>c \<in> set v. c \<noteq> pipe \<and> c \<noteq> comma \<and> \<not> control_char c" "stripped v" "length v \<le> n"
  shows "roster_field n v = v"
proof -
  have "scrub_roster_field v = v"
    using assms(1) by (simp add: scrub_roster_field_def map_idI)
  then show ?thesis using assms(2,3) by (simp add: roster_field_def py_strip_id)
qed

lemma roster_addr_id:
  assumes "is_private_or_loopback_ipv4 v"
  shows "roster_field 64 v = v" "py_strip v = v" "v \<noteq> []"
proof -
  obtain q where q: "parse_ipv4 v = Some q"
    using assms by (auto simp: is_private_or_loopback_ipv4_def split: option.splits)
  have chars: "\<forall>c \<in> set v. addr_char c" using parse_ipv4_text(1) [OF q] by (simp add: list_all_iff)
  have "stripped v"
    using chars addr_char_visible by (auto simp: stripped_def)
  then show "py_strip v = v" by (rule py_strip_id)
  have "\<forall>c \<in> set v. c \<noteq> pipe \<and> c \<noteq> comma \<and> \<not> control_char c"
    using chars addr_char_visible by blast
  then show "roster_field 64 v = v"
    by (rule roster_field_id) (use \<open>stripped v\<close> parse_ipv4_text(2) [OF q] in simp_all)
  show "v \<noteq> []" by (rule parse_ipv4_text(3) [OF q])
qed

lemma roster_channel_id:
  "v \<in> set ALLOWED_CHANNELS \<Longrightarrow> roster_field 32 v = v \<and> py_strip v = v"
  by (auto simp: ALLOWED_CHANNELS_def intro!: roster_field_id py_strip_id
      simp: control_char_def stripped_def is_space_def)

lemma first_error_None: "first_error es = None \<longleftrightarrow> (\<forall>e \<in> set es. e = None)"
  by (induction es rule: first_error.induct) auto

lemma roster_error_None:
  "roster_error m = None \<longleftrightarrow> is_private_or_loopback_ipv4 (bm_addr m) \<and> bm_channel m \<in> set ALLOWED_CHANNELS \<and>
     length (bm_name m) \<le> 64 \<and> \<not> list_ex control_char (bm_name m)"
  by (simp add: roster_error_def)

lemma validate_roster_None: "validate_roster ms = None \<longleftrightarrow> (\<forall>m \<in> set ms. roster_error m = None)"
  by (simp add: validate_roster_def first_error_None)

text \<open>
  The roster survives its line of the env file. Whatever the addresses, names and channels hold,
  reading the written roster gives back exactly the members that have an address, cleaned field by field:
  no field can add a member, drop one, or move text into another field. A validated roster comes back
  with the same addresses and channels in the same order, and with the same names too unless a name holds a
  separator or outer white space.
\<close>

theorem roster_round_trip:
  "parse_roster (format_roster ms) = map clean_member (filter kept_member ms) \<and>
   (validate_roster ms = None \<longrightarrow>
     map (\<lambda>m. (bm_addr m, bm_channel m)) (parse_roster (format_roster ms)) = map (\<lambda>m. (bm_addr m, bm_channel m)) ms \<and>
     ((\<forall>m \<in> set ms. stripped (bm_name m) \<and> pipe \<notin> set (bm_name m) \<and> comma \<notin> set (bm_name m)) \<longrightarrow>
       parse_roster (format_roster ms) = ms))"
proof (intro conjI impI)
  show trip: "parse_roster (format_roster ms) = map clean_member (filter kept_member ms)"
    by (rule parse_format_roster)
  assume "validate_roster ms = None"
  then have member: "is_private_or_loopback_ipv4 (bm_addr m)" "bm_channel m \<in> set ALLOWED_CHANNELS"
    "length (bm_name m) \<le> 64" "\<forall>c \<in> set (bm_name m). \<not> control_char c" if "m \<in> set ms" for m
    using that by (auto simp: validate_roster_None roster_error_None list_ex_iff)
  then have kept: "filter kept_member ms = ms"
    by (simp add: filter_id_conv kept_member_def roster_addr_id)
  then show "map (\<lambda>m. (bm_addr m, bm_channel m)) (parse_roster (format_roster ms)) = map (\<lambda>m. (bm_addr m, bm_channel m)) ms"
    using member by (simp add: trip clean_member_def roster_addr_id roster_channel_id)
  assume names: "\<forall>m \<in> set ms. stripped (bm_name m) \<and> pipe \<notin> set (bm_name m) \<and> comma \<notin> set (bm_name m)"
  have "clean_member m = m" if m: "m \<in> set ms" for m
  proof -
    have "roster_field 64 (bm_name m) = bm_name m"
      using member(3,4) [OF m] names m by (intro roster_field_id) auto
    moreover have "py_strip (bm_name m) = bm_name m" using names m py_strip_id by blast
    ultimately show ?thesis
      using member(1,2) [OF m] by (simp add: clean_member_def roster_addr_id roster_channel_id)
  qed
  then show "parse_roster (format_roster ms) = ms" by (simp add: trip kept map_idI)
qed

lemma roster_round_trip_witness:
  "parse_roster (format_roster [\<lparr>bm_addr = ''192.168.1.7'', bm_name = ''Kitchen'', bm_channel = ''left''\<rparr>]) =
   [\<lparr>bm_addr = ''192.168.1.7'', bm_name = ''Kitchen'', bm_channel = ''left''\<rparr>]"
proof -
  let ?ms = "[\<lparr>bm_addr = ''192.168.1.7'', bm_name = ''Kitchen'', bm_channel = ''left''\<rparr>]"
  have "validate_roster ?ms = None" by code_simp
  moreover have "\<forall>m \<in> set ?ms. stripped (bm_name m) \<and> pipe \<notin> set (bm_name m) \<and> comma \<notin> set (bm_name m)"
    by (simp add: stripped_def is_space_def)
  ultimately show ?thesis using roster_round_trip [of ?ms] by blast
qed


section \<open>What a loaded request can be\<close>

text \<open>What every consumer of an active request relies on.\<close>

definition sound_request :: "grouping_config \<Rightarrow> bool" where
  "sound_request cfg \<longleftrightarrow>
     gc_bond_id cfg \<noteq> [] \<and> gc_channel cfg \<in> set ALLOWED_CHANNELS \<and> gc_codec cfg \<in> set ALLOWED_CODECS \<and>
     gc_role cfg \<in> set ALLOWED_ROLES \<and> (gc_role cfg = ''follower'' \<longrightarrow> gc_leader_addr cfg \<noteq> []) \<and>
     (gc_leader_addr cfg = [] \<or> host_text (gc_leader_addr cfg)) \<and>
     float_in TRIM_DB_MIN TRIM_DB_MAX (gc_trim_db cfg) \<and>
     CLIENT_LATENCY_MS_LO \<le> gc_client_latency_ms cfg \<and> gc_client_latency_ms cfg \<le> CLIENT_LATENCY_MS_HI \<and>
     float_in CHANNEL_DELAY_MS_LO CHANNEL_DELAY_MS_HI (gc_left_delay_ms cfg) \<and>
     float_in CHANNEL_DELAY_MS_LO CHANNEL_DELAY_MS_HI (gc_right_delay_ms cfg) \<and>
     (gc_peer_addr cfg = [] \<or> is_private_or_loopback_ipv4 (gc_peer_addr cfg)) \<and>
     length (gc_peer_name cfg) \<le> 64 \<and> (\<forall>m \<in> set (gc_roster cfg). roster_error m = None)"

lemma stripped_host: "stripped w \<Longrightarrow> leader_addr_matches w \<Longrightarrow> host_text w"
  by (auto simp: leader_addr_matches_def stripped_def is_space_def)

lemma check_None [simp]: "check bad e = None \<longleftrightarrow> \<not> bad"
  by (simp add: check_def)

lemma validate_grouping_None:
  assumes "validate_grouping role channel bond_id leader_addr codec trim latency left right paddr pname roster = None"
    and "stripped leader_addr"
  shows "sound_request \<lparr>gc_enabled = True, gc_role = role, gc_channel = channel, gc_bond_id = bond_id,
    gc_leader_addr = leader_addr, gc_buffer_ms = b, gc_codec = codec, gc_error = err, gc_trim_db = trim,
    gc_client_latency_ms = latency, gc_left_delay_ms = left, gc_right_delay_ms = right, gc_peer_addr = paddr,
    gc_peer_name = pname, gc_roster = roster\<rparr>"
  using assms stripped_host [OF assms(2)]
  by (auto simp: validate_grouping_def first_error_None sound_request_def validate_roster_None)

lemma buffer_range: "BUFFER_MS_LO \<le> parse_buffer_ms raw \<and> parse_buffer_ms raw \<le> BUFFER_MS_HI"
  by (simp add: parse_buffer_ms_def grouping_constants split: option.split)

lemma load_config_enabled:
  assumes "gc_enabled (load_config f)"
  shows "\<exists>t. f = TText t"
  using assms
  by (cases f) (simp_all add: load_config_def read_env_file_or_warn_def read_env_file_state_def
      read_env_file_text_def parse_enabled_def py_strip_def is_space_def latin_lower_def DISABLED_def)

lemma load_config_sound: "is_active_member (load_config f) \<Longrightarrow> sound_request (load_config f)"
  by (auto simp: load_config_def Let_def is_active_member_def first_error_None DISABLED_def
      py_strip_stripped intro!: validate_grouping_None split: prod.splits if_splits)

text \<open>
  C27. A loaded grouping request is off, broken on the record, or sound. Loading never fails: a missing,
  unreadable or undecodable file, and a switch that is not exactly on, give the one disabled request. An
  enabled request without a recorded error has a bond, a known role, channel and codec, a leader address that
  is a host name whenever it follows, every number in its range, and only private addresses in its roster;
  the playout buffer is in range in every case.
\<close>

theorem loaded_request_is_sound:
  "(\<not> gc_enabled (load_config f) \<longrightarrow> load_config f = DISABLED) \<and>
   (gc_enabled (load_config f) \<longrightarrow> (\<exists>t. f = TText t)) \<and>
   BUFFER_MS_LO \<le> gc_buffer_ms (load_config f) \<and> gc_buffer_ms (load_config f) \<le> BUFFER_MS_HI \<and>
   (is_active_member (load_config f) \<longrightarrow> sound_request (load_config f))"
proof (intro conjI impI)
  show "\<not> gc_enabled (load_config f) \<Longrightarrow> load_config f = DISABLED"
    by (auto simp: load_config_def Let_def split: prod.splits if_splits)
  show "gc_enabled (load_config f) \<Longrightarrow> \<exists>t. f = TText t" by (rule load_config_enabled)
  have "BUFFER_MS_LO \<le> gc_buffer_ms (load_config f) \<and> gc_buffer_ms (load_config f) \<le> BUFFER_MS_HI"
    using buffer_range
    by (auto simp: load_config_def Let_def DISABLED_def split: prod.split) (simp_all add: grouping_constants)
  then show "BUFFER_MS_LO \<le> gc_buffer_ms (load_config f)" "gc_buffer_ms (load_config f) \<le> BUFFER_MS_HI" by simp_all
  show "is_active_member (load_config f) \<Longrightarrow> sound_request (load_config f)" by (rule load_config_sound)
qed

definition demo_grouping_env :: string where
  "demo_grouping_env = join_lines
     [''JASPER_GROUPING=on'', ''JASPER_GROUPING_ROLE=follower'', ''JASPER_GROUPING_CHANNEL=right'',
      ''JASPER_GROUPING_BOND_ID=b1'', ''JASPER_GROUPING_LEADER_ADDR=jts3.local'',
      ''JASPER_GROUPING_TRIM_DB=-3.5'', ''JASPER_GROUPING_BUFFER_MS=20'']"

lemma demo_request:
  "load_config (TText demo_grouping_env) =
   \<lparr>gc_enabled = True, gc_role = ''follower'', gc_channel = ''right'', gc_bond_id = ''b1'',
    gc_leader_addr = ''jts3.local'', gc_buffer_ms = 150, gc_codec = ''flac'', gc_error = None,
    gc_trim_db = PFin True (7 / 2), gc_client_latency_ms = 0, gc_left_delay_ms = float_zero,
    gc_right_delay_ms = float_zero, gc_peer_addr = [], gc_peer_name = [], gc_roster = []\<rparr>"
  by code_simp

lemma loaded_request_is_sound_witness:
  "host_text (gc_leader_addr (load_config (TText demo_grouping_env))) \<and>
   load_config (TText ''JASPER_GROUPING=off'') = DISABLED"
proof -
  have "is_active_member (load_config (TText demo_grouping_env))"
    by (simp add: demo_request is_active_member_def)
  then have "sound_request (load_config (TText demo_grouping_env))"
    using loaded_request_is_sound [of "TText demo_grouping_env"] by blast
  moreover have "\<not> gc_enabled (load_config (TText ''JASPER_GROUPING=off''))" by code_simp
  ultimately show ?thesis
    using loaded_request_is_sound [of "TText ''JASPER_GROUPING=off''"]
    by (auto simp: sound_request_def demo_request)
qed


end
