(* ===== verification/Grouping_Routes.thy ===== *)
theory Grouping_Routes
  imports Grouping_Config
begin

text \<open>
  What a grouping request means for the daemons: the snapcast units and their arguments
  (\<open>jasper/multiroom/reconcile_plan.py\<close>), the route of the assistant's voice (\<open>tts_route.py\<close>), and the derived
  env of outputd, voice and AirPlay (\<open>grouping_env.py\<close>, the pure part). Log summaries are left out.
\<close>

section \<open>Units\<close>

definition SNAPSERVER_UNIT :: string where "SNAPSERVER_UNIT = ''jasper-snapserver.service''"
definition SNAPCLIENT_UNIT :: string where "SNAPCLIENT_UNIT = ''jasper-snapclient.service''"
definition SNAPFIFO :: string where "SNAPFIFO = ''/run/jasper-snapserver/snapfifo''"
definition SNAP_STREAM_ID :: string where "SNAP_STREAM_ID = ''jts''"

datatype unit_verb = StartUnit | StopUnit

record unit_intent =
  ui_unit :: string
  ui_desired :: unit_verb
  ui_reason :: string

abbreviation unit_intent :: "string \<Rightarrow> unit_verb \<Rightarrow> string \<Rightarrow> unit_intent" where
  "unit_intent u v r \<equiv> \<lparr>ui_unit = u, ui_desired = v, ui_reason = r\<rparr>"

definition desired_snapfifo_path :: "grouping_config \<Rightarrow> string" where
  "desired_snapfifo_path cfg =
     (if gc_enabled cfg \<and> gc_error cfg = None \<and> gc_role cfg = ''leader'' then SNAPFIFO else [])"

definition plan :: "grouping_config \<Rightarrow> unit_intent list" where
  "plan cfg =
     (if \<not> gc_enabled cfg then
        [unit_intent SNAPSERVER_UNIT StopUnit ''grouping off'', unit_intent SNAPCLIENT_UNIT StopUnit ''grouping off'']
      else if gc_error cfg \<noteq> None then
        [unit_intent SNAPSERVER_UNIT StopUnit ''config invalid'', unit_intent SNAPCLIENT_UNIT StopUnit ''config invalid'']
      else if gc_role cfg = ''leader'' then
        [unit_intent SNAPSERVER_UNIT StartUnit ''leader hosts stream'',
         unit_intent SNAPCLIENT_UNIT StartUnit ''leader plays its channel'']
      else
        [unit_intent SNAPSERVER_UNIT StopUnit ''follower runs no server'',
         unit_intent SNAPCLIENT_UNIT StartUnit ''follower consumes stream''])"

section \<open>Snapcast arguments\<close>

definition DAC_CONTENT_RING_PCM :: string where "DAC_CONTENT_RING_PCM = ''jts_ring_dac_content''"
definition GROUPING_RING_PCM :: string where "GROUPING_RING_PCM = ''jts_ring_grouping''"
definition DAC_CONTENT_RING_PERIOD_FRAMES :: int where "DAC_CONTENT_RING_PERIOD_FRAMES = 128"

definition snapserver_argv :: "grouping_config \<Rightarrow> string list" where
  "snapserver_argv cfg =
     [''snapserver'', ''--stream.source'',
      ''pipe://'' @ SNAPFIFO @ ''?name='' @ SNAP_STREAM_ID @ ''&mode=create'' @ ''&sampleformat=48000:16:2'' @
        ''&codec='' @ gc_codec cfg,
      ''--stream.buffer'', py_str_int (gc_buffer_ms cfg)]"

definition snapclient_argv :: "grouping_config \<Rightarrow> string option \<Rightarrow> string list" where
  "snapclient_argv cfg player =
     (let host = (if gc_role cfg = ''leader'' then ''127.0.0.1'' else gc_leader_addr cfg)
      in [''snapclient'', ''--host'', host, ''--latency'', py_str_int (gc_client_latency_ms cfg)] @
         (case player of
            None \<Rightarrow> []
          | Some device \<Rightarrow> if device = [] then [] else [''--soundcard'', device, ''--player'', ''alsa'']))"

definition SERVER_ARGS_KEY :: string where "SERVER_ARGS_KEY = ''JASPER_SNAPSERVER_ARGS''"
definition CLIENT_ARGS_KEY :: string where "CLIENT_ARGS_KEY = ''JASPER_SNAPCLIENT_ARGS''"

text \<open>None is the \<open>AssertionError\<close> of an argument with white space.\<close>

definition splits_safely :: "string \<Rightarrow> bool" where
  "splits_safely a \<longleftrightarrow> py_strip a = a \<and> blank \<notin> set a \<and> CHR 0x09 \<notin> set a"

definition join_args :: "string list \<Rightarrow> string option" where
  "join_args argv = (if list_all splits_safely (tl argv) then Some (join_with blank (tl argv)) else None)"

definition assemble_args :: "grouping_config \<Rightarrow> bool \<Rightarrow> (string \<times> string) list option" where
  "assemble_args cfg active_endpoint =
     (if \<not> gc_enabled cfg \<or> gc_error cfg \<noteq> None then Some [(SERVER_ARGS_KEY, []), (CLIENT_ARGS_KEY, [])]
      else Option.bind (if gc_role cfg \<noteq> ''leader'' then Some [] else join_args (snapserver_argv cfg)) (\<lambda>server.
        let player = (if active_endpoint then GROUPING_RING_PCM else DAC_CONTENT_RING_PCM)
        in map_option (\<lambda>client. [(SERVER_ARGS_KEY, server), (CLIENT_ARGS_KEY, client)])
             (join_args (snapclient_argv cfg (Some player)))))"

section \<open>The assistant's route\<close>

definition FANIN_TTS_SOCKET :: string where "FANIN_TTS_SOCKET = ''/run/jasper-fanin/tts.sock''"
definition OUTPUTD_TTS_SOCKET :: string where "OUTPUTD_TTS_SOCKET = ''/run/jasper-outputd/tts.sock''"

datatype route_kind = SoloRoute | ActiveEndpointRoute | GraphOwnedOutput | PassiveMember

record tts_route =
  tr_kind :: route_kind
  tr_voice_env_socket :: "string option"
  tr_expected_voice_socket :: "string option"
  tr_outputd_tts_socket :: string
  tr_voice_parked :: bool

definition expected_grouping_tts_route :: "grouping_config \<Rightarrow> bool \<Rightarrow> bool \<Rightarrow> tts_route" where
  "expected_grouping_tts_route cfg active_endpoint flat_output_allowed =
     (if \<not> is_active_member cfg then
        \<lparr>tr_kind = SoloRoute, tr_voice_env_socket = None, tr_expected_voice_socket = Some FANIN_TTS_SOCKET,
         tr_outputd_tts_socket = [], tr_voice_parked = False\<rparr>
      else
        let voice_parked = (gc_role cfg = ''follower'')
        in if active_endpoint then
             \<lparr>tr_kind = ActiveEndpointRoute, tr_voice_env_socket = None,
              tr_expected_voice_socket = Some FANIN_TTS_SOCKET, tr_outputd_tts_socket = [],
              tr_voice_parked = voice_parked\<rparr>
           else if \<not> flat_output_allowed then
             \<lparr>tr_kind = GraphOwnedOutput, tr_voice_env_socket = None,
              tr_expected_voice_socket = Some FANIN_TTS_SOCKET, tr_outputd_tts_socket = [],
              tr_voice_parked = voice_parked\<rparr>
           else
             \<lparr>tr_kind = PassiveMember, tr_voice_env_socket = Some OUTPUTD_TTS_SOCKET,
              tr_expected_voice_socket = Some OUTPUTD_TTS_SOCKET, tr_outputd_tts_socket = OUTPUTD_TTS_SOCKET,
              tr_voice_parked = voice_parked\<rparr>)"

section \<open>The lane and the derived env files\<close>

datatype lane_refusal = LaneActiveEndpoint | LaneFlatOutputDenied | LanePeriod

record lane_decision =
  ld_armed :: bool
  ld_reason :: "lane_refusal option"

definition dac_content_ring_servable :: "int option \<Rightarrow> bool" where
  "dac_content_ring_servable period \<longleftrightarrow> period = Some DAC_CONTENT_RING_PERIOD_FRAMES"

definition member_lane_decision :: "grouping_config \<Rightarrow> bool \<Rightarrow> bool \<Rightarrow> int option \<Rightarrow> lane_decision" where
  "member_lane_decision cfg active_endpoint flat_output_allowed period =
     (if \<not> (gc_enabled cfg \<and> gc_error cfg = None) then \<lparr>ld_armed = False, ld_reason = None\<rparr>
      else if active_endpoint then \<lparr>ld_armed = False, ld_reason = Some LaneActiveEndpoint\<rparr>
      else if \<not> flat_output_allowed then \<lparr>ld_armed = False, ld_reason = Some LaneFlatOutputDenied\<rparr>
      else if \<not> dac_content_ring_servable period then \<lparr>ld_armed = False, ld_reason = Some LanePeriod\<rparr>
      else \<lparr>ld_armed = True, ld_reason = None\<rparr>)"

definition DAC_CONTENT_LANE_ENV :: string where "DAC_CONTENT_LANE_ENV = ''JASPER_OUTPUTD_DAC_CONTENT_LANE''"
definition OUTPUTD_CONTENT_BRIDGE_ENV_VAR :: string where
  "OUTPUTD_CONTENT_BRIDGE_ENV_VAR = ''JASPER_OUTPUTD_CONTENT_BRIDGE''"
definition OUTPUTD_DAC_CONTENT_CHANNEL_ENV :: string where
  "OUTPUTD_DAC_CONTENT_CHANNEL_ENV = ''JASPER_OUTPUTD_DAC_CONTENT_CHANNEL''"
definition OUTPUTD_TTS_SOCKET_ENV :: string where "OUTPUTD_TTS_SOCKET_ENV = ''JASPER_OUTPUTD_TTS_SOCKET''"
definition OUTPUTD_DAC_CONTENT_TRIM_ENV :: string where
  "OUTPUTD_DAC_CONTENT_TRIM_ENV = ''JASPER_OUTPUTD_DAC_CONTENT_TRIM_DB''"
definition VOICE_TTS_SOCKET_ENV :: string where "VOICE_TTS_SOCKET_ENV = ''JASPER_TTS_OUTPUTD_SOCKET''"
definition TTS_MIX_STAGE_ENV :: string where "TTS_MIX_STAGE_ENV = ''JASPER_TTS_MIX_STAGE''"
definition VOICE_PARK_ENV :: string where "VOICE_PARK_ENV = ''JASPER_GROUPING_VOICE_PARK''"
definition AIRPLAY_BONDED_EXTRA_DELAY_ENV :: string where
  "AIRPLAY_BONDED_EXTRA_DELAY_ENV = ''JASPER_AIRPLAY_BONDED_EXTRA_DELAY_SEC''"

lemmas env_names = DAC_CONTENT_LANE_ENV_def OUTPUTD_CONTENT_BRIDGE_ENV_VAR_def OUTPUTD_DAC_CONTENT_CHANNEL_ENV_def
  OUTPUTD_TTS_SOCKET_ENV_def OUTPUTD_DAC_CONTENT_TRIM_ENV_def VOICE_TTS_SOCKET_ENV_def TTS_MIX_STAGE_ENV_def
  VOICE_PARK_ENV_def AIRPLAY_BONDED_EXTRA_DELAY_ENV_def

definition outputd_grouping_env :: "grouping_config \<Rightarrow> bool \<Rightarrow> bool \<Rightarrow> int option \<Rightarrow> (string \<times> string) list" where
  "outputd_grouping_env cfg active_endpoint flat_output_allowed period =
     (let route = expected_grouping_tts_route cfg active_endpoint flat_output_allowed
      in if gc_enabled cfg \<and> gc_error cfg = None then
           if \<not> ld_armed (member_lane_decision cfg active_endpoint flat_output_allowed period) then
             [(DAC_CONTENT_LANE_ENV, []), (OUTPUTD_DAC_CONTENT_CHANNEL_ENV, []),
              (OUTPUTD_TTS_SOCKET_ENV, tr_outputd_tts_socket route), (OUTPUTD_DAC_CONTENT_TRIM_ENV, [])]
           else
             [(DAC_CONTENT_LANE_ENV, ''1''), (OUTPUTD_CONTENT_BRIDGE_ENV_VAR, []),
              (OUTPUTD_DAC_CONTENT_CHANNEL_ENV, or_else (gc_channel cfg) ''stereo''),
              (OUTPUTD_TTS_SOCKET_ENV, tr_outputd_tts_socket route),
              (OUTPUTD_DAC_CONTENT_TRIM_ENV, format_fixed 1 (gc_trim_db cfg))]
         else
           [(DAC_CONTENT_LANE_ENV, []), (OUTPUTD_DAC_CONTENT_CHANNEL_ENV, []), (OUTPUTD_TTS_SOCKET_ENV, []),
            (OUTPUTD_DAC_CONTENT_TRIM_ENV, [])])"

definition voice_grouping_env :: "grouping_config \<Rightarrow> bool \<Rightarrow> bool \<Rightarrow> (string \<times> string) list" where
  "voice_grouping_env cfg active_endpoint flat_output_allowed =
     (let route = expected_grouping_tts_route cfg active_endpoint flat_output_allowed
      in if gc_enabled cfg \<and> gc_error cfg = None then
           (case tr_voice_env_socket route of
              None \<Rightarrow> [] | Some socket \<Rightarrow> [(VOICE_TTS_SOCKET_ENV, socket), (TTS_MIX_STAGE_ENV, ''post_dsp'')]) @
           (if tr_voice_parked route then [(VOICE_PARK_ENV, ''1'')] else [])
         else [])"

definition airplay_grouping_env :: "grouping_config \<Rightarrow> (string \<times> string) list" where
  "airplay_grouping_env cfg =
     (if is_active_leader cfg
      then [(AIRPLAY_BONDED_EXTRA_DELAY_ENV,
             format_fixed 6 (PFin False (double_of (of_int (gc_buffer_ms cfg) / 1000))))]
      else [])"

section \<open>The arguments split back\<close>

definition plain_word :: "string \<Rightarrow> bool" where
  "plain_word w \<longleftrightarrow> w \<noteq> [] \<and> list_all plain_char w"

lemma plain_char_visible: "plain_char c \<Longrightarrow> \<not> is_space c \<and> c \<noteq> blank \<and> c \<noteq> CHR 0x09"
  by (auto simp: plain_char_def is_space_def Let_def)

lemma plain_word_safe: "plain_word w \<Longrightarrow> splits_safely w"
proof -
  assume w: "plain_word w"
  then have "\<forall>c \<in> set w. plain_char c" by (simp add: plain_word_def list_all_iff)
  then have "stripped w" "blank \<notin> set w" "CHR 0x09 \<notin> set w"
    using plain_char_visible by (auto simp: stripped_def)
  then show ?thesis by (simp add: splits_safely_def py_strip_id)
qed

lemma plain_word_append [simp]: "plain_word v \<Longrightarrow> list_all plain_char w \<Longrightarrow> plain_word (v @ w)"
  by (auto simp: plain_word_def)

lemma join_args_splits:
  assumes "\<forall>w \<in> set (tl argv). plain_word w" "tl argv \<noteq> []"
  shows "\<exists>line. join_args argv = Some line \<and> split_on blank line = tl argv"
  using assms plain_word_safe plain_char_visible
  by (auto simp: join_args_def list_all_iff plain_word_def intro!: split_join)

lemma host_word: "host_text w \<Longrightarrow> plain_word w"
proof -
  assume w: "host_text w"
  have "is_alnum c \<or> c = CHR ''.'' \<or> c = CHR ''-'' \<Longrightarrow> plain_char c" for c
    by (auto simp: is_alnum_def plain_char_def Let_def)
  with w show ?thesis by (cases w) (auto simp: host_text_def plain_word_def list_all_iff)
qed

lemma number_word [simp]: "plain_word (py_str_int n)"
  using py_str_int_plain [of n] by (simp add: plain_word_def)

lemma constant_words [simp]:
  "plain_word ''--stream.source''" "plain_word ''--stream.buffer''" "plain_word ''--host''" "plain_word ''--latency''"
  "plain_word ''--soundcard''" "plain_word ''--player''" "plain_word ''alsa''" "plain_word ''127.0.0.1''"
  "plain_word DAC_CONTENT_RING_PCM" "plain_word GROUPING_RING_PCM" "DAC_CONTENT_RING_PCM \<noteq> []" "GROUPING_RING_PCM \<noteq> []"
  by (code_simp+)

lemma server_words:
  assumes "gc_codec cfg \<in> set ALLOWED_CODECS"
  shows "\<forall>w \<in> set (tl (snapserver_argv cfg)). plain_word w"
proof -
  have "plain_word (''pipe://'' @ SNAPFIFO @ ''?name='' @ SNAP_STREAM_ID @ ''&mode=create'' @
      ''&sampleformat=48000:16:2'' @ ''&codec='' @ codec)" if "codec \<in> {''pcm'', ''flac'', ''opus''}" for codec
    using that by (auto simp: plain_word_def plain_char_def SNAPFIFO_def SNAP_STREAM_ID_def)
  then show ?thesis using assms by (simp add: snapserver_argv_def ALLOWED_CODECS_def)
qed

lemma client_words:
  assumes "sound_request cfg" "plain_word player"
  shows "\<forall>w \<in> set (tl (snapclient_argv cfg (Some player))). plain_word w"
proof -
  have "player \<noteq> []" using assms(2) by (simp add: plain_word_def)
  then show ?thesis
    using assms host_word [of "gc_leader_addr cfg"]
    by (auto simp: snapclient_argv_def sound_request_def ALLOWED_ROLES_def Let_def)
qed

text \<open>
  The snapcast arguments survive the unit's word splitting. For every request that can be loaded the
  arguments are derived without an assertion failing, and splitting the two lines at blanks gives exactly the
  command lines built for this role: a leader gets both, a follower no server line, and a speaker that is not
  an active member two empty lines.
\<close>

theorem snapcast_args_split_back:
  "\<exists>server client. assemble_args (load_config f) active_endpoint =
      Some [(SERVER_ARGS_KEY, server), (CLIENT_ARGS_KEY, client)] \<and>
    (if is_active_member (load_config f)
     then split_on blank client = tl (snapclient_argv (load_config f)
            (Some (if active_endpoint then GROUPING_RING_PCM else DAC_CONTENT_RING_PCM))) \<and>
          (if gc_role (load_config f) = ''leader''
           then split_on blank server = tl (snapserver_argv (load_config f)) else server = [])
     else server = [] \<and> client = [])"
proof (cases "is_active_member (load_config f)")
  case False
  then show ?thesis by (auto simp: is_active_member_def assemble_args_def)
next
  case True
  then have sound: "sound_request (load_config f)" using load_config_sound by blast
  let ?player = "if active_endpoint then GROUPING_RING_PCM else DAC_CONTENT_RING_PCM"
  have "plain_word ?player" by simp
  then obtain client where client: "join_args (snapclient_argv (load_config f) (Some ?player)) = Some client"
    "split_on blank client = tl (snapclient_argv (load_config f) (Some ?player))"
    using join_args_splits [OF client_words [OF sound]] by (auto simp: snapclient_argv_def Let_def)
  obtain server where server: "join_args (snapserver_argv (load_config f)) = Some server"
    "split_on blank server = tl (snapserver_argv (load_config f))"
    using join_args_splits [OF server_words] sound by (auto simp: snapserver_argv_def sound_request_def)
  show ?thesis
    using True client server
    by (cases "gc_role (load_config f) = ''leader''") (auto simp: assemble_args_def is_active_member_def Let_def)
qed

text \<open>
  Every derived route agrees with the others and fails closed. Voice is aimed at outputd exactly when
  outputd serves the socket; that, and the return lane, happen only on an active member whose topology allows
  a flat output and that is no active endpoint, so assistant audio never bypasses a crossover; the lane
  marker and the blank bridge are written together, and only at the period of the ring; voice is parked on
  exactly the active followers; and a speaker that is no active member gets only blanks.
\<close>

theorem derived_routes_agree:
  "let out = outputd_grouping_env cfg active_endpoint flat_output_allowed period;
       voice = voice_grouping_env cfg active_endpoint flat_output_allowed
   in map_of voice VOICE_TTS_SOCKET_ENV =
      (case map_of out OUTPUTD_TTS_SOCKET_ENV of None \<Rightarrow> None | Some s \<Rightarrow> if s = [] then None else Some s) \<and>
    map_of voice TTS_MIX_STAGE_ENV = map_option (\<lambda>_. ''post_dsp'') (map_of voice VOICE_TTS_SOCKET_ENV) \<and>
    (map_of voice VOICE_TTS_SOCKET_ENV \<noteq> None \<longleftrightarrow>
      is_active_member cfg \<and> \<not> active_endpoint \<and> flat_output_allowed) \<and>
    (map_of out DAC_CONTENT_LANE_ENV = Some ''1'' \<longleftrightarrow> is_active_member cfg \<and> \<not> active_endpoint \<and>
      flat_output_allowed \<and> period = Some DAC_CONTENT_RING_PERIOD_FRAMES) \<and>
    (map_of out OUTPUTD_CONTENT_BRIDGE_ENV_VAR =
      (if map_of out DAC_CONTENT_LANE_ENV = Some ''1'' then Some [] else None)) \<and>
    (map_of voice VOICE_PARK_ENV = Some ''1'' \<longleftrightarrow> is_active_member cfg \<and> gc_role cfg = ''follower'') \<and>
    (airplay_grouping_env cfg \<noteq> [] \<longleftrightarrow> is_active_leader cfg) \<and>
    (is_active_member cfg \<or> snd ` set out = {[]} \<and> voice = [])"
proof (cases "is_active_member cfg")
  case False
  then show ?thesis
    by (cases "gc_enabled cfg"; cases "gc_error cfg")
      (simp_all add: is_active_member_def outputd_grouping_env_def voice_grouping_env_def airplay_grouping_env_def is_active_leader_def
        env_names Let_def)
next
  case True
  then have active: "gc_enabled cfg" "gc_error cfg = None" by (simp_all add: is_active_member_def)
  show ?thesis
    by (cases active_endpoint; cases flat_output_allowed; cases "period = Some DAC_CONTENT_RING_PERIOD_FRAMES")
      (simp_all add: outputd_grouping_env_def voice_grouping_env_def airplay_grouping_env_def is_active_leader_def
        expected_grouping_tts_route_def member_lane_decision_def dac_content_ring_servable_def True active
        OUTPUTD_TTS_SOCKET_def env_names Let_def)
qed

end

