(* ===== verification/Grouping_Role.thy ===== *)
theory Grouping_Role
  imports Grouping_Routes
begin

text \<open>
  The role a speaker really has: the status file of \<open>jasper/multiroom/effective_role.py\<close> with its grant of
  local sources, and the role decision of \<open>jasper/multiroom/reconcile.py\<close> with its fallback to solo. The
  fingerprint of a request (a SHA-256 of its \<open>repr\<close>) is a parameter \<open>fp\<close>; a boot identity is the number of
  its UUID, None for the empty string.
\<close>

section \<open>Boot identities\<close>

function remove_all :: "string \<Rightarrow> string \<Rightarrow> string" where
  "remove_all p [] = []"
| "remove_all p (c # w) =
     (if p \<noteq> [] \<and> take (length p) (c # w) = p then remove_all p (drop (length p) (c # w)) else c # remove_all p w)"
  by pat_completeness auto

termination remove_all
  by (relation "measure (\<lambda>(p, w). length w)") (auto simp: Suc_le_eq)

declare remove_all.simps(2) [simp del]

definition hex_value :: "char \<Rightarrow> nat option" where
  "hex_value c = (let n = of_char c :: nat
     in if 48 \<le> n \<and> n \<le> 57 then Some (n - 48) else if 65 \<le> n \<and> n \<le> 70 then Some (n - 55)
        else if 97 \<le> n \<and> n \<le> 102 then Some (n - 87) else None)"

text \<open>The digits of \<open>int(w, 16)\<close>, underscores only after a digit or the prefix.\<close>

fun hex_body :: "bool \<Rightarrow> nat \<Rightarrow> string \<Rightarrow> nat option" where
  "hex_body after_digit n [] = (if after_digit then Some n else None)"
| "hex_body after_digit n (c # w) =
     (case hex_value c of
        Some h \<Rightarrow> hex_body True (16 * n + h) w
      | None \<Rightarrow> if c = CHR ''_'' \<and> after_digit then hex_body False n w else None)"

definition int_base16 :: "string \<Rightarrow> int option" where
  "int_base16 s =
     (let w = py_strip s; signed = (w \<noteq> [] \<and> hd w \<in> {CHR ''+'', CHR ''-''}); v = (if signed then tl w else w);
          prefixed = (2 \<le> length v \<and> hd v = CHR ''0'' \<and> v ! 1 \<in> {CHR ''x'', CHR ''X''});
          body = (if prefixed then drop 2 v else v);
          digits = (if prefixed \<and> body \<noteq> [] \<and> hd body = CHR ''_'' then tl body else body)
      in map_option (\<lambda>n. if signed \<and> hd w = CHR ''-'' then - int n else int n) (hex_body False 0 digits))"

definition py_uuid :: "string \<Rightarrow> nat option" where
  "py_uuid s =
     (let hex = filter (\<lambda>c. c \<noteq> CHR ''-'') (strip_chars ''{}'' (remove_all ''uuid:'' (remove_all ''urn:'' s)))
      in if length hex \<noteq> 32 then None
         else case int_base16 hex of
           None \<Rightarrow> None
         | Some n \<Rightarrow> if 0 \<le> n \<and> n < 2 ^ 128 then Some (nat n) else None)"

datatype json_value = JNull | JBool bool | JStr string | JOther bool string  \<comment> \<open>truth and \<open>str\<close> of any other value\<close>

fun normalise_boot_id :: "json_value \<Rightarrow> nat option" where
  "normalise_boot_id (JStr s) = (case py_uuid (py_strip s) of
     None \<Rightarrow> None | Some n \<Rightarrow> if n = 0 then None else Some n)"
| "normalise_boot_id _ = None"

text \<open>None when the bytes could not be read or are not ASCII.\<close>

definition read_current_boot_id :: "string option \<Rightarrow> nat option" where
  "read_current_boot_id bytes = (case bytes of None \<Rightarrow> None
     | Some raw \<Rightarrow> if list_all (\<lambda>c. (of_char c :: nat) < 128) raw then normalise_boot_id (JStr raw) else None)"

definition hex_digit :: "nat \<Rightarrow> char" where
  "hex_digit h = char_of (if h < 10 then 48 + h else 87 + h)"

fun hex_fixed :: "nat \<Rightarrow> nat \<Rightarrow> string" where
  "hex_fixed 0 n = []"
| "hex_fixed (Suc k) n = hex_fixed k (n div 16) @ [hex_digit (n mod 16)]"

text \<open>\<open>str(UUID)\<close>.\<close>

definition uuid_text :: "nat \<Rightarrow> string" where
  "uuid_text n =
     (let h = hex_fixed 32 n
      in take 8 h @ ''-'' @ take 4 (drop 8 h) @ ''-'' @ take 4 (drop 12 h) @ ''-'' @ take 4 (drop 16 h) @ ''-'' @
         drop 20 h)"

section \<open>The status file\<close>

text \<open>As read, ownership checked: an unreadable or untrusted file, other JSON, or an object.\<close>

datatype role_file = RoleUnreadable | RoleOther | RoleObject "string \<rightharpoonup> json_value"

record role_status =
  rs_active_follower :: bool
  rs_active_leader :: bool
  rs_blocked_reason :: string
  rs_fingerprint :: "string option"      \<comment> \<open>None: the empty dict\<close>
  rs_allowed :: "bool option"
  rs_boot :: "nat option"

definition EMPTY_STATUS :: role_status where
  "EMPTY_STATUS = \<lparr>rs_active_follower = False, rs_active_leader = False, rs_blocked_reason = [],
     rs_fingerprint = None, rs_allowed = None, rs_boot = None\<rparr>"

fun truthy :: "json_value option \<Rightarrow> bool" where
  "truthy None = False"
| "truthy (Some JNull) = False"
| "truthy (Some (JBool b)) = b"
| "truthy (Some (JStr s)) = (s \<noteq> [])"
| "truthy (Some (JOther t _)) = t"

text \<open>\<open>str(v or "")\<close>.\<close>

fun text_or_empty :: "json_value option \<Rightarrow> string" where
  "text_or_empty (Some (JBool True)) = ''True''"
| "text_or_empty (Some (JStr s)) = s"
| "text_or_empty (Some (JOther True s)) = s"
| "text_or_empty _ = []"

definition read_effective_role_status :: "role_file \<Rightarrow> role_status" where
  "read_effective_role_status f =
     (case f of
        RoleObject raw \<Rightarrow>
          \<lparr>rs_active_follower = truthy (raw ''active_follower''),
           rs_active_leader = truthy (raw ''active_leader''),
           rs_blocked_reason = text_or_empty (raw ''blocked_reason''),
           rs_fingerprint = Some (text_or_empty (raw ''requested_fingerprint'')),
           rs_allowed = (case raw ''local_sources_allowed'' of Some (JBool b) \<Rightarrow> Some b | _ \<Rightarrow> None),
           rs_boot = (case raw ''boot_id'' of Some v \<Rightarrow> normalise_boot_id v | None \<Rightarrow> None)\<rparr>
      | _ \<Rightarrow> EMPTY_STATUS)"

definition status_matches_request :: "(grouping_config \<Rightarrow> string) \<Rightarrow> grouping_config \<Rightarrow> role_status \<Rightarrow> bool" where
  "status_matches_request fp cfg status \<longleftrightarrow> rs_fingerprint status = Some (fp cfg)"

definition status_matches_current_boot :: "role_status \<Rightarrow> nat option \<Rightarrow> bool" where
  "status_matches_current_boot status current \<longleftrightarrow> current \<noteq> None \<and> rs_boot status \<noteq> None \<and> current = rs_boot status"

definition TRANSITION_IN_PROGRESS :: string where "TRANSITION_IN_PROGRESS = ''role_transition_in_progress''"

definition effective_local_sources_park_reason ::
  "(grouping_config \<Rightarrow> string) \<Rightarrow> grouping_config \<Rightarrow> role_status \<Rightarrow> nat option \<Rightarrow> string option" where
  "effective_local_sources_park_reason fp cfg status current =
     (case local_sources_park_reason cfg of
        None \<Rightarrow>
          if status_matches_request fp cfg status \<and> rs_allowed status = Some False
          then Some (or_else (rs_blocked_reason status) TRANSITION_IN_PROGRESS)
          else if rs_allowed status = Some False \<and> \<not> status_matches_request fp cfg status
          then Some TRANSITION_IN_PROGRESS
          else None
      | Some reason \<Rightarrow>
          if status_matches_request fp cfg status \<and> status_matches_current_boot status current \<and>
             rs_allowed status = Some True
          then None else Some reason)"

definition effective_follower_leader_addr ::
  "(grouping_config \<Rightarrow> string) \<Rightarrow> grouping_config \<Rightarrow> role_status \<Rightarrow> nat option \<Rightarrow> string option" where
  "effective_follower_leader_addr fp cfg status current =
     (case follower_leader_addr cfg of
        None \<Rightarrow> None
      | Some leader \<Rightarrow> if effective_local_sources_park_reason fp cfg status current = None then None else Some leader)"

text \<open>\<open>_write_follower_status\<close>: what it returns, and the file afterwards.\<close>

definition role_payload ::
  "(grouping_config \<Rightarrow> string) \<Rightarrow> nat option \<Rightarrow> bool \<Rightarrow> bool \<Rightarrow> string \<Rightarrow> grouping_config option \<Rightarrow> bool option \<Rightarrow>
   (string \<rightharpoonup> json_value)" where
  "role_payload fp boot active_follower active_leader blocked requested allowed =
     [''active_follower'' \<mapsto> JBool active_follower, ''active_leader'' \<mapsto> JBool active_leader,
      ''blocked_reason'' \<mapsto> JStr blocked,
      ''boot_id'' \<mapsto> JStr (case boot of None \<Rightarrow> [] | Some b \<Rightarrow> uuid_text b)] ++
     (case requested of None \<Rightarrow> Map.empty | Some cfg \<Rightarrow> [''requested_fingerprint'' \<mapsto> JStr (fp cfg)]) ++
     (case allowed of None \<Rightarrow> Map.empty | Some b \<Rightarrow> [''local_sources_allowed'' \<mapsto> JBool b])"

definition write_follower_status ::
  "(grouping_config \<Rightarrow> string) \<Rightarrow> nat option \<Rightarrow> bool \<Rightarrow> bool \<Rightarrow> bool \<Rightarrow> string \<Rightarrow> grouping_config option \<Rightarrow> bool option \<Rightarrow>
   role_file \<Rightarrow> bool \<times> role_file" where
  "write_follower_status fp boot write_ok active_follower active_leader blocked requested allowed f =
     (let grant_fresh = \<not> (allowed = Some True \<and> boot = None);
          granted = (if grant_fresh then allowed else Some False)
      in if write_ok
         then (grant_fresh, RoleObject (role_payload fp boot active_follower active_leader blocked requested granted))
         else (False, f))"

section \<open>The role decision\<close>

record role_decision =
  rd_cfg :: grouping_config
  rd_requested_cfg :: grouping_config
  rd_plan :: "unit_intent list"
  rd_active :: bool
  rd_active_leader :: bool
  rd_passive_leader :: bool
  rd_active_speaker_leader :: bool
  rd_active_follower :: bool
  rd_active_endpoint :: bool
  rd_box_is_active :: bool
  rd_flat_output_allowed :: bool
  rd_outputd_period_frames :: "int option"
  rd_lane :: lane_decision
  rd_refused_follower_fallback :: bool
  rd_transitioning :: bool

definition local_sources_allowed :: "role_decision \<Rightarrow> bool" where
  "local_sources_allowed role \<longleftrightarrow> \<not> local_sources_parked (rd_cfg role) \<and>
     \<not> rd_refused_follower_fallback role \<and> \<not> rd_transitioning role"

definition with_fallback :: "role_decision \<Rightarrow> role_decision" where
  "with_fallback role =
     (let cfg = (rd_cfg role)\<lparr>gc_enabled := False\<rparr>
      in role\<lparr>rd_cfg := cfg, rd_plan := plan cfg, rd_active := False, rd_active_leader := False,
           rd_active_follower := False, rd_active_speaker_leader := False, rd_passive_leader := False,
           rd_active_endpoint := False, rd_refused_follower_fallback := local_sources_parked (rd_requested_cfg role)\<rparr>)"

definition decide_role ::
  "grouping_config \<Rightarrow> bool option \<Rightarrow> bool \<Rightarrow> int option \<Rightarrow> role_status \<Rightarrow> role_decision" where
  "decide_role requested active_box flat_output_allowed period prior =
     (let active = (gc_enabled requested \<and> gc_error requested = None);
          active_leader = (active \<and> gc_role requested = ''leader'');
          box_is_active = (active_box = Some True);
          active_follower = (active \<and> gc_role requested = ''follower'' \<and> box_is_active);
          active_speaker_leader = (active_leader \<and> box_is_active);
          passive_leader = (active_leader \<and> \<not> box_is_active);
          active_endpoint = (active_follower \<or> active_speaker_leader)
      in \<lparr>rd_cfg = requested, rd_requested_cfg = requested, rd_plan = plan requested, rd_active = active,
          rd_active_leader = active_leader, rd_passive_leader = passive_leader,
          rd_active_speaker_leader = active_speaker_leader, rd_active_follower = active_follower,
          rd_active_endpoint = active_endpoint, rd_box_is_active = box_is_active,
          rd_flat_output_allowed = flat_output_allowed, rd_outputd_period_frames = period,
          rd_lane = member_lane_decision requested active_endpoint flat_output_allowed period,
          rd_refused_follower_fallback = False,
          rd_transitioning = (\<not> local_sources_parked requested \<and> rs_allowed prior = Some False)\<rparr>)"

section \<open>A written boot identity is read back\<close>

lemma hex_fixed_length [simp]: "length (hex_fixed k n) = k"
  by (induction k n rule: hex_fixed.induct) simp_all

definition hex_char :: "char \<Rightarrow> bool" where
  "hex_char c \<longleftrightarrow> hex_value c \<noteq> None"

lemma hex_value_digit: "h < 16 \<Longrightarrow> hex_value (hex_digit h) = Some h"
  by (simp add: hex_value_def hex_digit_def Let_def)

lemma hex_fixed_chars: "c \<in> set (hex_fixed k n) \<Longrightarrow> hex_char c"
  by (induction k n rule: hex_fixed.induct) (auto simp: hex_char_def hex_value_digit)

lemma hex_body_append:
  "\<forall>c \<in> set v. hex_char c \<Longrightarrow> hex_value c = Some h \<Longrightarrow>
   hex_body b n (v @ [c]) = map_option (\<lambda>m. 16 * m + h) (hex_body True n v)"
  by (induction v arbitrary: b n) (auto simp: hex_char_def)

lemma hex_body_fixed: "hex_body True 0 (hex_fixed k n) = Some (n mod 16 ^ k)"
proof (induction k n rule: hex_fixed.induct)
  case (2 k n)
  have "16 * (n div 16 mod 16 ^ k) + n mod 16 = n mod (16 * 16 ^ k)"
    by (simp add: mod_mult2_eq)
  then show ?case
    using 2 hex_body_append [of "hex_fixed k (n div 16)" "hex_digit (n mod 16)" "n mod 16"] hex_fixed_chars
    by (simp add: hex_value_digit)
qed simp

lemma hex_char_facts:
  "hex_char c \<Longrightarrow> \<not> is_space c \<and> c \<notin> {CHR ''-'', CHR ''+'', CHR ''u'', CHR ''x'', CHR ''X'', CHR ''_'', CHR 0x7B, CHR 0x7D}"
  by (auto simp: hex_char_def hex_value_def is_space_def Let_def split: if_splits)

lemma remove_all_id: "p \<noteq> [] \<Longrightarrow> hd p \<notin> set w \<Longrightarrow> remove_all p w = w"
  by (induction w) (auto simp: remove_all.simps(2) neq_Nil_conv)

lemma strip_chars_id: "\<forall>c \<in> set w. c \<notin> set cs \<Longrightarrow> strip_chars cs w = w"
proof -
  have "dropWhile (\<lambda>c. c \<in> set cs) v = v" if "\<forall>c \<in> set v. c \<notin> set cs" for v
    using that by (cases v) auto
  note none = this
  assume "\<forall>c \<in> set w. c \<notin> set cs"
  then show ?thesis using none [of w] none [of "rev w"] by (simp add: strip_chars_def)
qed

lemma uuid_round_trip:
  assumes "n < 2 ^ 128"
  shows "py_uuid (py_strip (uuid_text n)) = Some n"
proof -
  define h where "h = hex_fixed 32 n"
  have hex: "\<forall>c \<in> set h. hex_char c" using hex_fixed_chars by (auto simp: h_def)
  have chars: "c \<in> set (uuid_text n) \<Longrightarrow> hex_char c \<or> c = CHR ''-''" for c
    using hex by (auto simp: uuid_text_def Let_def simp flip: h_def dest: in_set_takeD in_set_dropD)
  have "\<not> is_space CHR ''-''" by (simp add: is_space_def)
  then have "\<not> is_space c" if "c \<in> set (uuid_text n)" for c
    using chars [OF that] hex_char_facts by auto
  then have "stripped (uuid_text n)" by (simp add: stripped_def)
  then have s: "py_strip (uuid_text n) = uuid_text n" by (rule py_strip_id)
  have removed: "remove_all ''uuid:'' (remove_all ''urn:'' (uuid_text n)) = uuid_text n"
  proof -
    have "CHR ''u'' \<notin> set (uuid_text n)" using chars hex_char_facts by fastforce
    then show ?thesis by (simp add: remove_all_id)
  qed
  have strip: "strip_chars ''{}'' (uuid_text n) = uuid_text n"
    using chars hex_char_facts by (intro strip_chars_id) fastforce
  have keep: "filter (\<lambda>c. c \<noteq> CHR ''-'') v = v" if "set v \<subseteq> set h" for v
    using that hex hex_char_facts by (fastforce simp: filter_id_conv)
  have "filter (\<lambda>c. c \<noteq> CHR ''-'') (uuid_text n) =
      take 8 h @ take 4 (drop 8 h) @ take 4 (drop 12 h) @ take 4 (drop 16 h) @ drop 20 h"
    by (simp add: uuid_text_def Let_def keep set_take_subset set_drop_subset subset_trans [OF set_take_subset set_drop_subset]
        flip: h_def)
  also have "\<dots> = h"
    using append_take_drop_id [of 8 h] append_take_drop_id [of 4 "drop 8 h"] append_take_drop_id [of 4 "drop 12 h"]
      append_take_drop_id [of 4 "drop 16 h"] by simp
  finally have digits: "filter (\<lambda>c. c \<noteq> CHR ''-'') (uuid_text n) = h" .
  have "stripped h" using hex hex_char_facts by (auto simp: stripped_def)
  moreover have "h \<noteq> []" "length h = 32" by (simp_all add: h_def flip: length_greater_0_conv)
  moreover have "hex_char (hd h)" "hex_char (h ! 1)"
    using hex \<open>h \<noteq> []\<close> \<open>length h = 32\<close> nth_mem [of 1 h] by simp_all
  then have "hd h \<noteq> CHR ''+''" "hd h \<noteq> CHR ''-''" "h ! 1 \<noteq> CHR ''x''" "h ! 1 \<noteq> CHR ''X''"
    using hex_char_facts by blast+
  moreover have "hex_body False 0 h = hex_body True 0 h" using \<open>h \<noteq> []\<close> hex by (cases h) (auto simp: hex_char_def)
  then have "hex_body False 0 h = Some n"
    using hex_body_fixed [of 32 n] assms by (simp add: h_def)
  ultimately have "int_base16 h = Some (int n)"
    by (simp add: int_base16_def py_strip_id Let_def)
  then show ?thesis
    using assms \<open>length h = 32\<close> by (simp add: py_uuid_def s removed strip digits Let_def)
qed


section \<open>Grants of local sources\<close>

definition real_boot :: "nat option \<Rightarrow> bool" where
  "real_boot boot \<longleftrightarrow> (\<forall>b. boot = Some b \<longrightarrow> 0 < b \<and> b < 2 ^ 128)"

lemma normalise_uuid_text: "0 < b \<Longrightarrow> b < 2 ^ 128 \<Longrightarrow> normalise_boot_id (JStr (uuid_text b)) = Some b"
  by (simp add: uuid_round_trip)

lemma normalise_empty: "normalise_boot_id (JStr []) = None"
  by (simp add: py_uuid_def strip_chars_def py_strip_def)

lemma boot_id_range: "normalise_boot_id v = Some b \<Longrightarrow> 0 < b \<and> b < 2 ^ 128"
  by (cases v) (auto simp: py_uuid_def Let_def split: option.splits if_splits)

lemma read_boot_real: "real_boot (read_current_boot_id bytes)"
  by (cases bytes)
    (auto simp: real_boot_def read_current_boot_id_def simp del: normalise_boot_id.simps dest: boot_id_range
      split: if_splits)

lemma read_role_payload:
  assumes "real_boot boot"
  shows "read_effective_role_status (RoleObject (role_payload fp boot af al blocked requested allowed)) =
    \<lparr>rs_active_follower = af, rs_active_leader = al, rs_blocked_reason = blocked,
     rs_fingerprint = Some (case requested of None \<Rightarrow> [] | Some cfg \<Rightarrow> fp cfg), rs_allowed = allowed, rs_boot = boot\<rparr>"
proof -
  have "(case boot of None \<Rightarrow> normalise_boot_id (JStr []) | Some b \<Rightarrow> normalise_boot_id (JStr (uuid_text b))) = boot"
    using assms normalise_uuid_text normalise_empty by (auto simp: real_boot_def split: option.split)
  then have "normalise_boot_id (JStr (case boot of None \<Rightarrow> [] | Some b \<Rightarrow> uuid_text b)) = boot"
    by (cases boot) simp_all
  then show ?thesis
    by (cases requested; cases allowed)
      (simp_all add: read_effective_role_status_def role_payload_def del: normalise_boot_id.simps)
qed

text \<open>
  C26. A grant of local sources is good for one request in one boot. What the reconciler publishes is what
  every reader sees, a grant without a current boot identity being published as a deny; from a published
  status a requested follower may play its own sources only if that status granted them in the current boot
  for a request with its fingerprint; an unreadable or foreign status grants a follower nothing; and volume
  and transport commands are forwarded to the leader exactly while the follower is parked.
\<close>

theorem grants_are_fresh:
  assumes "real_boot boot"
    and "write_follower_status fp boot True af al blocked requested allowed old = (published, f)"
  shows "published = (\<not> (allowed = Some True \<and> boot = None)) \<and>
    read_effective_role_status f =
      \<lparr>rs_active_follower = af, rs_active_leader = al, rs_blocked_reason = blocked,
       rs_fingerprint = Some (case requested of None \<Rightarrow> [] | Some c \<Rightarrow> fp c),
       rs_allowed = (if published then allowed else Some False), rs_boot = boot\<rparr> \<and>
    (local_sources_parked cfg \<and> fp cfg \<noteq> [] \<and>
      effective_local_sources_park_reason fp cfg (read_effective_role_status f) current = None \<longrightarrow>
      allowed = Some True \<and> published \<and> boot \<noteq> None \<and> current = boot \<and> (\<exists>c. requested = Some c \<and> fp c = fp cfg)) \<and>
    effective_local_sources_park_reason fp cfg EMPTY_STATUS current = local_sources_park_reason cfg \<and>
    (effective_follower_leader_addr fp cfg (read_effective_role_status f) current \<noteq> None \<longleftrightarrow>
      is_bonded_follower cfg \<and>
      effective_local_sources_park_reason fp cfg (read_effective_role_status f) current \<noteq> None)"
proof -
  have pub: "published = (\<not> (allowed = Some True \<and> boot = None))"
    and f: "f = RoleObject (role_payload fp boot af al blocked requested (if published then allowed else Some False))"
    using assms(2) by (auto simp: write_follower_status_def Let_def)
  have read: "read_effective_role_status f =
      \<lparr>rs_active_follower = af, rs_active_leader = al, rs_blocked_reason = blocked,
       rs_fingerprint = Some (case requested of None \<Rightarrow> [] | Some c \<Rightarrow> fp c),
       rs_allowed = (if published then allowed else Some False), rs_boot = boot\<rparr>"
    unfolding f by (rule read_role_payload [OF assms(1)])
  have grant: "allowed = Some True \<and> published \<and> boot \<noteq> None \<and> current = boot \<and> (\<exists>c. requested = Some c \<and> fp c = fp cfg)"
    if "local_sources_parked cfg \<and> fp cfg \<noteq> [] \<and>
      effective_local_sources_park_reason fp cfg (read_effective_role_status f) current = None"
    using that unfolding read
    by (auto simp: effective_local_sources_park_reason_def local_sources_parked_def status_matches_request_def
        status_matches_current_boot_def split: option.splits if_splits)
  show ?thesis
  proof (intro conjI impI)
    show "effective_local_sources_park_reason fp cfg EMPTY_STATUS current = local_sources_park_reason cfg"
      by (simp add: effective_local_sources_park_reason_def EMPTY_STATUS_def status_matches_request_def
          split: option.split)
    show "effective_follower_leader_addr fp cfg (read_effective_role_status f) current \<noteq> None \<longleftrightarrow>
        is_bonded_follower cfg \<and>
        effective_local_sources_park_reason fp cfg (read_effective_role_status f) current \<noteq> None"
      by (simp add: effective_follower_leader_addr_def is_bonded_follower_def split: option.split)
  qed (use pub read grant in blast)+
qed

text \<open>A grant from boot 7 is worth nothing in boot 8.\<close>

lemma grants_are_fresh_witness:
  "let (ok, f) = write_follower_status (\<lambda>c. ''x'' @ gc_bond_id c) (Some 7) True False False [] (Some DISABLED) (Some True)
         RoleUnreadable
   in ok \<and> rs_allowed (read_effective_role_status f) = Some True \<and>
      effective_local_sources_park_reason (\<lambda>c. ''x'' @ gc_bond_id c) (load_config (TText demo_grouping_env))
        (read_effective_role_status f) (Some 8) \<noteq> None"
proof -
  let ?fp = "\<lambda>c. ''x'' @ gc_bond_id c"
  obtain ok f where w: "write_follower_status ?fp (Some 7) True False False [] (Some DISABLED) (Some True) RoleUnreadable =
      (ok, f)" by force
  have boot: "real_boot (Some 7)" by (simp add: real_boot_def)
  have "local_sources_parked (load_config (TText demo_grouping_env))"
    by (simp add: demo_request local_sources_parked_def local_sources_park_reason_def is_bonded_follower_def
        follower_leader_addr_def is_active_member_def)
  note parked = this
  let ?cfg = "load_config (TText demo_grouping_env)"
  note facts = grants_are_fresh [OF boot w, of ?cfg "Some 8"]
  have ok: "ok" and allowed: "rs_allowed (read_effective_role_status f) = Some True"
    using facts by simp_all
  have "effective_local_sources_park_reason ?fp ?cfg (read_effective_role_status f) (Some 8) \<noteq> None"
  proof
    assume "effective_local_sources_park_reason ?fp ?cfg (read_effective_role_status f) (Some 8) = None"
    then have "Some 8 = Some (7 :: nat)" using facts parked by blast
    then show False by simp
  qed
  with ok allowed show ?thesis unfolding w Let_def prod.case by blast
qed


end
