(* ===== verification/Grouping_World.thy ===== *)
theory Grouping_World
  imports Grouping_Role "HOL-Library.State_Monad"
begin

text \<open>
  The world the grouping reconciler acts on (\<open>jasper/multiroom/reconcile.py\<close>, the helpers below
  \<open>decide_role\<close>): systemd, the restart broker, the derived files, the two CamillaDSP instances and the writer
  lock of the active ring. A pass is a state monad over a world of any type \<open>'w\<close> and the log of what was done
  to it; every answer of the world comes through a door. Log texts are left out.
\<close>

section \<open>Units and paths\<close>

definition OUTPUTD_UNIT :: string where "OUTPUTD_UNIT = ''jasper-outputd.service''"
definition CAMILLA_UNIT :: string where "CAMILLA_UNIT = ''jasper-camilla.service''"
definition AEC_RECONCILE_UNIT :: string where "AEC_RECONCILE_UNIT = ''jasper-aec-reconcile.service''"
definition SHAIRPORT_UNIT :: string where "SHAIRPORT_UNIT = ''shairport-sync.service''"
definition SOURCE_INTENT_RECONCILE_UNIT :: string where
  "SOURCE_INTENT_RECONCILE_UNIT = ''jasper-source-intent-reconcile.service''"
definition CROSSOVER_UNIT :: string where "CROSSOVER_UNIT = ''jasper-camilla-crossover.service''"
definition ARGS_FILE :: string where "ARGS_FILE = ''/run/jasper-grouping/snapcast-args.env''"
definition VOICE_GROUPING_ENV_FILE :: string where "VOICE_GROUPING_ENV_FILE = ''/var/lib/jasper/grouping-voice.env''"
definition AIRPLAY_GROUPING_ENV_FILE :: string where
  "AIRPLAY_GROUPING_ENV_FILE = ''/var/lib/jasper/grouping-airplay.env''"

section \<open>Answers, acts and doors\<close>

datatype systemctl_answer = SysOk | SysFailed string | SysMissing | SysOther  \<comment> \<open>stderr of a failed command\<close>

datatype engine_exn = RuntimeExn "string option" | ListedExn | UnlistedExn
  \<comment> \<open>a \<open>RuntimeError\<close> with its \<open>reason\<close>, another one of the restore's except list, any other\<close>

datatype call_answer = CallDone | CallRaised engine_exn

datatype engine_call =
    PrecheckLeader grouping_config | PrecheckFollower grouping_config
  | RestoreLeaderSolo | RestoreFollowerSolo | RestoreSolo
  | ApplyBondedLeader grouping_config | ApplyLeaderBake | SeedCrossover | ApplyFollower

datatype provision = ProvisionFailed | ProvisionInstalled | ProvisionPresent

datatype hardware_answer = HardwareOk | HardwareFailed | HardwareRaised
  \<comment> \<open>a missing tool or a failed exit; any other exception\<close>

datatype lock_open = LockOpened | LockAbsent | LockUnopenable | LockOpenError
datatype lock_try = LockTaken | LockHeld | LockError

datatype act =
    Probed string string "string option"
  | Ran "string list" systemctl_answer
  | Managed string string bool bool            \<comment> \<open>unit, verb, no_block, ok\<close>
  | Wrote string string bool                   \<comment> \<open>path, body, ok\<close>
  | Published bool bool string "bool option" bool
      \<comment> \<open>active_follower, active_leader, blocked_reason, local_sources_allowed as asked, result\<close>
  | Provisioned provision
  | Called engine_call call_answer
  | Hardware hardware_answer
  | Opened lock_open
  | Tried lock_try
  | Bound bool int                             \<comment> \<open>reachable, failed\<close>

record 'w pass_doors =
  w_grouping_env :: "'w \<Rightarrow> text_file \<times> 'w"
  w_role_file :: "'w \<Rightarrow> role_file \<times> 'w"
  w_topology :: "'w \<Rightarrow> (bool option \<times> bool) \<times> 'w"
  w_period :: "'w \<Rightarrow> int option \<times> 'w"
  w_boot :: "'w \<Rightarrow> string option \<times> 'w"
  w_publish :: "(string \<rightharpoonup> json_value) \<Rightarrow> 'w \<Rightarrow> bool \<times> 'w"
  w_read :: "string \<Rightarrow> 'w \<Rightarrow> text_file \<times> 'w"
  w_write :: "string \<Rightarrow> string \<Rightarrow> 'w \<Rightarrow> bool \<times> 'w"
  w_word :: "string \<Rightarrow> string \<Rightarrow> 'w \<Rightarrow> string option \<times> 'w"
  w_systemctl :: "string list \<Rightarrow> 'w \<Rightarrow> systemctl_answer \<times> 'w"
  w_manage :: "string \<Rightarrow> string \<Rightarrow> bool \<Rightarrow> 'w \<Rightarrow> bool \<times> 'w"
  w_provision :: "'w \<Rightarrow> provision \<times> 'w"
  w_engine :: "engine_call \<Rightarrow> 'w \<Rightarrow> call_answer \<times> 'w"
  w_hardware :: "'w \<Rightarrow> hardware_answer \<times> 'w"
  w_open_lock :: "'w \<Rightarrow> lock_open \<times> 'w"
  w_try_lock :: "'w \<Rightarrow> lock_try \<times> 'w"
  w_monotonic :: "'w \<Rightarrow> rat \<times> 'w"
  w_sleep :: "rat \<Rightarrow> 'w \<Rightarrow> 'w"
  w_bind :: "'w \<Rightarrow> (bool \<times> int) \<times> 'w"
  w_fp :: "grouping_config \<Rightarrow> string"

type_synonym ('w, 'a) pass = "('w \<times> act list, 'a) state"

definition look :: "('w \<Rightarrow> 'a \<times> 'w) \<Rightarrow> ('w, 'a) pass" where
  "look door = State (\<lambda>(w, l). case door w of (a, w') \<Rightarrow> (a, w', l))"

definition ask :: "('w \<Rightarrow> 'a \<times> 'w) \<Rightarrow> ('a \<Rightarrow> act) \<Rightarrow> ('w, 'a) pass" where
  "ask door note = State (\<lambda>(w, l). case door w of (a, w') \<Rightarrow> (a, w', l @ [note a]))"

abbreviation give :: "'a \<Rightarrow> ('w, 'a) pass" where "give \<equiv> State_Monad.return"

section \<open>Probes of systemd\<close>

definition query_true_states :: "string \<Rightarrow> string list" where
  "query_true_states query =
     (if query = ''is-active'' then [''active'']
      else if query = ''is-enabled'' then [''enabled'', ''enabled-runtime'']
      else if query = ''is-failed'' then [''failed''] else [])"

definition query_false_states :: "string \<Rightarrow> string list" where
  "query_false_states query =
     (if query = ''is-active'' then [''inactive'', ''failed'']
      else if query = ''is-enabled'' then
        [''alias'', ''static'', ''indirect'', ''disabled'', ''generated'', ''transient'', ''linked'',
         ''linked-runtime'', ''masked'', ''masked-runtime'', ''not-found'']
      else if query = ''is-failed'' then
        [''active'', ''activating'', ''deactivating'', ''inactive'', ''maintenance'', ''reloading'']
      else [])"

text \<open>The word is None when \<open>systemctl\<close> could not be run.\<close>

definition unit_query :: "string \<Rightarrow> string option \<Rightarrow> bool option" where
  "unit_query query word =
     (case word of None \<Rightarrow> None
      | Some w \<Rightarrow> if w \<in> set (query_true_states query) then Some True
                 else if w \<in> set (query_false_states query) then Some False else None)"

definition state_is_live :: "string \<Rightarrow> bool \<Rightarrow> bool" where
  "state_is_live w activating_is_live \<longleftrightarrow>
     w \<in> {''active'', ''reloading''} \<or> activating_is_live \<and> w = ''activating''"

definition unit_state :: "'w pass_doors \<Rightarrow> string \<Rightarrow> string \<Rightarrow> ('w, string option) pass" where
  "unit_state d query u = ask (w_word d query u) (Probed query u)"

definition systemctl_unit_state :: "'w pass_doors \<Rightarrow> string \<Rightarrow> string \<Rightarrow> ('w, bool option) pass" where
  "systemctl_unit_state d query u = do { w \<leftarrow> unit_state d query u; give (unit_query query w) }"

definition unit_is_active :: "'w pass_doors \<Rightarrow> string \<Rightarrow> ('w, bool) pass" where
  "unit_is_active d u = do { v \<leftarrow> systemctl_unit_state d ''is-active'' u; give (v = Some True) }"

definition live_word :: "string option \<Rightarrow> bool option" where
  "live_word word =
     (let w = (case word of None \<Rightarrow> [] | Some v \<Rightarrow> v)
      in if state_is_live w True \<or> w = ''deactivating'' then Some True else unit_query ''is-active'' word)"

definition unit_active :: "'w pass_doors \<Rightarrow> string \<Rightarrow> ('w, bool option) pass" where
  "unit_active d u = do { w \<leftarrow> unit_state d ''is-active'' u; give (live_word w) }"

primrec plan_changes_units :: "'w pass_doors \<Rightarrow> unit_intent list \<Rightarrow> ('w, bool) pass" where
  "plan_changes_units d [] = give False"
| "plan_changes_units d (it # its) = do {
     v \<leftarrow> unit_active d (ui_unit it);
     if v = None \<or> v \<noteq> Some (ui_desired it = StartUnit) then give True else plan_changes_units d its }"

section \<open>Running systemctl\<close>

definition run_systemctl :: "'w pass_doors \<Rightarrow> string list \<Rightarrow> ('w, systemctl_answer) pass" where
  "run_systemctl d args = ask (w_systemctl d args) (Ran args)"

fun verb_text :: "unit_verb \<Rightarrow> string" where
  "verb_text StartUnit = ''start''"
| "verb_text StopUnit = ''stop''"

definition is_infix :: "string \<Rightarrow> string \<Rightarrow> bool" where
  "is_infix p s \<longleftrightarrow> list_ex (\<lambda>k. take (length p) (drop k s) = p) [0..<Suc (length s)]"

definition unit_absent_stderr :: "string \<Rightarrow> bool" where
  "unit_absent_stderr stderr \<longleftrightarrow>
     is_infix ''not loaded'' (map latin_lower stderr) \<or> is_infix ''not found'' (map latin_lower stderr)"

text \<open>Whether an answer fails the plan.\<close>

fun intent_failed :: "systemctl_answer \<Rightarrow> bool" where
  "intent_failed SysOk = False"
| "intent_failed (SysFailed stderr) = (\<not> unit_absent_stderr stderr)"
| "intent_failed SysMissing = True"
| "intent_failed SysOther = True"

primrec apply_plan :: "'w pass_doors \<Rightarrow> unit_intent list \<Rightarrow> nat \<Rightarrow> ('w, nat) pass" where
  "apply_plan d [] rc = give rc"
| "apply_plan d (it # its) rc = do {
     a \<leftarrow> run_systemctl d [verb_text (ui_desired it), ui_unit it];
     apply_plan d its (if intent_failed a then 1 else rc) }"

definition reset_failed_unit :: "'w pass_doors \<Rightarrow> string \<Rightarrow> ('w, unit) pass" where
  "reset_failed_unit d u = do { run_systemctl d [''reset-failed'', u]; give () }"

definition reset_then_manage :: "'w pass_doors \<Rightarrow> string \<Rightarrow> string \<Rightarrow> bool \<Rightarrow> ('w, bool) pass" where
  "reset_then_manage d u verb no_block = do {
     ask (w_manage d u ''reset-failed'' False) (Managed u ''reset-failed'' False);
     ask (w_manage d u verb no_block) (Managed u verb no_block) }"

definition restart_unit :: "'w pass_doors \<Rightarrow> string \<Rightarrow> bool \<Rightarrow> bool \<Rightarrow> ('w, bool) pass" where
  "restart_unit d u no_block active_only =
     reset_then_manage d u (if active_only then ''try-restart'' else ''restart'') no_block"

definition restart_outputd :: "'w pass_doors \<Rightarrow> ('w, bool) pass" where
  "restart_outputd d = restart_unit d OUTPUTD_UNIT False False"

definition source_reconciler_activation_busy :: "'w pass_doors \<Rightarrow> ('w, bool option) pass" where
  "source_reconciler_activation_busy d = unit_active d SOURCE_INTENT_RECONCILE_UNIT"

definition converge_sources_after_role :: "'w pass_doors \<Rightarrow> bool \<Rightarrow> bool \<Rightarrow> ('w, bool) pass" where
  "converge_sources_after_role d grouping_active units_changed =
     (if \<not> grouping_active \<and> \<not> units_changed then give True
      else do {
        reset_failed_unit d SOURCE_INTENT_RECONCILE_UNIT;
        busy \<leftarrow> source_reconciler_activation_busy d;
        drained \<leftarrow> (if busy = Some False then give SysOk
                   else run_systemctl d [''start'', SOURCE_INTENT_RECONCILE_UNIT]);
        if drained \<noteq> SysOk then give False
        else do {
          a \<leftarrow> run_systemctl d [''start'', SOURCE_INTENT_RECONCILE_UNIT];
          give (a = SysOk) } })"

definition ensure_unit_active :: "'w pass_doors \<Rightarrow> string \<Rightarrow> ('w, bool) pass" where
  "ensure_unit_active d u = do {
     active \<leftarrow> unit_is_active d u;
     if active then give True
     else do {
       reset_failed_unit d u;
       a \<leftarrow> run_systemctl d [''start'', u];
       give (a = SysOk) } }"

definition systemctl_crossover_unit :: "'w pass_doors \<Rightarrow> string list \<Rightarrow> ('w, bool) pass" where
  "systemctl_crossover_unit d verb = do { a \<leftarrow> run_systemctl d (verb @ [CROSSOVER_UNIT]); give (a = SysOk) }"

definition arm_crossover_unit :: "'w pass_doors \<Rightarrow> ('w, bool) pass" where
  "arm_crossover_unit d = systemctl_crossover_unit d [''enable'', ''--now'']"

definition disable_crossover_unit :: "'w pass_doors \<Rightarrow> ('w, bool) pass" where
  "disable_crossover_unit d = systemctl_crossover_unit d [''disable'', ''--now'']"

definition run_audio_hardware_reconcile :: "'w pass_doors \<Rightarrow> ('w, hardware_answer) pass" where
  "run_audio_hardware_reconcile d = ask (w_hardware d) Hardware"

definition engine :: "'w pass_doors \<Rightarrow> engine_call \<Rightarrow> ('w, call_answer) pass" where
  "engine d call = ask (w_engine d call) (Called call)"

section \<open>The derived files\<close>

text \<open>\<open>Path.read_text\<close> turns every line end into a newline.\<close>

fun newlines_after :: "bool \<Rightarrow> string \<Rightarrow> string" where
  "newlines_after cr [] = []"
| "newlines_after cr (c # w) =
     (if c = CHR 0x0D then CHR 0x0A # newlines_after True w
      else if c = CHR 0x0A \<and> cr then newlines_after False w else c # newlines_after False w)"

definition universal_newlines :: "string \<Rightarrow> string" where
  "universal_newlines = newlines_after False"

definition env_body :: "(string \<times> string) list \<Rightarrow> string" where
  "env_body keys = concat (map (\<lambda>(k, v). k @ [equals_sign] @ v @ [CHR 0x0A]) keys)"

definition write_file :: "'w pass_doors \<Rightarrow> string \<Rightarrow> string \<Rightarrow> ('w, bool) pass" where
  "write_file d path body = ask (w_write d path body) (Wrote path body)"

text \<open>\<open>(changed, ok)\<close>; None is the \<open>UnicodeDecodeError\<close> of the old file, which nothing catches.\<close>

definition write_derived_env :: "'w pass_doors \<Rightarrow> (string \<times> string) list \<Rightarrow> string \<Rightarrow> ('w, (bool \<times> bool) option) pass" where
  "write_derived_env d keys path =
     (let body = env_body keys
      in do {
        f \<leftarrow> look (w_read d path);
        case f of
          TBadUtf8 \<Rightarrow> give None
        | TText t \<Rightarrow>
            if universal_newlines t = body then give (Some (False, True))
            else do { ok \<leftarrow> write_file d path body; give (Some (True, ok)) }
        | _ \<Rightarrow>
            if body = [] then give (Some (False, True))
            else do { ok \<leftarrow> write_file d path body; give (Some (True, ok)) } })"

definition write_args_file :: "'w pass_doors \<Rightarrow> (string \<times> string) list \<Rightarrow> ('w, bool) pass" where
  "write_args_file d keys = write_file d ARGS_FILE (env_body keys)"

text \<open>The published payload is the one of \<open>write_follower_status\<close>, the role file the only one written by it.\<close>

definition publish_status ::
  "'w pass_doors \<Rightarrow> bool \<Rightarrow> bool \<Rightarrow> string \<Rightarrow> grouping_config \<Rightarrow> bool \<Rightarrow> ('w, bool) pass" where
  "publish_status d active_follower active_leader blocked requested allowed = do {
     bytes \<leftarrow> look (w_boot d);
     ask (\<lambda>w.
         let boot = read_current_boot_id bytes;
             payload = (case write_follower_status (w_fp d) boot True active_follower active_leader blocked
                 (Some requested) (Some allowed) RoleUnreadable of (_, RoleObject p) \<Rightarrow> p | _ \<Rightarrow> Map.empty);
             (ok, w') = w_publish d payload w
         in (fst (write_follower_status (w_fp d) boot ok active_follower active_leader blocked
               (Some requested) (Some allowed) RoleUnreadable), w'))
       (Published active_follower active_leader blocked (Some allowed)) }"

section \<open>The writer lock of the active ring\<close>

datatype pcm_probe = PcmReleased | PcmBusy | PcmUnknown

definition ACTIVE_CONTENT_RELEASE_TIMEOUT_SEC :: rat where "ACTIVE_CONTENT_RELEASE_TIMEOUT_SEC = 8 / 10"
definition ACTIVE_CONTENT_RELEASE_POLL_SEC :: rat where "ACTIVE_CONTENT_RELEASE_POLL_SEC = 5 / 100"

definition probe_active_content_pcm_once :: "'w pass_doors \<Rightarrow> ('w, pcm_probe) pass" where
  "probe_active_content_pcm_once d = do {
     opened \<leftarrow> ask (w_open_lock d) Opened;
     if opened \<noteq> LockOpened then give PcmUnknown
     else do {
       t \<leftarrow> ask (w_try_lock d) Tried;
       give (case t of LockTaken \<Rightarrow> PcmReleased | LockHeld \<Rightarrow> PcmBusy | LockError \<Rightarrow> PcmUnknown) } }"

definition sleep_for :: "'w pass_doors \<Rightarrow> rat \<Rightarrow> ('w, unit) pass" where
  "sleep_for d s = look (\<lambda>w. ((), w_sleep d s w))"

text \<open>The loop, with fuel for its rounds; None is an exhausted fuel.\<close>

fun release_loop :: "nat \<Rightarrow> 'w pass_doors \<Rightarrow> rat \<Rightarrow> rat \<Rightarrow> ('w, pcm_probe option) pass" where
  "release_loop 0 d interval deadline = give None"
| "release_loop (Suc n) d interval deadline = do {
     last \<leftarrow> probe_active_content_pcm_once d;
     if last \<noteq> PcmBusy then give (Some last)
     else do {
       now \<leftarrow> look (w_monotonic d);
       if deadline \<le> now then give (Some PcmBusy)
       else do {
         sleep_for d (min interval (max (deadline - now) 0));
         release_loop n d interval deadline } } }"

definition wait_for_active_content_pcm_release :: "nat \<Rightarrow> 'w pass_doors \<Rightarrow> ('w, pcm_probe option) pass" where
  "wait_for_active_content_pcm_release fuel d = do {
     now \<leftarrow> look (w_monotonic d);
     release_loop fuel d ACTIVE_CONTENT_RELEASE_POLL_SEC (now + max ACTIVE_CONTENT_RELEASE_TIMEOUT_SEC 0) }"

end
