(* ===== verification/Grouping_Reconcile.thy ===== *)
theory Grouping_Reconcile
  imports Grouping_World
begin

text \<open>
  One pass of the grouping reconciler: \<open>main\<close> of \<open>jasper/multiroom/reconcile.py\<close>, phase by phase in its order.
  A phase takes the local variables it reads and returns those it sets; \<open>Stop\<close> is an early return, an
  exception nothing catches, or the exhausted fuel of the writer-lock wait.
\<close>

datatype outcome = ExitCode nat | PassRaised | OutOfFuel

datatype 'a step = Go 'a | Stop outcome

definition stepwise :: "('w, 'a step) pass \<Rightarrow> ('a \<Rightarrow> ('w, 'b step) pass) \<Rightarrow> ('w, 'b step) pass" where
  "stepwise m k = do { r \<leftarrow> m; case r of Stop e \<Rightarrow> give (Stop e) | Go x \<Rightarrow> k x }"

section \<open>Before any unit work\<close>

definition pass_begin :: "'w pass_doors \<Rightarrow> ('w, bool option \<times> role_decision) pass" where
  "pass_begin d = do {
     f \<leftarrow> look (w_grouping_env d);
     prior \<leftarrow> look (w_role_file d);
     topology \<leftarrow> look (w_topology d);
     period \<leftarrow> look (w_period d);
     give (fst topology,
       decide_role (load_config f) (fst topology) (snd topology) period (read_effective_role_status prior)) }"

definition unknown_topology_pass :: "'w pass_doors \<Rightarrow> role_decision \<Rightarrow> ('w, outcome) pass" where
  "unknown_topology_pass d role = do {
     publish_status d False False ''active_speaker_topology_unknown'' (rd_requested_cfg role) (local_sources_allowed role);
     r \<leftarrow> write_derived_env d (outputd_grouping_env (rd_cfg role) False False None) OUTPUTD_GROUPING_ENV_FILE;
     case r of None \<Rightarrow> give PassRaised
     | Some (cleared, env_ok) \<Rightarrow> do {
         (if cleared \<and> env_ok then restart_outputd d else give True);
         v \<leftarrow> write_derived_env d (voice_grouping_env (rd_cfg role) False False) VOICE_GROUPING_ENV_FILE;
         case v of None \<Rightarrow> give PassRaised
         | Some (voice_cleared, voice_ok) \<Rightarrow> do {
             (if voice_cleared \<and> voice_ok then restart_unit d AEC_RECONCILE_UNIT True False else give True);
             give (ExitCode 1) } } }"

definition refuse_period :: "role_decision \<Rightarrow> role_decision \<times> nat \<times> string" where
  "refuse_period role =
     (if rd_active role \<and> ld_reason (rd_lane role) = Some LanePeriod
      then (with_fallback role, 1, ''dac_content_ring_period_mismatch'') else (role, 0, []))"

definition provision_phase :: "'w pass_doors \<Rightarrow> role_decision \<Rightarrow> nat \<Rightarrow> ('w, nat) pass" where
  "provision_phase d role rc =
     (if rd_active role
      then do { p \<leftarrow> ask (w_provision d) Provisioned; give (if p = ProvisionFailed then 1 else rc) }
      else give rc)"

text \<open>\<open>except RuntimeError\<close>, with its \<open>reason\<close> when it has one.\<close>

definition endpoint_gate ::
  "'w pass_doors \<Rightarrow> role_decision \<Rightarrow> nat \<Rightarrow> string \<Rightarrow> ('w, (role_decision \<times> nat \<times> string) step) pass" where
  "endpoint_gate d role rc block =
     (if rd_active_endpoint role
      then do {
        a \<leftarrow> engine d (if rd_active_speaker_leader role then PrecheckLeader (rd_cfg role)
                     else PrecheckFollower (rd_cfg role));
        case a of
          CallDone \<Rightarrow> give (Go (role, rc, block))
        | CallRaised (RuntimeExn reason) \<Rightarrow>
            give (Go (with_fallback role, 1,
              case reason of None \<Rightarrow> ''active_endpoint_precheck_error'' | Some r \<Rightarrow> r))
        | CallRaised _ \<Rightarrow> give (Stop PassRaised) }
      else give (Go (role, rc, block)))"

definition block_active_restore :: "'w pass_doors \<Rightarrow> role_decision \<Rightarrow> string \<Rightarrow> ('w, 'a step) pass" where
  "block_active_restore d role reason = do {
     publish_status d False False reason (rd_requested_cfg role) (local_sources_allowed role);
     give (Stop (ExitCode 1)) }"

text \<open>Whether camilla#2 was owned by an earlier bond, once it is provably down.\<close>

definition crossover_gate :: "'w pass_doors \<Rightarrow> role_decision \<Rightarrow> ('w, bool step) pass" where
  "crossover_gate d role =
     (if rd_box_is_active role \<and> \<not> rd_active_leader role \<and> \<not> rd_active_follower role
      then do {
        enabled \<leftarrow> systemctl_unit_state d ''is-enabled'' CROSSOVER_UNIT;
        active \<leftarrow> systemctl_unit_state d ''is-active'' CROSSOVER_UNIT;
        if enabled = None \<or> active = None
        then block_active_restore d role ''crossover_ownership_state_unknown''
        else if enabled = Some True \<or> active = Some True
        then do {
          disabled \<leftarrow> disable_crossover_unit d;
          if \<not> disabled then block_active_restore d role ''crossover_teardown_failed''
          else do {
            after \<leftarrow> systemctl_unit_state d ''is-active'' CROSSOVER_UNIT;
            if after \<noteq> Some False then block_active_restore d role ''crossover_inactive_state_unproven''
            else give (Go True) } }
        else give (Go False) }
      else give (Go False))"

definition publish_phase :: "'w pass_doors \<Rightarrow> role_decision \<Rightarrow> string \<Rightarrow> ('w, unit step) pass" where
  "publish_phase d role block = do {
     ok \<leftarrow> publish_status d (rd_active_follower role) (rd_active_speaker_leader role)
       (if rd_transitioning role \<and> block = [] then TRANSITION_IN_PROGRESS else block)
       (rd_requested_cfg role) (local_sources_allowed role);
     give (if ok then Go () else Stop (ExitCode 1)) }"

text \<open>The flags of the pass that the final grant reads.\<close>

record pass_facts =
  pf_wrote :: bool
  pf_env_ok :: bool
  pf_solo_restore_ok :: bool
  pf_outputd_restart_ok :: bool
  pf_voice_ok :: bool
  pf_voice_refresh_ok :: bool
  pf_airplay_ok :: bool
  pf_airplay_refresh_ok :: bool
  pf_apply_rc :: nat

section \<open>Files, restores and the plan\<close>

definition files_phase :: "'w pass_doors \<Rightarrow> role_decision \<Rightarrow> nat \<Rightarrow> ('w, (bool \<times> bool \<times> bool \<times> nat) step) pass" where
  "files_phase d role rc =
     (case assemble_args (rd_cfg role) (rd_active_endpoint role) of
        None \<Rightarrow> give (Stop PassRaised)
      | Some derived \<Rightarrow> do {
          wrote \<leftarrow> write_args_file d derived;
          r \<leftarrow> write_derived_env d
            (outputd_grouping_env (rd_cfg role) (rd_active_endpoint role) (rd_flat_output_allowed role)
               (rd_outputd_period_frames role)) OUTPUTD_GROUPING_ENV_FILE;
          give (case r of None \<Rightarrow> Stop PassRaised
            | Some (changed, ok) \<Rightarrow> Go (wrote, changed, ok, if ok then rc else 1)) })"

definition solo_restore_phase :: "'w pass_doors \<Rightarrow> role_decision \<Rightarrow> bool \<Rightarrow> nat \<Rightarrow> ('w, bool \<times> nat) pass" where
  "solo_restore_phase d role prior_crossover_owned rc =
     (if rd_active_leader role \<or> rd_active_follower role then give (True, rc)
      else do {
        a \<leftarrow> engine d (if rd_box_is_active role \<and> prior_crossover_owned then RestoreLeaderSolo
                     else if rd_box_is_active role then RestoreFollowerSolo else RestoreSolo);
        give (if a = CallDone then (True, rc) else (False, 1)) })"

definition outputd_phase :: "'w pass_doors \<Rightarrow> role_decision \<Rightarrow> bool \<Rightarrow> bool \<Rightarrow> nat \<Rightarrow> ('w, bool \<times> nat) pass" where
  "outputd_phase d role env_changed env_ok rc =
     (if env_changed \<and> env_ok \<and> \<not> rd_active_speaker_leader role
      then do { ok \<leftarrow> restart_outputd d; give (ok, if ok then rc else 1) }
      else give (True, rc))"

definition voice_phase :: "'w pass_doors \<Rightarrow> role_decision \<Rightarrow> nat \<Rightarrow> ('w, (bool \<times> bool \<times> nat) step) pass" where
  "voice_phase d role rc = do {
     r \<leftarrow> write_derived_env d
       (voice_grouping_env (rd_cfg role) (rd_active_endpoint role) (rd_flat_output_allowed role)) VOICE_GROUPING_ENV_FILE;
     case r of None \<Rightarrow> give (Stop PassRaised)
     | Some (changed, ok) \<Rightarrow>
         if changed \<and> ok
         then do { refreshed \<leftarrow> restart_unit d AEC_RECONCILE_UNIT True False;
                   give (Go (ok, refreshed, if refreshed then rc else 1)) }
         else give (Go (ok, True, if ok then rc else 1)) }"

definition airplay_phase :: "'w pass_doors \<Rightarrow> role_decision \<Rightarrow> nat \<Rightarrow> ('w, (bool \<times> bool \<times> nat) step) pass" where
  "airplay_phase d role rc = do {
     r \<leftarrow> write_derived_env d (airplay_grouping_env (rd_cfg role)) AIRPLAY_GROUPING_ENV_FILE;
     give (case r of None \<Rightarrow> Stop PassRaised
       | Some (changed, ok) \<Rightarrow> Go (changed, ok, if ok then rc else 1)) }"

definition plan_phase :: "'w pass_doors \<Rightarrow> role_decision \<Rightarrow> nat \<Rightarrow> ('w, bool \<times> nat \<times> nat) pass" where
  "plan_phase d role rc = do {
     units_changed \<leftarrow> plan_changes_units d (rd_plan role);
     apply_rc \<leftarrow> apply_plan d (rd_plan role) 0;
     give (units_changed, apply_rc, max rc apply_rc) }"

definition airplay_refresh_phase :: "'w pass_doors \<Rightarrow> role_decision \<Rightarrow> bool \<Rightarrow> bool \<Rightarrow> nat \<Rightarrow> ('w, bool \<times> nat) pass" where
  "airplay_refresh_phase d role airplay_changed airplay_ok rc =
     (if airplay_changed \<and> airplay_ok \<and> \<not> local_sources_parked (rd_cfg role)
      then do { ok \<leftarrow> restart_unit d SHAIRPORT_UNIT False True; give (ok, if ok then rc else 1) }
      else give (True, rc))"

section \<open>Bonded apply\<close>

text \<open>The bake of camilla#1 and the seed of camilla#2, under the one \<open>except Exception\<close>; \<open>(bake_ok, rc)\<close>.\<close>

definition leader_bake :: "'w pass_doors \<Rightarrow> nat \<Rightarrow> ('w, bool \<times> nat) pass" where
  "leader_bake d rc = do {
     disabled \<leftarrow> disable_crossover_unit d;
     if \<not> disabled then give (False, 1)
     else do {
       up \<leftarrow> ensure_unit_active d CAMILLA_UNIT;
       if \<not> up then give (False, 1)
       else do {
         applied \<leftarrow> engine d ApplyLeaderBake;
         if applied \<noteq> CallDone then give (False, 1)
         else do {
           seeded \<leftarrow> engine d SeedCrossover;
           if seeded \<noteq> CallDone then give (True, 1)
           else do {
             h \<leftarrow> run_audio_hardware_reconcile d;
             give (case h of HardwareOk \<Rightarrow> (True, rc) | HardwareFailed \<Rightarrow> (False, 1) | HardwareRaised \<Rightarrow> (True, 1)) } } } } }"

text \<open>The restore after a busy or unverified ring, then the block is published.\<close>

definition arm_refused :: "'w pass_doors \<Rightarrow> role_decision \<Rightarrow> string \<Rightarrow> ('w, (bool \<times> string \<times> nat) step) pass" where
  "arm_refused d role reason = do {
     a \<leftarrow> engine d RestoreLeaderSolo;
     if a = CallRaised UnlistedExn then give (Stop PassRaised)
     else do {
       publish_status d False False reason (rd_requested_cfg role) (local_sources_allowed role);
       give (Go (True, reason, 1)) } }"

text \<open>\<open>(active_leader_arm_blocked, endpoint_block_reason, rc)\<close>.\<close>

definition arm_phase ::
  "nat \<Rightarrow> 'w pass_doors \<Rightarrow> role_decision \<Rightarrow> string \<Rightarrow> nat \<Rightarrow> ('w, (bool \<times> string \<times> nat) step) pass" where
  "arm_phase fuel d role block rc = do {
     armed \<leftarrow> unit_is_active d CROSSOVER_UNIT;
     if armed then give (Go (False, block, rc))
     else do {
       probe \<leftarrow> wait_for_active_content_pcm_release fuel d;
       case probe of
         None \<Rightarrow> give (Stop OutOfFuel)
       | Some PcmReleased \<Rightarrow> do {
           ok \<leftarrow> arm_crossover_unit d;
           give (Go (False, block, if ok then rc else 1)) }
       | Some PcmBusy \<Rightarrow> arm_refused d role ''active_content_pcm_busy''
       | Some PcmUnknown \<Rightarrow> arm_refused d role ''active_content_pcm_unverified'' } }"

definition leader_phase ::
  "nat \<Rightarrow> 'w pass_doors \<Rightarrow> role_decision \<Rightarrow> string \<Rightarrow> nat \<Rightarrow> ('w, (bool \<times> string \<times> nat) step) pass" where
  "leader_phase fuel d role block rc = do {
     wired \<leftarrow> unit_is_active d SNAPSERVER_UNIT;
     if \<not> wired then do { disable_crossover_unit d; give (Go (False, block, 1)) }
     else do {
       b \<leftarrow> leader_bake d rc;
       case b of (bake_ok, rc') \<Rightarrow>
         if bake_ok then arm_phase fuel d role block rc' else give (Go (False, block, 1)) } }"

definition bonded_apply_phase ::
  "nat \<Rightarrow> 'w pass_doors \<Rightarrow> role_decision \<Rightarrow> string \<Rightarrow> nat \<Rightarrow> ('w, (bool \<times> string \<times> nat) step) pass" where
  "bonded_apply_phase fuel d role block rc =
     (if rd_passive_leader role
      then do {
        a \<leftarrow> engine d (ApplyBondedLeader (rd_cfg role));
        give (Go (False, block, if a = CallDone then rc else 1)) }
      else if rd_active_speaker_leader role then leader_phase fuel d role block rc
      else give (Go (False, block, rc)))"

definition binding_phase :: "'w pass_doors \<Rightarrow> role_decision \<Rightarrow> bool \<Rightarrow> nat \<Rightarrow> ('w, nat) pass" where
  "binding_phase d role arm_blocked rc =
     (if rd_active_leader role \<and> \<not> arm_blocked
      then do {
        report \<leftarrow> ask (w_bind d) (\<lambda>(reachable, failed). Bound reachable failed);
        give (if \<not> fst report \<or> snd report \<noteq> 0 then 1 else rc) }
      else give rc)"

definition follower_phase :: "'w pass_doors \<Rightarrow> role_decision \<Rightarrow> nat \<Rightarrow> ('w, nat) pass" where
  "follower_phase d role rc =
     (if rd_active_follower role
      then do { a \<leftarrow> engine d ApplyFollower; give (if a = CallDone then rc else 1) }
      else give rc)"

section \<open>The grant and the hand-over\<close>

definition transition_landed :: "pass_facts \<Rightarrow> bool" where
  "transition_landed f \<longleftrightarrow>
     pf_wrote f \<and> pf_env_ok f \<and> pf_solo_restore_ok f \<and> pf_outputd_restart_ok f \<and> pf_voice_ok f \<and>
     pf_voice_refresh_ok f \<and> pf_airplay_ok f \<and> pf_airplay_refresh_ok f \<and> pf_apply_rc f = 0"

definition grant_phase :: "'w pass_doors \<Rightarrow> role_decision \<Rightarrow> pass_facts \<Rightarrow> string \<Rightarrow> nat \<Rightarrow> ('w, nat) pass" where
  "grant_phase d role f block rc =
     (if rd_refused_follower_fallback role \<or> rd_transitioning role
      then if transition_landed f \<and> (rd_transitioning role \<and> \<not> rd_refused_follower_fallback role \<longrightarrow> rc = 0)
        then do {
          ok \<leftarrow> publish_status d False (rd_transitioning role \<and> rd_active_speaker_leader role)
            (if rd_refused_follower_fallback role then block else []) (rd_requested_cfg role) True;
          give (if ok then rc else 1) }
        else give rc
      else give rc)"

definition converge_phase :: "'w pass_doors \<Rightarrow> role_decision \<Rightarrow> bool \<Rightarrow> nat \<Rightarrow> ('w, nat) pass" where
  "converge_phase d role units_changed rc = do {
     ok \<leftarrow> converge_sources_after_role d (rd_active role) units_changed;
     give (if ok then rc else 1) }"

section \<open>The pass\<close>

definition bonded_part ::
  "nat \<Rightarrow> 'w pass_doors \<Rightarrow> role_decision \<Rightarrow> pass_facts \<Rightarrow> bool \<Rightarrow> string \<Rightarrow> nat \<Rightarrow> ('w, nat step) pass" where
  "bonded_part fuel d role f units_changed block rc =
     stepwise (bonded_apply_phase fuel d role block rc) (\<lambda>(arm_blocked, block, rc). do {
       rc \<leftarrow> binding_phase d role arm_blocked rc;
       rc \<leftarrow> follower_phase d role rc;
       rc \<leftarrow> grant_phase d role f block rc;
       rc \<leftarrow> converge_phase d role units_changed rc;
       give (Go rc) })"

definition graph_part ::
  "'w pass_doors \<Rightarrow> role_decision \<Rightarrow> bool \<Rightarrow> nat \<Rightarrow> ('w, (bool \<times> bool \<times> bool \<times> bool \<times> nat) step) pass" where
  "graph_part d role prior_owned rc =
     stepwise (files_phase d role rc) (\<lambda>(wrote, env_changed, env_ok, rc). do {
       (solo_restore_ok, rc) \<leftarrow> solo_restore_phase d role prior_owned rc;
       (outputd_restart_ok, rc) \<leftarrow> outputd_phase d role env_changed env_ok rc;
       give (Go (wrote, env_ok, solo_restore_ok, outputd_restart_ok, rc)) })"

definition consumer_part ::
  "'w pass_doors \<Rightarrow> role_decision \<Rightarrow> nat \<Rightarrow> ('w, (bool \<times> bool \<times> bool \<times> bool \<times> nat) step) pass" where
  "consumer_part d role rc =
     stepwise (voice_phase d role rc) (\<lambda>(voice_ok, voice_refresh_ok, rc).
       stepwise (airplay_phase d role rc) (\<lambda>(airplay_changed, airplay_ok, rc).
         give (Go (voice_ok, voice_refresh_ok, airplay_changed, airplay_ok, rc))))"

definition plan_part ::
  "'w pass_doors \<Rightarrow> role_decision \<Rightarrow> bool \<Rightarrow> bool \<Rightarrow> nat \<Rightarrow> ('w, bool \<times> nat \<times> bool \<times> nat) pass" where
  "plan_part d role airplay_changed airplay_ok rc = do {
     (units_changed, apply_rc, rc) \<leftarrow> plan_phase d role rc;
     (airplay_refresh_ok, rc) \<leftarrow> airplay_refresh_phase d role airplay_changed airplay_ok rc;
     give (units_changed, apply_rc, airplay_refresh_ok, rc) }"

definition unit_part ::
  "nat \<Rightarrow> 'w pass_doors \<Rightarrow> role_decision \<Rightarrow> bool \<Rightarrow> string \<Rightarrow> nat \<Rightarrow> ('w, nat step) pass" where
  "unit_part fuel d role prior_owned block rc =
     stepwise (graph_part d role prior_owned rc) (\<lambda>(wrote, env_ok, solo_restore_ok, outputd_restart_ok, rc).
       stepwise (consumer_part d role rc) (\<lambda>(voice_ok, voice_refresh_ok, airplay_changed, airplay_ok, rc). do {
         (units_changed, apply_rc, airplay_refresh_ok, rc) \<leftarrow> plan_part d role airplay_changed airplay_ok rc;
         bonded_part fuel d role
           \<lparr>pf_wrote = wrote, pf_env_ok = env_ok, pf_solo_restore_ok = solo_restore_ok,
            pf_outputd_restart_ok = outputd_restart_ok, pf_voice_ok = voice_ok,
            pf_voice_refresh_ok = voice_refresh_ok, pf_airplay_ok = airplay_ok,
            pf_airplay_refresh_ok = airplay_refresh_ok, pf_apply_rc = apply_rc\<rparr>
           units_changed block rc }))"

definition known_topology_pass :: "nat \<Rightarrow> 'w pass_doors \<Rightarrow> role_decision \<Rightarrow> ('w, nat step) pass" where
  "known_topology_pass fuel d role =
     (case refuse_period role of (role, rc, block) \<Rightarrow> do {
        rc \<leftarrow> provision_phase d role rc;
        stepwise (endpoint_gate d role rc block) (\<lambda>(role, rc, block).
          stepwise (crossover_gate d role) (\<lambda>prior_owned.
            stepwise (publish_phase d role block) (\<lambda>_.
              unit_part fuel d role prior_owned block rc))) })"

definition reconcile_main :: "nat \<Rightarrow> 'w pass_doors \<Rightarrow> ('w, outcome) pass" where
  "reconcile_main fuel d = do {
     (active_box, role) \<leftarrow> pass_begin d;
     if active_box = None then unknown_topology_pass d role
     else do {
       r \<leftarrow> known_topology_pass fuel d role;
       give (case r of Stop e \<Rightarrow> e | Go rc \<Rightarrow> ExitCode rc) } }"

definition reconcile_pass :: "nat \<Rightarrow> 'w pass_doors \<Rightarrow> 'w \<Rightarrow> outcome \<times> 'w \<times> act list" where
  "reconcile_pass fuel d w = run_state (reconcile_main fuel d) (w, [])"

end
