(* ===== verification/Pass_Logic.thy ===== *)
theory Pass_Logic
  imports Grouping_Reconcile "HOL-Library.Sublist"
begin

text \<open>
  A weakest-precondition calculus for passes: \<open>traces m Q\<close> says that whatever the world answers, \<open>m\<close> appends
  to the log a segment \<open>xs\<close> and returns a value \<open>a\<close> with \<open>Q a xs\<close>. One rule per operation of the
  reconciler, collected in \<open>traced\<close>; and the steps each phase can log.
\<close>

section \<open>Traces\<close>

definition traces :: "('w, 'a) pass \<Rightarrow> ('a \<Rightarrow> act list \<Rightarrow> bool) \<Rightarrow> bool" where
  "traces m Q \<longleftrightarrow> (\<forall>w l. \<exists>a w' xs. run_state m (w, l) = (a, w', l @ xs) \<and> Q a xs)"

named_theorems traced \<open>traces of the operations of a pass\<close>

lemma traces_mono: "traces m Q \<Longrightarrow> (\<And>a xs. Q a xs \<Longrightarrow> R a xs) \<Longrightarrow> traces m R"
  unfolding traces_def by metis

lemma traces_give [traced]: "Q a [] \<Longrightarrow> traces (give a) Q"
  by (simp add: traces_def)

lemma traces_look [traced]: "(\<And>a. Q a []) \<Longrightarrow> traces (look door) Q"
  by (auto simp: traces_def look_def split: prod.split)

lemma traces_ask [traced]: "(\<And>a. Q a [note a]) \<Longrightarrow> traces (ask door note) Q"
  by (auto simp: traces_def ask_def split: prod.split)

lemma traces_bind [traced]:
  assumes "traces m (\<lambda>a xs. traces (k a) (\<lambda>b ys. Q b (xs @ ys)))"
  shows "traces (m \<bind> k) Q"
  unfolding traces_def
proof (intro allI)
  fix w l
  obtain a w' xs where m: "run_state m (w, l) = (a, w', l @ xs)"
      and k: "traces (k a) (\<lambda>b ys. Q b (xs @ ys))"
    using assms unfolding traces_def [of m] by blast
  obtain b w'' ys where "run_state (k a) (w', l @ xs) = (b, w'', (l @ xs) @ ys)" "Q b (xs @ ys)"
    using k unfolding traces_def by blast
  then show "\<exists>a w' xs. run_state (m \<bind> k) (w, l) = (a, w', l @ xs) \<and> Q a xs"
    using m by (simp; blast)
qed

lemma traces_if [traced]:
  "(b \<Longrightarrow> traces x Q) \<Longrightarrow> (\<not> b \<Longrightarrow> traces y Q) \<Longrightarrow> traces (if b then x else y) Q"
  by simp

lemma traces_option [traced]:
  "(v = None \<Longrightarrow> traces x Q) \<Longrightarrow> (\<And>a. v = Some a \<Longrightarrow> traces (y a) Q) \<Longrightarrow>
   traces (case v of None \<Rightarrow> x | Some a \<Rightarrow> y a) Q"
  by (cases v) auto

lemma traces_prod [traced]: "(\<And>a b. p = (a, b) \<Longrightarrow> traces (f a b) Q) \<Longrightarrow> traces (case p of (a, b) \<Rightarrow> f a b) Q"
  by (cases p) auto

lemma traces_stepwise:
  assumes "traces m R" "\<And>e xs. R (Stop e) xs \<Longrightarrow> Q (Stop e) xs"
    and "\<And>x xs. R (Go x) xs \<Longrightarrow> traces (k x) (\<lambda>b ys. Q b (xs @ ys))"
  shows "traces (stepwise m k) Q"
  unfolding stepwise_def
proof (rule traces_bind, rule traces_mono [OF assms(1)])
  fix a xs
  assume R: "R a xs"
  show "traces (case a of Stop e \<Rightarrow> give (Stop e) | Go x \<Rightarrow> k x) (\<lambda>b ys. Q b (xs @ ys))"
    using R assms(2,3) by (cases a) (auto intro: traces_give)
qed

lemma traces_then:
  "traces m R \<Longrightarrow> (\<And>a xs. R a xs \<Longrightarrow> traces (k a) (\<lambda>b ys. Q b (xs @ ys))) \<Longrightarrow> traces (m \<bind> k) Q"
  by (rule traces_bind) (rule traces_mono)

section \<open>Traces of the helpers\<close>

lemma unit_state_traced [traced]: "(\<And>w. Q w [Probed q u w]) \<Longrightarrow> traces (unit_state d q u) Q"
  unfolding unit_state_def by (rule traced)

lemma systemctl_unit_state_traced [traced]:
  "(\<And>w. Q (unit_query q w) [Probed q u w]) \<Longrightarrow> traces (systemctl_unit_state d q u) Q"
  unfolding systemctl_unit_state_def by (intro traced) simp

lemma unit_is_active_traced [traced]:
  "(\<And>w. Q (unit_query ''is-active'' w = Some True) [Probed ''is-active'' u w]) \<Longrightarrow> traces (unit_is_active d u) Q"
  unfolding unit_is_active_def by (intro traced) simp

lemma unit_active_traced [traced]:
  "(\<And>w. Q (live_word w) [Probed ''is-active'' u w]) \<Longrightarrow> traces (unit_active d u) Q"
  unfolding unit_active_def by (intro traced) simp

lemma run_systemctl_traced [traced]: "(\<And>a. Q a [Ran args a]) \<Longrightarrow> traces (run_systemctl d args) Q"
  unfolding run_systemctl_def by (rule traced)

lemma reset_failed_unit_traced [traced]:
  "(\<And>a. Q () [Ran [''reset-failed'', u] a]) \<Longrightarrow> traces (reset_failed_unit d u) Q"
  unfolding reset_failed_unit_def by (intro traced) simp

lemma restart_unit_traced [traced]:
  "(\<And>a ok. Q ok [Managed u ''reset-failed'' False a,
     Managed u (if active_only then ''try-restart'' else ''restart'') no_block ok]) \<Longrightarrow>
   traces (restart_unit d u no_block active_only) Q"
  unfolding restart_unit_def reset_then_manage_def by (intro traced) simp

lemma restart_outputd_traced [traced]:
  "(\<And>a ok. Q ok [Managed OUTPUTD_UNIT ''reset-failed'' False a, Managed OUTPUTD_UNIT ''restart'' False ok]) \<Longrightarrow>
   traces (restart_outputd d) Q"
  unfolding restart_outputd_def by (intro traced) simp

lemma engine_traced [traced]: "(\<And>a. Q a [Called call a]) \<Longrightarrow> traces (engine d call) Q"
  unfolding engine_def by (rule traced)

lemma hardware_traced [traced]: "(\<And>a. Q a [Hardware a]) \<Longrightarrow> traces (run_audio_hardware_reconcile d) Q"
  unfolding run_audio_hardware_reconcile_def by (rule traced)

lemma crossover_unit_traced [traced]:
  "(\<And>a. Q (a = SysOk) [Ran (verb @ [CROSSOVER_UNIT]) a]) \<Longrightarrow> traces (systemctl_crossover_unit d verb) Q"
  unfolding systemctl_crossover_unit_def by (intro traced) simp

abbreviation arm_command :: "string list" where
  "arm_command \<equiv> [''enable'', ''--now'', CROSSOVER_UNIT]"

abbreviation disarm_command :: "string list" where
  "disarm_command \<equiv> [''disable'', ''--now'', CROSSOVER_UNIT]"

lemma arm_traced [traced]: "(\<And>a. Q (a = SysOk) [Ran arm_command a]) \<Longrightarrow> traces (arm_crossover_unit d) Q"
  unfolding arm_crossover_unit_def by (rule traced) simp

lemma disarm_traced [traced]: "(\<And>a. Q (a = SysOk) [Ran disarm_command a]) \<Longrightarrow> traces (disable_crossover_unit d) Q"
  unfolding disable_crossover_unit_def by (rule traced) simp

lemma write_file_traced [traced]: "(\<And>ok. Q ok [Wrote path body ok]) \<Longrightarrow> traces (write_file d path body) Q"
  unfolding write_file_def by (rule traced)

lemma write_derived_env_traced [traced]:
  assumes "Q None []" "Q (Some (False, True)) []" "\<And>ok. Q (Some (True, ok)) [Wrote path (env_body keys) ok]"
  shows "traces (write_derived_env d keys path) Q"
proof -
  have "traces (case f of
          TBadUtf8 \<Rightarrow> give None
        | TText t \<Rightarrow>
            if universal_newlines t = env_body keys then give (Some (False, True))
            else do { ok \<leftarrow> write_file d path (env_body keys); give (Some (True, ok)) }
        | _ \<Rightarrow>
            if env_body keys = [] then give (Some (False, True))
            else do { ok \<leftarrow> write_file d path (env_body keys); give (Some (True, ok)) }) Q" for f
    by (cases f) (auto intro!: traced simp: assms)
  then show ?thesis unfolding write_derived_env_def Let_def by (intro traces_bind traces_look) simp
qed

lemma publish_status_traced [traced]:
  "(\<And>ok. Q ok [Published af al reason (Some allowed) ok]) \<Longrightarrow>
   traces (publish_status d af al reason requested allowed) Q"
  unfolding publish_status_def by (intro traced) simp

lemma ensure_unit_active_traced [traced]:
  assumes "\<And>w. Q True [Probed ''is-active'' u w]"
    and "\<And>w a b. Q (b = SysOk) [Probed ''is-active'' u w, Ran [''reset-failed'', u] a, Ran [''start'', u] b]"
  shows "traces (ensure_unit_active d u) Q"
  unfolding ensure_unit_active_def by (intro traced) (simp_all add: assms)

definition lock_act :: "act \<Rightarrow> bool" where
  "lock_act x \<longleftrightarrow> (\<exists>o'. x = Opened o') \<or> (\<exists>t. x = Tried t)"

lemma probe_once_traced [traced]:
  assumes "\<And>o'. o' \<noteq> LockOpened \<Longrightarrow> Q PcmUnknown [Opened o']" "Q PcmReleased [Opened LockOpened, Tried LockTaken]"
    "Q PcmBusy [Opened LockOpened, Tried LockHeld]" "Q PcmUnknown [Opened LockOpened, Tried LockError]"
  shows "traces (probe_active_content_pcm_once d) Q"
proof -
  have "Q (case t of LockTaken \<Rightarrow> PcmReleased | LockHeld \<Rightarrow> PcmBusy | LockError \<Rightarrow> PcmUnknown) [Opened LockOpened, Tried t]" for t
    using assms by (cases t) simp_all
  then show ?thesis
    unfolding probe_active_content_pcm_once_def by (intro traced) (auto simp: assms)
qed

lemma release_loop_traces:
  "traces (release_loop n d interval deadline)
     (\<lambda>r xs. list_all lock_act xs \<and> (r = Some PcmReleased \<longrightarrow> xs \<noteq> [] \<and> last xs = Tried LockTaken))"
proof (induction n)
  case 0
  show ?case by (simp add: traces_give)
next
  case (Suc n)
  have rest: "traces (release_loop n d interval deadline) (\<lambda>r ys. list_all lock_act (pre @ ys) \<and>
      (r = Some PcmReleased \<longrightarrow> pre @ ys \<noteq> [] \<and> last (pre @ ys) = Tried LockTaken))" if "list_all lock_act pre" for pre
    by (rule traces_mono [OF Suc]) (auto simp: that)
  have l: "lock_act (Opened o')" "lock_act (Tried t)" for o' t by (auto simp: lock_act_def)
  show ?case
    unfolding release_loop.simps sleep_for_def
    using rest [of "[Opened LockOpened, Tried LockHeld]"]
    by (intro traces_bind probe_once_traced) (auto intro!: traced elim!: traces_mono simp: l split: if_splits)
qed

lemma wait_traces:
  "traces (wait_for_active_content_pcm_release n d)
     (\<lambda>r xs. list_all lock_act xs \<and> (r = Some PcmReleased \<longrightarrow> xs \<noteq> [] \<and> last xs = Tried LockTaken))"
  unfolding wait_for_active_content_pcm_release_def by (intro traced) (simp add: release_loop_traces)

definition intent_act :: "unit_intent \<Rightarrow> systemctl_answer \<Rightarrow> act" where
  "intent_act it a = Ran [verb_text (ui_desired it), ui_unit it] a"

lemma apply_plan_traces:
  "traces (apply_plan d its rc)
     (\<lambda>r xs. \<exists>as. length as = length its \<and> xs = map2 intent_act its as \<and>
        r = (if list_ex intent_failed as then 1 else rc))"
proof (induction its arbitrary: rc)
  case Nil
  show ?case by (auto intro!: traces_give)
next
  case (Cons it its)
  show ?case unfolding apply_plan.simps
  proof (intro traces_bind run_systemctl_traced, rule traces_mono [OF Cons])
    fix a r ys
    assume "\<exists>as. length as = length its \<and> ys = map2 intent_act its as \<and>
        r = (if list_ex intent_failed as then 1 else if intent_failed a then 1 else rc)"
    then obtain as where "length as = length its" "ys = map2 intent_act its as"
        "r = (if list_ex intent_failed as then 1 else if intent_failed a then 1 else rc)" by blast
    then show "\<exists>as. length as = length (it # its) \<and>
        [Ran [verb_text (ui_desired it), ui_unit it] a] @ ys = map2 intent_act (it # its) as \<and>
        r = (if list_ex intent_failed as then 1 else rc)"
      by (intro exI [of _ "a # as"]) (auto simp: intent_act_def)
  qed
qed

definition probe_act :: "act \<Rightarrow> bool" where
  "probe_act x \<longleftrightarrow> (\<exists>q u w. x = Probed q u w)"

lemma probe_act_iff [simp]: "probe_act (Probed q u w)"
  by (simp add: probe_act_def)

lemma plan_changes_traces: "traces (plan_changes_units d its) (\<lambda>r xs. list_all probe_act xs)"
proof (induction its)
  case Nil
  show ?case by (simp add: traces_give)
next
  case (Cons it its)
  have "traces (plan_changes_units d its) (\<lambda>r ys. list_all probe_act ([Probed q u w] @ ys))" for q u w
    by (rule traces_mono [OF Cons]) simp
  then show ?case unfolding plan_changes_units.simps by (auto intro!: traced)
qed

lemma converge_traced:
  assumes "\<And>w a. \<not> active \<and> \<not> changed \<Longrightarrow> Q True []"
    and "\<And>a w pre b. pre = [] \<or> pre = [Ran [''start'', SOURCE_INTENT_RECONCILE_UNIT] SysOk] \<Longrightarrow>
       Q (b = SysOk) ([Ran [''reset-failed'', SOURCE_INTENT_RECONCILE_UNIT] a,
         Probed ''is-active'' SOURCE_INTENT_RECONCILE_UNIT w] @ pre @ [Ran [''start'', SOURCE_INTENT_RECONCILE_UNIT] b])"
  shows "traces (converge_sources_after_role d active changed) Q"
proof -
  let ?pre = "\<lambda>a w. [Ran [''reset-failed'', SOURCE_INTENT_RECONCILE_UNIT] a, Probed ''is-active'' SOURCE_INTENT_RECONCILE_UNIT w]"
  let ?start = "Ran [''start'', SOURCE_INTENT_RECONCILE_UNIT]"
  have one: "Q (b = SysOk) (?pre a w @ [?start b])" for a w b using assms(2) [of "[]"] by simp
  have two: "Q (b = SysOk) (?pre a w @ [?start SysOk, ?start b])" for a w b using assms(2) [of "[?start SysOk]"] by simp
  have failed: "Q False (?pre a w @ [?start b])" if "b \<noteq> SysOk" for a w b using one [of b a w] that by simp
  show ?thesis
    unfolding converge_sources_after_role_def source_reconciler_activation_busy_def
    using assms(1) one two failed by (auto intro!: traced)
qed

end
