(* ===== verification/Grouping_Segments.thy ===== *)
theory Grouping_Segments
  imports Pass_Logic
begin

text \<open>
  The segments of the log that each phase of the grouping reconciler can write, and the log of a whole pass
  put together from them: its stages in order, which steps succeeded, when camilla#2 is armed, when local
  sources are granted, and what an inactive role leaves alone. \<open>reconcile_run\<close> is the summary.
\<close>

section \<open>Stages\<close>

text \<open>
  The documented order: checks (0), derived args and outputd env (1), restore of the solo graph (2), outputd (3),
  voice env (4) and its owner (5), AirPlay env (6), units stopped (7), units started (8), AirPlay (9), bonded
  graph (10), seed (11), outputd lane (12), camilla#2 (13), stream binding (14), follower graph (15), sources (16).
\<close>

fun stage :: "act \<Rightarrow> nat option" where
  "stage (Provisioned _) = Some 0"
| "stage (Wrote p _ _) =
     (if p = ARGS_FILE \<or> p = OUTPUTD_GROUPING_ENV_FILE then Some 1
      else if p = VOICE_GROUPING_ENV_FILE then Some 4 else if p = AIRPLAY_GROUPING_ENV_FILE then Some 6 else None)"
| "stage (Managed u verb _ _) =
     (if verb = ''reset-failed'' then None else if u = OUTPUTD_UNIT then Some 3
      else if u = AEC_RECONCILE_UNIT then Some 5 else if u = SHAIRPORT_UNIT then Some 9 else None)"
| "stage (Ran args _) =
     (if args = [''stop'', SNAPSERVER_UNIT] \<or> args = [''stop'', SNAPCLIENT_UNIT] then Some 7
      else if args = [''start'', SNAPSERVER_UNIT] \<or> args = [''start'', SNAPCLIENT_UNIT] then Some 8
      else if args = arm_command then Some 13
      else if args = [''start'', SOURCE_INTENT_RECONCILE_UNIT] then Some 16 else None)"
| "stage (Called call _) =
     (case call of PrecheckLeader _ \<Rightarrow> Some 0 | PrecheckFollower _ \<Rightarrow> Some 0 | RestoreLeaderSolo \<Rightarrow> None
      | RestoreFollowerSolo \<Rightarrow> Some 2 | RestoreSolo \<Rightarrow> Some 2 | ApplyBondedLeader _ \<Rightarrow> Some 10
      | ApplyLeaderBake \<Rightarrow> Some 10 | SeedCrossover \<Rightarrow> Some 11 | ApplyFollower \<Rightarrow> Some 15)"
| "stage (Hardware _) = Some 12"
| "stage (Bound _ _) = Some 14"
| "stage _ = None"

fun stages :: "act list \<Rightarrow> nat list" where
  "stages [] = []"
| "stages (x # xs) = (case stage x of None \<Rightarrow> stages xs | Some k \<Rightarrow> k # stages xs)"

lemma stages_append [simp]: "stages (xs @ ys) = stages xs @ stages ys"
  by (induction xs) (auto split: option.split)

lemmas unit_names = OUTPUTD_UNIT_def CAMILLA_UNIT_def AEC_RECONCILE_UNIT_def SHAIRPORT_UNIT_def
  SOURCE_INTENT_RECONCILE_UNIT_def CROSSOVER_UNIT_def SNAPSERVER_UNIT_def SNAPCLIENT_UNIT_def
  ARGS_FILE_def VOICE_GROUPING_ENV_FILE_def AIRPLAY_GROUPING_ENV_FILE_def OUTPUTD_GROUPING_ENV_FILE_def

lemma stage_numbers [simp]:
  "stage (Wrote ARGS_FILE b ok) = Some 1" "stage (Wrote OUTPUTD_GROUPING_ENV_FILE b ok) = Some 1"
  "stage (Wrote VOICE_GROUPING_ENV_FILE b ok) = Some 4" "stage (Wrote AIRPLAY_GROUPING_ENV_FILE b ok) = Some 6"
  "stage (Managed u ''reset-failed'' n ok) = None" "stage (Managed OUTPUTD_UNIT ''restart'' n ok) = Some 3"
  "stage (Managed AEC_RECONCILE_UNIT ''restart'' n ok) = Some 5"
  "stage (Managed SHAIRPORT_UNIT ''try-restart'' n ok) = Some 9"
  "stage (Ran arm_command a) = Some 13" "stage (Ran disarm_command a) = None"
  "stage (Ran [''reset-failed'', u] a) = None" "stage (Ran [''start'', CAMILLA_UNIT] a) = None"
  "stage (Ran [''start'', SOURCE_INTENT_RECONCILE_UNIT] a) = Some 16"
  "stage (Ran [''stop'', SNAPSERVER_UNIT] a) = Some 7" "stage (Ran [''stop'', SNAPCLIENT_UNIT] a) = Some 7"
  "stage (Ran [''start'', SNAPSERVER_UNIT] a) = Some 8" "stage (Ran [''start'', SNAPCLIENT_UNIT] a) = Some 8"
  by (simp_all add: unit_names)

declare stage.simps(2-4) [simp del]

definition seg :: "nat \<Rightarrow> nat \<Rightarrow> act list \<Rightarrow> bool" where
  "seg lo hi xs \<longleftrightarrow> sorted (stages xs) \<and> set (stages xs) \<subseteq> {lo..hi}"

lemma seg_append: "seg lo m xs \<Longrightarrow> seg m' hi ys \<Longrightarrow> m \<le> m' \<Longrightarrow> lo \<le> m' \<Longrightarrow> m \<le> hi \<Longrightarrow> seg lo hi (xs @ ys)"
  by (fastforce simp: seg_def sorted_append)

lemma seg_Nil [simp]: "seg lo hi []"
  by (simp add: seg_def)

lemma seg_weaken: "seg lo hi xs \<Longrightarrow> lo' \<le> lo \<Longrightarrow> hi \<le> hi' \<Longrightarrow> seg lo' hi' xs"
  by (fastforce simp: seg_def)

text \<open>No stage at all.\<close>

lemma unstaged: "list_all (\<lambda>x. stage x = None) xs \<Longrightarrow> stages xs = []"
  by (induction xs) simp_all

lemma unstaged_acts: "list_all probe_act xs \<Longrightarrow> stages xs = []" "list_all lock_act xs \<Longrightarrow> stages xs = []"
  by (induction xs) (auto simp: probe_act_def lock_act_def)

section \<open>Steps that succeeded\<close>

fun clean :: "act \<Rightarrow> bool" where
  "clean (Ran args a) \<longleftrightarrow> hd args = ''reset-failed'' \<or>
     (if args \<in> {[''stop'', SNAPSERVER_UNIT], [''stop'', SNAPCLIENT_UNIT], [''start'', SNAPSERVER_UNIT], [''start'', SNAPCLIENT_UNIT]}
      then \<not> intent_failed a else a = SysOk)"
| "clean (Managed u verb n ok) \<longleftrightarrow> verb = ''reset-failed'' \<or> ok"
| "clean (Wrote p b ok) \<longleftrightarrow> p = ARGS_FILE \<or> ok"
| "clean (Published f l r a ok) \<longleftrightarrow> ok"
| "clean (Provisioned p) \<longleftrightarrow> p \<noteq> ProvisionFailed"
| "clean (Called call a) \<longleftrightarrow> a = CallDone"
| "clean (Hardware h) \<longleftrightarrow> h = HardwareOk"
| "clean (Bound r f) \<longleftrightarrow> r \<and> f = 0"
| "clean (Opened o') \<longleftrightarrow> True"
| "clean (Tried t) \<longleftrightarrow> True"
| "clean (Probed q u w) \<longleftrightarrow> True"

definition landed :: "act \<Rightarrow> bool" where
  "landed x \<longleftrightarrow> clean x \<and> (\<forall>b. x \<noteq> Wrote ARGS_FILE b False)"

lemma clean_paths [simp]:
  "\<not> clean (Wrote OUTPUTD_GROUPING_ENV_FILE b False)" "\<not> clean (Wrote VOICE_GROUPING_ENV_FILE b False)"
  "\<not> clean (Wrote AIRPLAY_GROUPING_ENV_FILE b False)" "clean (Wrote p b True)" "clean (Wrote ARGS_FILE b ok)"
  "clean (Managed u ''restart'' n ok) = ok" "clean (Managed u ''try-restart'' n ok) = ok"
  "clean (Ran [''start'', SOURCE_INTENT_RECONCILE_UNIT] a) = (a = SysOk)" "clean (Ran arm_command a) = (a = SysOk)"
  "clean (Ran disarm_command a) = (a = SysOk)" "clean (Ran [''start'', CAMILLA_UNIT] a) = (a = SysOk)"
  by (simp_all add: unit_names)

declare clean.simps(1-3) [simp del]
lemma clean_reset [simp]: "clean (Ran [''reset-failed'', u] a)" "clean (Managed u ''reset-failed'' n ok)"
  by (simp_all add: clean.simps)

lemma landed_clean [simp]:
  "landed (Probed q u w)" "landed (Managed u verb n ok) = clean (Managed u verb n ok)"
  "landed (Ran args a) = clean (Ran args a)" "landed (Called call r) = clean (Called call r)"
  "landed (Wrote p b True)" "landed (Published f l r' al ok) = ok"
  by (auto simp: landed_def)

lemma clean_acts: "list_all probe_act xs \<Longrightarrow> list_all clean xs" "list_all lock_act xs \<Longrightarrow> list_all clean xs"
  "list_all probe_act xs \<Longrightarrow> list_all landed xs"
  by (auto simp: probe_act_def lock_act_def list_all_iff landed_def)

lemma clean_intent: "it \<in> set (plan cfg) \<Longrightarrow> clean (intent_act it a) \<longleftrightarrow> \<not> intent_failed a"
  by (auto simp: plan_def intent_act_def clean.simps split: if_splits)

section \<open>The phases, one by one\<close>

text \<open>The exit code so far, and the segment just logged.\<close>

definition unpublished :: "act list \<Rightarrow> bool" where
  "unpublished xs \<longleftrightarrow> list_all (\<lambda>x. \<forall>f l r a ok. x \<noteq> Published f l r a ok) xs"

lemma unpublished_append [simp]: "unpublished (xs @ ys) \<longleftrightarrow> unpublished xs \<and> unpublished ys"
  by (simp add: unpublished_def)

lemma unpublished_acts: "list_all probe_act xs \<Longrightarrow> unpublished xs" "list_all lock_act xs \<Longrightarrow> unpublished xs"
  by (auto simp: unpublished_def probe_act_def lock_act_def list_all_iff)

definition accounted :: "nat \<Rightarrow> nat \<Rightarrow> act list \<Rightarrow> bool" where
  "accounted rc rc' xs \<longleftrightarrow> (rc' = 0 \<longrightarrow> rc = 0 \<and> list_all clean xs)"

definition unit_seg :: "nat \<Rightarrow> nat \<Rightarrow> nat \<Rightarrow> nat \<Rightarrow> bool \<Rightarrow> act list \<Rightarrow> bool" where
  "unit_seg lo hi rc rc' flag xs \<longleftrightarrow> seg lo hi xs \<and> unpublished xs \<and> accounted rc rc' xs \<and> (flag \<longrightarrow> list_all landed xs)"

definition stopped :: "nat \<Rightarrow> nat \<Rightarrow> outcome \<Rightarrow> act list \<Rightarrow> bool" where
  "stopped lo hi e xs \<longleftrightarrow> seg lo hi xs \<and> unpublished xs \<and> e = PassRaised"

lemmas seg_defs = unit_seg_def stopped_def seg_def unpublished_def accounted_def

lemma files_segment:
  "traces (files_phase d role rc)
     (\<lambda>r xs. case r of Stop e \<Rightarrow> stopped 1 1 e xs
        | Go (wrote, changed, ok, rc') \<Rightarrow> unit_seg 1 1 rc rc' (wrote \<and> ok) xs)"
  unfolding files_phase_def write_args_file_def
  by (intro traced) (auto simp: seg_defs landed_def)

lemma solo_restore_segment:
  "traces (solo_restore_phase d role prior rc) (\<lambda>(ok, rc') xs. unit_seg 2 2 rc rc' ok xs)"
  unfolding solo_restore_phase_def by (intro traced) (auto simp: seg_defs)

lemma outputd_segment:
  "traces (outputd_phase d role changed env_ok rc) (\<lambda>(ok, rc') xs. unit_seg 3 3 rc rc' ok xs)"
  unfolding outputd_phase_def by (intro traced) (auto simp: seg_defs)

lemma voice_segment:
  "traces (voice_phase d role rc)
     (\<lambda>r xs. case r of Stop e \<Rightarrow> stopped 4 5 e xs
        | Go (ok, refreshed, rc') \<Rightarrow> unit_seg 4 5 rc rc' (ok \<and> refreshed) xs)"
  unfolding voice_phase_def by (intro traced) (auto simp: seg_defs intro!: traced)

lemma airplay_segment:
  "traces (airplay_phase d role rc)
     (\<lambda>r xs. case r of Stop e \<Rightarrow> stopped 6 6 e xs | Go (changed, ok, rc') \<Rightarrow> unit_seg 6 6 rc rc' ok xs)"
  unfolding airplay_phase_def by (intro traced) (auto simp: seg_defs)

definition planned :: "unit_intent list \<Rightarrow> bool" where
  "planned its \<longleftrightarrow> (\<exists>cfg. its = plan cfg)"

lemma plan_stages:
  assumes "length as = length (plan cfg)"
  shows "seg 7 8 (map2 intent_act (plan cfg) as)"
  using assms by (auto simp: plan_def seg_def intent_act_def length_Suc_conv split: if_splits)

lemma plan_clean:
  assumes "length as = length (plan cfg)"
  shows "list_all clean (map2 intent_act (plan cfg) as) \<longleftrightarrow> \<not> list_ex intent_failed as"
  using assms clean_intent [of _ cfg]
  by (auto simp: plan_def length_Suc_conv split: if_splits)

lemma plan_segment:
  assumes "planned (rd_plan role)"
  shows "traces (plan_phase d role rc)
     (\<lambda>(changed, apply_rc, rc') xs. unit_seg 7 8 rc rc' (apply_rc = 0) xs)"
proof -
  obtain cfg where p: "rd_plan role = plan cfg" using assms by (auto simp: planned_def)
  have u: "unpublished (map2 intent_act its as)" for its as
    by (induction its as rule: list_induct2') (auto simp: unpublished_def intent_act_def)
  have "unit_seg 7 8 rc (max rc r) (r = 0) (ps @ qs)"
    if ps: "list_all probe_act ps" and qs: "qs = map2 intent_act (plan cfg) as" and l: "length as = length (plan cfg)"
      and r: "r = (if list_ex intent_failed as then 1 else 0)" for ps qs r and as
  proof -
    have "list_all landed qs" if "list_all clean qs"
      using that by (auto simp: list_all_iff landed_def qs intent_act_def in_set_zip)
    moreover have "unpublished (ps @ qs)"
      using u unpublished_acts(1) [OF ps] by (simp add: qs)
    moreover have "seg 7 8 (ps @ qs)" using plan_stages [OF l] unstaged_acts(1) [OF ps] by (simp add: seg_def qs)
    moreover have "list_all clean (ps @ qs) \<longleftrightarrow> r = 0"
      using plan_clean [OF l] clean_acts(1) [OF ps] by (simp add: qs r)
    ultimately show ?thesis
      using clean_acts(3) [OF ps] by (auto simp: unit_seg_def accounted_def)
  qed
  note unit = this
  show ?thesis
    unfolding plan_phase_def p
    by (rule traces_then [OF plan_changes_traces], rule traces_then [OF apply_plan_traces], rule traces_give)
      (auto intro: unit)
qed

lemma airplay_refresh_segment:
  "traces (airplay_refresh_phase d role changed airplay_ok rc) (\<lambda>(ok, rc') xs. unit_seg 9 9 rc rc' ok xs)"
  unfolding airplay_refresh_phase_def by (intro traced) (auto simp: seg_defs)

section \<open>Bake, seed and arm\<close>

definition publishes :: "bool \<Rightarrow> act list \<Rightarrow> bool" where
  "publishes allowed xs \<longleftrightarrow> list_all (\<lambda>x. \<forall>f l r a ok. x = Published f l r a ok \<longrightarrow> a = Some allowed) xs"

lemma publishes_append [simp]: "publishes b (xs @ ys) \<longleftrightarrow> publishes b xs \<and> publishes b ys"
  by (simp add: publishes_def)

lemma unpublished_publishes: "unpublished xs \<Longrightarrow> publishes b xs"
  by (auto simp: publishes_def unpublished_def list_all_iff)

lemma unpublished_not: "unpublished xs \<Longrightarrow> Published f l r a ok \<notin> set xs"
  unfolding unpublished_def list_all_iff by blast

lemma publishes_allowed: "publishes b xs \<Longrightarrow> Published f l r a ok \<in> set xs \<Longrightarrow> a = Some b"
  unfolding publishes_def list_all_iff by blast

definition arms :: "act list \<Rightarrow> bool" where
  "arms xs \<longleftrightarrow> 13 \<in> set (stages xs)"

lemma arms_append [simp]: "arms (xs @ ys) \<longleftrightarrow> arms xs \<or> arms ys"
  by (simp add: arms_def)

lemma seg_no_arm: "seg lo hi xs \<Longrightarrow> 13 < lo \<or> hi < 13 \<Longrightarrow> \<not> arms xs"
  by (auto simp: seg_def arms_def)

definition baked :: "act list \<Rightarrow> bool" where
  "baked xs \<longleftrightarrow> (\<exists>s. subseq [Ran disarm_command SysOk, Called ApplyLeaderBake CallDone, Called SeedCrossover s] xs \<and>
     (s = CallDone \<longrightarrow> (\<exists>h. h \<noteq> HardwareFailed \<and> subseq [Called SeedCrossover s, Hardware h] xs)))"

lemma leader_bake_segment:
  "traces (leader_bake d rc)
     (\<lambda>(ok, rc') xs. seg 10 12 xs \<and> unpublished xs \<and> accounted rc rc' xs \<and> (ok \<longrightarrow> baked xs))"
proof -
  have b: "baked (Ran disarm_command SysOk # pre @ [Called ApplyLeaderBake CallDone, Called SeedCrossover s])"
    if "s \<noteq> CallDone" for pre s
    using that by (auto simp: baked_def)
  have h: "baked (Ran disarm_command SysOk # pre @
      [Called ApplyLeaderBake CallDone, Called SeedCrossover CallDone, Hardware h])" if "h \<noteq> HardwareFailed" for pre h
    unfolding baked_def using that
    by (intro exI [of _ CallDone] conjI impI exI [of _ h]) auto
  note b' = b [of _ "[]"] b [of _ "[x]" for x] b [of _ "[x, y, z]" for x y z]
    and h' = h [of _ "[]"] h [of _ "[x]" for x] h [of _ "[x, y, z]" for x y z]
  show ?thesis
    unfolding leader_bake_def
    by (intro traced) (auto simp: seg_defs b' [simplified] h' [simplified] split: hardware_answer.split)
qed

definition armed_last :: "act list \<Rightarrow> bool" where
  "armed_last xs \<longleftrightarrow> arms xs \<longrightarrow>
     (\<exists>ys a. xs = ys @ [Ran arm_command a] \<and> \<not> arms ys \<and> ys \<noteq> [] \<and> last ys = Tried LockTaken)"

definition bonded_stop :: "outcome \<Rightarrow> bool" where
  "bonded_stop e \<longleftrightarrow> e = PassRaised \<or> e = OutOfFuel"

definition arm_post ::
  "role_decision \<Rightarrow> nat \<Rightarrow> (bool \<times> string \<times> nat) step \<Rightarrow> act list \<Rightarrow> bool" where
  "arm_post role rc r xs \<longleftrightarrow> publishes (local_sources_allowed role) xs \<and> armed_last xs \<and>
     (case r of Stop e \<Rightarrow> bonded_stop e | Go (blocked, block, rc') \<Rightarrow> accounted rc rc' xs \<and> (blocked \<longrightarrow> rc' \<noteq> 0))"

lemma arm_segment:
  "traces (arm_phase n d role block rc) (\<lambda>r xs. seg 13 13 xs \<and> arm_post role rc r xs)"
proof -
  let ?Q = "\<lambda>r xs. seg 13 13 xs \<and> arm_post role rc r xs"
  let ?p = "\<lambda>w. Probed ''is-active'' CROSSOVER_UNIT w"
  have refused: "traces (arm_refused d role reason) (\<lambda>b ys. ?Q b (?p w # xs @ ys))"
    if "list_all lock_act xs" for reason w xs
    unfolding arm_refused_def using unpublished_publishes [OF unpublished_acts(2) [OF that]] unstaged_acts(2) [OF that]
    by (intro traced) (auto simp: seg_def arm_post_def publishes_def armed_last_def arms_def bonded_stop_def accounted_def
        list_all_iff stage.simps)
  have release: "?Q (Go (False, block, if a = SysOk then rc else 1)) (?p w # xs @ [Ran arm_command a])"
    if "list_all lock_act xs" "xs \<noteq> []" "last xs = Tried LockTaken" for a w xs
  proof -
    have "armed_last ((?p w # xs) @ [Ran arm_command a])"
      unfolding armed_last_def
      by (intro impI exI [of _ "?p w # xs"] exI [of _ a])
        (use that unstaged_acts(2) [OF that(1)] in \<open>simp add: arms_def\<close>)
    then show ?thesis
      using unpublished_publishes [OF unpublished_acts(2) [OF that(1)]] unstaged_acts(2) [OF that(1)] clean_acts(2) [OF that(1)]
      by (simp add: seg_def arm_post_def publishes_def accounted_def)
  qed
  have still: "?Q (Stop OutOfFuel) (?p w # xs)" if "list_all lock_act xs" for w xs
    using unpublished_publishes [OF unpublished_acts(2) [OF that]] unstaged_acts(2) [OF that]
    by (simp add: seg_def arm_post_def publishes_def armed_last_def arms_def bonded_stop_def)
  have armed: "?Q (Go (False, block, rc)) [?p w]" for w
    by (simp add: seg_def arm_post_def publishes_def armed_last_def arms_def accounted_def)
  have after: "traces (case a of
          None \<Rightarrow> give (Stop OutOfFuel)
        | Some PcmReleased \<Rightarrow> arm_crossover_unit d \<bind> (\<lambda>ok. give (Go (False, block, if ok then rc else 1)))
        | Some PcmBusy \<Rightarrow> arm_refused d role ''active_content_pcm_busy''
        | Some PcmUnknown \<Rightarrow> arm_refused d role ''active_content_pcm_unverified'') (\<lambda>b ys. ?Q b (?p w # xs @ ys))"
    if "list_all lock_act xs" "a = Some PcmReleased \<longrightarrow> xs \<noteq> [] \<and> last xs = Tried LockTaken" for a w xs
  proof (cases a)
    case None
    then show ?thesis using still [OF that(1)] by (simp add: traces_give)
  next
    case (Some p)
    show ?thesis
    proof (cases p)
      case PcmReleased
      then have "xs \<noteq> []" "last xs = Tried LockTaken" using Some that(2) by simp_all
      note r = release [OF that(1) this]
      show ?thesis unfolding Some PcmReleased option.case pcm_probe.case by (intro traced) (use r in simp)
    qed (use Some refused [OF that(1)] in simp_all)
  qed
  show ?thesis
    unfolding arm_phase_def
    by (intro traces_bind unit_is_active_traced traces_if)
      (use armed after in \<open>auto intro!: traces_give traces_mono [OF wait_traces]\<close>)
qed

lemma baked_extend: "baked ys \<Longrightarrow> baked (xs @ ys @ zs)"
  unfolding baked_def by (blast intro: list_emb_append2 list_emb_prefix)

definition armed_safely :: "act list \<Rightarrow> bool" where
  "armed_safely xs \<longleftrightarrow> arms xs \<longrightarrow>
     (\<exists>ys a. xs = ys @ [Ran arm_command a] \<and> \<not> arms ys \<and> ys \<noteq> [] \<and> last ys = Tried LockTaken \<and> baked ys)"

lemma armed_safely_no: "\<not> arms xs \<Longrightarrow> armed_safely xs"
  by (simp add: armed_safely_def)

lemma armed_safely_prefix: "\<not> arms xs \<Longrightarrow> armed_safely ys \<Longrightarrow> armed_safely (xs @ ys)"
  unfolding armed_safely_def
proof
  assume n: "\<not> arms xs" and s: "arms ys \<longrightarrow> (\<exists>zs a. ys = zs @ [Ran arm_command a] \<and> \<not> arms zs \<and> zs \<noteq> [] \<and>
      last zs = Tried LockTaken \<and> baked zs)" and "arms (xs @ ys)"
  then obtain zs a where z: "ys = zs @ [Ran arm_command a]" "\<not> arms zs" "zs \<noteq> []" "last zs = Tried LockTaken" "baked zs"
    by auto
  then show "\<exists>zs a. xs @ ys = zs @ [Ran arm_command a] \<and> \<not> arms zs \<and> zs \<noteq> [] \<and> last zs = Tried LockTaken \<and> baked zs"
    using n baked_extend [of zs xs "[]"] by (intro exI [of _ "xs @ zs"] exI [of _ a]) simp
qed

definition bonded_post ::
  "role_decision \<Rightarrow> nat \<Rightarrow> (bool \<times> string \<times> nat) step \<Rightarrow> act list \<Rightarrow> bool" where
  "bonded_post role rc r xs \<longleftrightarrow> publishes (local_sources_allowed role) xs \<and> armed_safely xs \<and>
     (case r of Stop e \<Rightarrow> bonded_stop e | Go (blocked, block, rc') \<Rightarrow> accounted rc rc' xs \<and> (blocked \<longrightarrow> rc' \<noteq> 0))"

lemma accounted_trans: "accounted rc rc' xs \<Longrightarrow> accounted rc' rc'' ys \<Longrightarrow> accounted rc rc'' (xs @ ys)"
  by (auto simp: accounted_def)

lemma leader_segment:
  "traces (leader_phase n d role block rc) (\<lambda>r xs. seg 10 13 xs \<and> bonded_post role rc r xs)"
proof -
  let ?p = "\<lambda>w. [Probed ''is-active'' SNAPSERVER_UNIT w]"
  let ?Q = "\<lambda>r xs. seg 10 13 xs \<and> bonded_post role rc r xs"
  have down: "?Q (Go (False, block, 1)) (?p w @ [Ran disarm_command a])" for w a
    by (simp add: seg_def bonded_post_def publishes_def armed_safely_def arms_def accounted_def)
  have skipped: "?Q (Go (False, block, 1)) (?p w @ xs)"
    if "seg 10 12 xs" "unpublished xs" for w xs
    using that seg_no_arm [OF that(1)] unpublished_publishes [OF that(2)] seg_weaken [OF that(1), of 10 13]
    by (simp add: seg_def bonded_post_def publishes_def armed_safely_def arms_def accounted_def)
  have went: "?Q r (?p w @ xs @ ys)"
    if x: "seg 10 12 xs" "unpublished xs" "accounted rc rc' xs" "baked xs" and y: "seg 13 13 ys" "arm_post role rc' r ys"
    for w xs ys r rc'
  proof -
    have safe: "armed_safely (xs @ ys)"
      unfolding armed_safely_def
    proof
      assume "arms (xs @ ys)"
      then have "arms ys" using seg_no_arm [OF x(1)] by simp
      then obtain zs a where "ys = zs @ [Ran arm_command a]" "\<not> arms zs" "zs \<noteq> []" "last zs = Tried LockTaken"
        using y(2) by (auto simp: arm_post_def armed_last_def)
      then show "\<exists>zs a. xs @ ys = zs @ [Ran arm_command a] \<and> \<not> arms zs \<and> zs \<noteq> [] \<and> last zs = Tried LockTaken \<and> baked zs"
        using seg_no_arm [OF x(1)] baked_extend [OF x(4), of "[]" zs]
        by (intro exI [of _ "xs @ zs"] exI [of _ a]) simp
    qed
    have "armed_safely (?p w @ xs @ ys)"
      by (rule armed_safely_prefix [OF _ safe]) (simp add: arms_def)
    moreover have "seg 10 13 (xs @ ys)" by (rule seg_append [OF x(1) y(1)]) simp_all
    moreover have "accounted rc rc'' (?p w @ xs @ ys)" if "accounted rc' rc'' ys" for rc''
      using accounted_trans [OF x(3) that] by (simp add: accounted_def)
    ultimately show ?thesis
      using unpublished_publishes [OF x(2)] y(2)
      by (cases r) (auto simp: bonded_post_def arm_post_def publishes_def seg_def)
  qed
  show ?thesis
    unfolding leader_phase_def
  proof (intro traces_bind unit_is_active_traced traces_if)
    fix w
    show "traces (disable_crossover_unit d)
        (\<lambda>a xs. traces (give (Go (False, block, 1))) (\<lambda>b ys. ?Q b (?p w @ xs @ ys)))"
      by (intro traced) (use down in simp)
    show "traces (leader_bake d rc) (\<lambda>b xs. traces (case b of (bake_ok, rc') \<Rightarrow>
        if bake_ok then arm_phase n d role block rc' else give (Go (False, block, 1))) (\<lambda>b ys. ?Q b (?p w @ xs @ ys)))"
      by (rule traces_mono [OF leader_bake_segment])
        (use skipped went in \<open>auto intro!: traces_give traces_mono [OF arm_segment]\<close>)
  qed
qed

lemma bonded_apply_segment:
  "traces (bonded_apply_phase n d role block rc) (\<lambda>r xs. seg 10 13 xs \<and> bonded_post role rc r xs \<and>
     (\<not> rd_active_leader role \<and> \<not> rd_passive_leader role \<and> \<not> rd_active_speaker_leader role \<longrightarrow>
        r = Go (False, block, rc) \<and> xs = []))"
  unfolding bonded_apply_phase_def
  by (intro traced traces_mono [OF leader_segment])
    (auto simp: seg_def bonded_post_def publishes_def armed_safely_def arms_def accounted_def stage.simps)

section \<open>Binding, grant and hand-over\<close>

lemma stage_13: "stage x = Some 13 \<longleftrightarrow> (\<exists>a. x = Ran arm_command a)"
proof
  assume "stage x = Some 13"
  then show "\<exists>a. x = Ran arm_command a"
    by (cases x) (auto simp: stage.simps split: if_splits engine_call.splits)
qed auto

lemma arms_iff: "arms xs \<longleftrightarrow> (\<exists>a. Ran arm_command a \<in> set xs)"
proof -
  have "k \<in> set (stages xs) \<longleftrightarrow> (\<exists>x \<in> set xs. stage x = Some k)" for k
    by (induction xs) (auto split: option.split)
  then show ?thesis by (auto simp: arms_def stage_13)
qed

definition armed_only :: "act list \<Rightarrow> bool" where
  "armed_only xs \<longleftrightarrow> (\<forall>pre a post. xs = pre @ Ran arm_command a # post \<longrightarrow>
     pre \<noteq> [] \<and> last pre = Tried LockTaken \<and> baked pre \<and> \<not> arms pre \<and> \<not> arms post)"

lemma armed_only_no: "\<not> arms xs \<Longrightarrow> armed_only xs"
  by (auto simp: armed_only_def arms_iff)

lemma armed_only_safely: "armed_safely xs \<Longrightarrow> armed_only xs"
  unfolding armed_only_def
proof (intro allI impI)
  fix pre a post
  assume s: "armed_safely xs" and x: "xs = pre @ Ran arm_command a # post"
  then have "arms xs" by (auto simp: arms_iff)
  then obtain ys b where y: "xs = ys @ [Ran arm_command b]" "\<not> arms ys" "ys \<noteq> []" "last ys = Tried LockTaken" "baked ys"
    using s by (auto simp: armed_safely_def)
  have "post = []"
  proof (rule ccontr)
    assume "post \<noteq> []"
    then have "ys = pre @ Ran arm_command a # butlast post" using x y(1) by (metis append_butlast_last_id append_Cons append_assoc append1_eq_conv)
    then have "arms ys" by (auto simp: arms_iff)
    then show False using y(2) by simp
  qed
  then show "pre \<noteq> [] \<and> last pre = Tried LockTaken \<and> baked pre \<and> \<not> arms pre \<and> \<not> arms post"
    using x y by (auto simp: arms_def)
qed

lemma mark_split:
  "xs @ ys = pre @ m # post \<Longrightarrow>
   (\<exists>zs. xs = pre @ m # zs \<and> post = zs @ ys) \<or> (\<exists>zs. pre = xs @ zs \<and> ys = zs @ m # post)"
  by (auto simp: append_eq_append_conv2 append_eq_Cons_conv)

lemma armed_only_append:
  assumes "armed_only xs" "\<not> arms ys"
  shows "armed_only (xs @ ys)"
  unfolding armed_only_def
proof (intro allI impI)
  fix pre a post
  assume e: "xs @ ys = pre @ Ran arm_command a # post"
  then consider zs where "xs = pre @ Ran arm_command a # zs" "post = zs @ ys"
    | zs where "pre = xs @ zs" "ys = zs @ Ran arm_command a # post"
    using mark_split [OF e] by blast
  then show "pre \<noteq> [] \<and> last pre = Tried LockTaken \<and> baked pre \<and> \<not> arms pre \<and> \<not> arms post"
  proof cases
    case 1
    then show ?thesis using assms by (auto simp: armed_only_def)
  next
    case 2
    then have False using assms(2) by (auto simp: arms_iff)
    then show ?thesis ..
  qed
qed

lemma armed_only_prepend:
  assumes "\<not> arms xs" "armed_only ys"
  shows "armed_only (xs @ ys)"
  unfolding armed_only_def
proof (intro allI impI)
  fix pre a post
  assume e: "xs @ ys = pre @ Ran arm_command a # post"
  then consider zs where "xs = pre @ Ran arm_command a # zs" | zs where "pre = xs @ zs" "ys = zs @ Ran arm_command a # post"
    using mark_split [OF e] by blast
  then show "pre \<noteq> [] \<and> last pre = Tried LockTaken \<and> baked pre \<and> \<not> arms pre \<and> \<not> arms post"
  proof cases
    case 1
    then have False using assms(1) by (auto simp: arms_iff)
    then show ?thesis ..
  next
    case 2
    then show ?thesis using assms baked_extend [of zs xs "[]"] by (auto simp: armed_only_def)
  qed
qed

lemma binding_segment:
  "traces (binding_phase d role blocked rc) (\<lambda>rc' xs. seg 14 14 xs \<and> unpublished xs \<and> accounted rc rc' xs \<and>
     (\<not> rd_active_leader role \<longrightarrow> xs = [] \<and> rc' = rc))"
  unfolding binding_phase_def by (intro traced) (auto simp: seg_defs)

lemma follower_segment:
  "traces (follower_phase d role rc) (\<lambda>rc' xs. seg 15 15 xs \<and> unpublished xs \<and> accounted rc rc' xs \<and>
     (\<not> rd_active_follower role \<longrightarrow> xs = [] \<and> rc' = rc))"
  unfolding follower_phase_def by (intro traced) (auto simp: seg_defs stage.simps)

definition granting :: "act list \<Rightarrow> bool" where
  "granting xs \<longleftrightarrow> (\<exists>l r ok. xs = [Published False l r (Some True) ok])"

lemma grant_segment:
  "traces (grant_phase d role f block rc) (\<lambda>rc' xs. stages xs = [] \<and> accounted rc rc' xs \<and>
     (xs = [] \<or> granting xs \<and> (rd_refused_follower_fallback role \<or> rd_transitioning role) \<and> transition_landed f \<and>
        (rd_refused_follower_fallback role \<or> rc = 0)))"
  unfolding grant_phase_def by (intro traced) (auto simp: granting_def accounted_def)

definition handing_over :: "act \<Rightarrow> bool" where
  "handing_over x \<longleftrightarrow> probe_act x \<or> (\<exists>verb a. x = Ran [verb, SOURCE_INTENT_RECONCILE_UNIT] a)"

lemma converge_segment:
  "traces (converge_phase d role changed rc) (\<lambda>rc' xs. seg 16 16 xs \<and> list_all handing_over xs \<and> accounted rc rc' xs)"
proof -
  have h: "handing_over (Probed q u w)" "handing_over (Ran [verb, SOURCE_INTENT_RECONCILE_UNIT] a)" for q u w verb a
    by (auto simp: handing_over_def)
  show ?thesis
    unfolding converge_phase_def
    by (intro traces_bind converge_traced traces_give)
      (auto simp: accounted_def seg_def h)
qed

section \<open>The second half of a pass\<close>

definition role_sound :: "role_decision \<Rightarrow> bool" where
  "role_sound role \<longleftrightarrow> planned (rd_plan role) \<and>
     (rd_passive_leader role \<longrightarrow> rd_active_leader role) \<and>
     (rd_active_speaker_leader role \<longrightarrow> rd_active_leader role \<and> rd_active_endpoint role) \<and>
     (rd_refused_follower_fallback role \<longrightarrow> \<not> rd_active_leader role \<and> \<not> rd_active_follower role) \<and>
     (\<not> rd_active role \<longrightarrow> \<not> rd_active_leader role \<and> \<not> rd_active_follower role \<and>
        (\<forall>it \<in> set (rd_plan role). ui_desired it = StopUnit))"

definition tail_ok :: "bool \<Rightarrow> (act list \<Rightarrow> bool) \<Rightarrow> act list \<Rightarrow> bool" where
  "tail_ok allowed earned xs \<longleftrightarrow>
     (\<exists>us gs vs. xs = us @ gs @ vs \<and> publishes allowed us \<and> list_all handing_over vs \<and>
        (gs = [] \<or> granting gs \<and> \<not> allowed \<and> earned us))"

lemma handing_unpublished: "list_all handing_over xs \<Longrightarrow> unpublished xs"
  by (auto simp: unpublished_def handing_over_def probe_act_def list_all_iff)

lemma landed_seg: "seg 10 hi xs \<Longrightarrow> list_all clean xs \<Longrightarrow> list_all landed xs"
proof -
  assume s: "seg 10 hi xs" and c: "list_all clean xs"
  have "Wrote ARGS_FILE b False \<notin> set xs" for b
  proof
    assume "Wrote ARGS_FILE b False \<in> set xs"
    then have "1 \<in> set (stages xs)" by (induction xs) (auto split: option.split)
    then show False using s by (auto simp: seg_def)
  qed
  then show ?thesis using c by (auto simp: landed_def list_all_iff)
qed

lemma bonded_part_segment:
  assumes role: "role_sound role"
  shows "traces (bonded_part n d role f changed block rc)
    (\<lambda>r xs. seg 10 16 xs \<and> armed_only xs \<and>
      (case r of Stop e \<Rightarrow> bonded_stop e \<and> publishes (local_sources_allowed role) xs
       | Go rc' \<Rightarrow> accounted rc rc' xs \<and>
           tail_ok (local_sources_allowed role) (\<lambda>us. transition_landed f \<and> list_all landed us) xs))"
    (is "traces _ ?Q")
proof -
  have whole: "?Q (Go rc4) (ws @ bs @ fs @ gs @ vs)"
    if w: "seg 10 13 ws" "publishes (local_sources_allowed role) ws" "armed_safely ws" "accounted rc rc0 ws"
        "rd_refused_follower_fallback role \<longrightarrow> ws = [] \<and> rc0 = rc"
      and b: "seg 14 14 bs" "unpublished bs" "accounted rc0 rc1 bs" "\<not> rd_active_leader role \<longrightarrow> bs = [] \<and> rc1 = rc0"
      and f: "seg 15 15 fs" "unpublished fs" "accounted rc1 rc2 fs" "\<not> rd_active_follower role \<longrightarrow> fs = [] \<and> rc2 = rc1"
      and g: "stages gs = []" "accounted rc2 rc3 gs"
        "gs = [] \<or> granting gs \<and> (rd_refused_follower_fallback role \<or> rd_transitioning role) \<and> transition_landed f \<and>
           (rd_refused_follower_fallback role \<or> rc2 = 0)"
      and v: "seg 16 16 vs" "list_all handing_over vs" "accounted rc3 rc4 vs"
    for ws bs fs gs vs rc0 rc1 rc2 rc3 rc4
  proof -
    let ?us = "ws @ bs @ fs"
    have s1: "seg 10 14 (ws @ bs)" by (rule seg_append [OF w(1) b(1)]) simp_all
    have s2: "seg 10 15 ?us" using seg_append [OF s1 f(1), of] by simp
    have s3: "seg 10 16 (?us @ vs)" by (rule seg_append [OF s2 v(1)]) simp_all
    then have "seg 10 16 (ws @ bs @ fs @ gs @ vs)" using g(1) by (simp add: seg_def)
    moreover have "armed_only (ws @ bs @ fs @ gs @ vs)"
      using armed_only_append [OF armed_only_safely [OF w(3)], of "bs @ fs @ gs @ vs"]
        seg_no_arm [OF b(1)] seg_no_arm [OF f(1)] seg_no_arm [OF v(1)] g(1) by (simp add: arms_def)
    moreover have acc: "accounted rc rc2 ?us" using accounted_trans [OF w(4) accounted_trans [OF b(3) f(3)]] by simp
    then have "accounted rc rc4 (ws @ bs @ fs @ gs @ vs)"
      using accounted_trans [OF acc accounted_trans [OF g(2) v(3)]] by simp
    moreover have pub: "publishes (local_sources_allowed role) ?us"
      using w(2) unpublished_publishes [OF b(2)] unpublished_publishes [OF f(2)] by simp
    moreover have grant: "list_all landed ?us \<and> transition_landed f \<and> \<not> local_sources_allowed role" if "gs \<noteq> []"
    proof (cases "rd_refused_follower_fallback role")
      case True
      then show ?thesis using that w(5) b(4) f(4) g(3) role by (simp add: role_sound_def local_sources_allowed_def)
    next
      case False
      then have "rc2 = 0" "transition_landed f" "rd_transitioning role" using that g(3) by auto
      then show ?thesis using landed_seg [OF s2] acc by (simp add: accounted_def local_sources_allowed_def)
    qed
    moreover have "tail_ok (local_sources_allowed role) (\<lambda>us. transition_landed f \<and> list_all landed us)
        (ws @ bs @ fs @ gs @ vs)"
      unfolding tail_ok_def
      by (rule exI [of _ ?us], rule exI [of _ gs], rule exI [of _ vs]) (use pub v(2) g(3) grant in auto)
    ultimately show ?thesis by simp
  qed
  show ?thesis
    unfolding bonded_part_def
  proof (rule traces_stepwise [OF bonded_apply_segment])
    fix e xs
    assume "seg 10 13 xs \<and> bonded_post role rc (Stop e) xs \<and>
       (\<not> rd_active_leader role \<and> \<not> rd_passive_leader role \<and> \<not> rd_active_speaker_leader role \<longrightarrow>
          Stop e = Go (False, block, rc) \<and> xs = [])"
    then show "?Q (Stop e) xs"
      using seg_weaken [of 10 13 xs 10 16] by (auto simp: bonded_post_def intro: armed_only_safely)
  next
    fix x xs
    assume a: "seg 10 13 xs \<and> bonded_post role rc (Go x) xs \<and>
       (\<not> rd_active_leader role \<and> \<not> rd_passive_leader role \<and> \<not> rd_active_speaker_leader role \<longrightarrow>
          Go x = Go (False, block, rc) \<and> xs = [])"
    obtain blocked block' rc0 where x: "x = (blocked, block', rc0)" by (cases x)
    have w: "seg 10 13 xs" "publishes (local_sources_allowed role) xs" "armed_safely xs" "accounted rc rc0 xs"
        "rd_refused_follower_fallback role \<longrightarrow> xs = [] \<and> rc0 = rc"
      using a role by (auto simp: bonded_post_def x role_sound_def)
    show "traces (case x of (blocked, block, rc) \<Rightarrow> binding_phase d role blocked rc \<bind> (\<lambda>rc.
        follower_phase d role rc \<bind> (\<lambda>rc. grant_phase d role f block rc \<bind> (\<lambda>rc.
          converge_phase d role changed rc \<bind> (\<lambda>rc. give (Go rc)))))) (\<lambda>b ys. ?Q b (xs @ ys))"
      unfolding x prod.case
      by (rule traces_then [OF binding_segment], rule traces_then [OF follower_segment],
          rule traces_then [OF grant_segment], rule traces_then [OF converge_segment], rule traces_give)
        (simp only: append_Nil2, elim conjE, rule whole [OF w]; assumption)
  qed
qed

lemma unit_seg_append:
  "unit_seg lo m rc rc1 f xs \<Longrightarrow> unit_seg m' hi rc1 rc2 g ys \<Longrightarrow> m \<le> m' \<Longrightarrow> lo \<le> m' \<Longrightarrow> m \<le> hi \<Longrightarrow>
   unit_seg lo hi rc rc2 (f \<and> g) (xs @ ys)"
  by (auto simp: unit_seg_def intro: seg_append accounted_trans)

definition second_half :: "bool \<Rightarrow> nat \<Rightarrow> nat \<Rightarrow> nat step \<Rightarrow> act list \<Rightarrow> bool" where
  "second_half allowed lo rc r xs \<longleftrightarrow> seg lo 16 xs \<and> armed_only xs \<and>
     (case r of Stop e \<Rightarrow> bonded_stop e \<and> publishes allowed xs
      | Go rc' \<Rightarrow> accounted rc rc' xs \<and> tail_ok allowed (list_all landed) xs)"

text \<open>Unit phases before, a stop or the bonded part after.\<close>

lemma second_half_stop:
  assumes "unit_seg lo m rc rc1 f xs" "stopped m' hi e ys" "m \<le> m'" "lo \<le> m'" "m \<le> hi" "hi < 13"
  shows "second_half allowed lo rc (Stop e) (xs @ ys)"
proof -
  have "seg lo hi (xs @ ys)" using assms seg_append by (auto simp: unit_seg_def stopped_def)
  then show ?thesis
    using assms seg_no_arm [of lo hi "xs @ ys"] seg_weaken [of lo hi "xs @ ys" lo 16]
    by (auto simp: second_half_def unit_seg_def stopped_def bonded_stop_def unpublished_publishes
        intro: armed_only_no)
qed

lemma second_half_bonded:
  assumes u: "unit_seg lo m rc rc1 flag xs" "m < 10" "lo \<le> m" "transition_landed f \<longrightarrow> flag"
    and b: "seg 10 16 ys \<and> armed_only ys \<and>
      (case r of Stop e \<Rightarrow> bonded_stop e \<and> publishes allowed ys
       | Go rc' \<Rightarrow> accounted rc1 rc' ys \<and> tail_ok allowed (\<lambda>us. transition_landed f \<and> list_all landed us) ys)"
  shows "second_half allowed lo rc r (xs @ ys)"
proof -
  have s: "seg lo 16 (xs @ ys)"
    using seg_append [of lo m xs 10 16 ys] assms by (simp add: unit_seg_def)
  have "\<not> arms xs" using u seg_no_arm [of lo m xs] by (simp add: unit_seg_def)
  then have a: "armed_only (xs @ ys)" using b armed_only_prepend by blast
  show ?thesis
  proof (cases r)
    case (Stop e)
    then show ?thesis using s a b u by (simp add: second_half_def unit_seg_def unpublished_publishes)
  next
    case (Go rc')
    then have t: "tail_ok allowed (\<lambda>us. transition_landed f \<and> list_all landed us) ys" and acc: "accounted rc1 rc' ys"
      using b by simp_all
    obtain us gs vs where t: "ys = us @ gs @ vs" "publishes allowed us" "list_all handing_over vs"
        "gs = [] \<or> granting gs \<and> \<not> allowed \<and> transition_landed f \<and> list_all landed us"
      using t unfolding tail_ok_def by blast
    have "tail_ok allowed (list_all landed) (xs @ ys)"
      unfolding tail_ok_def
      by (rule exI [of _ "xs @ us"], rule exI [of _ gs], rule exI [of _ vs])
        (use t u in \<open>auto simp: unit_seg_def unpublished_publishes\<close>)
    then show ?thesis
      using s a Go accounted_trans [OF _ acc] u(1) by (simp add: second_half_def unit_seg_def)
  qed
qed

lemma unit_seg_stop:
  "unit_seg lo m rc rc1 f xs \<Longrightarrow> stopped m' hi e ys \<Longrightarrow> m \<le> m' \<Longrightarrow> lo \<le> m' \<Longrightarrow> m \<le> hi \<Longrightarrow> stopped lo hi e (xs @ ys)"
  by (auto simp: unit_seg_def stopped_def intro: seg_append)

lemma stopped_weaken: "stopped lo hi e xs \<Longrightarrow> lo' \<le> lo \<Longrightarrow> hi \<le> hi' \<Longrightarrow> stopped lo' hi' e xs"
  by (auto simp: stopped_def intro: seg_weaken)

lemma graph_part_segment:
  "traces (graph_part d role prior rc)
     (\<lambda>r xs. case r of Stop e \<Rightarrow> stopped 1 3 e xs
        | Go (wrote, ok, solo_ok, outputd_ok, rc') \<Rightarrow> unit_seg 1 3 rc rc' (wrote \<and> ok \<and> solo_ok \<and> outputd_ok) xs)"
  unfolding graph_part_def
proof (rule traces_stepwise [OF files_segment], goal_cases)
  case (1 e xs)
  then show ?case by (auto intro: stopped_weaken)
next
  case (2 x xs)
  obtain wrote changed ok rc1 where xe: "x = (wrote, changed, ok, rc1)" by (cases x) auto
  have 1: "unit_seg 1 1 rc rc1 (wrote \<and> ok) xs" using 2 by (simp add: xe)
  have 3: "unit_seg 1 3 rc rc3 (wrote \<and> ok \<and> a \<and> b) (xs @ ys @ zs)"
    if "unit_seg 2 2 rc1 rc2 a ys" "unit_seg 3 3 rc2 rc3 b zs" for rc2 rc3 a b ys zs
    using unit_seg_append [OF unit_seg_append [OF 1 that(1)] that(2)] by simp
  show ?case
    unfolding xe prod.case
    by (rule traces_then [OF solo_restore_segment], rule traces_prod, rule traces_then [OF outputd_segment],
        rule traces_prod, rule traces_give) (use 3 in simp)
qed

lemma consumer_part_segment:
  "traces (consumer_part d role rc)
     (\<lambda>r xs. case r of Stop e \<Rightarrow> stopped 4 6 e xs
        | Go (voice_ok, refresh_ok, changed, ok, rc') \<Rightarrow> unit_seg 4 6 rc rc' (voice_ok \<and> refresh_ok \<and> ok) xs)"
  unfolding consumer_part_def
proof (rule traces_stepwise [OF voice_segment], goal_cases)
  case (1 e xs)
  then show ?case by (auto intro: stopped_weaken)
next
  case (2 x xs)
  obtain v r rc1 where xe: "x = (v, r, rc1)" by (cases x) auto
  have 1: "unit_seg 4 5 rc rc1 (v \<and> r) xs" using 2 by (simp add: xe)
  have s: "stopped 4 6 e (xs @ ys)" if "stopped 6 6 e ys" for e ys using unit_seg_stop [OF 1 that] by simp
  have g: "unit_seg 4 6 rc rc2 (v \<and> r \<and> ok) (xs @ ys)" if "unit_seg 6 6 rc1 rc2 ok ys" for rc2 ok ys
    using unit_seg_append [OF 1 that] by simp
  show ?case
    unfolding xe prod.case
    by (rule traces_stepwise [OF airplay_segment]) (use s g in \<open>auto intro!: traces_give split: prod.split\<close>)
qed

lemma plan_part_segment:
  assumes "planned (rd_plan role)"
  shows "traces (plan_part d role changed ok rc)
     (\<lambda>(units_changed, apply_rc, refresh_ok, rc') xs. unit_seg 7 9 rc rc' (apply_rc = 0 \<and> refresh_ok) xs)"
proof -
  have 2: "unit_seg 7 9 rc rc2 (a \<and> b) (xs @ ys)"
    if "unit_seg 7 8 rc rc1 a xs" "unit_seg 9 9 rc1 rc2 b ys" for rc1 rc2 a b xs ys
    using unit_seg_append [OF that] by simp
  show ?thesis
    unfolding plan_part_def
    by (rule traces_then [OF plan_segment [OF assms]], rule traces_prod, rule traces_prod,
        rule traces_then [OF airplay_refresh_segment], rule traces_prod, rule traces_give) (use 2 in simp)
qed

lemma unit_part_segment:
  assumes role: "role_sound role"
  shows "traces (unit_part n d role prior block rc) (second_half (local_sources_allowed role) 1 rc)"
    (is "traces _ ?Q")
  unfolding unit_part_def
proof (rule traces_stepwise [OF graph_part_segment], goal_cases)
  case (1 e xs)
  then show ?case
    using second_half_stop [where lo = 1 and m = 1 and rc = rc and ?rc1.0 = rc and f = True and xs = "[]" and m' = 1 and hi = 3 and ys = xs]
    by (simp add: unit_seg_def unpublished_def accounted_def)
next
  case (2 x xs)
  obtain wrote ok solo_ok outputd_ok rc1 where xe: "x = (wrote, ok, solo_ok, outputd_ok, rc1)" by (cases x) auto
  have 1: "unit_seg 1 3 rc rc1 (wrote \<and> ok \<and> solo_ok \<and> outputd_ok) xs" using 2 by (simp add: xe)
  have p: "planned (rd_plan role)" using role by (simp add: role_sound_def)
  have bonded: "traces (bonded_part n d role
           \<lparr>pf_wrote = wrote, pf_env_ok = ok, pf_solo_restore_ok = solo_ok, pf_outputd_restart_ok = outputd_ok,
            pf_voice_ok = v, pf_voice_refresh_ok = vr, pf_airplay_ok = a, pf_airplay_refresh_ok = ar, pf_apply_rc = ac\<rparr>
           changed block rc3) (\<lambda>b zs'. ?Q b (xs @ ys @ zs @ zs'))"
    if y: "unit_seg 4 6 rc1 rc2 (v \<and> vr \<and> a) ys" and z: "unit_seg 7 9 rc2 rc3 (ac = 0 \<and> ar) zs"
    for v vr a ar ac changed rc2 rc3 ys zs
  proof -
    have u: "unit_seg 1 9 rc rc3 (((wrote \<and> ok \<and> solo_ok \<and> outputd_ok) \<and> v \<and> vr \<and> a) \<and> ac = 0 \<and> ar) ((xs @ ys) @ zs)"
      by (rule unit_seg_append [OF unit_seg_append [OF 1 y] z]; simp)
    show ?thesis
    proof (rule traces_mono [OF bonded_part_segment [OF role]], goal_cases)
      case (1 r ws)
      have "second_half (local_sources_allowed role) 1 rc r (((xs @ ys) @ zs) @ ws)"
        by (rule second_half_bonded [OF u _ _ _ 1]) (simp_all add: transition_landed_def)
      then show ?case by simp
    qed
  qed
  have stop: "?Q (Stop e) (xs @ ys)" if "stopped 4 6 e ys" for e ys
    by (rule second_half_stop [OF 1 that]) simp_all
  show ?case
    unfolding xe prod.case
  proof (rule traces_stepwise [OF consumer_part_segment], goal_cases)
    case (1 e ys)
    then show ?case using stop by simp
  next
    case (2 y ys)
    obtain v vr ch a rc2 where ye: "y = (v, vr, ch, a, rc2)" by (cases y) auto
    have y: "unit_seg 4 6 rc1 rc2 (v \<and> vr \<and> a) ys" using 2 by (simp add: ye)
    show ?case
      unfolding ye prod.case
    proof (rule traces_then [OF plan_part_segment [OF p]], goal_cases)
      case (1 z zs)
      then show ?case using bonded [OF y] by (cases z) simp
    qed
  qed
qed

section \<open>What an inactive role leaves alone\<close>

definition bonded_stages :: "nat set" where
  "bonded_stages = {8, 10, 11, 12, 13, 14, 15}"

definition permitted :: "role_decision \<Rightarrow> act list \<Rightarrow> bool" where
  "permitted role xs \<longleftrightarrow> (arms xs \<longrightarrow> rd_active_speaker_leader role) \<and>
     (\<not> rd_active role \<longrightarrow> set (stages xs) \<inter> bonded_stages = {})"

lemma permitted_append [simp]: "permitted role (xs @ ys) \<longleftrightarrow> permitted role xs \<and> permitted role ys"
  by (auto simp: permitted_def)

lemma traces_conj: "traces m Q \<Longrightarrow> traces m R \<Longrightarrow> traces m (\<lambda>a xs. Q a xs \<and> R a xs)"
  unfolding traces_def by (metis Pair_inject same_append_eq)

lemma seg_permitted: "seg lo hi xs \<Longrightarrow> hi \<le> 7 \<or> lo = 9 \<and> hi = 9 \<or> lo = 16 \<Longrightarrow> permitted role xs"
  by (fastforce simp: seg_def permitted_def arms_def bonded_stages_def)

definition stays :: "role_decision \<Rightarrow> ('w, 'a) pass \<Rightarrow> bool" where
  "stays role m \<longleftrightarrow> traces m (\<lambda>_ xs. permitted role xs)"

lemma stays_bind: "stays role m \<Longrightarrow> (\<And>a. stays role (k a)) \<Longrightarrow> stays role (m \<bind> k)"
  unfolding stays_def by (erule traces_then) (auto elim: traces_mono)

lemma stays_give: "stays role (give a)"
  by (simp add: stays_def traces_give permitted_def arms_def)

lemma stays_stepwise: "stays role m \<Longrightarrow> (\<And>a. stays role (k a)) \<Longrightarrow> stays role (stepwise m k)"
  unfolding stepwise_def by (rule stays_bind) (auto intro: stays_give split: step.split)

lemma stays_prod: "(\<And>a b. stays role (f a b)) \<Longrightarrow> stays role (case p of (a, b) \<Rightarrow> f a b)"
  by (cases p) simp

lemmas stays_rules = stays_bind stays_give stays_stepwise stays_prod

lemma stays_segment:
  "traces m Q \<Longrightarrow> (\<And>a xs. Q a xs \<Longrightarrow> permitted role xs) \<Longrightarrow> stays role m"
  unfolding stays_def by (rule traces_mono)

lemma plan_permitted:
  assumes "role_sound role"
  shows "stays role (plan_phase d role rc)"
proof -
  have no13: "\<not> arms (map2 intent_act its as)" for its as
    by (induction its as rule: list_induct2') (auto simp: arms_iff intent_act_def CROSSOVER_UNIT_def)
  have stops: "set (stages (map2 intent_act its as)) \<inter> bonded_stages = {}"
    if "\<forall>it \<in> set its. ui_desired it = StopUnit" for its as
    using that
    by (induction its as rule: list_induct2')
      (auto simp: intent_act_def stage.simps unit_names bonded_stages_def split: option.splits if_splits)
  have "permitted role (ps @ map2 intent_act (rd_plan role) as)" if "list_all probe_act ps" for ps as
    using that assms stops [of "rd_plan role" as] no13 unstaged_acts(1) [OF that]
    by (auto simp: permitted_def role_sound_def arms_def)
  then show ?thesis
    unfolding plan_phase_def stays_def
    by (intro traces_bind traces_mono [OF plan_changes_traces] traces_mono [OF apply_plan_traces] traces_give) auto
qed

lemma bonded_permitted:
  assumes "role_sound role"
  shows "stays role (bonded_part n d role f changed block rc)"
proof -
  have "stays role (bonded_apply_phase n d role block rc)"
  proof (cases "rd_active_speaker_leader role \<and> \<not> rd_passive_leader role")
    case True
    then have "rd_active role" using assms by (auto simp: role_sound_def)
    then show ?thesis
      using True by (intro stays_segment [OF bonded_apply_segment]) (simp add: permitted_def)
  next
    case False
    then show ?thesis
      using assms unfolding bonded_apply_phase_def stays_def
      by (intro traced) (auto simp: permitted_def arms_def role_sound_def bonded_stages_def stage.simps)
  qed
  moreover have "stays role (binding_phase d role blocked rc)" for blocked rc
    using assms by (intro stays_segment [OF binding_segment]) (auto simp: seg_def permitted_def arms_def role_sound_def)
  moreover have "stays role (follower_phase d role rc)" for rc
    using assms by (intro stays_segment [OF follower_segment]) (auto simp: seg_def permitted_def arms_def role_sound_def)
  moreover have "stays role (grant_phase d role f block rc)" for block rc
    by (intro stays_segment [OF grant_segment]) (auto simp: permitted_def arms_def)
  moreover have "stays role (converge_phase d role changed rc)" for rc
    by (intro stays_segment [OF converge_segment]) (auto intro: seg_permitted)
  ultimately show ?thesis unfolding bonded_part_def by (intro stays_rules)
qed

lemma unit_part_permitted:
  assumes "role_sound role"
  shows "stays role (unit_part n d role prior block rc)"
proof -
  have graph: "stays role (graph_part d role prior rc)"
    by (rule stays_segment [OF graph_part_segment])
      (auto simp: unit_seg_def stopped_def split: step.splits dest: seg_permitted)
  have consumer: "stays role (consumer_part d role rc)" for rc
    by (rule stays_segment [OF consumer_part_segment])
      (auto simp: unit_seg_def stopped_def split: step.splits dest: seg_permitted)
  have refresh: "stays role (airplay_refresh_phase d role changed ok rc)" for changed ok rc
    by (rule stays_segment [OF airplay_refresh_segment]) (auto simp: unit_seg_def dest: seg_permitted)
  have "stays role (plan_part d role changed ok rc)" for changed ok rc
    unfolding plan_part_def using plan_permitted [OF assms] refresh by (intro stays_rules)
  then show ?thesis
    unfolding unit_part_def using graph consumer bonded_permitted [OF assms] by (intro stays_rules)
qed

section \<open>The first half of a pass\<close>

lemma plan_planned [simp]: "planned (plan cfg)"
  by (auto simp: planned_def)

lemma plan_stops: "it \<in> set (plan cfg) \<Longrightarrow> \<not> (gc_enabled cfg \<and> gc_error cfg = None) \<Longrightarrow> ui_desired it = StopUnit"
  by (auto simp: plan_def split: if_splits)

lemma decide_role_sound: "role_sound (decide_role cfg box flat period prior)"
  by (auto simp: role_sound_def decide_role_def Let_def dest: plan_stops)

lemma with_fallback_sound: "role_sound (with_fallback role)"
  by (auto simp: role_sound_def with_fallback_def Let_def dest: plan_stops)

lemma with_fallback_inactive [simp]:
  "\<not> rd_active (with_fallback role)" "\<not> rd_active_endpoint (with_fallback role)"
  "\<not> rd_active_speaker_leader (with_fallback role)"
  by (simp_all add: with_fallback_def Let_def)

lemma provision_segment:
  "traces (provision_phase d role rc) (\<lambda>rc' xs. seg 0 0 xs \<and> unpublished xs \<and> accounted rc rc' xs \<and>
     (\<forall>x \<in> set xs. \<exists>p. x = Provisioned p))"
  unfolding provision_phase_def by (intro traced) (auto simp: seg_defs)

text \<open>Either the role goes on as it was, prechecked when it needs it, or it falls back to solo.\<close>

lemma endpoint_segment:
  "traces (endpoint_gate d role rc block)
     (\<lambda>r xs. seg 0 0 xs \<and> unpublished xs \<and>
        (case r of Stop e \<Rightarrow> e = PassRaised
         | Go (role', rc', block') \<Rightarrow> accounted rc rc' xs \<and>
             (role' = with_fallback role \<or>
              role' = role \<and> (\<forall>c e. Called c (CallRaised e) \<notin> set xs) \<and>
                (rd_active_endpoint role \<and> rd_active_speaker_leader role \<longrightarrow>
                Called (PrecheckLeader (rd_cfg role)) CallDone \<in> set xs))))"
proof -
  have "traces (case a of
          CallDone \<Rightarrow> give (Go (role, rc, block))
        | CallRaised (RuntimeExn reason) \<Rightarrow>
            give (Go (with_fallback role, 1,
              case reason of None \<Rightarrow> ''active_endpoint_precheck_error'' | Some r \<Rightarrow> r))
        | CallRaised _ \<Rightarrow> give (Stop PassRaised)) Q"
    if "a = CallDone \<Longrightarrow> Q (Go (role, rc, block)) []" "\<And>b. a \<noteq> CallDone \<Longrightarrow> Q (Go (with_fallback role, 1, b)) []"
      "Q (Stop PassRaised) []" for a Q
    using that by (cases a rule: call_answer.exhaust; (cases "THE x. a = CallRaised x")?)
      (auto intro!: traces_give split: engine_exn.split)
  note answer = this
  show ?thesis
    unfolding endpoint_gate_def
    by (intro traces_if traces_bind engine_traced answer traces_give) (auto simp: seg_defs stage.simps)
qed

lemma crossover_segment:
  "traces (crossover_gate d role)
     (\<lambda>r xs. seg 0 0 xs \<and>
        (case r of Stop e \<Rightarrow> e = ExitCode 1 \<and> publishes (local_sources_allowed role) xs
         | Go owned \<Rightarrow> unpublished xs \<and> list_all clean xs))"
  unfolding crossover_gate_def block_active_restore_def
  by (intro traced) (auto simp: seg_defs publishes_def)

lemma publish_segment:
  "traces (publish_phase d role block)
     (\<lambda>r xs. \<exists>f l b ok. xs = [Published f l b (Some (local_sources_allowed role)) ok] \<and>
        r = (if ok then Go () else Stop (ExitCode 1)))"
  unfolding publish_phase_def by (intro traced) auto

section \<open>The whole pass\<close>

definition grants_earned :: "bool \<Rightarrow> act list \<Rightarrow> bool" where
  "grants_earned allowed xs \<longleftrightarrow>
     (\<exists>es us gs vs. xs = es @ us @ gs @ vs \<and> unpublished es \<and> publishes allowed us \<and> list_all handing_over vs \<and>
        (gs = [] \<or> granting gs \<and> \<not> allowed \<and> list_all landed us))"

definition bond_refused :: "act list \<Rightarrow> bool" where
  "bond_refused xs \<longleftrightarrow> (\<exists>c e. Called (PrecheckLeader c) (CallRaised e) \<in> set xs \<or>
     Called (PrecheckFollower c) (CallRaised e) \<in> set xs)"

definition pass_post :: "role_decision \<Rightarrow> nat step \<Rightarrow> act list \<Rightarrow> bool" where
  "pass_post role r xs \<longleftrightarrow> seg 0 16 xs \<and> armed_only xs \<and> (\<exists>allowed. grants_earned allowed xs) \<and>
     (arms xs \<longrightarrow> (\<exists>c. Called (PrecheckLeader c) CallDone \<in> set xs)) \<and>
     (bond_refused xs \<or> \<not> rd_active role \<longrightarrow> set (stages xs) \<inter> bonded_stages = {}) \<and>
     (case r of Stop e \<Rightarrow> e \<noteq> ExitCode 0 | Go rc \<Rightarrow> accounted 0 rc xs)"

lemma grants_publishes: "unpublished xs \<Longrightarrow> publishes b ys \<Longrightarrow> grants_earned b (xs @ ys)"
  unfolding grants_earned_def by (rule exI [of _ xs], rule exI [of _ ys], rule exI [of _ "[]"], rule exI [of _ "[]"]) simp

lemma early_stages: "seg 0 0 xs \<Longrightarrow> \<not> arms xs \<and> set (stages xs) \<inter> bonded_stages = {}"
  by (auto simp: seg_def arms_def bonded_stages_def)

lemma early_post:
  assumes "seg 0 0 xs" "unpublished es" "xs = es @ us" "publishes b us" "e \<noteq> ExitCode 0"
  shows "pass_post role (Stop e) xs"
  using assms early_stages [OF assms(1)] grants_publishes [OF assms(2,4)] seg_weaken [of 0 0 xs 0 16]
  by (auto simp: pass_post_def intro: armed_only_no)

lemma late_not_refused: "seg 1 hi xs \<Longrightarrow> \<not> bond_refused xs"
proof
  assume s: "seg 1 hi xs" and "bond_refused xs"
  then obtain x where "x \<in> set xs" "stage x = Some 0" by (auto simp: bond_refused_def)
  then have "0 \<in> set (stages xs)" by (induction xs) (auto split: option.split)
  then show False using s by (auto simp: seg_def)
qed

text \<open>A role that passed the gates, and the rest of its pass.\<close>

lemma late_post:
  assumes e: "seg 0 0 es" "unpublished es" "accounted 0 rc1 es"
    and p: "ps = [Published f l b (Some (local_sources_allowed role')) True]"
    and h: "second_half (local_sources_allowed role') 1 rc1 r us" "permitted role' us"
    and gate: "bond_refused es \<longrightarrow> \<not> rd_active role'" "\<not> rd_active role \<longrightarrow> \<not> rd_active role'"
      "rd_active_speaker_leader role' \<longrightarrow> (\<exists>c. Called (PrecheckLeader c) CallDone \<in> set es)"
  shows "pass_post role r (es @ ps @ us)"
proof -
  let ?b = "local_sources_allowed role'"
  have "stages ps = []" "unpublished ps \<Longrightarrow> False" "publishes ?b ps" "list_all clean ps" "list_all landed ps"
    by (auto simp: p publishes_def unpublished_def landed_def)
  note ps = this
  have s: "seg 1 16 us" and a: "armed_only us" using h(1) by (simp_all add: second_half_def)
  have "seg 0 0 (es @ ps)" using e(1) ps(1) by (simp add: seg_def)
  note early = early_stages [OF this]
  have "seg 0 16 (es @ ps @ us)" using seg_append [OF \<open>seg 0 0 (es @ ps)\<close> s] by simp
  moreover have "armed_only (es @ ps @ us)" using armed_only_prepend [OF _ a, of "es @ ps"] early by simp
  moreover have "grants_earned ?b (es @ ps @ us)"
  proof (cases r)
    case (Stop e)
    then show ?thesis using grants_publishes [OF e(2)] ps(3) h(1) by (simp add: second_half_def)
  next
    case (Go rc)
    then obtain vs gs ws where "us = vs @ gs @ ws" "publishes ?b vs" "list_all handing_over ws"
        "gs = [] \<or> granting gs \<and> \<not> ?b \<and> list_all landed vs"
      using h(1) by (auto simp: second_half_def tail_ok_def)
    then show ?thesis
      unfolding grants_earned_def using e(2) ps(3,5)
      by (intro exI [of _ es] exI [of _ "ps @ vs"] exI [of _ gs] exI [of _ ws]) auto
  qed
  moreover have "set (stages (es @ ps @ us)) \<inter> bonded_stages = {}"
    if "bond_refused (es @ ps @ us) \<or> \<not> rd_active role"
  proof -
    have "bond_refused es \<or> \<not> rd_active role"
      using that late_not_refused [OF s] by (auto simp: bond_refused_def p)
    then have "\<not> rd_active role'" using gate by blast
    then show ?thesis using h(2) early by (auto simp: permitted_def)
  qed
  moreover have "arms (es @ ps @ us) \<longrightarrow> (\<exists>c. Called (PrecheckLeader c) CallDone \<in> set (es @ ps @ us))"
    using h(2) early gate(3) by (auto simp: permitted_def)
  moreover have "case r of Stop e \<Rightarrow> e \<noteq> ExitCode 0 | Go rc \<Rightarrow> accounted 0 rc (es @ ps @ us)"
    using h(1) e(3) ps(4) by (cases r) (auto simp: second_half_def bonded_stop_def accounted_def)
  ultimately show ?thesis by (auto simp: pass_post_def)
qed

lemma known_pass:
  assumes role: "role_sound role"
  shows "traces (known_topology_pass n d role) (pass_post role)"
proof -
  obtain role1 rc1 block1 where r: "refuse_period role = (role1, rc1, block1)" by (metis prod_cases3)
  have r1: "role_sound role1" "\<not> rd_active role \<longrightarrow> \<not> rd_active role1"
    using r role with_fallback_sound by (auto simp: refuse_period_def split: if_splits)
  show ?thesis
    unfolding known_topology_pass_def r prod.case
  proof (rule traces_then [OF provision_segment], rule traces_stepwise [OF endpoint_segment], goal_cases)
    case (1 rc2 xs e ys)
    then have "seg 0 0 (xs @ ys)" using seg_append [of 0 0 xs 0 0 ys] by simp
    then show ?case
      using 1 early_post [of "xs @ ys" "xs @ ys" "[]" True e role] by (simp add: publishes_def)
  next
    case (2 rc2 xs x ys)
    obtain role2 rc3 block2 where x: "x = (role2, rc3, block2)" by (cases x) auto
    let ?es = "xs @ ys"
    have es: "seg 0 0 ?es" "unpublished ?es" "accounted rc1 rc3 ?es"
      using 2 seg_append [of 0 0 xs 0 0 ys] accounted_trans [of rc1 rc2 xs rc3 ys] by (simp_all add: x)
    have "role_sound role2 \<and> (bond_refused ys \<longrightarrow> \<not> rd_active role2) \<and> (\<not> rd_active role1 \<longrightarrow> \<not> rd_active role2) \<and>
        (rd_active_speaker_leader role2 \<longrightarrow> (\<exists>c. Called (PrecheckLeader c) CallDone \<in> set ys))"
      using 2(2) r1(1) with_fallback_sound by (auto simp: x bond_refused_def role_sound_def)
    then have sound: "role_sound role2" and gate: "bond_refused ?es \<longrightarrow> \<not> rd_active role2"
        "\<not> rd_active role \<longrightarrow> \<not> rd_active role2"
        "rd_active_speaker_leader role2 \<longrightarrow> (\<exists>c. Called (PrecheckLeader c) CallDone \<in> set ?es)"
      using 2(1) r1(2) by (auto simp: bond_refused_def)
    let ?Q = "\<lambda>zs b ys. pass_post role b (?es @ zs @ ys)"
    have "traces (stepwise (crossover_gate d role2) (\<lambda>prior. stepwise (publish_phase d role2 block2) (\<lambda>_.
        unit_part n d role2 prior block2 rc3))) (?Q [])"
    proof (rule traces_stepwise [OF crossover_segment], goal_cases)
      case (1 e zs)
      then have z: "seg 0 0 zs" "e = ExitCode 1" "publishes (local_sources_allowed role2) zs" by simp_all
      have "seg 0 0 (?es @ zs)" using seg_append [OF es(1) z(1)] by simp
      then show ?case using early_post [OF _ es(2) refl z(3)] z(2) by simp
    next
      case (2 prior zs)
      then have z: "seg 0 0 zs" "unpublished zs" "list_all clean zs" by simp_all
      have ez: "seg 0 0 (?es @ zs)" "unpublished (?es @ zs)" "accounted rc1 rc3 (?es @ zs)"
        using seg_append [OF es(1) z(1)] es z by (simp_all add: accounted_def)
      show ?case
      proof (rule traces_stepwise [OF publish_segment], goal_cases)
        case (1 e ps)
        then obtain f l b where ps: "ps = [Published f l b (Some (local_sources_allowed role2)) False]" "e = ExitCode 1"
          by (auto split: if_splits)
        have "seg 0 0 ((?es @ zs) @ ps)" using ez(1) by (simp add: seg_def ps)
        then show ?case
          using early_post [OF _ ez(2), of _ ps "local_sources_allowed role2" e role] ps by (simp add: publishes_def)
      next
        case (2 u ps)
        then obtain f l b where ps: "ps = [Published f l b (Some (local_sources_allowed role2)) True]"
          by (auto split: if_splits)
        have g: "bond_refused (?es @ zs) \<longrightarrow> \<not> rd_active role2"
            "rd_active_speaker_leader role2 \<longrightarrow> (\<exists>c. Called (PrecheckLeader c) CallDone \<in> set (?es @ zs))"
          using gate z(3) by (auto simp: bond_refused_def list_all_iff)
        show ?case
        proof (rule traces_mono [OF traces_conj [OF unit_part_segment [OF sound]
              unit_part_permitted [OF sound, unfolded stays_def]]], goal_cases)
          case (1 r us)
          have "accounted 0 rc3 (?es @ zs)" using ez(3) by (auto simp: accounted_def)
          note late_post [OF ez(1,2) this ps _ _ g(1) gate(2) g(2)]
          then have "pass_post role r ((?es @ zs) @ ps @ us)" using 1 by blast
          then show ?case by simp
        qed
      qed
    qed
    then show ?case unfolding x prod.case by simp
  qed
qed

text \<open>A pass whose topology is unknown, and every pass.\<close>

definition soft :: "act \<Rightarrow> bool" where
  "soft x \<longleftrightarrow> (\<forall>args a c b h. x \<noteq> Ran args a \<and> x \<noteq> Called c b \<and> x \<noteq> Hardware h)"

lemma unknown_pass:
  "traces (unknown_topology_pass d role) (\<lambda>r xs. seg 1 5 xs \<and> publishes (local_sources_allowed role) xs \<and>
     list_all soft xs \<and> r \<noteq> ExitCode 0)"
  unfolding unknown_topology_pass_def
  by (intro traced) (auto simp: seg_def publishes_def soft_def)

definition reconcile_post :: "bool \<Rightarrow> bool \<Rightarrow> outcome \<Rightarrow> act list \<Rightarrow> bool" where
  "reconcile_post known active out xs \<longleftrightarrow> seg 0 16 xs \<and> armed_only xs \<and> (\<exists>allowed. grants_earned allowed xs) \<and>
     (arms xs \<longrightarrow> (\<exists>c. Called (PrecheckLeader c) CallDone \<in> set xs)) \<and>
     (bond_refused xs \<or> \<not> active \<or> \<not> known \<longrightarrow> set (stages xs) \<inter> bonded_stages = {}) \<and>
     (\<not> known \<longrightarrow> list_all soft xs) \<and> (out = ExitCode 0 \<longrightarrow> known \<and> list_all clean xs)"

lemma unknown_post:
  assumes "seg 1 5 xs" "publishes b xs" "list_all soft xs" "r \<noteq> ExitCode 0"
  shows "reconcile_post False active r xs"
proof -
  have "set (stages xs) \<inter> bonded_stages = {}" "\<not> arms xs"
    using assms(1) by (auto simp: seg_def bonded_stages_def arms_def)
  moreover have "grants_earned b xs" using grants_publishes [of "[]" b xs] assms(2) by (simp add: unpublished_def)
  moreover have "\<not> bond_refused xs" using assms(3) by (auto simp: bond_refused_def soft_def list_all_iff)
  ultimately show ?thesis
    using assms seg_weaken [OF assms(1), of 0 16] by (auto simp: reconcile_post_def intro: armed_only_no)
qed

lemma reconcile_run:
  assumes "reconcile_pass n d w = (out, w', xs)"
  shows "reconcile_post (fst (fst (w_topology d (snd (w_role_file d (snd (w_grouping_env d w)))))) \<noteq> None)
    (is_active_member (load_config (fst (w_grouping_env d w)))) out xs"
proof -
  define w1 where "w1 = snd (w_grouping_env d w)"
  define w2 where "w2 = snd (w_role_file d w1)"
  define box where "box = fst (fst (w_topology d w2))"
  define w3 where "w3 = snd (w_topology d w2)"
  define role where "role = decide_role (load_config (fst (w_grouping_env d w))) box (snd (fst (w_topology d w2)))
    (fst (w_period d w3)) (read_effective_role_status (fst (w_role_file d w1)))"
  define rest where "rest = (if box = None then unknown_topology_pass d role
      else do { r \<leftarrow> known_topology_pass n d role; give (case r of Stop e \<Rightarrow> e | Go rc \<Rightarrow> ExitCode rc) })"
  have b: "run_state (pass_begin d) (w, []) = ((box, role), snd (w_period d w3), [])"
    by (simp add: pass_begin_def look_def case_prod_beta role_def box_def w1_def w2_def w3_def)
  have active: "rd_active role \<longleftrightarrow> is_active_member (load_config (fst (w_grouping_env d w)))"
    by (simp add: role_def decide_role_def Let_def is_active_member_def)
  have "traces rest (reconcile_post (box \<noteq> None) (rd_active role))"
  proof (cases "box = None")
    case True
    then show ?thesis
      unfolding rest_def by (auto intro!: traces_mono [OF unknown_pass] unknown_post)
  next
    case False
    have sound: "role_sound role" by (simp add: role_def decide_role_sound)
    show ?thesis
      unfolding rest_def if_not_P [OF False]
      by (rule traces_then [OF known_pass [OF sound]], rule traces_give)
        (use False in \<open>auto simp: pass_post_def reconcile_post_def accounted_def split: step.splits\<close>)
  qed
  moreover have "reconcile_pass n d w = run_state rest (snd (w_period d w3), [])"
    by (simp add: reconcile_pass_def reconcile_main_def b rest_def)
  ultimately show ?thesis
    using assms unfolding traces_def active box_def w2_def w1_def by (metis append_Nil Pair_inject)
qed

end
