(* ===== verification/Grouping_Safety.thy ===== *)
theory Grouping_Safety
  imports Grouping_Segments
begin

text \<open>
  What every pass of the grouping reconciler guarantees, whatever the world answers: when camilla#2 is armed,
  when local sources are granted, the order of the steps, what an inactive or refused member touches, what an
  exit code of zero means, and that the wait for the ring ends; and the gap in the first of these.
\<close>

section \<open>Demonstration passes\<close>

definition demo_leader_env :: string where
  "demo_leader_env = ''JASPER_GROUPING=on'' @ [CHR 0x0A] @ ''JASPER_GROUPING_ROLE=leader'' @ [CHR 0x0A] @
     ''JASPER_GROUPING_CHANNEL=left'' @ [CHR 0x0A] @ ''JASPER_GROUPING_BOND_ID=bond'' @ [CHR 0x0A]"

text \<open>A world without state: every unit word and every answer is fixed.\<close>

definition demo_doors ::
  "text_file \<Rightarrow> role_file \<Rightarrow> bool option \<Rightarrow> (string \<Rightarrow> string) \<Rightarrow> (engine_call \<Rightarrow> call_answer) \<Rightarrow> unit pass_doors" where
  "demo_doors env role box word engine_answer =
     \<lparr>w_grouping_env = Pair env, w_role_file = Pair role, w_topology = Pair (box, box = Some False),
      w_period = Pair (Some 128), w_boot = Pair (Some ''00000000-0000-0000-0000-000000000007''),
      w_publish = (\<lambda>_. Pair True), w_read = (\<lambda>_. Pair TMissing), w_write = (\<lambda>_ _. Pair True),
      w_word = (\<lambda>_ u. Pair (Some (word u))), w_systemctl = (\<lambda>_. Pair SysOk), w_manage = (\<lambda>_ _ _. Pair True),
      w_provision = Pair ProvisionPresent, w_engine = (\<lambda>c. Pair (engine_answer c)), w_hardware = Pair HardwareOk,
      w_open_lock = Pair LockOpened, w_try_lock = Pair LockTaken, w_monotonic = Pair 0, w_sleep = (\<lambda>_ w. w),
      w_bind = Pair (True, 0), w_fp = (\<lambda>_. ''request'')\<rparr>"

definition demo_words :: "string \<Rightarrow> string" where
  "demo_words u = (if u = CROSSOVER_UNIT \<or> u = SOURCE_INTENT_RECONCILE_UNIT then ''inactive'' else ''active'')"

definition demo_leader :: "(engine_call \<Rightarrow> call_answer) \<Rightarrow> unit pass_doors" where
  "demo_leader = demo_doors (TText demo_leader_env) RoleUnreadable (Some True) demo_words"

definition demo_leader_config :: grouping_config where
  "demo_leader_config =
   \<lparr>gc_enabled = True, gc_role = ''leader'', gc_channel = ''left'', gc_bond_id = ''bond'',
    gc_leader_addr = [], gc_buffer_ms = 400, gc_codec = ''flac'', gc_error = None,
    gc_trim_db = float_zero, gc_client_latency_ms = 0, gc_left_delay_ms = float_zero,
    gc_right_delay_ms = float_zero, gc_peer_addr = [], gc_peer_name = [], gc_roster = []\<rparr>"

lemma demo_leader_loaded: "load_config (TText demo_leader_env) = demo_leader_config"
  by code_simp

lemma run_ask [simp]: "run_state (ask door note) (w, l) = (case door w of (a, w') \<Rightarrow> (a, w', l @ [note a]))"
  by (simp add: ask_def)

lemma run_look [simp]: "run_state (look door) (w, l) = (case door w of (a, w') \<Rightarrow> (a, w', l))"
  by (simp add: look_def)

lemma demo_boot: "read_current_boot_id (Some ''00000000-0000-0000-0000-000000000007'') = Some 7"
  by code_simp

lemma demo_published [simp]:
  "run_state (publish_status (demo_doors env role box word eng) f l r req allowed) (w, tr) =
     (True, w, tr @ [Published f l r (Some allowed) True])"
  by (simp add: publish_status_def demo_doors_def demo_boot write_follower_status_def Let_def)

lemma demo_written [simp]:
  "run_state (write_derived_env (demo_doors env role box word eng) keys path) (w, tr) =
     (if env_body keys = [] then (Some (False, True), w, tr)
      else (Some (True, True), w, tr @ [Wrote path (env_body keys) True]))"
  by (simp add: write_derived_env_def write_file_def demo_doors_def Let_def)

lemma demo_ran [simp]:
  "run_state (run_systemctl (demo_doors env role box word eng) args) (w, tr) = (SysOk, w, tr @ [Ran args SysOk])"
  by (simp add: run_systemctl_def demo_doors_def)

lemma demo_probed [simp]:
  "run_state (unit_state (demo_doors env role box word eng) q u) (w, tr) = (Some (word u), w, tr @ [Probed q u (Some (word u))])"
  by (simp add: unit_state_def demo_doors_def)

lemma demo_called [simp]:
  "run_state (engine (demo_doors env role box word eng) c) (w, tr) = (eng c, w, tr @ [Called c (eng c)])"
  by (simp add: engine_def demo_doors_def)

lemma demo_managed [simp]:
  "run_state (restart_unit (demo_doors env role box word eng) u nb only) (w, tr) =
     (True, w, tr @ [Managed u ''reset-failed'' False True, Managed u (if only then ''try-restart'' else ''restart'') nb True])"
  by (simp add: restart_unit_def reset_then_manage_def demo_doors_def)

lemma demo_role:
  "decide_role demo_leader_config (Some True) False (Some 128) EMPTY_STATUS =
   \<lparr>rd_cfg = demo_leader_config, rd_requested_cfg = demo_leader_config, rd_plan = plan demo_leader_config,
    rd_active = True, rd_active_leader = True, rd_passive_leader = False, rd_active_speaker_leader = True,
    rd_active_follower = False, rd_active_endpoint = True, rd_box_is_active = True, rd_flat_output_allowed = False,
    rd_outputd_period_frames = Some 128,
    rd_lane = member_lane_decision demo_leader_config True False (Some 128),
    rd_refused_follower_fallback = False, rd_transitioning = False\<rparr>"
  by (simp add: decide_role_def Let_def demo_leader_config_def EMPTY_STATUS_def)

lemma demo_begin:
  "run_state (pass_begin (demo_leader eng)) (w, l) =
    ((Some True, decide_role demo_leader_config (Some True) False (Some 128) EMPTY_STATUS), w, l)"
  by (simp add: pass_begin_def demo_leader_def demo_doors_def demo_leader_loaded read_effective_role_status_def)

lemmas phase_defs = known_topology_pass_def refuse_period_def provision_phase_def endpoint_gate_def crossover_gate_def
  publish_phase_def unit_part_def graph_part_def files_phase_def write_args_file_def write_file_def solo_restore_phase_def
  outputd_phase_def consumer_part_def voice_phase_def airplay_phase_def plan_part_def plan_phase_def
  airplay_refresh_phase_def bonded_part_def bonded_apply_phase_def leader_phase_def leader_bake_def
  disable_crossover_unit_def systemctl_crossover_unit_def arm_crossover_unit_def ensure_unit_active_def
  unit_is_active_def systemctl_unit_state_def arm_phase_def arm_refused_def wait_for_active_content_pcm_release_def
  probe_active_content_pcm_once_def binding_phase_def follower_phase_def grant_phase_def converge_phase_def
  converge_sources_after_role_def source_reconciler_activation_busy_def unit_active_def reset_failed_unit_def
  run_audio_hardware_reconcile_def restart_outputd_def stepwise_def

definition demo_args :: "(string \<times> string) list" where
  "demo_args = the (assemble_args demo_leader_config True)"

lemma demo_args: "assemble_args demo_leader_config True = Some demo_args"
proof -
  have "sound_request demo_leader_config"
    using load_config_sound [of "TText demo_leader_env"]
    by (simp add: demo_leader_loaded is_active_member_def demo_leader_config_def)
  note client = client_words [OF this, of GROUPING_RING_PCM]
  have "tl (snapclient_argv demo_leader_config (Some GROUPING_RING_PCM)) \<noteq> []" by (simp add: snapclient_argv_def Let_def)
  then have "join_args (snapclient_argv demo_leader_config (Some GROUPING_RING_PCM)) \<noteq> None"
    using join_args_splits [OF client] by auto
  moreover have "gc_codec demo_leader_config \<in> set ALLOWED_CODECS" by (simp add: demo_leader_config_def ALLOWED_CODECS_def)
  then have "join_args (snapserver_argv demo_leader_config) \<noteq> None"
    using join_args_splits [OF server_words] by (auto simp: snapserver_argv_def)
  ultimately show ?thesis
    by (auto simp: demo_args_def assemble_args_def demo_leader_config_def split: option.splits)
qed

definition demo_lane :: string where
  "demo_lane = env_body (outputd_grouping_env demo_leader_config True False (Some 128))"

definition demo_airplay :: string where
  "demo_airplay = env_body (airplay_grouping_env demo_leader_config)"

lemma demo_bodies: "demo_lane \<noteq> []" "demo_airplay \<noteq> []"
  "env_body (voice_grouping_env demo_leader_config True False) = []"
  by (simp add: demo_lane_def env_body_def outputd_grouping_env_def Let_def,
    simp add: demo_airplay_def airplay_grouping_env_def env_body_def is_active_leader_def is_active_member_def
      demo_leader_config_def, code_simp)

lemma demo_facts: "member_lane_decision demo_leader_config True False (Some 128) = \<lparr>ld_armed = False, ld_reason = Some LaneActiveEndpoint\<rparr>"
  "plan demo_leader_config = [unit_intent SNAPSERVER_UNIT StartUnit ''leader hosts stream'',
         unit_intent SNAPCLIENT_UNIT StartUnit ''leader plays its channel'']"
  "local_sources_parked demo_leader_config = False"
  by (code_simp, code_simp, code_simp)

lemma demo_words: "demo_words SNAPSERVER_UNIT = ''active''" "demo_words SNAPCLIENT_UNIT = ''active''"
  "demo_words CAMILLA_UNIT = ''active''" "demo_words CROSSOVER_UNIT = ''inactive''"
  "demo_words SOURCE_INTENT_RECONCILE_UNIT = ''inactive''"
  by code_simp+

lemma word_verdicts: "live_word (Some ''active'') = Some True" "live_word (Some ''inactive'') = Some False"
  "unit_query ''is-active'' (Some ''active'') = Some True" "unit_query ''is-active'' (Some ''inactive'') = Some False"
  by code_simp+

lemma demo_fields [simp]:
  "w_provision (demo_doors env role box word eng) = Pair ProvisionPresent"
  "w_write (demo_doors env role box word eng) = (\<lambda>_ _. Pair True)"
  "w_hardware (demo_doors env role box word eng) = Pair HardwareOk"
  "w_open_lock (demo_doors env role box word eng) = Pair LockOpened"
  "w_try_lock (demo_doors env role box word eng) = Pair LockTaken"
  "w_monotonic (demo_doors env role box word eng) = Pair 0"
  "w_bind (demo_doors env role box word eng) = Pair (True, 0)"
  by (simp_all add: demo_doors_def)

definition demo_head :: "act list" where
  "demo_head =
     [Provisioned ProvisionPresent, Called (PrecheckLeader demo_leader_config) CallDone,
      Published False True [] (Some True) True,
      Wrote ARGS_FILE (env_body demo_args) True, Wrote OUTPUTD_GROUPING_ENV_FILE demo_lane True,
      Wrote AIRPLAY_GROUPING_ENV_FILE demo_airplay True,
      Probed ''is-active'' SNAPSERVER_UNIT (Some ''active''), Probed ''is-active'' SNAPCLIENT_UNIT (Some ''active''),
      Ran [''start'', SNAPSERVER_UNIT] SysOk, Ran [''start'', SNAPCLIENT_UNIT] SysOk,
      Managed SHAIRPORT_UNIT ''reset-failed'' False True, Managed SHAIRPORT_UNIT ''try-restart'' False True,
      Probed ''is-active'' SNAPSERVER_UNIT (Some ''active''), Ran disarm_command SysOk,
      Probed ''is-active'' CAMILLA_UNIT (Some ''active''), Called ApplyLeaderBake CallDone]"

definition demo_seed :: "call_answer \<Rightarrow> act list" where
  "demo_seed a = Called SeedCrossover a # (if a = CallDone then [Hardware HardwareOk] else []) @
     [Probed ''is-active'' CROSSOVER_UNIT (Some ''inactive''), Opened LockOpened, Tried LockTaken]"

definition demo_tail :: "act list" where
  "demo_tail =
     [Bound True 0, Ran [''reset-failed'', SOURCE_INTENT_RECONCILE_UNIT] SysOk,
      Probed ''is-active'' SOURCE_INTENT_RECONCILE_UNIT (Some ''inactive''),
      Ran [''start'', SOURCE_INTENT_RECONCILE_UNIT] SysOk]"

lemma demo_leader_run:
  assumes "\<And>c. eng (PrecheckLeader c) = CallDone" "eng ApplyLeaderBake = CallDone"
  shows "reconcile_pass (Suc n) (demo_leader eng) () =
    (ExitCode (if eng SeedCrossover = CallDone then 0 else 1), (),
     (demo_head @ demo_seed (eng SeedCrossover)) @ Ran arm_command SysOk # demo_tail)"
  unfolding reconcile_pass_def reconcile_main_def State_Monad.run_state_bind demo_begin prod.case demo_role
  by (simp add: demo_leader_def phase_defs demo_args demo_bodies demo_facts demo_words word_verdicts assms
      demo_head_def demo_seed_def demo_tail_def local_sources_allowed_def flip: demo_lane_def demo_airplay_def)

text \<open>A follower just unbonded: its last status denies local sources, and solo is restored before the grant.\<close>

definition demo_solo :: "unit pass_doors" where
  "demo_solo = demo_doors TMissing (RoleObject [''local_sources_allowed'' \<mapsto> JBool False]) (Some False)
     (\<lambda>_. ''inactive'') (\<lambda>_. CallDone)"

definition demo_solo_steps :: "act list" where
  "demo_solo_steps =
     [Wrote ARGS_FILE (env_body [(SERVER_ARGS_KEY, []), (CLIENT_ARGS_KEY, [])]) True,
      Wrote OUTPUTD_GROUPING_ENV_FILE (env_body (outputd_grouping_env DISABLED False True (Some 128))) True,
      Called RestoreSolo CallDone,
      Managed OUTPUTD_UNIT ''reset-failed'' False True, Managed OUTPUTD_UNIT ''restart'' False True,
      Probed ''is-active'' SNAPSERVER_UNIT (Some ''inactive''), Probed ''is-active'' SNAPCLIENT_UNIT (Some ''inactive''),
      Ran [''stop'', SNAPSERVER_UNIT] SysOk, Ran [''stop'', SNAPCLIENT_UNIT] SysOk]"

lemma demo_solo_facts:
  "load_config TMissing = DISABLED" "local_sources_parked DISABLED = False"
  "rs_allowed (read_effective_role_status (RoleObject [''local_sources_allowed'' \<mapsto> JBool False])) = Some False"
  "voice_grouping_env DISABLED False True = []" "airplay_grouping_env DISABLED = []"
  "plan DISABLED = [unit_intent SNAPSERVER_UNIT StopUnit ''grouping off'', unit_intent SNAPCLIENT_UNIT StopUnit ''grouping off'']"
  "assemble_args DISABLED False = Some [(SERVER_ARGS_KEY, []), (CLIENT_ARGS_KEY, [])]"
  by (code_simp, code_simp, code_simp, code_simp, code_simp, code_simp, code_simp)

lemma demo_solo_role:
  assumes "rs_allowed prior = Some False"
  shows "decide_role DISABLED (Some False) True (Some 128) prior =
   \<lparr>rd_cfg = DISABLED, rd_requested_cfg = DISABLED, rd_plan = plan DISABLED,
    rd_active = False, rd_active_leader = False, rd_passive_leader = False, rd_active_speaker_leader = False,
    rd_active_follower = False, rd_active_endpoint = False, rd_box_is_active = False, rd_flat_output_allowed = True,
    rd_outputd_period_frames = Some 128, rd_lane = member_lane_decision DISABLED False True (Some 128),
    rd_refused_follower_fallback = False, rd_transitioning = True\<rparr>"
  using assms demo_solo_facts(2) by (simp add: decide_role_def Let_def DISABLED_def)

lemma demo_solo_begin:
  "run_state (pass_begin demo_solo) (w, l) =
    ((Some False, decide_role DISABLED (Some False) True (Some 128)
       (read_effective_role_status (RoleObject [''local_sources_allowed'' \<mapsto> JBool False]))), w, l)"
  by (simp add: pass_begin_def demo_solo_def demo_doors_def demo_solo_facts del: read_effective_role_status_def)

lemma demo_solo_run:
  "reconcile_pass n demo_solo () = (ExitCode 0, (),
     [] @ Published False False TRANSITION_IN_PROGRESS (Some False) True # demo_solo_steps @
       Published False False [] (Some True) True # [])"
proof -
  have ne: "env_body (outputd_grouping_env DISABLED False True (Some 128)) \<noteq> []"
    by (simp add: env_body_def outputd_grouping_env_def DISABLED_def Let_def)
  have v: "live_word (Some ''inactive'') = Some False" by (rule word_verdicts)
  show ?thesis
    unfolding reconcile_pass_def reconcile_main_def State_Monad.run_state_bind demo_solo_begin prod.case
      demo_solo_role [OF demo_solo_facts(3)]
    by (simp add: demo_solo_def phase_defs demo_solo_facts demo_solo_steps_def local_sources_allowed_def ne v
        transition_landed_def env_body_def [of "[]"])
qed

section \<open>Guarantees\<close>

lemma in_stages: "x \<in> set xs \<Longrightarrow> stage x = Some k \<Longrightarrow> k \<in> set (stages xs)"
  by (induction xs) (auto split: option.split)





text \<open>
  C9. A grant follows the landed steps. Once a pass has published that local sources are denied, it publishes a
  permission only after every step in between succeeded: files written, graph restored, daemons restarted, units
  applied; and after that permission, which never names an active follower, it only waits for the source owner.
\<close>

theorem grant_follows_landed_steps:
  assumes "reconcile_pass fuel d w =
    (out, w', xs @ Published f l r (Some False) ok # ys @ Published f' l' r' (Some True) ok' # zs)"
  shows "list_all landed ys \<and> list_all handing_over zs \<and> \<not> f'"
proof -
  let ?D = "Published f l r (Some False) ok" and ?G = "Published f' l' r' (Some True) ok'"
  let ?L = "xs @ ?D # ys @ ?G # zs"
  obtain allowed es us gs vs where L: "?L = es @ us @ gs @ vs" and es: "unpublished es" and us: "publishes allowed us"
      and vs: "list_all handing_over vs" and gs: "gs = [] \<or> granting gs \<and> \<not> allowed \<and> list_all landed us"
    using reconcile_run [OF assms] unfolding reconcile_post_def grants_earned_def by blast
  have out: "?D \<notin> set es" "?G \<notin> set es" "?D \<notin> set vs" "?G \<notin> set vs"
    using unpublished_not [OF es] unpublished_not [OF handing_unpublished [OF vs]] by simp_all
  have mem: "?D \<in> set (us @ gs)" "?G \<in> set (us @ gs)"
    using arg_cong [OF L, of set] out by auto
  have "\<not> allowed" "?G \<in> set gs"
  proof -
    show a: "\<not> allowed"
    proof
      assume "allowed"
      then have "?D \<in> set us" using gs mem by auto
      then show False using publishes_allowed [OF us] \<open>allowed\<close> by fastforce
    qed
    then have "?G \<notin> set us" using publishes_allowed [OF us] by fastforce
    then show "?G \<in> set gs" using mem by simp
  qed
  then have g: "gs = [?G]" "\<not> f'" "list_all landed us" using gs by (auto simp: granting_def)
  have "?G \<notin> set (es @ us)" using out publishes_allowed [OF us] \<open>\<not> allowed\<close> by fastforce
  moreover have "(es @ us) @ ?G # vs = (xs @ ?D # ys) @ ?G # zs" using L g(1) by simp
  ultimately have split: "es @ us = xs @ ?D # ys" "vs = zs" using append_Cons_eq_iff [OF _ out(4)] by blast+
  then obtain ws where "us = ws @ ?D # ys" using mark_split [OF split(1)] out(1) by auto
  then show ?thesis using g vs split(2) by simp
qed

lemma grant_follows_landed_steps_witness:
  "let (out, w, log) = reconcile_pass 1 demo_solo ()
   in log = [] @ Published False False TRANSITION_IN_PROGRESS (Some False) True # demo_solo_steps @
        Published False False [] (Some True) True # [] \<and> list_all landed demo_solo_steps"
  using grant_follows_landed_steps [OF demo_solo_run [of 1]] unfolding demo_solo_run Let_def prod.case by blast

text \<open>
  C10. No bond, no bonded step. When the request is off or invalid, when a precheck refused it, or when the
  topology is unknown, the pass starts no snapcast unit, applies no bonded or follower graph, seeds nothing, arms
  nothing and binds no stream; with an unknown topology it runs no unit command and touches no graph at all, and
  does not report success.
\<close>

theorem no_bond_no_bonded_step:
  assumes "reconcile_pass fuel d w = (out, w', xs)"
    and "\<not> known \<or> \<not> is_active_member (load_config (fst (w_grouping_env d w))) \<or> bond_refused xs"
    and "known \<longleftrightarrow> fst (fst (w_topology d (snd (w_role_file d (snd (w_grouping_env d w)))))) \<noteq> None"
  shows "x \<in> set xs \<Longrightarrow> stage x \<notin> Some ` {8, 10, 11, 12, 13, 14, 15} \<and> (known \<or> soft x \<and> out \<noteq> ExitCode 0)"
proof -
  assume x: "x \<in> set xs"
  have "set (stages xs) \<inter> bonded_stages = {}" "\<not> known \<longrightarrow> list_all soft xs \<and> out \<noteq> ExitCode 0"
    using reconcile_run [OF assms(1)] assms(2,3) by (auto simp: reconcile_post_def)
  then show ?thesis using x in_stages [OF x] by (auto simp: bonded_stages_def list_all_iff)
qed

lemma no_bond_no_bonded_step_witness:
  "(let (out, w, xs) = reconcile_pass 1 demo_solo () in Called RestoreSolo CallDone \<in> set xs) \<and>
   stage (Called RestoreSolo CallDone) \<notin> Some ` {8, 10, 11, 12, 13, 14, 15}"
proof -
  have "fst (w_grouping_env demo_solo ()) = TMissing"
    "fst (fst (w_topology demo_solo (snd (w_role_file demo_solo (snd (w_grouping_env demo_solo ())))))) = Some False"
    by (simp_all add: demo_solo_def demo_doors_def)
  moreover have "\<not> is_active_member (load_config TMissing)"
    by (simp add: demo_solo_facts is_active_member_def DISABLED_def)
  moreover have "Called RestoreSolo CallDone \<in> set demo_solo_steps" by (simp add: demo_solo_steps_def)
  ultimately show ?thesis
    using no_bond_no_bonded_step [OF demo_solo_run [of 1], of True "Called RestoreSolo CallDone"]
    by (simp add: demo_solo_run)
qed



section \<open>The wait for the ring ends\<close>

text \<open>\<open>time.monotonic\<close> reads a clock that nothing turns back and that a sleep advances by at least its length.\<close>

definition clock_advances :: "'w pass_doors \<Rightarrow> ('w \<Rightarrow> rat) \<Rightarrow> bool" where
  "clock_advances d clk \<longleftrightarrow> (\<forall>w. fst (w_monotonic d w) = clk w \<and> clk w \<le> clk (snd (w_monotonic d w)) \<and>
     clk w \<le> clk (snd (w_open_lock d w)) \<and> clk w \<le> clk (snd (w_try_lock d w)) \<and>
     (\<forall>s. clk w + s \<le> clk (w_sleep d s w)))"

lemma probe_clock:
  assumes "clock_advances d clk" "run_state (probe_active_content_pcm_once d) (w, l) = (p, w', l')"
  shows "clk w \<le> clk w'"
proof -
  obtain a w1 where o: "w_open_lock d w = (a, w1)" by (cases "w_open_lock d w")
  obtain t w2 where t: "w_try_lock d w1 = (t, w2)" by (cases "w_try_lock d w1")
  have "clk w \<le> clk (snd (w_open_lock d w))" "clk w1 \<le> clk (snd (w_try_lock d w1))"
    using assms(1) unfolding clock_advances_def by blast+
  then show ?thesis
    using assms(2) by (auto simp: probe_active_content_pcm_once_def o t split: if_splits)
qed

lemma release_loop_ends:
  assumes c: "clock_advances d clk" and i: "0 < interval"
    and "deadline \<le> clk w + interval * of_nat n"
  shows "fst (run_state (release_loop (Suc n) d interval deadline) (w, l)) \<noteq> None"
  using assms(3)
proof (induction n arbitrary: w l)
  case (0 w l)
  obtain p w1 l1 where p: "run_state (probe_active_content_pcm_once d) (w, l) = (p, w1, l1)" by (metis prod_cases3)
  have "fst (w_monotonic d w1) = clk w1" using c unfolding clock_advances_def by blast
  then have "deadline \<le> fst (w_monotonic d w1)" using probe_clock [OF c p] 0 by simp
  then show ?case by (auto simp: p case_prod_beta)
next
  case (Suc n w l)
  obtain p w1 l1 where p: "run_state (probe_active_content_pcm_once d) (w, l) = (p, w1, l1)" by (metis prod_cases3)
  obtain now w2 where m: "w_monotonic d w1 = (now, w2)" by (cases "w_monotonic d w1")
  let ?s = "min interval (max (deadline - now) 0)"
  have k: "fst (w_monotonic d w1) = clk w1" "clk w1 \<le> clk (snd (w_monotonic d w1))" "clk w2 + ?s \<le> clk (w_sleep d ?s w2)"
    using c unfolding clock_advances_def by blast+
  then have now: "now \<le> clk w2" "clk w \<le> now" using probe_clock [OF c p] by (simp_all add: m)
  have "deadline \<le> clk (w_sleep d ?s w2) + interval * of_nat n" if "\<not> deadline \<le> now"
  proof (cases "interval \<le> deadline - now")
    case True
    then have "clk w2 + interval \<le> clk (w_sleep d ?s w2)" using k(3) that by (simp add: min_def max_def split: if_splits)
    then show ?thesis using Suc.prems now by (simp add: algebra_simps)
  next
    case False
    then have "deadline \<le> clk (w_sleep d ?s w2)" using k(3) now that by (simp add: min_def max_def)
    then show ?thesis using i by (simp add: add_increasing2)
  qed
  note later = Suc.IH [OF this]
  show ?case
  proof (cases "p = PcmBusy \<and> \<not> deadline \<le> now")
    case True
    then show ?thesis
      using later [of l1] unfolding release_loop.simps(2) [of "Suc n"] sleep_for_def
      by (simp add: p m del: release_loop.simps)
  next
    case False
    then show ?thesis
      unfolding release_loop.simps(2) [of "Suc n"] by (auto simp: p m simp del: release_loop.simps)
  qed
qed

definition ends :: "('w, 'a step) pass \<Rightarrow> bool" where
  "ends m \<longleftrightarrow> (\<forall>s. fst (run_state m s) \<noteq> Stop OutOfFuel)"

lemma endsD: "ends m \<Longrightarrow> fst (run_state m s) \<noteq> Stop OutOfFuel"
  unfolding ends_def by blast

lemma endsI: "(\<And>s. fst (run_state m s) \<noteq> Stop OutOfFuel) \<Longrightarrow> ends m"
  unfolding ends_def by blast

lemma ends_give: "x \<noteq> Stop OutOfFuel \<Longrightarrow> ends (give x)"
  by (simp add: ends_def)

lemma ends_bind: "(\<And>a. ends (k a)) \<Longrightarrow> ends (m \<bind> k)"
  by (rule endsI) (simp add: case_prod_beta endsD)

lemma ends_if: "(b \<Longrightarrow> ends x) \<Longrightarrow> (\<not> b \<Longrightarrow> ends y) \<Longrightarrow> ends (if b then x else y)"
  by simp

lemma ends_prod: "(\<And>a b. ends (f a b)) \<Longrightarrow> ends (case p of (a, b) \<Rightarrow> f a b)"
  by (cases p) simp

lemma ends_stepwise: "ends m \<Longrightarrow> (\<And>a. ends (k a)) \<Longrightarrow> ends (stepwise m k)"
  by (rule endsI) (auto simp: stepwise_def case_prod_beta dest: endsD split: step.split)

lemmas ends_rules = ends_give ends_bind ends_if ends_prod ends_stepwise

lemma ends_traces: "traces m Q \<Longrightarrow> (\<And>xs. \<not> Q (Stop OutOfFuel) xs) \<Longrightarrow> ends m"
  unfolding ends_def traces_def by (metis fst_conv surj_pair)

lemma phases_end:
  "ends (graph_part d role prior rc)" "ends (consumer_part d role rc)" "ends (endpoint_gate d role rc block)"
  "ends (crossover_gate d role)" "ends (publish_phase d role block)"
  by (rule ends_traces [OF graph_part_segment], simp add: stopped_def)
    (rule ends_traces [OF consumer_part_segment], simp add: stopped_def,
     rule ends_traces [OF endpoint_segment], simp,
     rule ends_traces [OF crossover_segment], simp,
     rule ends_traces [OF publish_segment], simp)

lemma wait_ends:
  assumes "clock_advances d clk" "17 \<le> fuel"
  shows "fst (run_state (wait_for_active_content_pcm_release fuel d) (w, l)) \<noteq> None"
proof -
  obtain now w1 where m: "w_monotonic d w = (now, w1)" by (cases "w_monotonic d w")
  have "fst (w_monotonic d w) = clk w" "clk w \<le> clk (snd (w_monotonic d w))"
    using assms(1) unfolding clock_advances_def by blast+
  then have now: "now \<le> clk w1" by (simp add: m)
  obtain n where n: "fuel = Suc n" "16 \<le> n" using assms(2) by (cases fuel) auto
  have "(8 / 10 :: rat) \<le> 5 / 100 * of_nat n" using n(2) by simp
  then have "now + max ACTIVE_CONTENT_RELEASE_TIMEOUT_SEC 0 \<le> clk w1 + ACTIVE_CONTENT_RELEASE_POLL_SEC * of_nat n"
    using now by (simp add: ACTIVE_CONTENT_RELEASE_TIMEOUT_SEC_def ACTIVE_CONTENT_RELEASE_POLL_SEC_def)
  note release_loop_ends [OF assms(1) _ this]
  then show ?thesis
    by (simp add: wait_for_active_content_pcm_release_def m n(1) ACTIVE_CONTENT_RELEASE_POLL_SEC_def del: release_loop.simps)
qed

lemma arm_ends:
  assumes "clock_advances d clk" "17 \<le> fuel"
  shows "ends (arm_phase fuel d role block rc)"
proof -
  have refused: "ends (arm_refused d role reason)" for reason
    unfolding arm_refused_def by (intro ends_rules) simp_all
  have "ends (arm_crossover_unit d \<bind> (\<lambda>ok. give (Go (False, block, if ok then rc else 1))))"
    by (intro ends_rules) simp
  then have "fst (run_state (wait_for_active_content_pcm_release fuel d \<bind> (\<lambda>probe. case probe of
         None \<Rightarrow> give (Stop OutOfFuel)
       | Some PcmReleased \<Rightarrow> do { ok \<leftarrow> arm_crossover_unit d; give (Go (False, block, if ok then rc else 1)) }
       | Some PcmBusy \<Rightarrow> arm_refused d role ''active_content_pcm_busy''
       | Some PcmUnknown \<Rightarrow> arm_refused d role ''active_content_pcm_unverified'')) (w, l)) \<noteq> Stop OutOfFuel" for w l
    using wait_ends [OF assms, of w l] endsD [OF refused]
    by (auto simp: case_prod_beta dest: endsD split: option.split pcm_probe.split)
  then have "ends (wait_for_active_content_pcm_release fuel d \<bind> (\<lambda>probe. case probe of
         None \<Rightarrow> give (Stop OutOfFuel)
       | Some PcmReleased \<Rightarrow> do { ok \<leftarrow> arm_crossover_unit d; give (Go (False, block, if ok then rc else 1)) }
       | Some PcmBusy \<Rightarrow> arm_refused d role ''active_content_pcm_busy''
       | Some PcmUnknown \<Rightarrow> arm_refused d role ''active_content_pcm_unverified''))"
    unfolding ends_def by (metis surj_pair)
  note waited = this
  show ?thesis
    unfolding arm_phase_def by (rule ends_bind, rule ends_if, rule ends_give, simp, rule waited)
qed

text \<open>
  C25. Every pass ends. If the monotonic clock is never turned back and a sleep advances it by its length, the wait
  for camilla#1 to release the ring, 0.8 s polled every 0.05 s, is over after at most 17 probes, so with that
  much fuel the pass returns an exit code or raises, whatever else the world answers.
\<close>

theorem reconcile_ends:
  assumes "clock_advances d clk" "17 \<le> fuel"
  shows "fst (reconcile_pass fuel d w) \<noteq> OutOfFuel"
proof -
  have bonded: "ends (bonded_apply_phase fuel d role block rc)" for role block rc
    unfolding bonded_apply_phase_def leader_phase_def using arm_ends [OF assms] by (intro ends_rules) simp_all
  have "ends (bonded_part fuel d role f changed block rc)" for role f changed block rc
    unfolding bonded_part_def by (intro ends_stepwise bonded) (simp add: ends_rules)
  then have "ends (unit_part fuel d role prior block rc)" for role prior block rc
    unfolding unit_part_def using phases_end by (intro ends_rules)
  then have known: "ends (known_topology_pass fuel d role)" for role
    unfolding known_topology_pass_def using phases_end by (intro ends_rules)
  have unknown: "fst (run_state (unknown_topology_pass d role) s) \<noteq> OutOfFuel" for role s
    by (auto simp: unknown_topology_pass_def case_prod_beta split: option.split)
  obtain box role s where b: "run_state (pass_begin d) (w, []) = ((box, role), s)" by (metis surj_pair)
  show ?thesis
    using unknown [of role s] endsD [OF known [of role], of s]
    by (cases box) (auto simp: b reconcile_pass_def reconcile_main_def case_prod_beta split: step.split)
qed

text \<open>A world that is its own clock, with a ring that another writer never leaves.\<close>

definition busy_doors :: "rat pass_doors" where
  "busy_doors =
     \<lparr>w_grouping_env = Pair (TText demo_leader_env), w_role_file = Pair RoleUnreadable, w_topology = Pair (Some True, False),
      w_period = Pair (Some 128), w_boot = Pair None, w_publish = (\<lambda>_. Pair True), w_read = (\<lambda>_. Pair TMissing),
      w_write = (\<lambda>_ _. Pair True), w_word = (\<lambda>_ u. Pair (Some (demo_words u))), w_systemctl = (\<lambda>_. Pair SysOk),
      w_manage = (\<lambda>_ _ _. Pair True), w_provision = Pair ProvisionPresent, w_engine = (\<lambda>_. Pair CallDone),
      w_hardware = Pair HardwareOk, w_open_lock = Pair LockOpened, w_try_lock = Pair LockHeld,
      w_monotonic = (\<lambda>t. (t, t)), w_sleep = (\<lambda>s t. t + s), w_bind = Pair (True, 0), w_fp = (\<lambda>_. ''request'')\<rparr>"

lemma reconcile_ends_witness:
  "clock_advances busy_doors (\<lambda>t. t) \<and> fst (reconcile_pass 17 busy_doors 0) \<noteq> OutOfFuel"
proof -
  have "clock_advances busy_doors (\<lambda>t. t)" by (simp add: clock_advances_def busy_doors_def)
  then show ?thesis using reconcile_ends [of busy_doors "\<lambda>t. t" 17] by simp
qed

end
