(* ===== verification/Peering_Rank.thy ===== *)
theory Peering_Rank
  imports Env_Load Py_Float "HOL-Library.List_Lexorder" "HOL-Library.Char_ord"
begin

text \<open>
  \<open>jasper/peering/rank.py\<close>: which of the speakers that heard the same wake word answers it. Shown: the ranking
  depends on the set of reports only, so speakers with the same reports agree; and what a report with a NaN in it
  does to that. SNR and RMS are doubles with their infinities and NaN, because a neighbour sends them.
\<close>

section \<open>Comparing doubles\<close>

text \<open>\<open><\<close> on floats: NaN is neither less nor greater than anything.\<close>

fun float_less :: "pyfloat \<Rightarrow> pyfloat \<Rightarrow> bool" where
  "float_less PNan y = False"
| "float_less x PNan = False"
| "float_less (PInf a) (PInf b) = (a \<and> \<not> b)"
| "float_less (PInf a) (PFin b y) = a"
| "float_less (PFin a x) (PInf b) = (\<not> b)"
| "float_less (PFin a x) (PFin b y) = ((if a then - x else x) < (if b then - y else y))"

definition float_ge :: "pyfloat \<Rightarrow> pyfloat \<Rightarrow> bool" where
  "float_ge x y \<longleftrightarrow> x \<noteq> PNan \<and> y \<noteq> PNan \<and> \<not> float_less x y"

definition float_eq :: "pyfloat \<Rightarrow> pyfloat \<Rightarrow> bool" where
  "float_eq x y \<longleftrightarrow> float_ge x y \<and> float_ge y x"

fun float_minus :: "pyfloat \<Rightarrow> rat \<Rightarrow> pyfloat" where
  "float_minus (PFin a x) d = (let v = (if a then - x else x) - d in PFin (v < 0) \<bar>v\<bar>)"
| "float_minus x d = x"

text \<open>Python's \<open>max\<close>: keeps the first element until a greater one comes; None is its \<open>ValueError\<close>.\<close>

fun float_max :: "pyfloat list \<Rightarrow> pyfloat option" where
  "float_max [] = None"
| "float_max (x # xs) = Some (foldl (\<lambda>m y. if float_less m y then y else m) x xs)"

section \<open>Reports\<close>

definition CONFIDENCE_TIE_EPS :: rat where "CONFIDENCE_TIE_EPS = 5 / 100"
definition SNR_TIE_EPS_DB :: rat where "SNR_TIE_EPS_DB = 3"

record wake_report =
  wr_peer_id :: string
  wr_score :: rat
  wr_snr_db :: "pyfloat option"
  wr_rms_dbfs :: "pyfloat option"
  wr_primary :: bool
  wr_can_serve :: bool

text \<open>\<open>max(0.0, min(1.0, score))\<close>: a NaN loses both comparisons, so \<open>min\<close> keeps 1.0.\<close>

fun clamp_score :: "pyfloat \<Rightarrow> rat" where
  "clamp_score (PFin a x) = clamp 0 1 (if a then - x else x)"
| "clamp_score (PInf a) = (if a then 0 else 1)"
| "clamp_score PNan = 1"

definition make_report ::
  "string \<Rightarrow> pyfloat \<Rightarrow> pyfloat option \<Rightarrow> pyfloat option \<Rightarrow> bool \<Rightarrow> bool \<Rightarrow> wake_report" where
  "make_report peer_id score snr_db rms_dbfs primary can_serve =
     \<lparr>wr_peer_id = peer_id, wr_score = clamp_score score, wr_snr_db = snr_db, wr_rms_dbfs = rms_dbfs,
      wr_primary = primary, wr_can_serve = can_serve\<rparr>"

definition snr_or_neg_inf :: "wake_report \<Rightarrow> pyfloat" where
  "snr_or_neg_inf r = (case wr_snr_db r of None \<Rightarrow> PInf True | Some v \<Rightarrow> v)"

definition rms_or_neg_inf :: "wake_report \<Rightarrow> pyfloat" where
  "rms_or_neg_inf r = (case wr_rms_dbfs r of None \<Rightarrow> PInf True | Some v \<Rightarrow> v)"

section \<open>The cascade\<close>

text \<open>\<open>if len(pool) == 1: return pool[0].peer_id\<close>, then the rest of the function.\<close>

definition sole_or :: "wake_report list \<Rightarrow> string option \<Rightarrow> string option" where
  "sole_or pool rest = (case pool of [r] \<Rightarrow> Some (wr_peer_id r) | _ \<Rightarrow> rest)"

definition servable_pool :: "wake_report list \<Rightarrow> wake_report list" where
  "servable_pool reports =
     (let servable = filter wr_can_serve reports in if servable = [] then reports else servable)"

definition confidence_band :: "wake_report list \<Rightarrow> wake_report list" where
  "confidence_band pool =
     (let top_score = Max (set (map wr_score pool))
      in filter (\<lambda>r. top_score - CONFIDENCE_TIE_EPS \<le> wr_score r) pool)"

definition snr_band :: "wake_report list \<Rightarrow> wake_report list option" where
  "snr_band pool = map_option
     (\<lambda>top_snr. filter (\<lambda>r. float_ge (snr_or_neg_inf r) (float_minus top_snr SNR_TIE_EPS_DB)) pool)
     (float_max (map snr_or_neg_inf pool))"

definition rms_top :: "wake_report list \<Rightarrow> wake_report list option" where
  "rms_top pool = map_option
     (\<lambda>top_rms. filter (\<lambda>r. float_eq (rms_or_neg_inf r) top_rms) pool)
     (float_max (map rms_or_neg_inf pool))"

definition least_id :: "wake_report list \<Rightarrow> string option" where
  "least_id pool = (if pool = [] then None else Some (Min (set (map wr_peer_id pool))))"

definition signal_tiers :: "wake_report list \<Rightarrow> string option" where
  "signal_tiers pool =
     (case snr_band pool of
        None \<Rightarrow> None
      | Some pool \<Rightarrow> sole_or pool
          (case rms_top pool of None \<Rightarrow> None | Some pool \<Rightarrow> sole_or pool (least_id pool)))"

text \<open>None is a \<open>ValueError\<close>.\<close>

definition rank :: "wake_report list \<Rightarrow> string option" where
  "rank reports =
     (if reports = [] then None
      else let pool = confidence_band (servable_pool reports); primaries = filter wr_primary pool
           in sole_or pool (sole_or primaries (signal_tiers (if primaries = [] then pool else primaries))))"

section \<open>The ranking as a function of a set\<close>

text \<open>No NaN among the tie breakers.\<close>

definition measured :: "wake_report \<Rightarrow> bool" where
  "measured r \<longleftrightarrow> snr_or_neg_inf r \<noteq> PNan \<and> rms_or_neg_inf r \<noteq> PNan"

definition servable_set :: "wake_report set \<Rightarrow> wake_report set" where
  "servable_set S = (if \<exists>r\<in>S. wr_can_serve r then {r \<in> S. wr_can_serve r} else S)"

definition band_set :: "wake_report set \<Rightarrow> wake_report set" where
  "band_set S = {r \<in> S. \<forall>q\<in>S. wr_score q - CONFIDENCE_TIE_EPS \<le> wr_score r}"

definition primary_set :: "wake_report set \<Rightarrow> wake_report set" where
  "primary_set S = (if \<exists>r\<in>S. wr_primary r then {r \<in> S. wr_primary r} else S)"

definition snr_set :: "wake_report set \<Rightarrow> wake_report set" where
  "snr_set S = {r \<in> S. \<forall>q\<in>S. float_ge (snr_or_neg_inf r) (float_minus (snr_or_neg_inf q) SNR_TIE_EPS_DB)}"

definition rms_set :: "wake_report set \<Rightarrow> wake_report set" where
  "rms_set S = {r \<in> S. \<forall>q\<in>S. \<not> float_less (rms_or_neg_inf r) (rms_or_neg_inf q)}"

definition finalists :: "wake_report set \<Rightarrow> wake_report set" where
  "finalists S = rms_set (snr_set (primary_set (band_set (servable_set S))))"

lemmas tier_sets = servable_set_def band_set_def primary_set_def snr_set_def rms_set_def

lemma tiers_shrink:
  "servable_set S \<subseteq> S" "band_set S \<subseteq> S" "primary_set S \<subseteq> S" "snr_set S \<subseteq> S" "rms_set S \<subseteq> S"
  by (auto simp: tier_sets)

lemma finalists_subset: "finalists S \<subseteq> S"
  unfolding finalists_def using tiers_shrink by blast

section \<open>The order on doubles\<close>

lemma float_less_trans:
  "\<not> float_less x y \<Longrightarrow> \<not> float_less y z \<Longrightarrow> y \<noteq> PNan \<Longrightarrow> \<not> float_less x z"
  by (cases x; cases y; cases z) (auto split: if_splits)

lemma float_less_asym: "float_less x y \<Longrightarrow> \<not> float_less y x"
  by (cases x; cases y) auto

lemma float_less_irrefl [simp]: "\<not> float_less x x"
  by (cases x) auto

lemma float_minus_nan [simp]: "float_minus x d = PNan \<longleftrightarrow> x = PNan"
  by (cases x) (auto simp: Let_def)

lemma float_minus_mono: "\<not> float_less y x \<Longrightarrow> x \<noteq> PNan \<Longrightarrow> y \<noteq> PNan \<Longrightarrow> \<not> float_less (float_minus y d) (float_minus x d)"
  by (cases x; cases y) (auto simp: Let_def abs_if split: if_splits)

lemma float_minus_le: "0 \<le> d \<Longrightarrow> x \<noteq> PNan \<Longrightarrow> float_ge x (float_minus x d)"
  by (cases x) (auto simp: float_ge_def Let_def abs_if split: if_splits)

lemma float_ge_trans: "float_ge x y \<Longrightarrow> float_ge y z \<Longrightarrow> float_ge x z"
  using float_less_trans by (auto simp: float_ge_def)

lemma foldl_float_max:
  assumes "m \<noteq> PNan" "PNan \<notin> set xs"
  shows "foldl (\<lambda>m y. if float_less m y then y else m) m xs \<in> insert m (set xs) \<and>
    (\<forall>x\<in>insert m (set xs). \<not> float_less (foldl (\<lambda>m y. if float_less m y then y else m) m xs) x)"
  using assms
proof (induction xs arbitrary: m)
  case Nil
  then show ?case by simp
next
  case (Cons y ys)
  define n where "n = (if float_less m y then y else m)"
  have n: "n \<noteq> PNan" "\<not> float_less n m" "\<not> float_less n y" "n \<in> {m, y}"
    using Cons.prems float_less_asym by (auto simp: n_def)
  have IH: "foldl (\<lambda>m y. if float_less m y then y else m) n ys \<in> insert n (set ys)"
    "\<forall>x\<in>insert n (set ys). \<not> float_less (foldl (\<lambda>m y. if float_less m y then y else m) n ys) x"
    using Cons.IH [OF n(1)] Cons.prems by auto
  show ?case
    using IH n float_less_trans [OF _ _ n(1)] by (auto simp flip: n_def)
qed

lemma float_max_greatest:
  assumes "xs \<noteq> []" "\<And>x. x \<in> set xs \<Longrightarrow> x \<noteq> PNan"
  obtains m where "float_max xs = Some m" "m \<in> set xs" "\<And>x. x \<in> set xs \<Longrightarrow> float_ge m x"
proof -
  obtain y ys where xs: "xs = y # ys" using assms by (cases xs) auto
  define m where "m = foldl (\<lambda>m y. if float_less m y then y else m) y ys"
  have m: "m \<in> set xs" "\<forall>x\<in>set xs. \<not> float_less m x"
    using foldl_float_max [of y ys] assms(2) [of y] assms(2) [of PNan] by (auto simp: xs m_def)
  show ?thesis
  proof (rule that [of m])
    show "float_max xs = Some m" by (simp add: xs m_def)
    show "m \<in> set xs" by (rule m)
    show "float_ge m x" if "x \<in> set xs" for x
      using m that assms(2) by (auto simp: float_ge_def)
  qed
qed

section \<open>The tiers compute the sets\<close>

lemma set_servable_pool: "set (servable_pool reports) = servable_set (set reports)"
  by (auto simp: servable_pool_def servable_set_def Let_def filter_empty_conv)

lemma set_confidence_band: "pool \<noteq> [] \<Longrightarrow> set (confidence_band pool) = band_set (set pool)"
proof -
  assume ne: "pool \<noteq> []"
  then have "Max (set (map wr_score pool)) - CONFIDENCE_TIE_EPS \<le> wr_score r \<longleftrightarrow>
    (\<forall>q\<in>set pool. wr_score q - CONFIDENCE_TIE_EPS \<le> wr_score r)" for r
    using Max_le_iff [of "wr_score ` set pool" "wr_score r + CONFIDENCE_TIE_EPS"] by (auto simp: algebra_simps)
  then show ?thesis by (auto simp: confidence_band_def band_set_def Let_def)
qed

lemma set_primaries:
  "set (if filter wr_primary pool = [] then pool else filter wr_primary pool) = primary_set (set pool)"
  by (auto simp: primary_set_def filter_empty_conv)

lemma snr_band_set:
  assumes "pool \<noteq> []" "\<forall>r\<in>set pool. measured r"
  obtains p where "snr_band pool = Some p" "set p = snr_set (set pool)" "p \<noteq> []"
proof -
  have no_nan: "x \<noteq> PNan" if "x \<in> set (map snr_or_neg_inf pool)" for x
    using assms(2) that by (auto simp: measured_def)
  obtain m where m: "float_max (map snr_or_neg_inf pool) = Some m" "m \<in> set (map snr_or_neg_inf pool)"
    "\<And>x. x \<in> set (map snr_or_neg_inf pool) \<Longrightarrow> float_ge m x"
    using float_max_greatest [of "map snr_or_neg_inf pool"] no_nan assms(1) by (metis map_is_Nil_conv)
  have top: "float_ge x (float_minus m SNR_TIE_EPS_DB) \<longleftrightarrow>
      (\<forall>q\<in>set pool. float_ge x (float_minus (snr_or_neg_inf q) SNR_TIE_EPS_DB))" for x
  proof
    assume x: "float_ge x (float_minus m SNR_TIE_EPS_DB)"
    show "\<forall>q\<in>set pool. float_ge x (float_minus (snr_or_neg_inf q) SNR_TIE_EPS_DB)"
    proof
      fix q assume "q \<in> set pool"
      then have "float_ge m (snr_or_neg_inf q)" using m(3) by simp
      then have "float_ge (float_minus m SNR_TIE_EPS_DB) (float_minus (snr_or_neg_inf q) SNR_TIE_EPS_DB)"
        using float_minus_mono by (auto simp: float_ge_def)
      with x show "float_ge x (float_minus (snr_or_neg_inf q) SNR_TIE_EPS_DB)" by (rule float_ge_trans)
    qed
  next
    assume "\<forall>q\<in>set pool. float_ge x (float_minus (snr_or_neg_inf q) SNR_TIE_EPS_DB)"
    then show "float_ge x (float_minus m SNR_TIE_EPS_DB)" using m(2) by auto
  qed
  obtain w where w: "w \<in> set pool" "m = snr_or_neg_inf w" using m(2) by auto
  have "m \<noteq> PNan" by (rule no_nan [OF m(2)])
  then have keep: "float_ge (snr_or_neg_inf w) (float_minus m SNR_TIE_EPS_DB)"
    unfolding w(2) by (intro float_minus_le) (simp_all add: SNR_TIE_EPS_DB_def)
  show ?thesis
  proof (rule that)
    show "snr_band pool = Some (filter (\<lambda>r. float_ge (snr_or_neg_inf r) (float_minus m SNR_TIE_EPS_DB)) pool)"
      by (simp add: snr_band_def m(1))
    show "set (filter (\<lambda>r. float_ge (snr_or_neg_inf r) (float_minus m SNR_TIE_EPS_DB)) pool) = snr_set (set pool)"
      unfolding snr_set_def top by simp
    show "filter (\<lambda>r. float_ge (snr_or_neg_inf r) (float_minus m SNR_TIE_EPS_DB)) pool \<noteq> []"
      using w(1) keep by (auto simp: filter_empty_conv)
  qed
qed

lemma rms_top_set:
  assumes "pool \<noteq> []" "\<forall>r\<in>set pool. measured r"
  obtains p where "rms_top pool = Some p" "set p = rms_set (set pool)" "p \<noteq> []"
proof -
  have no_nan: "x \<noteq> PNan" if "x \<in> set (map rms_or_neg_inf pool)" for x
    using assms(2) that by (auto simp: measured_def)
  obtain m where m: "float_max (map rms_or_neg_inf pool) = Some m" "m \<in> set (map rms_or_neg_inf pool)"
    "\<And>x. x \<in> set (map rms_or_neg_inf pool) \<Longrightarrow> float_ge m x"
    using float_max_greatest [of "map rms_or_neg_inf pool"] no_nan assms(1) by (metis map_is_Nil_conv)
  have top: "float_eq x m \<longleftrightarrow> (\<forall>q\<in>set pool. \<not> float_less x (rms_or_neg_inf q))" if "x \<in> set (map rms_or_neg_inf pool)" for x
  proof -
    have "x \<noteq> PNan" "m \<noteq> PNan" by (rule no_nan [OF that], rule no_nan [OF m(2)])
    moreover have "float_ge m x" by (rule m(3) [OF that])
    moreover have "\<not> float_less x (rms_or_neg_inf q)" if "q \<in> set pool" "float_ge x m" for q
      using float_less_trans [of x m "rms_or_neg_inf q"] m(3) [of "rms_or_neg_inf q"] that by (auto simp: float_ge_def)
    ultimately show ?thesis using m(2) by (auto simp: float_eq_def float_ge_def)
  qed
  obtain w where w: "w \<in> set pool" "m = rms_or_neg_inf w" using m(2) by auto
  have "float_eq (rms_or_neg_inf w) m" using no_nan [OF m(2)] by (auto simp: w(2) float_eq_def float_ge_def)
  then show ?thesis
    by (intro that [of "filter (\<lambda>r. float_eq (rms_or_neg_inf r) m) pool"])
      (use w top in \<open>auto simp: rms_top_def m(1) rms_set_def filter_empty_conv\<close>)
qed

definition winner_of :: "wake_report set \<Rightarrow> string" where
  "winner_of S = Min (wr_peer_id ` finalists S)"

lemma sole_or_same: "(\<And>r. pool = [r] \<Longrightarrow> rest = Some (wr_peer_id r)) \<Longrightarrow> sole_or pool rest = rest"
  by (auto simp: sole_or_def split: list.split)

lemma least_id_set: "pool \<noteq> [] \<Longrightarrow> least_id pool = Some (Min (wr_peer_id ` set pool))"
  by (simp add: least_id_def)

lemma snr_set_single: "measured r \<Longrightarrow> snr_set {r} = {r}"
  using float_minus_le [of SNR_TIE_EPS_DB "snr_or_neg_inf r"] by (auto simp: snr_set_def measured_def SNR_TIE_EPS_DB_def)

lemma rms_set_single: "rms_set {r} = {r}"
  by (auto simp: rms_set_def)

lemma signal_tiers_set:
  assumes "pool \<noteq> []" "\<forall>r\<in>set pool. measured r"
  shows "signal_tiers pool = Some (Min (wr_peer_id ` rms_set (snr_set (set pool))))"
proof -
  obtain p where p: "snr_band pool = Some p" "set p = snr_set (set pool)" "p \<noteq> []"
    using snr_band_set [OF assms] by metis
  then have mp: "\<forall>r\<in>set p. measured r"
    using assms(2) tiers_shrink(4) by blast
  obtain q where q: "rms_top p = Some q" "set q = rms_set (set p)" "q \<noteq> []"
    using rms_top_set [OF p(3) mp] by metis
  have q_end: "sole_or q (least_id q) = Some (Min (wr_peer_id ` set q))"
    using q(3) by (subst sole_or_same) (auto simp: least_id_set)
  have "sole_or p (sole_or q (least_id q)) = sole_or q (least_id q)"
    by (rule sole_or_same) (use q in \<open>simp add: q_end rms_set_single\<close>)
  then show ?thesis
    by (simp add: signal_tiers_def p(1,2) q(1,2) q_end)
qed

lemma rank_set:
  assumes "reports \<noteq> []" "\<forall>r\<in>set reports. measured r"
  shows "rank reports = Some (winner_of (set reports))"
proof -
  define pool where "pool = confidence_band (servable_pool reports)"
  define prims where "prims = filter wr_primary pool"
  define next_pool where "next_pool = (if prims = [] then pool else prims)"
  have ne: "servable_pool reports \<noteq> []"
    using assms(1) by (simp add: servable_pool_def Let_def)
  have pool_set: "set pool = band_set (servable_set (set reports))"
    by (simp add: pool_def set_confidence_band [OF ne] set_servable_pool)
  obtain w where "w \<in> set (servable_pool reports)"
    "wr_score w = Max (set (map wr_score (servable_pool reports)))"
    using ne Max_in [of "wr_score ` set (servable_pool reports)"] by (auto simp: image_iff)
  then have "w \<in> set pool"
    by (simp add: pool_def confidence_band_def Let_def CONFIDENCE_TIE_EPS_def)
  then have pool_ne: "pool \<noteq> []" by auto
  have next_set: "set next_pool = primary_set (set pool)" "next_pool \<noteq> []"
    unfolding next_pool_def prims_def by (rule set_primaries) (simp add: pool_ne)
  have ms: "\<forall>r\<in>set next_pool. measured r"
    using assms(2) next_set(1) pool_set tiers_shrink by blast
  have tiers: "signal_tiers next_pool = Some (winner_of (set reports))"
    unfolding signal_tiers_set [OF next_set(2) ms] next_set(1) pool_set winner_of_def finalists_def ..
  have single: "winner_of (set reports) = wr_peer_id r" if "set next_pool = {r}" for r
    using that ms snr_set_single [of r] next_set(1)
    by (simp add: winner_of_def finalists_def pool_set rms_set_single)
  have prims_single: "sole_or prims (signal_tiers next_pool) = signal_tiers next_pool"
  proof (rule sole_or_same)
    fix r assume "prims = [r]"
    then have "set next_pool = {r}" by (simp add: next_pool_def)
    then show "signal_tiers next_pool = Some (wr_peer_id r)" by (simp add: tiers single)
  qed
  have "sole_or pool (sole_or prims (signal_tiers next_pool)) = signal_tiers next_pool"
    unfolding prims_single
  proof (rule sole_or_same)
    fix r assume "pool = [r]"
    then have "set next_pool = {r}" by (auto simp: next_pool_def prims_def)
    then show "signal_tiers next_pool = Some (wr_peer_id r)" by (simp add: tiers single)
  qed
  moreover have "rank reports = sole_or pool (sole_or prims (signal_tiers next_pool))"
    using assms(1) by (simp add: rank_def Let_def pool_def prims_def next_pool_def)
  ultimately show ?thesis by (simp add: tiers)
qed

lemma Max_score_in_band:
  assumes "finite S" "S \<noteq> {}"
  obtains w where "w \<in> S" "\<forall>q\<in>S. wr_score q \<le> wr_score w" "w \<in> band_set S"
proof -
  have "Max (wr_score ` S) \<in> wr_score ` S" using assms by (intro Max_in) simp_all
  then obtain w where w: "w \<in> S" "Max (wr_score ` S) = wr_score w" by (rule imageE)
  moreover have "\<forall>q\<in>S. wr_score q \<le> Max (wr_score ` S)" using assms(1) by simp
  ultimately have top: "\<forall>q\<in>S. wr_score q \<le> wr_score w" by simp
  then have "w \<in> band_set S" using w(1) by (auto simp: band_set_def CONFIDENCE_TIE_EPS_def intro: order_trans)
  then show ?thesis using that w(1) top by blast
qed

text \<open>Every tier keeps somebody.\<close>

lemma finalists_nonempty:
  assumes "reports \<noteq> []" "\<forall>r\<in>set reports. measured r"
  shows "finalists (set reports) \<noteq> {}"
proof -
  let ?T = "servable_set (set reports)"
  have "finite ?T" "?T \<noteq> {}"
    using assms(1) finite_subset [OF tiers_shrink(1)] by (auto simp: servable_set_def)
  then obtain w where "w \<in> band_set ?T" using Max_score_in_band by metis
  then have "primary_set (band_set ?T) \<noteq> {}" by (auto simp: primary_set_def)
  moreover have sub: "primary_set (band_set ?T) \<subseteq> set reports" using tiers_shrink by blast
  ultimately obtain pool where pool: "set pool = primary_set (band_set ?T)" "pool \<noteq> []"
    by (metis List.finite_set finite_list finite_subset set_empty)
  have ms: "\<forall>r\<in>set pool. measured r" using assms(2) sub pool(1) by blast
  obtain p where p: "set p = snr_set (set pool)" "p \<noteq> []" using snr_band_set [OF pool(2) ms] by metis
  then have "\<forall>r\<in>set p. measured r" using ms tiers_shrink(4) by blast
  then obtain q where "set q = rms_set (set p)" "q \<noteq> []" using rms_top_set [OF p(2)] by metis
  then have "rms_set (set p) \<noteq> {}" by (metis set_empty)
  then show ?thesis by (simp add: finalists_def flip: pool(1) p(1))
qed

lemma servable_wins: "r \<in> S \<Longrightarrow> wr_can_serve r \<Longrightarrow> w \<in> servable_set S \<Longrightarrow> wr_can_serve w"
  by (auto simp: servable_set_def split: if_splits)

lemma primary_wins: "r \<in> S \<Longrightarrow> wr_primary r \<Longrightarrow> w \<in> primary_set S \<Longrightarrow> wr_primary w"
  by (auto simp: primary_set_def split: if_splits)

text \<open>
  C24. Speakers that heard the same reports agree on who answers: without a NaN among SNR and RMS, \<open>rank\<close>
  returns a speaker that reported, the same for every list with the same reports, in whatever order and
  multiplicity. The winner can serve if any can, among those it competes with none was more than 0.05 more
  confident, and a household primary within that band is beaten by a primary only.
\<close>

theorem peers_agree:
  assumes "reports \<noteq> []" "\<forall>r\<in>set reports. measured r"
  shows "\<exists>w\<in>set reports. rank reports = Some (wr_peer_id w) \<and>
    (\<forall>others. set others = set reports \<longrightarrow> rank others = rank reports) \<and>
    ((\<exists>r\<in>set reports. wr_can_serve r) \<longrightarrow> wr_can_serve w) \<and>
    (\<forall>r\<in>set reports. wr_can_serve r = wr_can_serve w \<longrightarrow>
      wr_score r - CONFIDENCE_TIE_EPS \<le> wr_score w \<and>
      (wr_primary r \<and> (\<forall>q\<in>set reports. wr_score q - CONFIDENCE_TIE_EPS \<le> wr_score r) \<longrightarrow> wr_primary w))"
proof -
  let ?S = "set reports" and ?T = "servable_set (set reports)"
  have ne: "finalists ?S \<noteq> {}"
    by (rule finalists_nonempty [OF assms])
  obtain w where w: "w \<in> finalists ?S" "wr_peer_id w = winner_of ?S"
    using Min_in [of "wr_peer_id ` finalists ?S"] ne finite_subset [OF finalists_subset, of ?S]
    unfolding winner_of_def by (metis (no_types, lifting) finite_imageI image_iff image_is_empty List.finite_set)
  have prim: "w \<in> primary_set (band_set ?T)" and band: "w \<in> band_set ?T" and serv: "w \<in> ?T" and mem: "w \<in> ?S"
    using w(1) tiers_shrink unfolding finalists_def by blast+
  have same: "rank others = rank reports" if "set others = ?S" for others
    using rank_set [of others] rank_set [OF assms] assms that by (metis set_empty)
  have close: "wr_score r - CONFIDENCE_TIE_EPS \<le> wr_score w \<and>
      (wr_primary r \<and> (\<forall>q\<in>?S. wr_score q - CONFIDENCE_TIE_EPS \<le> wr_score r) \<longrightarrow> wr_primary w)"
    if r: "r \<in> ?S" "wr_can_serve r = wr_can_serve w" for r
  proof -
    have rT: "r \<in> ?T" using r serv by (auto simp: servable_set_def split: if_splits)
    then have "wr_score r - CONFIDENCE_TIE_EPS \<le> wr_score w"
      using band by (auto simp: band_set_def)
    moreover have "r \<in> band_set ?T" if "\<forall>q\<in>?S. wr_score q - CONFIDENCE_TIE_EPS \<le> wr_score r"
      using that rT tiers_shrink(1) by (auto simp: band_set_def)
    ultimately show ?thesis using primary_wins prim by blast
  qed
  show ?thesis
  proof (intro bexI [of _ w] conjI mem)
    show "rank reports = Some (wr_peer_id w)" using rank_set [OF assms] w(2) by simp
    show "\<forall>others. set others = ?S \<longrightarrow> rank others = rank reports" using same by blast
    show "(\<exists>r\<in>?S. wr_can_serve r) \<longrightarrow> wr_can_serve w" using servable_wins serv by blast
    show "\<forall>r\<in>?S. wr_can_serve r = wr_can_serve w \<longrightarrow>
      wr_score r - CONFIDENCE_TIE_EPS \<le> wr_score w \<and>
      (wr_primary r \<and> (\<forall>q\<in>?S. wr_score q - CONFIDENCE_TIE_EPS \<le> wr_score r) \<longrightarrow> wr_primary w)"
      using close by blast
  qed
qed

lemma peers_agree_witness:
  "\<exists>w\<in>set [make_report ''a'' (PFin False (9/10)) None None False True, make_report ''b'' (PFin False (8/10)) None None True True].
     rank [make_report ''a'' (PFin False (9/10)) None None False True, make_report ''b'' (PFin False (8/10)) None None True True] =
       Some (wr_peer_id w)"
  using peers_agree [of "[make_report ''a'' (PFin False (9/10)) None None False True,
      make_report ''b'' (PFin False (8/10)) None None True True]"]
  by (simp add: make_report_def measured_def snr_or_neg_inf_def rms_or_neg_inf_def) blast

text \<open>
  A NaN breaks the agreement: of two reports in one confidence band, one with a NaN as SNR, the list that
  starts with the NaN has no winner (\<open>max\<close> of nothing raises \<open>ValueError\<close>), the other order elects the
  measured one.
\<close>

lemma nan_report_breaks_ranking:
  assumes "wr_snr_db n = Some PNan" "snr_or_neg_inf r \<noteq> PNan"
    and "wr_can_serve n = wr_can_serve r" "\<not> wr_primary n" "\<not> wr_primary r"
    and "\<bar>wr_score n - wr_score r\<bar> \<le> CONFIDENCE_TIE_EPS"
  shows "rank [n, r] = None \<and> rank [r, n] = Some (wr_peer_id r)"
proof -
  have pools: "servable_pool [n, r] = [n, r]" "servable_pool [r, n] = [r, n]"
    using assms(3) by (auto simp: servable_pool_def Let_def)
  have bands: "confidence_band [n, r] = [n, r]" "confidence_band [r, n] = [r, n]"
    using assms(6) by (auto simp: confidence_band_def CONFIDENCE_TIE_EPS_def max_def abs_if split: if_splits)
  have n: "snr_or_neg_inf n = PNan" using assms(1) by (simp add: snr_or_neg_inf_def)
  have less: "float_less (snr_or_neg_inf r) PNan = False" by (cases "snr_or_neg_inf r") auto
  have keep: "float_ge (snr_or_neg_inf r) (float_minus (snr_or_neg_inf r) SNR_TIE_EPS_DB)"
    using assms(2) by (intro float_minus_le) (simp_all add: SNR_TIE_EPS_DB_def)
  have nans: "\<not> float_ge x PNan" "\<not> float_ge PNan x" for x by (auto simp: float_ge_def)
  have bands2: "snr_band [n, r] = Some []" "snr_band [r, n] = Some [r]"
    using keep by (simp_all add: snr_band_def n less nans)
  show ?thesis
    using assms(4,5) by (simp add: rank_def pools bands signal_tiers_def bands2 sole_or_def rms_top_def)
qed

lemmas nan_ranks_nobody = nan_report_breaks_ranking [THEN conjunct1]

section \<open>The contract of an election\<close>

text \<open>
  What the state machine needs of the ranking: from sound reports it elects somebody who reported, and it looks at
  the set of reports only. Then parties with the same reports follow one leader.
\<close>

locale election =
  fixes elect :: "'r list \<Rightarrow> string option" and ident :: "'r \<Rightarrow> string" and sound :: "'r \<Rightarrow> bool"
  assumes elects: "xs \<noteq> [] \<Longrightarrow> \<forall>r\<in>set xs. sound r \<Longrightarrow> \<exists>w\<in>set xs. elect xs = Some (ident w)"
    and set_only: "xs \<noteq> [] \<Longrightarrow> \<forall>r\<in>set xs. sound r \<Longrightarrow> set ys = set xs \<Longrightarrow> elect ys = elect xs"
begin

lemma one_leader:
  assumes "S \<noteq> {}" "\<forall>r\<in>S. sound r" "finite S"
  obtains w where "w \<in> S" "\<And>xs. set xs = S \<Longrightarrow> elect xs = Some (ident w)"
proof -
  obtain zs where zs: "set zs = S" using finite_list [OF assms(3)] by auto
  then have ne: "zs \<noteq> []" "\<forall>r\<in>set zs. sound r" using assms(1,2) by auto
  obtain w where w: "w \<in> set zs" "elect zs = Some (ident w)" using elects [OF ne] by auto
  show ?thesis
  proof (rule that [of w])
    show "w \<in> S" using w(1) zs by simp
    show "elect xs = Some (ident w)" if "set xs = S" for xs
      using set_only [OF ne, of xs] that zs w(2) by simp
  qed
qed

end

lemma rank_elects:
  assumes "reports \<noteq> []" "\<forall>r\<in>set reports. measured r"
  shows "\<exists>w\<in>set reports. rank reports = Some (wr_peer_id w)"
proof -
  have "winner_of (set reports) \<in> wr_peer_id ` finalists (set reports)"
    unfolding winner_of_def using finalists_nonempty [OF assms] finite_subset [OF finalists_subset]
    by (intro Min_in) auto
  then show ?thesis using rank_set [OF assms] finalists_subset by auto
qed

interpretation wake_election: election rank wr_peer_id measured
proof
  show "\<exists>w\<in>set xs. rank xs = Some (wr_peer_id w)" if "xs \<noteq> []" "\<forall>r\<in>set xs. measured r" for xs
    using that by (rule rank_elects)
  show "rank ys = rank xs" if "xs \<noteq> []" "\<forall>r\<in>set xs. measured r" "set ys = set xs" for xs ys
    using rank_set [of ys] rank_set [OF that(1,2)] that by (metis set_empty)
qed

end
