(* ===== verification/Peering_State.thy ===== *)
theory Peering_State
  imports Peering_Rank
begin

text \<open>
  \<open>jasper/peering/state.py\<close>: the state machine each speaker runs to arbitrate a wake word with its neighbours. The
  clock comes with every event, the actions are values. A fresh epoch (\<open>uuid.uuid4()\<close>) is an argument; a dict is an
  association list; log lines are left out.
\<close>

section \<open>Actions and events\<close>

datatype peer_state = IDLE | CANDIDATE | WINNER | ACTIVE | SUPPRESSED

datatype peer_action =
  BroadcastWake string wake_report | BroadcastClaim string | BroadcastHeartbeat string | BroadcastEnd string string
| StartSession string | StandDown
| ScheduleTimer string rat | CancelTimer string

datatype peer_event =
  LocalWake pyfloat "pyfloat option" "pyfloat option" bool rat  \<comment> \<open>score, SNR, RMS, can serve, now\<close>
| PeerWake string wake_report rat
| PeerClaim string string rat                                   \<comment> \<open>epoch, peer, now\<close>
| PeerHeartbeat string string rat
| PeerEnd string string string rat                              \<comment> \<open>epoch, peer, reason, now\<close>
| TimerFired string rat
| VoiceSessionStarted string rat
| VoiceSessionEnded string string rat

definition TIMER_ARB_WINDOW :: string where "TIMER_ARB_WINDOW = ''arb_window''"
definition TIMER_HEARTBEAT_SEND :: string where "TIMER_HEARTBEAT_SEND = ''heart_send''"
definition TIMER_HEARTBEAT_TIMEOUT :: string where "TIMER_HEARTBEAT_TIMEOUT = ''heart_timeout''"

lemma timers_distinct [simp]:
  "TIMER_ARB_WINDOW \<noteq> TIMER_HEARTBEAT_SEND" "TIMER_HEARTBEAT_SEND \<noteq> TIMER_ARB_WINDOW"
  "TIMER_ARB_WINDOW \<noteq> TIMER_HEARTBEAT_TIMEOUT" "TIMER_HEARTBEAT_TIMEOUT \<noteq> TIMER_ARB_WINDOW"
  "TIMER_HEARTBEAT_SEND \<noteq> TIMER_HEARTBEAT_TIMEOUT" "TIMER_HEARTBEAT_TIMEOUT \<noteq> TIMER_HEARTBEAT_SEND"
  by (simp_all add: TIMER_ARB_WINDOW_def TIMER_HEARTBEAT_SEND_def TIMER_HEARTBEAT_TIMEOUT_def)

section \<open>The machine\<close>

record state_machine_params =
  sp_peer_id :: string
  sp_primary :: bool
  sp_arb_window_sec :: rat
  sp_break_threshold :: rat
  sp_heartbeat_interval_sec :: rat
  sp_heartbeat_timeout_sec :: rat

record epoch_pad =
  ep_epoch :: string
  ep_reports :: "(string \<times> wake_report) list"
  ep_started_at :: rat

record peering_machine =
  pm_state :: peer_state
  pm_epoch :: "epoch_pad option"
  pm_foreign_epoch :: "string option"
  pm_foreign_peer :: "string option"
  pm_foreign_last_heartbeat :: rat

definition fresh_machine :: peering_machine where
  "fresh_machine = \<lparr>pm_state = IDLE, pm_epoch = None, pm_foreign_epoch = None, pm_foreign_peer = None,
     pm_foreign_last_heartbeat = 0\<rparr>"

definition current_epoch :: "peering_machine \<Rightarrow> string option" where
  "current_epoch m = (case pm_epoch m of Some e \<Rightarrow> Some (ep_epoch e) | None \<Rightarrow> pm_foreign_epoch m)"

definition in_epoch :: "peering_machine \<Rightarrow> string \<Rightarrow> bool" where
  "in_epoch m epoch \<longleftrightarrow> (case pm_epoch m of Some e \<Rightarrow> ep_epoch e = epoch | None \<Rightarrow> False)"

definition reset_epoch :: "peering_machine \<Rightarrow> peering_machine" where
  "reset_epoch m = m\<lparr>pm_epoch := None\<rparr>"

definition clear_foreign_session :: "peering_machine \<Rightarrow> peering_machine" where
  "clear_foreign_session m = m\<lparr>pm_foreign_epoch := None, pm_foreign_peer := None, pm_foreign_last_heartbeat := 0\<rparr>"

section \<open>Handlers\<close>

text \<open>Every handler returns its actions and the machine after it.\<close>

definition begin_candidate ::
  "state_machine_params \<Rightarrow> string \<Rightarrow> pyfloat \<Rightarrow> pyfloat option \<Rightarrow> pyfloat option \<Rightarrow> bool \<Rightarrow> rat \<Rightarrow>
   peering_machine \<Rightarrow> peer_action list \<times> peering_machine" where
  "begin_candidate p uuid score snr_db rms_dbfs can_serve now m =
     (let own = make_report (sp_peer_id p) score snr_db rms_dbfs (sp_primary p) can_serve
      in ([BroadcastWake uuid own, ScheduleTimer TIMER_ARB_WINDOW (now + sp_arb_window_sec p)],
          m\<lparr>pm_epoch := Some \<lparr>ep_epoch = uuid, ep_reports = [(sp_peer_id p, own)], ep_started_at = now\<rparr>,
            pm_state := CANDIDATE\<rparr>))"

definition on_local_wake ::
  "state_machine_params \<Rightarrow> string \<Rightarrow> pyfloat \<Rightarrow> pyfloat option \<Rightarrow> pyfloat option \<Rightarrow> bool \<Rightarrow> rat \<Rightarrow>
   peering_machine \<Rightarrow> peer_action list \<times> peering_machine" where
  "on_local_wake p uuid score snr_db rms_dbfs can_serve now m =
     (if pm_state m = SUPPRESSED \<and> float_less score (PFin (sp_break_threshold p < 0) \<bar>sp_break_threshold p\<bar>)
      then ([StandDown], m)
      else let m = (if pm_state m = SUPPRESSED then clear_foreign_session m else m)
           in if pm_state m \<in> {IDLE, SUPPRESSED}
              then begin_candidate p uuid score snr_db rms_dbfs can_serve now m
              else ([StandDown], m))"

text \<open>\<open>setdefault\<close> for every report of the abandoned epoch.\<close>

definition carry_reports :: "(string \<times> wake_report) list \<Rightarrow> (string \<times> wake_report) list \<Rightarrow> (string \<times> wake_report) list" where
  "carry_reports old new = foldl (\<lambda>d (_, r). if map_of d (wr_peer_id r) = None then d @ [(wr_peer_id r, r)] else d) new old"

definition on_peer_wake ::
  "state_machine_params \<Rightarrow> string \<Rightarrow> wake_report \<Rightarrow> rat \<Rightarrow> peering_machine \<Rightarrow> peer_action list \<times> peering_machine" where
  "on_peer_wake p epoch report now m =
     (if pm_state m = IDLE
      then ([ScheduleTimer TIMER_ARB_WINDOW (now + sp_arb_window_sec p)],
            m\<lparr>pm_state := CANDIDATE,
              pm_epoch := Some \<lparr>ep_epoch = epoch, ep_reports = [(wr_peer_id report, report)], ep_started_at = now\<rparr>\<rparr>)
      else case (pm_state m, pm_epoch m) of
             (CANDIDATE, Some e) \<Rightarrow>
               if epoch = ep_epoch e
               then ([], m\<lparr>pm_epoch := Some (e\<lparr>ep_reports := AList.update (wr_peer_id report) report (ep_reports e)\<rparr>)\<rparr>)
               else if epoch < ep_epoch e
               then ([], m\<lparr>pm_epoch := Some \<lparr>ep_epoch = epoch,
                       ep_reports = carry_reports (ep_reports e) [(wr_peer_id report, report)], ep_started_at = now\<rparr>\<rparr>)
               else ([], m)
           | _ \<Rightarrow> ([], m))"

definition suppress ::
  "state_machine_params \<Rightarrow> string \<Rightarrow> string \<Rightarrow> rat \<Rightarrow> peering_machine \<Rightarrow> peer_action list \<times> peering_machine" where
  "suppress p epoch peer now m =
     ([ScheduleTimer TIMER_HEARTBEAT_TIMEOUT (now + sp_heartbeat_timeout_sec p)],
      m\<lparr>pm_state := SUPPRESSED, pm_foreign_epoch := Some epoch, pm_foreign_peer := Some peer,
        pm_foreign_last_heartbeat := now\<rparr>)"

definition on_peer_claim ::
  "state_machine_params \<Rightarrow> string \<Rightarrow> string \<Rightarrow> rat \<Rightarrow> peering_machine \<Rightarrow> peer_action list \<times> peering_machine" where
  "on_peer_claim p epoch peer now m =
     (if peer = sp_peer_id p then ([], m)
      else if pm_state m = ACTIVE then ([], m)
      else if pm_state m = CANDIDATE \<and> \<not> in_epoch m epoch then ([], m)
      else let (concede, m) =
             (if pm_state m = WINNER \<and> in_epoch m epoch
              then ([StandDown, CancelTimer TIMER_HEARTBEAT_SEND], reset_epoch m)
              else if pm_state m = CANDIDATE then ([StandDown, CancelTimer TIMER_ARB_WINDOW], reset_epoch m)
              else ([], m));
             (watch, m) = suppress p epoch peer now m
           in (concede @ watch, m))"

definition on_peer_heartbeat ::
  "state_machine_params \<Rightarrow> string \<Rightarrow> string \<Rightarrow> rat \<Rightarrow> peering_machine \<Rightarrow> peer_action list \<times> peering_machine" where
  "on_peer_heartbeat p epoch peer now m =
     (if pm_state m = SUPPRESSED \<and> Some epoch = pm_foreign_epoch m \<and> Some peer = pm_foreign_peer m
      then ([ScheduleTimer TIMER_HEARTBEAT_TIMEOUT (now + sp_heartbeat_timeout_sec p)],
            m\<lparr>pm_foreign_last_heartbeat := now\<rparr>)
      else ([], m))"

definition on_peer_end :: "string \<Rightarrow> peering_machine \<Rightarrow> peer_action list \<times> peering_machine" where
  "on_peer_end epoch m =
     (if pm_state m = SUPPRESSED \<and> Some epoch = pm_foreign_epoch m
      then ([CancelTimer TIMER_HEARTBEAT_TIMEOUT], (clear_foreign_session m)\<lparr>pm_state := IDLE\<rparr>)
      else ([], m))"

definition send_heartbeat_and_reschedule ::
  "state_machine_params \<Rightarrow> rat \<Rightarrow> peering_machine \<Rightarrow> peer_action list \<times> peering_machine" where
  "send_heartbeat_and_reschedule p now m =
     (case (pm_state m, pm_epoch m) of
        (ACTIVE, Some e) \<Rightarrow>
          ([BroadcastHeartbeat (ep_epoch e), ScheduleTimer TIMER_HEARTBEAT_SEND (now + sp_heartbeat_interval_sec p)], m)
      | _ \<Rightarrow> ([], m))"

definition on_heartbeat_timeout ::
  "state_machine_params \<Rightarrow> rat \<Rightarrow> peering_machine \<Rightarrow> peer_action list \<times> peering_machine" where
  "on_heartbeat_timeout p now m =
     (if pm_state m \<noteq> SUPPRESSED then ([], m)
      else if sp_heartbeat_timeout_sec p \<le> now - pm_foreign_last_heartbeat m
      then ([], (clear_foreign_session m)\<lparr>pm_state := IDLE\<rparr>)
      else ([], m))"

text \<open>None: \<open>rank\<close> raised; nothing was assigned before.\<close>

definition close_arbitration ::
  "state_machine_params \<Rightarrow> rat \<Rightarrow> peering_machine \<Rightarrow> peer_action list option \<times> peering_machine" where
  "close_arbitration p now m =
     (case (pm_state m, pm_epoch m) of
        (CANDIDATE, Some e) \<Rightarrow>
          (let reports = map snd (ep_reports e); epoch = ep_epoch e
           in if reports = [] then (Some [], (reset_epoch m)\<lparr>pm_state := IDLE\<rparr>)
              else case rank reports of
                     None \<Rightarrow> (None, m)
                   | Some winner_id \<Rightarrow>
                       if winner_id = sp_peer_id p
                       then (Some [BroadcastClaim epoch, StartSession epoch], m\<lparr>pm_state := WINNER\<rparr>)
                       else let (watch, m) = suppress p epoch winner_id now (reset_epoch m)
                            in (Some (StandDown # watch), m))
      | _ \<Rightarrow> (Some [], m))"

definition on_voice_started ::
  "state_machine_params \<Rightarrow> string \<Rightarrow> rat \<Rightarrow> peering_machine \<Rightarrow> peer_action list \<times> peering_machine" where
  "on_voice_started p epoch now m =
     (if pm_state m = WINNER \<and> in_epoch m epoch
      then send_heartbeat_and_reschedule p now (m\<lparr>pm_state := ACTIVE\<rparr>)
      else ([], m))"

definition on_voice_ended :: "string \<Rightarrow> string \<Rightarrow> peering_machine \<Rightarrow> peer_action list \<times> peering_machine" where
  "on_voice_ended epoch reason m =
     (if pm_state m = ACTIVE \<and> in_epoch m epoch
      then ([BroadcastEnd epoch reason, CancelTimer TIMER_HEARTBEAT_SEND], (reset_epoch m)\<lparr>pm_state := IDLE\<rparr>)
      else ([], m))"

definition answered :: "peer_action list \<times> peering_machine \<Rightarrow> peer_action list option \<times> peering_machine" where
  "answered r = (Some (fst r), snd r)"

definition on_timer ::
  "state_machine_params \<Rightarrow> string \<Rightarrow> rat \<Rightarrow> peering_machine \<Rightarrow> peer_action list option \<times> peering_machine" where
  "on_timer p timer_id now m =
     (if timer_id = TIMER_ARB_WINDOW then close_arbitration p now m
      else if timer_id = TIMER_HEARTBEAT_SEND then answered (send_heartbeat_and_reschedule p now m)
      else if timer_id = TIMER_HEARTBEAT_TIMEOUT then answered (on_heartbeat_timeout p now m)
      else (Some [], m))"

fun handle ::
  "state_machine_params \<Rightarrow> string \<Rightarrow> peer_event \<Rightarrow> peering_machine \<Rightarrow> peer_action list option \<times> peering_machine" where
  "handle p uuid (LocalWake score snr rms serve now) m = answered (on_local_wake p uuid score snr rms serve now m)"
| "handle p uuid (PeerWake epoch report now) m = answered (on_peer_wake p epoch report now m)"
| "handle p uuid (PeerClaim epoch peer now) m = answered (on_peer_claim p epoch peer now m)"
| "handle p uuid (PeerHeartbeat epoch peer now) m = answered (on_peer_heartbeat p epoch peer now m)"
| "handle p uuid (PeerEnd epoch peer reason now) m = answered (on_peer_end epoch m)"
| "handle p uuid (TimerFired timer_id now) m = on_timer p timer_id now m"
| "handle p uuid (VoiceSessionStarted epoch now) m = answered (on_voice_started p epoch now m)"
| "handle p uuid (VoiceSessionEnded epoch reason now) m = answered (on_voice_ended epoch reason m)"

end
