(* ===== verification/Peering_Wire.thy ===== *)
theory Peering_Wire
  imports Peering_Rank
begin

text \<open>
  The datagrams of \<open>jasper/peering/transport.py\<close>, at the level of the JSON values: what is sent, and what a receiver
  makes of anything it gets. \<open>json.dumps\<close> and \<open>json.loads\<close> are inverse on these objects; the text of a float, list
  or dict (\<open>str\<close> of it) is what \<open>WFloat\<close> and \<open>WOther\<close> carry.
\<close>

section \<open>Values\<close>

datatype wire_value =
  WNull | WBool bool | WInt int | WFloat pyfloat string | WStr string
| WOther bool string  \<comment> \<open>a list or dict: its truth and its \<open>str\<close>\<close>

text \<open>What \<open>json.loads\<close> makes of a datagram.\<close>

datatype datagram = Malformed | NotAnObject | Object "string \<rightharpoonup> wire_value"

fun wire_str :: "wire_value \<Rightarrow> string" where
  "wire_str WNull = ''None''"
| "wire_str (WBool b) = (if b then ''True'' else ''False'')"
| "wire_str (WInt i) = py_str_int i"
| "wire_str (WFloat _ w) = w"
| "wire_str (WStr w) = w"
| "wire_str (WOther _ w) = w"

fun wire_bool :: "wire_value \<Rightarrow> bool" where
  "wire_bool WNull = False"
| "wire_bool (WBool b) = b"
| "wire_bool (WInt i) = (i \<noteq> 0)"
| "wire_bool (WFloat x _) = (case x of PFin _ m \<Rightarrow> m \<noteq> 0 | _ \<Rightarrow> True)"
| "wire_bool (WStr w) = (w \<noteq> [])"
| "wire_bool (WOther b _) = b"

definition float_of_int :: "int \<Rightarrow> pyfloat option" where
  "float_of_int i = (if \<bar>i\<bar> < double_overflow then Some (PFin (i < 0) (double_of (of_int \<bar>i\<bar>))) else None)"

text \<open>\<open>float(value)\<close>; None is its \<open>TypeError\<close>, \<open>ValueError\<close> or \<open>OverflowError\<close>, so this is \<open>as_float\<close> too.\<close>

fun as_float :: "wire_value \<Rightarrow> pyfloat option" where
  "as_float WNull = None"
| "as_float (WBool b) = Some (PFin False (if b then 1 else 0))"
| "as_float (WInt i) = float_of_int i"
| "as_float (WFloat x _) = Some x"
| "as_float (WStr w) = py_float w"
| "as_float (WOther _ _) = None"

text \<open>\<open>int(value)\<close>; None is any of its exceptions.\<close>

fun wire_int :: "wire_value \<Rightarrow> int option" where
  "wire_int WNull = None"
| "wire_int (WBool b) = Some (if b then 1 else 0)"
| "wire_int (WInt i) = Some i"
| "wire_int (WFloat x _) = map_option py_trunc (float_value x)"
| "wire_int (WStr w) = py_int w"
| "wire_int (WOther _ _) = None"

text \<open>\<open>value == 1\<close>.\<close>

fun wire_is_one :: "wire_value \<Rightarrow> bool" where
  "wire_is_one (WBool b) = b"
| "wire_is_one (WInt i) = (i = 1)"
| "wire_is_one (WFloat x _) = (float_value x = Some 1)"
| "wire_is_one _ = False"

section \<open>Sending\<close>

definition PROTO_VERSION :: int where "PROTO_VERSION = 1"

definition envelope :: "string \<Rightarrow> string \<Rightarrow> int \<Rightarrow> (string \<times> wire_value) list \<Rightarrow> (string \<times> wire_value) list" where
  "envelope t peer_id ts_ns extra =
     [(''t'', WStr t), (''proto'', WInt PROTO_VERSION), (''peer'', WStr peer_id), (''ts'', WInt ts_ns)] @ extra"

text \<open>\<open>round(x, k)\<close> of a float; \<open>show_float\<close> is \<open>str\<close> of a float.\<close>

fun round_float :: "nat \<Rightarrow> pyfloat \<Rightarrow> pyfloat" where
  "round_float k (PFin a x) = PFin a (py_round_dec k x)"
| "round_float k x = x"

definition rounded_or_null :: "(pyfloat \<Rightarrow> string) \<Rightarrow> nat \<Rightarrow> pyfloat option \<Rightarrow> wire_value" where
  "rounded_or_null show_float k x =
     (case x of None \<Rightarrow> WNull | Some v \<Rightarrow> WFloat (round_float k v) (show_float (round_float k v)))"

definition encode_wake ::
  "(pyfloat \<Rightarrow> string) \<Rightarrow> string \<Rightarrow> wake_report \<Rightarrow> int \<Rightarrow> (string \<times> wire_value) list" where
  "encode_wake show_float epoch report ts_ns = envelope ''WAKE'' (wr_peer_id report) ts_ns
     [(''epoch'', WStr epoch),
      (''score'', rounded_or_null show_float 4 (Some (PFin False (wr_score report)))),
      (''snr_db'', rounded_or_null show_float 2 (wr_snr_db report)),
      (''rms_dbfs'', rounded_or_null show_float 2 (wr_rms_dbfs report)),
      (''primary'', WInt (if wr_primary report then 1 else 0)),
      (''can_serve'', WInt (if wr_can_serve report then 1 else 0))]"

definition encode_claim :: "string \<Rightarrow> string \<Rightarrow> int \<Rightarrow> (string \<times> wire_value) list" where
  "encode_claim epoch peer_id ts_ns = envelope ''CLAIM'' peer_id ts_ns [(''epoch'', WStr epoch)]"

definition encode_heartbeat :: "string \<Rightarrow> string \<Rightarrow> int \<Rightarrow> (string \<times> wire_value) list" where
  "encode_heartbeat epoch peer_id ts_ns = envelope ''HEART'' peer_id ts_ns [(''epoch'', WStr epoch)]"

definition encode_end :: "string \<Rightarrow> string \<Rightarrow> string \<Rightarrow> int \<Rightarrow> (string \<times> wire_value) list" where
  "encode_end epoch peer_id reason ts_ns = envelope ''END'' peer_id ts_ns
     [(''epoch'', WStr epoch), (''reason'', WStr (take 64 reason))]"

section \<open>Receiving\<close>

datatype incoming =
  IncomingWake string wake_report int
| IncomingClaim string string int
| IncomingHeartbeat string string int
| IncomingEnd string string string int

definition field_or :: "wire_value \<Rightarrow> (string \<rightharpoonup> wire_value) \<Rightarrow> string \<Rightarrow> wire_value" where
  "field_or fallback msg key = (case msg key of Some v \<Rightarrow> v | None \<Rightarrow> fallback)"

definition decode_wake :: "(string \<rightharpoonup> wire_value) \<Rightarrow> incoming option" where
  "decode_wake msg =
     (case (msg ''epoch'', wire_int (field_or (WInt 0) msg ''ts''), msg ''peer'', Option.bind (msg ''score'') as_float) of
        (Some epoch, Some ts, Some peer, Some score) \<Rightarrow>
          Some (IncomingWake (wire_str epoch)
            (make_report (wire_str peer) score (as_float (field_or WNull msg ''snr_db''))
               (as_float (field_or WNull msg ''rms_dbfs'')) (wire_bool (field_or (WInt 0) msg ''primary''))
               (wire_bool (field_or (WInt 1) msg ''can_serve''))) ts)
      | _ \<Rightarrow> None)"

text \<open>The fields the other three kinds share.\<close>

definition decode_common :: "(string \<rightharpoonup> wire_value) \<Rightarrow> (string \<times> string \<times> int) option" where
  "decode_common msg =
     (case (msg ''epoch'', msg ''peer'', wire_int (field_or (WInt 0) msg ''ts'')) of
        (Some epoch, Some peer, Some ts) \<Rightarrow> Some (wire_str epoch, wire_str peer, ts)
      | _ \<Rightarrow> None)"

definition decode_object :: "(string \<rightharpoonup> wire_value) \<Rightarrow> incoming option" where
  "decode_object msg =
     (if \<not> wire_is_one (field_or WNull msg ''proto'') then None
      else let t = field_or WNull msg ''t''
           in if t = WStr ''WAKE'' then decode_wake msg
              else case decode_common msg of None \<Rightarrow> None | Some (epoch, peer, ts) \<Rightarrow>
                if t = WStr ''CLAIM'' then Some (IncomingClaim epoch peer ts)
                else if t = WStr ''HEART'' then Some (IncomingHeartbeat epoch peer ts)
                else if t = WStr ''END''
                then Some (IncomingEnd epoch peer (take 64 (wire_str (field_or (WStr []) msg ''reason''))) ts)
                else None)"

definition decode :: "datagram \<Rightarrow> incoming option" where
  "decode d = (case d of Object msg \<Rightarrow> decode_object msg | _ \<Rightarrow> None)"

definition sender_peer_id :: "incoming \<Rightarrow> string" where
  "sender_peer_id msg = (case msg of
     IncomingWake _ report _ \<Rightarrow> wr_peer_id report
   | IncomingClaim _ peer _ \<Rightarrow> peer
   | IncomingHeartbeat _ peer _ \<Rightarrow> peer
   | IncomingEnd _ peer _ _ \<Rightarrow> peer)"

section \<open>Round trips\<close>

text \<open>A report after the wire: rounded to four and two decimals.\<close>

definition rounded :: "wake_report \<Rightarrow> wake_report" where
  "rounded r = r\<lparr>wr_score := py_round_dec 4 (wr_score r),
     wr_snr_db := map_option (round_float 2) (wr_snr_db r), wr_rms_dbfs := map_option (round_float 2) (wr_rms_dbfs r)\<rparr>"

definition score_in_range :: "wake_report \<Rightarrow> bool" where
  "score_in_range r \<longleftrightarrow> 0 \<le> wr_score r \<and> wr_score r \<le> 1"

lemma clamp_score_range: "0 \<le> clamp_score x \<and> clamp_score x \<le> 1"
  using clamp_bounds [of 0 "1 :: rat"] by (cases x) simp_all

lemma made_report_in_range: "score_in_range (make_report peer score snr rms prim serve)"
  by (simp add: score_in_range_def make_report_def clamp_score_range)

lemma rounded_in_range: "score_in_range r \<Longrightarrow> score_in_range (rounded r)"
proof -
  assume "score_in_range r"
  then have "of_int 0 \<le> wr_score r * 10 ^ 4" "wr_score r * 10 ^ 4 \<le> of_int 10000"
    by (auto simp: score_in_range_def)
  then have "0 \<le> py_round (wr_score r * 10 ^ 4)" "py_round (wr_score r * 10 ^ 4) \<le> 10000"
    using py_round_ge [of 0] py_round_le [of _ 10000] by auto
  then have "0 \<le> py_round (wr_score r * 10 ^ 4)" "of_int (py_round (wr_score r * 10 ^ 4)) \<le> (10000 :: rat)"
    using of_int_le_iff [of _ 10000, where 'a = rat] by auto
  then show ?thesis by (simp add: score_in_range_def rounded_def py_round_dec_def)
qed

lemma rounded_twice: "rounded (rounded r) = rounded r"
proof -
  have dec: "py_round_dec k (py_round_dec k x) = py_round_dec k x" for k x
    by (simp add: py_round_dec_def)
  then have "round_float k (round_float k v) = round_float k v" for k v by (cases v) simp_all
  then show ?thesis by (simp add: rounded_def dec option.map_comp comp_def)
qed

lemma decode_encode_wake:
  assumes "score_in_range r"
  shows "decode (Object (map_of (encode_wake show_float epoch r ts))) = Some (IncomingWake epoch (rounded r) ts)"
proof -
  have score: "clamp_score (PFin False (py_round_dec 4 (wr_score r))) = py_round_dec 4 (wr_score r)"
    using rounded_in_range [OF assms] by (simp add: score_in_range_def rounded_def)
  have opt: "as_float (rounded_or_null show_float k x) = map_option (round_float k) x" for k x
    by (cases x) (simp_all add: rounded_or_null_def)
  have score_opt: "as_float (rounded_or_null show_float 4 (Some (PFin False s))) = Some (PFin False (py_round_dec 4 s))" for s
    by (simp add: opt)
  show ?thesis
    using score by (cases r) (simp add: decode_def decode_object_def decode_wake_def encode_wake_def envelope_def
        field_or_def PROTO_VERSION_def Let_def score_opt opt make_report_def rounded_def)
qed

text \<open>
  C31. What a speaker sends, every speaker reads: a wake report comes back with its score rounded to four decimals
  and its levels to two, still in range, and unchanged by another trip; claims, heartbeats and ends come back exactly, a reason cut
  to 64 characters. Whatever else arrives, a message that is believed has a score between 0 and 1.
\<close>

theorem wire_round_trip:
  assumes "score_in_range r"
  shows "decode (Object (map_of (encode_wake show_float epoch r ts))) = Some (IncomingWake epoch (rounded r) ts) \<and>
    score_in_range (rounded r) \<and> rounded (rounded r) = rounded r \<and>
    decode (Object (map_of (encode_claim epoch peer ts))) = Some (IncomingClaim epoch peer ts) \<and>
    decode (Object (map_of (encode_heartbeat epoch peer ts))) = Some (IncomingHeartbeat epoch peer ts) \<and>
    decode (Object (map_of (encode_end epoch peer reason ts))) = Some (IncomingEnd epoch peer (take 64 reason) ts) \<and>
    (\<forall>d epoch' r' ts'. decode d = Some (IncomingWake epoch' r' ts') \<longrightarrow> score_in_range r')"
proof -
  have in_range: "score_in_range (rounded r)" by (rule rounded_in_range [OF assms])
  note wake = decode_encode_wake [OF assms, of show_float epoch ts]
  have rest: "decode (Object (map_of (encode_claim epoch peer ts))) = Some (IncomingClaim epoch peer ts)"
    "decode (Object (map_of (encode_heartbeat epoch peer ts))) = Some (IncomingHeartbeat epoch peer ts)"
    "decode (Object (map_of (encode_end epoch peer reason ts))) = Some (IncomingEnd epoch peer (take 64 reason) ts)"
    by (simp_all add: decode_def decode_object_def decode_common_def encode_claim_def encode_heartbeat_def encode_end_def
        envelope_def field_or_def PROTO_VERSION_def Let_def)
  have any: "score_in_range r'" if "decode d = Some (IncomingWake epoch' r' ts')" for d epoch' r' ts'
    using that made_report_in_range
    by (auto simp: decode_def decode_object_def decode_wake_def Let_def split: datagram.splits option.splits if_splits)
  show ?thesis
    using wake in_range rounded_twice rest any by blast
qed

lemma wire_round_trip_witness:
  "decode (Object (map_of (encode_wake (\<lambda>_. ''x'') ''e1'' (make_report ''p'' (PFin False (12346 / 100000)) None None False True) 7))) =
     Some (IncomingWake ''e1'' (rounded (make_report ''p'' (PFin False (12346 / 100000)) None None False True)) 7)"
  using wire_round_trip [OF made_report_in_range [of "''p''" "PFin False (12346 / 100000)" None None False True],
      of "\<lambda>_. ''x''" "''e1''" 7] by simp

end
