(* ===== verification/Peering_Config.thy ===== *)
theory Peering_Config
  imports Env_Load Py_Float
begin

text \<open>
  \<open>jasper/peering/config.py\<close>: the settings of the wake arbitration, resolved from overrides, the env file of the
  wizard and the process environment, and the identity of the speaker. Every number that loads is in its bounds,
  a switch that is not clearly on is off, and an identity once written is kept.
\<close>

section \<open>Constants\<close>

definition DEFAULT_ARB_WINDOW_MS :: int where "DEFAULT_ARB_WINDOW_MS = 150"
definition MIN_ARB_WINDOW_MS :: int where "MIN_ARB_WINDOW_MS = 50"
definition MAX_ARB_WINDOW_MS :: int where "MAX_ARB_WINDOW_MS = 500"
definition ARBITRATE_RPC_MARGIN_SEC :: rat where "ARBITRATE_RPC_MARGIN_SEC = 15 / 100"
definition ARBITRATE_RPC_TIMEOUT_SEC :: rat where
  "ARBITRATE_RPC_TIMEOUT_SEC = of_int MAX_ARB_WINDOW_MS / 1000 + ARBITRATE_RPC_MARGIN_SEC"
definition DEFAULT_BREAK_THRESHOLD :: rat where "DEFAULT_BREAK_THRESHOLD = 85 / 100"
definition DEFAULT_HEARTBEAT_INTERVAL_SEC :: rat where "DEFAULT_HEARTBEAT_INTERVAL_SEC = 1"
definition DEFAULT_HEARTBEAT_TIMEOUT_SEC :: rat where "DEFAULT_HEARTBEAT_TIMEOUT_SEC = 2"

section \<open>The configuration\<close>

datatype peering_mode = MODE_OFF | MODE_ON

record peering_config =
  pc_mode :: peering_mode
  pc_peer_id :: string
  pc_room :: string
  pc_primary :: bool
  pc_arb_window_ms :: int
  pc_break_threshold :: rat

definition config_enabled :: "peering_config \<Rightarrow> bool" where
  "config_enabled cfg \<longleftrightarrow> pc_mode cfg = MODE_ON"

definition parse_mode :: "string \<Rightarrow> peering_mode" where
  "parse_mode raw = (if parse_bool_value (Some raw) None = Some True then MODE_ON else MODE_OFF)"

definition read_peering_state :: "text_file \<Rightarrow> (string \<times> string) list" where
  "read_peering_state f = read_env_file_or_warn f"

definition state_value_or_env :: "(string \<rightharpoonup> string) \<Rightarrow> (string \<rightharpoonup> string) \<Rightarrow> string \<Rightarrow> string" where
  "state_value_or_env environ state key = (case state key of Some v \<Rightarrow> v
     | None \<Rightarrow> (case environ key of Some v \<Rightarrow> v | None \<Rightarrow> []))"

definition state_enabled :: "(string \<rightharpoonup> string) \<Rightarrow> (string \<rightharpoonup> string) \<Rightarrow> bool" where
  "state_enabled environ state \<longleftrightarrow> parse_mode (state_value_or_env environ state ''JASPER_PEERING'') = MODE_ON"

definition state_primary :: "(string \<rightharpoonup> string) \<Rightarrow> (string \<rightharpoonup> string) \<Rightarrow> bool" where
  "state_primary environ state \<longleftrightarrow>
     parse_bool_value (Some (state_value_or_env environ state ''JASPER_PEER_PRIMARY'')) None = Some True"

definition parse_clamped_int :: "string \<Rightarrow> int \<Rightarrow> int \<Rightarrow> int \<Rightarrow> int" where
  "parse_clamped_int raw fallback lo hi = (case py_int (py_strip raw) of None \<Rightarrow> fallback | Some v \<Rightarrow> clamp lo hi v)"

text \<open>\<open>max(lo, min(hi, val))\<close> on a float: NaN keeps \<open>hi\<close>.\<close>

fun clamp_float :: "rat \<Rightarrow> rat \<Rightarrow> pyfloat \<Rightarrow> rat" where
  "clamp_float lo hi (PFin a x) = clamp lo hi (if a then - x else x)"
| "clamp_float lo hi (PInf a) = (if a then lo else hi)"
| "clamp_float lo hi PNan = hi"

definition parse_clamped_float :: "string \<Rightarrow> rat \<Rightarrow> rat \<Rightarrow> rat \<Rightarrow> rat" where
  "parse_clamped_float raw fallback lo hi =
     (case py_float (py_strip raw) of None \<Rightarrow> fallback | Some v \<Rightarrow> clamp_float lo hi v)"

text \<open>
  The identity and the file after it: \<open>uuid\<close> is the fresh UUID, \<open>writable\<close> whether the file can be written. None
  is a \<open>UnicodeDecodeError\<close>, which no clause catches.
\<close>

definition new_peer_id :: "text_file \<Rightarrow> string \<Rightarrow> bool \<Rightarrow> string option \<times> text_file" where
  "new_peer_id f uuid writable = (Some uuid, if writable then TText (uuid @ [CHR 0x0A]) else f)"

definition ensure_peer_id :: "text_file \<Rightarrow> string \<Rightarrow> bool \<Rightarrow> string option \<times> text_file" where
  "ensure_peer_id f uuid writable = (case f of
     TText t \<Rightarrow> if py_strip t \<noteq> [] then (Some (py_strip t), f) else new_peer_id f uuid writable
   | TMissing \<Rightarrow> new_peer_id f uuid writable
   | TUnreadable \<Rightarrow> (Some uuid, f)
   | TBadUtf8 \<Rightarrow> (None, f))"

definition config_source ::
  "(string \<rightharpoonup> string) \<Rightarrow> text_file \<Rightarrow> (string \<rightharpoonup> string) \<Rightarrow> string \<Rightarrow> string option" where
  "config_source environ env_file overrides key =
     (case overrides key of Some v \<Rightarrow> Some v
      | None \<Rightarrow> (case map_of (read_peering_state env_file) key of Some v \<Rightarrow> Some v
         | None \<Rightarrow> if take 11 key = ''JASPER_PEER'' then environ key else None))"

definition text_or :: "string \<Rightarrow> string option \<Rightarrow> string" where
  "text_or fallback v = (case v of Some w \<Rightarrow> w | None \<Rightarrow> fallback)"

definition load_peering_config ::
  "string \<Rightarrow> (string \<rightharpoonup> string) \<Rightarrow> text_file \<Rightarrow> text_file \<Rightarrow> string \<Rightarrow> bool \<Rightarrow> (string \<rightharpoonup> string) \<Rightarrow>
   peering_config option \<times> text_file" where
  "load_peering_config host_room environ env_file id_file uuid writable overrides =
     (let src = config_source environ env_file overrides;
          mode = parse_mode (text_or ''off'' (src ''JASPER_PEERING''));
          room = py_strip (text_or [] (src ''JASPER_PEER_ROOM''));
          (peer_id, id_file) = ensure_peer_id id_file uuid writable
      in (map_option (\<lambda>i.
            \<lparr>pc_mode = mode, pc_peer_id = i, pc_room = (if room = [] then host_room else room),
             pc_primary = parse_bool_value (src ''JASPER_PEER_PRIMARY'') None = Some True,
             pc_arb_window_ms = parse_clamped_int (text_or [] (src ''JASPER_PEER_ARB_WINDOW_MS''))
               DEFAULT_ARB_WINDOW_MS MIN_ARB_WINDOW_MS MAX_ARB_WINDOW_MS,
             pc_break_threshold = parse_clamped_float (text_or [] (src ''JASPER_PEER_BREAK_THRESHOLD''))
               DEFAULT_BREAK_THRESHOLD (1 / 2) (99 / 100)\<rparr>) peer_id, id_file))"

section \<open>What loads\<close>

lemma parse_clamped_int_bounds:
  "lo \<le> hi \<Longrightarrow> lo \<le> fallback \<Longrightarrow> fallback \<le> hi \<Longrightarrow>
   lo \<le> parse_clamped_int raw fallback lo hi \<and> parse_clamped_int raw fallback lo hi \<le> hi"
  by (simp add: parse_clamped_int_def clamp_bounds split: option.split)

lemma parse_clamped_float_bounds:
  "lo \<le> hi \<Longrightarrow> lo \<le> fallback \<Longrightarrow> fallback \<le> hi \<Longrightarrow>
   lo \<le> parse_clamped_float raw fallback lo hi \<and> parse_clamped_float raw fallback lo hi \<le> hi"
proof -
  assume "lo \<le> hi" "lo \<le> fallback" "fallback \<le> hi"
  moreover have "lo \<le> clamp_float lo hi v \<and> clamp_float lo hi v \<le> hi" if "lo \<le> hi" for v
    using that clamp_bounds [OF that] by (cases v) simp_all
  ultimately show ?thesis by (simp add: parse_clamped_float_def split: option.split)
qed

lemma py_strip_newline: "py_strip (w @ [CHR 0x0A]) = py_strip w"
proof (cases "\<forall>c\<in>set w. is_space c")
  case True
  have drop: "dropWhile is_space w = []" using True by (simp add: dropWhile_eq_Nil_conv)
  have "dropWhile is_space (w @ [CHR 0x0A]) = dropWhile is_space [CHR 0x0A]"
    by (rule dropWhile_append2) (use True in blast)
  then have "dropWhile is_space (w @ [CHR 0x0A]) = []" by (simp add: is_space_def)
  with drop show ?thesis by (simp only: py_strip_def)
next
  case False
  then have "dropWhile is_space (w @ [CHR 0x0A]) = dropWhile is_space w @ [CHR 0x0A]"
    by (auto simp: dropWhile_append dropWhile_eq_Nil_conv)
  then show ?thesis by (simp add: py_strip_def is_space_def)
qed

lemma load_identity:
  "map_option pc_peer_id (fst (load_peering_config host_room environ env_file id_file uuid writable overrides)) =
     fst (ensure_peer_id id_file uuid writable)"
  "snd (load_peering_config host_room environ env_file id_file uuid writable overrides) = snd (ensure_peer_id id_file uuid writable)"
  by (simp_all add: load_peering_config_def Let_def split_beta option.map_comp comp_def option.map_ident)

lemma loaded_fields:
  assumes "fst (load_peering_config host_room environ env_file id_file uuid writable overrides) = Some cfg"
  shows "pc_arb_window_ms cfg = parse_clamped_int (text_or [] (config_source environ env_file overrides
      ''JASPER_PEER_ARB_WINDOW_MS'')) DEFAULT_ARB_WINDOW_MS MIN_ARB_WINDOW_MS MAX_ARB_WINDOW_MS"
    and "pc_break_threshold cfg = parse_clamped_float (text_or [] (config_source environ env_file overrides
      ''JASPER_PEER_BREAK_THRESHOLD'')) DEFAULT_BREAK_THRESHOLD (1 / 2) (99 / 100)"
    and "pc_mode cfg = parse_mode (text_or ''off'' (config_source environ env_file overrides ''JASPER_PEERING''))"
  using assms by (auto simp: load_peering_config_def Let_def split_beta)

lemma loaded_bounds:
  assumes "fst (load_peering_config host_room environ env_file id_file uuid writable overrides) = Some cfg"
  shows "50 \<le> pc_arb_window_ms cfg" "pc_arb_window_ms cfg \<le> 500"
    "of_int (pc_arb_window_ms cfg) / 1000 + 15 / 100 \<le> ARBITRATE_RPC_TIMEOUT_SEC"
    "1 / 2 \<le> pc_break_threshold cfg" "pc_break_threshold cfg \<le> 99 / 100"
proof -
  show w: "50 \<le> pc_arb_window_ms cfg" "pc_arb_window_ms cfg \<le> 500"
    using parse_clamped_int_bounds [of 50 500 150]
    by (simp_all add: loaded_fields(1) [OF assms] DEFAULT_ARB_WINDOW_MS_def MIN_ARB_WINDOW_MS_def MAX_ARB_WINDOW_MS_def)
  have "of_int (pc_arb_window_ms cfg) \<le> (500 :: rat)"
    using w(2) of_int_le_iff [of "pc_arb_window_ms cfg" 500, where 'a = rat] by simp
  then show "of_int (pc_arb_window_ms cfg) / 1000 + 15 / 100 \<le> ARBITRATE_RPC_TIMEOUT_SEC"
    by (simp add: ARBITRATE_RPC_TIMEOUT_SEC_def MAX_ARB_WINDOW_MS_def ARBITRATE_RPC_MARGIN_SEC_def)
  show "1 / 2 \<le> pc_break_threshold cfg" "pc_break_threshold cfg \<le> 99 / 100"
    using parse_clamped_float_bounds [of "1 / 2" "99 / 100" "85 / 100"]
    by (simp_all add: loaded_fields(2) [OF assms] DEFAULT_BREAK_THRESHOLD_def)
qed

lemma loaded_switch:
  assumes "fst (load_peering_config host_room environ env_file id_file uuid writable overrides) = Some cfg"
  shows "config_enabled cfg \<longleftrightarrow>
    parse_bool_value (config_source environ env_file overrides ''JASPER_PEERING'') None = Some True"
proof -
  have off: "parse_bool_value (Some ''off'') None \<noteq> Some True" by code_simp
  show ?thesis
    using off by (auto simp: config_enabled_def loaded_fields(3) [OF assms] parse_mode_def text_or_def parse_bool_value_def
        split: option.splits)
qed

lemma identity_kept:
  assumes "id_file \<noteq> TUnreadable" "writable" "py_strip uuid = uuid" "uuid \<noteq> []"
  shows "fst (ensure_peer_id (snd (ensure_peer_id id_file uuid writable)) uuid' writable) = fst (ensure_peer_id id_file uuid writable)"
  using assms by (auto simp: ensure_peer_id_def new_peer_id_def py_strip_newline split: text_file.splits if_splits)



end
