(* ===== verification/Peering_Daemon.thy ===== *)
theory Peering_Daemon
  imports Peering_State Peering_Wire Peering_Config
begin

text \<open>
  \<open>PeeringDaemon\<close> (\<open>jasper/peering/daemon.py\<close>): the state machine on its event loop, with its timers, the datagrams
  it sends, and the ARBITRATE calls of the voice daemon that wait for a decision. Between two awaits the loop runs
  one thing at a time, so every step below is one callback at one reading of the clock. Sockets, the Avahi advert and
  the log are left out.
\<close>

section \<open>State\<close>

datatype future_state = Waiting | Result string | Cancelled

text \<open>
  A future is a number; \<open>dm_calls\<close> are the coroutines of \<open>_handle_arbitrate\<close> behind their await, with the deadline of
  \<open>wait_for\<close>; \<open>dm_replies\<close> and \<open>dm_sent\<close> record what was answered and sent.
\<close>

record peering_daemon =
  dm_running :: bool
  dm_machine :: "peering_machine option"
  dm_timers :: "string \<rightharpoonup> rat"
  dm_futures :: "nat \<Rightarrow> future_state"
  dm_next_future :: nat
  dm_pending_decision :: "nat option"
  dm_pending_epoch :: "string option"
  dm_calls :: "(nat \<times> rat) list"
  dm_replies :: "(nat \<times> string \<times> string) list"
  dm_sent :: "(string \<times> wire_value) list list"

definition params_of :: "peering_config \<Rightarrow> state_machine_params" where
  "params_of cfg = \<lparr>sp_peer_id = pc_peer_id cfg, sp_primary = pc_primary cfg,
     sp_arb_window_sec = of_int (pc_arb_window_ms cfg) / 1000, sp_break_threshold = pc_break_threshold cfg,
     sp_heartbeat_interval_sec = DEFAULT_HEARTBEAT_INTERVAL_SEC, sp_heartbeat_timeout_sec = DEFAULT_HEARTBEAT_TIMEOUT_SEC\<rparr>"

definition new_daemon :: peering_daemon where
  "new_daemon = \<lparr>dm_running = False, dm_machine = None, dm_timers = (\<lambda>_. None), dm_futures = (\<lambda>_. Cancelled),
     dm_next_future = 0, dm_pending_decision = None, dm_pending_epoch = None, dm_calls = [], dm_replies = [], dm_sent = []\<rparr>"

text \<open>\<open>start\<close> when the sockets open.\<close>

definition daemon_start :: "peering_config \<Rightarrow> peering_daemon \<Rightarrow> peering_daemon" where
  "daemon_start cfg d =
     (if \<not> config_enabled cfg \<or> dm_running d then d
      else d\<lparr>dm_machine := Some fresh_machine, dm_running := True\<rparr>)"

section \<open>Actions\<close>

definition set_future :: "nat \<Rightarrow> future_state \<Rightarrow> peering_daemon \<Rightarrow> peering_daemon" where
  "set_future f v d = d\<lparr>dm_futures := (dm_futures d)(f := v)\<rparr>"

text \<open>\<open>if pending is not None and not pending.done(): pending.set_result(decision)\<close>.\<close>

definition resolve_pending :: "string \<Rightarrow> peering_daemon \<Rightarrow> peering_daemon" where
  "resolve_pending decision d = (case dm_pending_decision d of
     None \<Rightarrow> d
   | Some f \<Rightarrow> if dm_futures d f = Waiting then set_future f (Result decision) d else d)"

definition spawn_send :: "(string \<times> wire_value) list \<Rightarrow> peering_daemon \<Rightarrow> peering_daemon" where
  "spawn_send payload d = (if dm_running d then d\<lparr>dm_sent := dm_sent d @ [payload]\<rparr> else d)"

definition cancel_timer :: "string \<Rightarrow> peering_daemon \<Rightarrow> peering_daemon" where
  "cancel_timer timer_id d = d\<lparr>dm_timers := (dm_timers d)(timer_id := None)\<rparr>"

definition schedule_timer :: "string \<Rightarrow> rat \<Rightarrow> rat \<Rightarrow> peering_daemon \<Rightarrow> peering_daemon" where
  "schedule_timer timer_id due_at now d =
     (let d = cancel_timer timer_id d in d\<lparr>dm_timers := (dm_timers d)(timer_id \<mapsto> now + max 0 (due_at - now))\<rparr>)"

text \<open>\<open>ts\<close> is \<open>time.monotonic_ns()\<close> as a function of the clock, \<open>show\<close> the text of a float.\<close>

record loop_world =
  lw_show :: "pyfloat \<Rightarrow> string"
  lw_ts :: "rat \<Rightarrow> int"

fun execute :: "loop_world \<Rightarrow> peering_config \<Rightarrow> rat \<Rightarrow> peer_action \<Rightarrow> peering_daemon \<Rightarrow> peering_daemon" where
  "execute w cfg now (BroadcastWake epoch report) d = spawn_send (encode_wake (lw_show w) epoch report (lw_ts w now)) d"
| "execute w cfg now (BroadcastClaim epoch) d = spawn_send (encode_claim epoch (pc_peer_id cfg) (lw_ts w now)) d"
| "execute w cfg now (BroadcastHeartbeat epoch) d = spawn_send (encode_heartbeat epoch (pc_peer_id cfg) (lw_ts w now)) d"
| "execute w cfg now (BroadcastEnd epoch reason) d = spawn_send (encode_end epoch (pc_peer_id cfg) reason (lw_ts w now)) d"
| "execute w cfg now (StartSession epoch) d = resolve_pending ''WIN'' d"
| "execute w cfg now StandDown d = resolve_pending ''LOSE'' d"
| "execute w cfg now (ScheduleTimer timer_id due_at) d = schedule_timer timer_id due_at now d"
| "execute w cfg now (CancelTimer timer_id) d = cancel_timer timer_id d"

text \<open>An exception of \<open>handle\<close> leaves the callback before any action; the loop logs it.\<close>

definition dispatch_event ::
  "loop_world \<Rightarrow> peering_config \<Rightarrow> string \<Rightarrow> rat \<Rightarrow> peer_event \<Rightarrow> peering_daemon \<Rightarrow> peering_daemon" where
  "dispatch_event w cfg uuid now event d = (case dm_machine d of
     None \<Rightarrow> d
   | Some m \<Rightarrow> (case handle (params_of cfg) uuid event m of
        (None, m') \<Rightarrow> d\<lparr>dm_machine := Some m'\<rparr>
      | (Some actions, m') \<Rightarrow> fold (execute w cfg now) actions (d\<lparr>dm_machine := Some m'\<rparr>)))"

section \<open>What reaches the daemon\<close>

definition on_multicast_message ::
  "loop_world \<Rightarrow> peering_config \<Rightarrow> rat \<Rightarrow> incoming \<Rightarrow> peering_daemon \<Rightarrow> peering_daemon" where
  "on_multicast_message w cfg now msg d =
     (if sender_peer_id msg = pc_peer_id cfg then d
      else case msg of
             IncomingWake epoch report _ \<Rightarrow> dispatch_event w cfg [] now (PeerWake epoch report now) d
           | IncomingClaim epoch peer _ \<Rightarrow> dispatch_event w cfg [] now (PeerClaim epoch peer now) d
           | IncomingHeartbeat epoch peer _ \<Rightarrow> dispatch_event w cfg [] now (PeerHeartbeat epoch peer now) d
           | IncomingEnd epoch peer reason _ \<Rightarrow> dispatch_event w cfg [] now (PeerEnd epoch peer reason now) d)"

text \<open>The receive loop hands over what \<open>decode\<close> accepts.\<close>

definition on_datagram :: "loop_world \<Rightarrow> peering_config \<Rightarrow> rat \<Rightarrow> datagram \<Rightarrow> peering_daemon \<Rightarrow> peering_daemon" where
  "on_datagram w cfg now g d = (case decode g of None \<Rightarrow> d | Some msg \<Rightarrow> on_multicast_message w cfg now msg d)"

definition log_reply :: "nat \<Rightarrow> string \<Rightarrow> string \<Rightarrow> peering_daemon \<Rightarrow> peering_daemon" where
  "log_reply f decision epoch d = d\<lparr>dm_replies := dm_replies d @ [(f, decision, epoch)]\<rparr>"

text \<open>\<open>_handle_arbitrate\<close> up to its await; \<open>uuid\<close> is the epoch \<open>_begin_candidate\<close> would make up.\<close>

definition arbitrate_begin ::
  "loop_world \<Rightarrow> peering_config \<Rightarrow> rat \<Rightarrow> string \<Rightarrow> pyfloat \<Rightarrow> pyfloat option \<Rightarrow> pyfloat option \<Rightarrow> bool \<Rightarrow>
   peering_daemon \<Rightarrow> peering_daemon" where
  "arbitrate_begin w cfg now uuid score snr_db rms_dbfs can_serve d =
     (let f = dm_next_future d; d = d\<lparr>dm_next_future := Suc f\<rparr>
      in if \<not> dm_running d then log_reply f ''WIN'' [] d
         else let d = resolve_pending ''WIN'' d;
                  d = (set_future f Waiting d)\<lparr>dm_pending_decision := Some f\<rparr>;
                  d = dispatch_event w cfg uuid now (LocalWake score snr_db rms_dbfs can_serve now) d
              in d\<lparr>dm_pending_epoch := Option.bind (dm_machine d) current_epoch,
                   dm_calls := (f, now + ARBITRATE_RPC_TIMEOUT_SEC) # dm_calls d\<rparr>)"

text \<open>\<open>_handle_arbitrate\<close> after its await, with the decision it got.\<close>

definition arbitrate_reply :: "nat \<Rightarrow> string \<Rightarrow> peering_daemon \<Rightarrow> peering_daemon" where
  "arbitrate_reply f decision d =
     log_reply f decision (case dm_pending_epoch d of Some e \<Rightarrow> e | None \<Rightarrow> [])
       (d\<lparr>dm_calls := filter (\<lambda>c. fst c \<noteq> f) (dm_calls d)\<rparr>)"

definition arbitrate_resume :: "nat \<Rightarrow> peering_daemon \<Rightarrow> peering_daemon" where
  "arbitrate_resume f d = (case dm_futures d f of Result decision \<Rightarrow> arbitrate_reply f decision d | _ \<Rightarrow> d)"

text \<open>\<open>asyncio.TimeoutError\<close>: \<open>wait_for\<close> cancels the future, and the call fails open.\<close>

definition arbitrate_timeout :: "nat \<Rightarrow> peering_daemon \<Rightarrow> peering_daemon" where
  "arbitrate_timeout f d = arbitrate_reply f ''WIN'' (set_future f Cancelled d)"

definition session_started :: "loop_world \<Rightarrow> peering_config \<Rightarrow> rat \<Rightarrow> string \<Rightarrow> peering_daemon \<Rightarrow> peering_daemon" where
  "session_started w cfg now epoch d =
     (if dm_running d then dispatch_event w cfg [] now (VoiceSessionStarted epoch now) d else d)"

definition session_ended ::
  "loop_world \<Rightarrow> peering_config \<Rightarrow> rat \<Rightarrow> string \<Rightarrow> string \<Rightarrow> peering_daemon \<Rightarrow> peering_daemon" where
  "session_ended w cfg now epoch reason d =
     (if dm_running d
      then dispatch_event w cfg [] now (VoiceSessionEnded epoch (if reason = [] then ''ended'' else reason) now) d
      else d)"

definition on_timer_fired :: "loop_world \<Rightarrow> peering_config \<Rightarrow> rat \<Rightarrow> string \<Rightarrow> peering_daemon \<Rightarrow> peering_daemon" where
  "on_timer_fired w cfg now timer_id d =
     dispatch_event w cfg [] now (TimerFired timer_id now) (cancel_timer timer_id d)"

text \<open>\<open>stop\<close> before its awaits and after them.\<close>

definition stop_begin :: "peering_daemon \<Rightarrow> peering_daemon" where
  "stop_begin d = d\<lparr>dm_running := False, dm_timers := (\<lambda>_. None)\<rparr>"

definition stop_finish :: "peering_daemon \<Rightarrow> peering_daemon" where
  "stop_finish d = (resolve_pending ''WIN'' d)\<lparr>dm_pending_decision := None, dm_pending_epoch := None\<rparr>"

section \<open>Steps of the loop\<close>

datatype loop_input =
  Arbitrate string pyfloat "pyfloat option" "pyfloat option" bool
| Resume nat | RpcTimeout nat
| Arrived datagram
| TimerDue string
| SessionStarted string | SessionEnded string string
| StopBegin | StopFinish

text \<open>A timer or deadline runs when it is due, never before.\<close>

fun due :: "rat \<Rightarrow> loop_input \<Rightarrow> peering_daemon \<Rightarrow> bool" where
  "due now (Resume f) d = (f \<in> fst ` set (dm_calls d) \<and> (case dm_futures d f of Result _ \<Rightarrow> True | _ \<Rightarrow> False))"
| "due now (RpcTimeout f) d = (\<exists>deadline \<le> now. (f, deadline) \<in> set (dm_calls d) \<and> dm_futures d f = Waiting)"
| "due now (TimerDue timer_id) d = (case dm_timers d timer_id of Some t \<Rightarrow> t \<le> now | None \<Rightarrow> False)"
| "due now _ d = True"

fun loop_step :: "loop_world \<Rightarrow> peering_config \<Rightarrow> rat \<Rightarrow> loop_input \<Rightarrow> peering_daemon \<Rightarrow> peering_daemon" where
  "loop_step w cfg now (Arbitrate uuid score snr rms serve) d = arbitrate_begin w cfg now uuid score snr rms serve d"
| "loop_step w cfg now (Resume f) d = arbitrate_resume f d"
| "loop_step w cfg now (RpcTimeout f) d = arbitrate_timeout f d"
| "loop_step w cfg now (Arrived g) d = on_datagram w cfg now g d"
| "loop_step w cfg now (TimerDue timer_id) d = on_timer_fired w cfg now timer_id d"
| "loop_step w cfg now (SessionStarted epoch) d = session_started w cfg now epoch d"
| "loop_step w cfg now (SessionEnded epoch reason) d = session_ended w cfg now epoch reason d"
| "loop_step w cfg now StopBegin d = stop_begin d"
| "loop_step w cfg now StopFinish d = stop_finish d"

text \<open>The states of a daemon whose inputs satisfy \<open>ok\<close>, with the clock at the last step.\<close>

inductive reaches :: "loop_world \<Rightarrow> peering_config \<Rightarrow> (loop_input \<Rightarrow> bool) \<Rightarrow> rat \<Rightarrow> peering_daemon \<Rightarrow> bool"
  for w cfg ok where
  started: "config_enabled cfg \<Longrightarrow> reaches w cfg ok now (daemon_start cfg new_daemon)"
| step: "reaches w cfg ok now d \<Longrightarrow> now \<le> now' \<Longrightarrow> ok i \<Longrightarrow> due now' i d \<Longrightarrow> reaches w cfg ok now' (loop_step w cfg now' i d)"

end
