(* ===== verification/Peering_Invariant.thy ===== *)
theory Peering_Invariant
  imports Peering_Daemon
begin

text \<open>
  The invariant of the peering daemon: what every action does to its fields, that every handler leaves the machine armed
  (in each state the timer that leads on), and that a waiting call belongs to a candidate whose window closes in time.
  \<open>reaches_inv\<close> is the result.
\<close>

section \<open>What actions do to the daemon\<close>

fun timer_effect :: "rat \<Rightarrow> peer_action \<Rightarrow> (string \<rightharpoonup> rat) \<Rightarrow> (string \<rightharpoonup> rat)" where
  "timer_effect now (ScheduleTimer timer_id due_at) T = T(timer_id \<mapsto> now + max 0 (due_at - now))"
| "timer_effect now (CancelTimer timer_id) T = T(timer_id := None)"
| "timer_effect now _ T = T"

definition timers_after :: "rat \<Rightarrow> peer_action list \<Rightarrow> (string \<rightharpoonup> rat) \<Rightarrow> (string \<rightharpoonup> rat)" where
  "timers_after now acts T = fold (timer_effect now) acts T"

lemma timers_after_simps [simp]:
  "timers_after now [] T = T"
  "timers_after now (a # as) T = timers_after now as (timer_effect now a T)"
  by (simp_all add: timers_after_def)

text \<open>An action that answers the pending call.\<close>

definition decides :: "peer_action list \<Rightarrow> bool" where
  "decides acts \<longleftrightarrow> (\<exists>a\<in>set acts. case a of StandDown \<Rightarrow> True | StartSession _ \<Rightarrow> True | _ \<Rightarrow> False)"

lemma decides_simps [simp]:
  "\<not> decides []"
  "decides (a # as) \<longleftrightarrow> (case a of StandDown \<Rightarrow> True | StartSession _ \<Rightarrow> True | _ \<Rightarrow> False) \<or> decides as"
  by (auto simp: decides_def)

lemma execute_frame [simp]:
  "dm_running (execute w cfg now a d) = dm_running d"
  "dm_machine (execute w cfg now a d) = dm_machine d"
  "dm_timers (execute w cfg now a d) = timer_effect now a (dm_timers d)"
  "dm_next_future (execute w cfg now a d) = dm_next_future d"
  "dm_pending_decision (execute w cfg now a d) = dm_pending_decision d"
  "dm_pending_epoch (execute w cfg now a d) = dm_pending_epoch d"
  "dm_calls (execute w cfg now a d) = dm_calls d"
  "dm_replies (execute w cfg now a d) = dm_replies d"
  by (cases a; simp add: spawn_send_def resolve_pending_def set_future_def schedule_timer_def cancel_timer_def Let_def
      split: option.split)+

lemma fold_execute_frame [simp]:
  "dm_running (fold (execute w cfg now) acts d) = dm_running d"
  "dm_machine (fold (execute w cfg now) acts d) = dm_machine d"
  "dm_timers (fold (execute w cfg now) acts d) = timers_after now acts (dm_timers d)"
  "dm_next_future (fold (execute w cfg now) acts d) = dm_next_future d"
  "dm_pending_decision (fold (execute w cfg now) acts d) = dm_pending_decision d"
  "dm_pending_epoch (fold (execute w cfg now) acts d) = dm_pending_epoch d"
  "dm_calls (fold (execute w cfg now) acts d) = dm_calls d"
  "dm_replies (fold (execute w cfg now) acts d) = dm_replies d"
  by (induction acts arbitrary: d) simp_all

text \<open>A future only ever leaves \<open>Waiting\<close>, and only the pending one does.\<close>

lemma execute_futures:
  "dm_futures (execute w cfg now a d) f =
     (if dm_pending_decision d = Some f \<and> dm_futures d f = Waiting
      then (case a of StandDown \<Rightarrow> Result ''LOSE'' | StartSession _ \<Rightarrow> Result ''WIN'' | _ \<Rightarrow> Waiting)
      else dm_futures d f)"
  by (cases a) (simp_all add: spawn_send_def resolve_pending_def set_future_def schedule_timer_def cancel_timer_def Let_def
      split: option.split)

lemma fold_execute_futures:
  "dm_futures (fold (execute w cfg now) acts d) f = Waiting \<longleftrightarrow>
     dm_futures d f = Waiting \<and> \<not> (dm_pending_decision d = Some f \<and> decides acts)"
proof (induction acts arbitrary: d)
  case Nil
  then show ?case by simp
next
  case (Cons a as)
  have "dm_futures (execute w cfg now a d) f = Waiting \<longleftrightarrow>
      dm_futures d f = Waiting \<and> \<not> (dm_pending_decision d = Some f \<and> decides [a])"
    unfolding execute_futures by (cases a) auto
  then show ?case by (auto simp: Cons.IH)
qed

section \<open>Armed machines\<close>

definition all_measured :: "epoch_pad \<Rightarrow> bool" where
  "all_measured e \<longleftrightarrow> ep_reports e \<noteq> [] \<and> (\<forall>r\<in>set (map snd (ep_reports e)). measured r)"

definition armed :: "state_machine_params \<Rightarrow> rat \<Rightarrow> peering_machine \<Rightarrow> (string \<rightharpoonup> rat) \<Rightarrow> bool" where
  "armed p now m T \<longleftrightarrow> (case pm_state m of
     IDLE \<Rightarrow> True
   | CANDIDATE \<Rightarrow> (\<exists>e. pm_epoch m = Some e \<and> all_measured e) \<and>
       (\<exists>t. T TIMER_ARB_WINDOW = Some t \<and> t \<le> now + sp_arb_window_sec p)
   | WINNER \<Rightarrow> pm_epoch m \<noteq> None
   | ACTIVE \<Rightarrow> pm_epoch m \<noteq> None \<and> (\<exists>t. T TIMER_HEARTBEAT_SEND = Some t \<and> t \<le> now + sp_heartbeat_interval_sec p)
   | SUPPRESSED \<Rightarrow> pm_foreign_epoch m \<noteq> None \<and> pm_foreign_peer m \<noteq> None \<and>
       T TIMER_HEARTBEAT_TIMEOUT = Some (pm_foreign_last_heartbeat m + sp_heartbeat_timeout_sec p))"

lemma armed_later: "armed p now m T \<Longrightarrow> now \<le> now' \<Longrightarrow> armed p now' m T"
  by (cases "pm_state m") (auto simp: armed_def intro: order_trans)

text \<open>Intervals are not negative, and the window leaves the margin of the reply deadline.\<close>

definition sane_params :: "state_machine_params \<Rightarrow> bool" where
  "sane_params p \<longleftrightarrow> 0 \<le> sp_arb_window_sec p \<and> 0 \<le> sp_heartbeat_interval_sec p \<and> 0 \<le> sp_heartbeat_timeout_sec p \<and>
     sp_arb_window_sec p + ARBITRATE_RPC_MARGIN_SEC \<le> ARBITRATE_RPC_TIMEOUT_SEC"

fun sane_event :: "peer_event \<Rightarrow> bool" where
  "sane_event (LocalWake score snr rms serve now) = (snr \<noteq> Some PNan \<and> rms \<noteq> Some PNan)"
| "sane_event (PeerWake epoch report now) = measured report"
| "sane_event _ = True"

text \<open>The outcome of an event: no exception, armed again, and a candidate stays one under its timer or is decided.\<close>

definition moves_on ::
  "state_machine_params \<Rightarrow> rat \<Rightarrow> peering_machine \<Rightarrow> (string \<rightharpoonup> rat) \<Rightarrow> (string \<rightharpoonup> rat) \<Rightarrow>
   peer_action list option \<times> peering_machine \<Rightarrow> bool" where
  "moves_on p now m T T0 out \<longleftrightarrow> (\<exists>acts m'. out = (Some acts, m') \<and> armed p now m' (timers_after now acts T0) \<and>
     (pm_state m = CANDIDATE \<longrightarrow> decides acts \<or>
       pm_state m' = CANDIDATE \<and> timers_after now acts T0 TIMER_ARB_WINDOW = T TIMER_ARB_WINDOW))"

lemma moves_on_answered:
  "armed p now (snd r) (timers_after now (fst r) T0) \<Longrightarrow>
   (pm_state m = CANDIDATE \<Longrightarrow> decides (fst r) \<or>
     pm_state (snd r) = CANDIDATE \<and> timers_after now (fst r) T0 TIMER_ARB_WINDOW = T TIMER_ARB_WINDOW) \<Longrightarrow>
   moves_on p now m T T0 (answered r)"
  by (auto simp: moves_on_def answered_def)

lemma max_0_le: "0 \<le> (c :: rat) \<Longrightarrow> max 0 (now + c - now) = c"
  by simp

lemmas machine_defs = reset_epoch_def clear_foreign_session_def in_epoch_def suppress_def

lemma suppress_armed:
  "0 \<le> sp_heartbeat_timeout_sec p \<Longrightarrow> suppress p epoch peer now m = (acts, m') \<Longrightarrow>
   armed p now m' (timers_after now acts T)"
  by (auto simp: suppress_def armed_def)

lemma on_peer_claim_moves_on:
  assumes "sane_params p" "armed p now m T"
  shows "moves_on p now m T T (answered (on_peer_claim p epoch peer now m))"
proof -
  have t: "0 \<le> sp_heartbeat_timeout_sec p" using assms(1) by (simp add: sane_params_def)
  show ?thesis
    using assms(2) t
    by (intro moves_on_answered; cases "pm_state m")
      (auto simp: on_peer_claim_def Let_def suppress_def armed_def reset_epoch_def)
qed

lemma carry_reports_snd: "set (map snd (carry_reports old new)) \<subseteq> set (map snd old) \<union> set (map snd new)"
proof (induction old arbitrary: new)
  case Nil
  then show ?case by (simp add: carry_reports_def)
next
  case (Cons x old)
  obtain k r where x: "x = (k, r)" by (cases x)
  define new' where "new' = (if map_of new (wr_peer_id r) = None then new @ [(wr_peer_id r, r)] else new)"
  have "carry_reports (x # old) new = carry_reports old new'"
    by (simp add: carry_reports_def x new'_def)
  moreover have "set (map snd new') \<subseteq> insert r (set (map snd new))" by (auto simp: new'_def)
  ultimately show ?case using Cons.IH [of new'] unfolding x by simp blast
qed

lemma carry_reports_nonempty: "new \<noteq> [] \<Longrightarrow> carry_reports old new \<noteq> []"
  unfolding carry_reports_def by (induction old arbitrary: new) (auto split: prod.split)

lemma carried_measured:
  "\<forall>r\<in>set (map snd old). measured r \<Longrightarrow> new \<noteq> [] \<Longrightarrow> \<forall>r\<in>set (map snd new). measured r \<Longrightarrow>
   carry_reports old new \<noteq> [] \<and> (\<forall>r\<in>set (map snd (carry_reports old new)). measured r)"
  using carry_reports_snd [of old new] carry_reports_nonempty by blast

lemma set_update_snd: "set (map snd (AList.update k v xs)) \<subseteq> insert v (set (map snd xs))"
  by (induction xs) auto

lemma update_nonempty: "AList.update k v xs \<noteq> []"
  by (cases xs) auto

lemma updated_measured:
  "\<forall>r\<in>set (map snd xs). measured r \<Longrightarrow> measured v \<Longrightarrow>
   AList.update k v xs \<noteq> [] \<and> (\<forall>r\<in>set (map snd (AList.update k v xs)). measured r)"
  using set_update_snd [of k v xs] update_nonempty [of k v xs] by blast

lemma reports_update: "ep_reports (e\<lparr>ep_reports := rs\<rparr>) = rs"
  by simp

lemma on_peer_wake_moves_on:
  assumes "sane_params p" "armed p now m T" "measured report"
  shows "moves_on p now m T T (answered (on_peer_wake p epoch report now m))"
proof (cases "pm_state m = CANDIDATE")
  case True
  then obtain e where e: "pm_epoch m = Some e" "all_measured e" and
    t: "\<exists>t. T TIMER_ARB_WINDOW = Some t \<and> t \<le> now + sp_arb_window_sec p"
    using assms(2) by (auto simp: armed_def)
  have "all_measured (e\<lparr>ep_reports := AList.update (wr_peer_id report) report (ep_reports e)\<rparr>)"
    using updated_measured [of "ep_reports e" report "wr_peer_id report"] e(2) assms(3)
    unfolding all_measured_def reports_update by blast
  moreover have "all_measured \<lparr>ep_epoch = epoch,
      ep_reports = carry_reports (ep_reports e) [(wr_peer_id report, report)], ep_started_at = now\<rparr>"
    using carried_measured [of "ep_reports e" "[(wr_peer_id report, report)]"] e(2) assms(3)
    unfolding all_measured_def epoch_pad.select_convs by simp
  ultimately show ?thesis
    using True e t by (intro moves_on_answered) (simp_all add: on_peer_wake_def armed_def)
next
  case False
  have c: "0 \<le> sp_arb_window_sec p" using assms(1) by (simp add: sane_params_def)
  show ?thesis
  proof (cases "pm_state m = IDLE")
    case True
    have "armed p now (snd (on_peer_wake p epoch report now m)) (timers_after now (fst (on_peer_wake p epoch report now m)) T)"
      using True c assms(3) by (simp add: on_peer_wake_def armed_def all_measured_def max_0_le)
    then show ?thesis using True by (intro moves_on_answered) simp_all
  next
    case idle: False
    then have "on_peer_wake p epoch report now m = ([], m)"
      using False by (cases "pm_state m") (simp_all add: on_peer_wake_def)
    then show ?thesis using assms(2) False by (intro moves_on_answered) simp_all
  qed
qed

lemma on_peer_heartbeat_moves_on:
  assumes "sane_params p" "armed p now m T"
  shows "moves_on p now m T T (answered (on_peer_heartbeat p epoch peer now m))"
  using assms by (intro moves_on_answered; cases "pm_state m")
    (auto simp: on_peer_heartbeat_def armed_def sane_params_def)

lemma on_peer_end_moves_on:
  assumes "armed p now m T"
  shows "moves_on p now m T T (answered (on_peer_end epoch m))"
  using assms by (intro moves_on_answered; cases "pm_state m") (auto simp: on_peer_end_def armed_def machine_defs)

lemma on_voice_started_moves_on:
  assumes "sane_params p" "armed p now m T"
  shows "moves_on p now m T T (answered (on_voice_started p epoch now m))"
  using assms by (intro moves_on_answered; cases "pm_state m")
    (auto simp: on_voice_started_def send_heartbeat_and_reschedule_def armed_def sane_params_def in_epoch_def split: option.split)

lemma on_voice_ended_moves_on:
  assumes "armed p now m T"
  shows "moves_on p now m T T (answered (on_voice_ended epoch reason m))"
  using assms by (intro moves_on_answered; cases "pm_state m") (auto simp: on_voice_ended_def armed_def machine_defs)

lemma close_arbitration_moves_on:
  assumes "sane_params p" "armed p now m T" "T TIMER_ARB_WINDOW = Some t"
  shows "moves_on p now m T (T(TIMER_ARB_WINDOW := None)) (close_arbitration p now m)"
proof (cases "pm_state m = CANDIDATE")
  case True
  then obtain e where e: "pm_epoch m = Some e" "all_measured e"
    using assms(2) by (auto simp: armed_def)
  have "map snd (ep_reports e) \<noteq> []" "\<forall>r\<in>set (map snd (ep_reports e)). measured r"
    using e(2) by (auto simp: all_measured_def)
  note ranked = rank_set [OF this]
  have c: "0 \<le> sp_heartbeat_timeout_sec p" using assms(1) by (simp add: sane_params_def)
  show ?thesis
    using True e c \<open>map snd (ep_reports e) \<noteq> []\<close>
    by (auto simp: moves_on_def close_arbitration_def ranked Let_def suppress_def armed_def reset_epoch_def)
next
  case False
  then have "close_arbitration p now m = (Some [], m)"
    by (cases "pm_state m") (simp_all add: close_arbitration_def)
  then show ?thesis
    using False assms(2) by (cases "pm_state m") (auto simp: moves_on_def armed_def)
qed

lemma on_timer_moves_on:
  assumes "sane_params p" "armed p now m T" "T timer_id = Some t" "t \<le> now"
  shows "moves_on p now m T (T(timer_id := None)) (on_timer p timer_id now m)"
proof -
  have sane: "0 \<le> sp_heartbeat_timeout_sec p" "0 \<le> sp_heartbeat_interval_sec p"
    using assms(1) by (simp_all add: sane_params_def)
  consider "timer_id = TIMER_ARB_WINDOW" | "timer_id = TIMER_HEARTBEAT_SEND" | "timer_id = TIMER_HEARTBEAT_TIMEOUT"
    | "timer_id \<notin> {TIMER_ARB_WINDOW, TIMER_HEARTBEAT_SEND, TIMER_HEARTBEAT_TIMEOUT}" by blast
  then show ?thesis
  proof cases
    case 1
    then show ?thesis
      using close_arbitration_moves_on [OF assms(1,2)] assms(3) by (simp add: on_timer_def)
  next
    case 2
    have "moves_on p now m T (T(timer_id := None)) (answered (send_heartbeat_and_reschedule p now m))"
      using 2 assms(2) sane
      by (intro moves_on_answered; cases "pm_state m") (auto simp: send_heartbeat_and_reschedule_def armed_def)
    then show ?thesis using 2 by (simp add: on_timer_def)
  next
    case 3
    have "moves_on p now m T (T(timer_id := None)) (answered (on_heartbeat_timeout p now m))"
      using 3 assms(2-4) sane
      by (intro moves_on_answered; cases "pm_state m") (auto simp: on_heartbeat_timeout_def armed_def)
    then show ?thesis using 3 by (simp add: on_timer_def)
  next
    case 4
    then have "on_timer p timer_id now m = answered ([], m)" by (simp add: on_timer_def answered_def)
    moreover have "moves_on p now m T (T(timer_id := None)) (answered ([], m))"
      using 4 assms(2) by (intro moves_on_answered; cases "pm_state m") (auto simp: armed_def)
    ultimately show ?thesis by simp
  qed
qed

lemma two_ways:
  "on_local_wake p uuid score snr rms serve now m = ([StandDown], m) \<or>
   (\<exists>n. on_local_wake p uuid score snr rms serve now m = begin_candidate p uuid score snr rms serve now n)"
proof (cases "pm_state m")
  case IDLE
  then have "on_local_wake p uuid score snr rms serve now m = begin_candidate p uuid score snr rms serve now m"
    by (simp add: on_local_wake_def)
  then show ?thesis by blast
next
  case SUPPRESSED
  then have "on_local_wake p uuid score snr rms serve now m = ([StandDown], m) \<or>
      on_local_wake p uuid score snr rms serve now m = begin_candidate p uuid score snr rms serve now (clear_foreign_session m)"
    by (simp add: on_local_wake_def Let_def clear_foreign_session_def)
  then show ?thesis by blast
qed (simp_all add: on_local_wake_def)

text \<open>A local wake is decided at once, or opens an arbitration under a fresh timer.\<close>

lemma on_local_wake_moves_on:
  assumes "sane_params p" "armed p now m T" "snr \<noteq> Some PNan" "rms \<noteq> Some PNan"
    and "on_local_wake p uuid score snr rms serve now m = (acts, m')"
  shows "armed p now m' (timers_after now acts T) \<and>
    (decides acts \<or> pm_state m' = CANDIDATE \<and>
       timers_after now acts T TIMER_ARB_WINDOW = Some (now + sp_arb_window_sec p))"
proof -
  have own: "measured (make_report peer score snr rms prim serve)" for peer prim
    using assms(3,4) by (auto simp: measured_def make_report_def snr_or_neg_inf_def rms_or_neg_inf_def split: option.split)
  have c: "0 \<le> sp_arb_window_sec p" using assms(1) by (simp add: sane_params_def)
  have opened: "armed p now n' (timers_after now as T) \<and> pm_state n' = CANDIDATE \<and>
      timers_after now as T TIMER_ARB_WINDOW = Some (now + sp_arb_window_sec p)"
    if "begin_candidate p uuid score snr rms serve now n = (as, n')" for n n' as
    using that own c by (auto simp: begin_candidate_def Let_def armed_def all_measured_def)
  consider "(acts, m') = ([StandDown], m)" | n where "begin_candidate p uuid score snr rms serve now n = (acts, m')"
    using two_ways [of p uuid score snr rms serve now m] unfolding assms(5) by metis
  then show ?thesis
  proof cases
    case 1
    then show ?thesis using assms(2) by simp
  next
    case (2 n)
    then show ?thesis using opened [OF 2] by blast
  qed
qed

section \<open>The invariant of the daemon\<close>

text \<open>A call that still waits is the pending one, its machine a candidate, and the window closes before its deadline.\<close>

definition calls_ok :: "peering_daemon \<Rightarrow> peering_machine \<Rightarrow> (string \<rightharpoonup> rat) \<Rightarrow> bool" where
  "calls_ok d m T \<longleftrightarrow> (\<forall>f deadline. (f, deadline) \<in> set (dm_calls d) \<and> dm_futures d f = Waiting \<longrightarrow>
     dm_pending_decision d = Some f \<and> pm_state m = CANDIDATE \<and>
     (\<exists>t. T TIMER_ARB_WINDOW = Some t \<and> t + ARBITRATE_RPC_MARGIN_SEC \<le> deadline))"

definition ids_ok :: "peering_daemon \<Rightarrow> bool" where
  "ids_ok d \<longleftrightarrow> (\<forall>c\<in>set (dm_calls d). fst c < dm_next_future d) \<and>
     (\<forall>f. dm_pending_decision d = Some f \<longrightarrow> f < dm_next_future d)"

definition daemon_inv :: "peering_config \<Rightarrow> rat \<Rightarrow> peering_daemon \<Rightarrow> bool" where
  "daemon_inv cfg now d \<longleftrightarrow> ids_ok d \<and> (dm_running d \<longrightarrow> (\<exists>m. dm_machine d = Some m \<and>
     armed (params_of cfg) now m (dm_timers d) \<and> calls_ok d m (dm_timers d)))"

text \<open>Inputs without a NaN among SNR and RMS.\<close>

fun sane_input :: "loop_input \<Rightarrow> bool" where
  "sane_input (Arbitrate uuid score snr rms serve) = (snr \<noteq> Some PNan \<and> rms \<noteq> Some PNan)"
| "sane_input (Arrived g) = (case decode g of Some (IncomingWake _ report _) \<Rightarrow> measured report | _ \<Rightarrow> True)"
| "sane_input _ = True"

lemma calls_okD:
  "calls_ok d m T \<Longrightarrow> (f, deadline) \<in> set (dm_calls d) \<Longrightarrow> dm_futures d f = Waiting \<Longrightarrow>
   dm_pending_decision d = Some f \<and> pm_state m = CANDIDATE \<and>
   (\<exists>t. T TIMER_ARB_WINDOW = Some t \<and> t + ARBITRATE_RPC_MARGIN_SEC \<le> deadline)"
  by (simp add: calls_ok_def)

lemma dispatch_frame [simp]:
  "dm_running (dispatch_event w cfg uuid now ev d) = dm_running d"
  "dm_next_future (dispatch_event w cfg uuid now ev d) = dm_next_future d"
  "dm_pending_decision (dispatch_event w cfg uuid now ev d) = dm_pending_decision d"
  "dm_pending_epoch (dispatch_event w cfg uuid now ev d) = dm_pending_epoch d"
  "dm_calls (dispatch_event w cfg uuid now ev d) = dm_calls d"
  "dm_replies (dispatch_event w cfg uuid now ev d) = dm_replies d"
  by (simp_all add: dispatch_event_def split: option.split prod.split)

lemma dispatch_ids [simp]: "ids_ok (dispatch_event w cfg uuid now ev d) = ids_ok d"
  by (simp add: ids_ok_def)

lemma dispatch_moves_on:
  assumes "moves_on (params_of cfg) now m T (dm_timers d) (handle (params_of cfg) uuid ev m)"
    and "dm_machine d = Some m" "calls_ok d m T" "ids_ok d"
  shows "daemon_inv cfg now (dispatch_event w cfg uuid now ev d)"
proof -
  obtain acts m' where out: "handle (params_of cfg) uuid ev m = (Some acts, m')"
    and armed: "armed (params_of cfg) now m' (timers_after now acts (dm_timers d))"
    and cand: "pm_state m = CANDIDATE \<longrightarrow> decides acts \<or>
      pm_state m' = CANDIDATE \<and> timers_after now acts (dm_timers d) TIMER_ARB_WINDOW = T TIMER_ARB_WINDOW"
    using assms(1) unfolding moves_on_def by metis
  let ?d = "fold (execute w cfg now) acts (d\<lparr>dm_machine := Some m'\<rparr>)"
  have d: "dispatch_event w cfg uuid now ev d = ?d"
    by (simp add: dispatch_event_def assms(2) out)
  have "calls_ok ?d m' (dm_timers ?d)"
    unfolding calls_ok_def
  proof (intro allI impI)
    fix f deadline assume f: "(f, deadline) \<in> set (dm_calls ?d) \<and> dm_futures ?d f = Waiting"
    then have w: "dm_futures d f = Waiting" "\<not> (dm_pending_decision d = Some f \<and> decides acts)"
      by (simp_all add: fold_execute_futures)
    have "dm_pending_decision d = Some f \<and> pm_state m = CANDIDATE \<and>
        (\<exists>t. T TIMER_ARB_WINDOW = Some t \<and> t + ARBITRATE_RPC_MARGIN_SEC \<le> deadline)"
      using f w(1) by (intro calls_okD [OF assms(3)]) simp_all
    with w(2) cand show "dm_pending_decision ?d = Some f \<and> pm_state m' = CANDIDATE \<and>
        (\<exists>t. dm_timers ?d TIMER_ARB_WINDOW = Some t \<and> t + ARBITRATE_RPC_MARGIN_SEC \<le> deadline)"
      by auto
  qed
  moreover have "ids_ok ?d" using assms(4) by (simp add: ids_ok_def)
  ultimately show ?thesis
    unfolding d daemon_inv_def using armed by auto
qed

text \<open>An event that is neither a local wake nor a timer.\<close>

lemma foreign_moves_on:
  assumes "sane_params p" "armed p now m T" "sane_event ev"
    and "ev \<in> {PeerWake e r now, PeerClaim e q now, PeerHeartbeat e q now, PeerEnd e q s now,
      VoiceSessionStarted e now, VoiceSessionEnded e s now}"
  shows "moves_on p now m T T (handle p uuid ev m)"
  using assms(3,4) on_peer_wake_moves_on [OF assms(1,2)] on_peer_claim_moves_on [OF assms(1,2)]
    on_peer_heartbeat_moves_on [OF assms(1,2)] on_peer_end_moves_on [OF assms(2)]
    on_voice_started_moves_on [OF assms(1,2)] on_voice_ended_moves_on [OF assms(2)]
  by auto

definition sane_config :: "peering_config \<Rightarrow> bool" where
  "sane_config cfg \<longleftrightarrow> MIN_ARB_WINDOW_MS \<le> pc_arb_window_ms cfg \<and> pc_arb_window_ms cfg \<le> MAX_ARB_WINDOW_MS"

lemma sane_config_params: "sane_config cfg \<Longrightarrow> sane_params (params_of cfg)"
proof -
  assume "sane_config cfg"
  then have "of_int 50 \<le> (of_int (pc_arb_window_ms cfg) :: rat)" "of_int (pc_arb_window_ms cfg) \<le> (of_int 500 :: rat)"
    unfolding of_int_le_iff by (simp_all add: sane_config_def MIN_ARB_WINDOW_MS_def MAX_ARB_WINDOW_MS_def)
  then show ?thesis
    by (simp add: sane_params_def params_of_def ARBITRATE_RPC_TIMEOUT_SEC_def ARBITRATE_RPC_MARGIN_SEC_def
        MAX_ARB_WINDOW_MS_def DEFAULT_HEARTBEAT_INTERVAL_SEC_def DEFAULT_HEARTBEAT_TIMEOUT_SEC_def)
qed

lemma inv_running:
  assumes "daemon_inv cfg now d" "dm_running d"
  obtains m where "dm_machine d = Some m" "armed (params_of cfg) now m (dm_timers d)" "calls_ok d m (dm_timers d)"
  using assms by (auto simp: daemon_inv_def)

lemma inv_stopped: "\<not> dm_running d \<Longrightarrow> daemon_inv cfg now d = ids_ok d"
  by (simp add: daemon_inv_def)

lemma inv_ids: "daemon_inv cfg now d \<Longrightarrow> ids_ok d"
  by (simp add: daemon_inv_def)

lemma inv_later: "daemon_inv cfg now d \<Longrightarrow> now \<le> now' \<Longrightarrow> daemon_inv cfg now' d"
  using armed_later by (auto simp: daemon_inv_def)

lemma foreign_dispatch_inv:
  assumes "sane_config cfg" "daemon_inv cfg now d" "sane_event ev"
    and "ev \<in> {PeerWake e r now, PeerClaim e q now, PeerHeartbeat e q now, PeerEnd e q s now,
      VoiceSessionStarted e now, VoiceSessionEnded e s now}"
  shows "daemon_inv cfg now (dispatch_event w cfg uuid now ev d)"
proof (cases "dm_running d")
  case True
  obtain m where m: "dm_machine d = Some m" "armed (params_of cfg) now m (dm_timers d)" "calls_ok d m (dm_timers d)"
    using inv_running [OF assms(2) True] by metis
  have "moves_on (params_of cfg) now m (dm_timers d) (dm_timers d) (handle (params_of cfg) uuid ev m)"
    by (rule foreign_moves_on [OF sane_config_params [OF assms(1)] m(2) assms(3,4)])
  then show ?thesis by (rule dispatch_moves_on [OF _ m(1,3) inv_ids [OF assms(2)]])
next
  case False
  then show ?thesis using inv_ids [OF assms(2)] by (simp add: inv_stopped)
qed

lemma multicast_inv:
  assumes "sane_config cfg" "daemon_inv cfg now d"
    and "case msg of IncomingWake _ report _ \<Rightarrow> measured report | _ \<Rightarrow> True"
  shows "daemon_inv cfg now (on_multicast_message w cfg now msg d)"
  using assms(2,3) foreign_dispatch_inv [OF assms(1,2)]
  by (cases msg) (simp_all add: on_multicast_message_def)

lemma timer_inv:
  assumes "sane_config cfg" "daemon_inv cfg now d" "dm_timers d timer_id = Some t" "t \<le> now"
  shows "daemon_inv cfg now (on_timer_fired w cfg now timer_id d)"
proof (cases "dm_running d")
  case True
  obtain m where m: "dm_machine d = Some m" "armed (params_of cfg) now m (dm_timers d)" "calls_ok d m (dm_timers d)"
    using inv_running [OF assms(2) True] by metis
  have "moves_on (params_of cfg) now m (dm_timers d) ((dm_timers d)(timer_id := None)) (on_timer (params_of cfg) timer_id now m)"
    by (rule on_timer_moves_on [OF sane_config_params [OF assms(1)] m(2) assms(3,4)])
  then have "moves_on (params_of cfg) now m (dm_timers d) (dm_timers (cancel_timer timer_id d))
      (handle (params_of cfg) [] (TimerFired timer_id now) m)"
    by (simp add: cancel_timer_def)
  then show ?thesis
    unfolding on_timer_fired_def
    by (rule dispatch_moves_on) (use m inv_ids [OF assms(2)] in \<open>simp_all add: cancel_timer_def calls_ok_def ids_ok_def\<close>)
next
  case False
  then show ?thesis
    using inv_ids [OF assms(2)] by (simp add: inv_stopped on_timer_fired_def) (simp add: cancel_timer_def ids_ok_def inv_stopped)
qed

text \<open>A new call: the stale one, if any, is answered first.\<close>

lemma resolve_pending_frame [simp]:
  "dm_running (resolve_pending v d) = dm_running d"
  "dm_machine (resolve_pending v d) = dm_machine d"
  "dm_timers (resolve_pending v d) = dm_timers d"
  "dm_next_future (resolve_pending v d) = dm_next_future d"
  "dm_pending_decision (resolve_pending v d) = dm_pending_decision d"
  "dm_calls (resolve_pending v d) = dm_calls d"
  by (simp_all add: resolve_pending_def set_future_def split: option.split)

lemma resolved_not_waiting: "dm_pending_decision d = Some f \<Longrightarrow> dm_futures (resolve_pending v d) f \<noteq> Waiting"
  by (simp add: resolve_pending_def set_future_def)

lemma resolve_pending_futures: "dm_futures (resolve_pending v d) f = Waiting \<Longrightarrow> dm_futures d f = Waiting"
  by (simp add: resolve_pending_def set_future_def split: option.splits if_splits)

lemma arbitrate_begin_inv:
  assumes "sane_config cfg" "daemon_inv cfg now d" "snr \<noteq> Some PNan" "rms \<noteq> Some PNan"
  shows "daemon_inv cfg now (arbitrate_begin w cfg now uuid score snr rms serve d)"
proof (cases "dm_running d")
  case True
  define f where "f = dm_next_future d"
  define d1 where "d1 = (set_future f Waiting (resolve_pending ''WIN'' (d\<lparr>dm_next_future := Suc f\<rparr>)))\<lparr>dm_pending_decision := Some f\<rparr>"
  define d2 where "d2 = dispatch_event w cfg uuid now (LocalWake score snr rms serve now) d1"
  have d': "arbitrate_begin w cfg now uuid score snr rms serve d =
      d2\<lparr>dm_pending_epoch := Option.bind (dm_machine d2) current_epoch,
         dm_calls := (f, now + ARBITRATE_RPC_TIMEOUT_SEC) # dm_calls d2\<rparr>" (is "_ = ?d3")
    using True by (simp add: arbitrate_begin_def Let_def f_def d1_def d2_def)
  obtain m where m: "dm_machine d = Some m" "armed (params_of cfg) now m (dm_timers d)" "calls_ok d m (dm_timers d)"
    using inv_running [OF assms(2) True] by metis
  obtain acts m' where out: "on_local_wake (params_of cfg) uuid score snr rms serve now m = (acts, m')" by fastforce
  have d1: "dm_machine d1 = Some m" "dm_timers d1 = dm_timers d" "dm_calls d1 = dm_calls d" "dm_pending_decision d1 = Some f"
    "dm_next_future d1 = Suc f" "dm_running d1 = dm_running d"
    by (simp_all add: d1_def set_future_def m(1))
  have d2: "d2 = fold (execute w cfg now) acts (d1\<lparr>dm_machine := Some m'\<rparr>)"
    by (simp add: d2_def dispatch_event_def d1(1) out answered_def)
  have after: "armed (params_of cfg) now m' (timers_after now acts (dm_timers d))"
    "decides acts \<or> pm_state m' = CANDIDATE \<and>
      timers_after now acts (dm_timers d) TIMER_ARB_WINDOW = Some (now + sp_arb_window_sec (params_of cfg))"
    using on_local_wake_moves_on [OF sane_config_params [OF assms(1)] m(2) assms(3,4) out] by simp_all
  have old: "g < f \<and> dm_futures d1 g \<noteq> Waiting" if "(g, deadline) \<in> set (dm_calls d)" for g deadline
  proof -
    have g: "g < f" using that inv_ids [OF assms(2)] by (auto simp: ids_ok_def f_def)
    show ?thesis
    proof (cases "dm_futures d g = Waiting")
      case True
      then have "dm_pending_decision (d\<lparr>dm_next_future := Suc f\<rparr>) = Some g" using calls_okD [OF m(3) that] by simp
      then show ?thesis using g resolved_not_waiting by (simp add: d1_def set_future_def)
    next
      case False
      then show ?thesis using g resolve_pending_futures [of "''WIN''" "d\<lparr>dm_next_future := Suc f\<rparr>" g]
        by (auto simp: d1_def set_future_def)
    qed
  qed
  have window: "sp_arb_window_sec (params_of cfg) + ARBITRATE_RPC_MARGIN_SEC \<le> ARBITRATE_RPC_TIMEOUT_SEC"
    using sane_config_params [OF assms(1)] by (simp add: sane_params_def)
  have "calls_ok ?d3 m' (dm_timers ?d3)"
    unfolding calls_ok_def
  proof (intro allI impI)
    fix g deadline assume g: "(g, deadline) \<in> set (dm_calls ?d3) \<and> dm_futures ?d3 g = Waiting"
    then have waiting: "dm_futures d1 g = Waiting" "\<not> (g = f \<and> decides acts)"
      by (auto simp: d2 fold_execute_futures d1)
    then have "(g, deadline) = (f, now + ARBITRATE_RPC_TIMEOUT_SEC)"
      using g old by (auto simp: d2 d1)
    with waiting(2) after(2) window show "dm_pending_decision ?d3 = Some g \<and> pm_state m' = CANDIDATE \<and>
        (\<exists>t. dm_timers ?d3 TIMER_ARB_WINDOW = Some t \<and> t + ARBITRATE_RPC_MARGIN_SEC \<le> deadline)"
      by (simp add: d2 d1)
  qed
  moreover have "ids_ok ?d3"
    using inv_ids [OF assms(2)] by (auto simp: ids_ok_def d2 d1 f_def less_Suc_eq)
  ultimately show ?thesis
    unfolding d' daemon_inv_def using after(1) by (auto simp: d2 d1)
next
  case False
  then show ?thesis
    using inv_ids [OF assms(2)]
    by (auto simp: arbitrate_begin_def Let_def log_reply_def daemon_inv_def ids_ok_def less_Suc_eq)
qed

lemma reply_inv:
  assumes "daemon_inv cfg now d" "v \<noteq> Waiting"
  shows "daemon_inv cfg now (arbitrate_reply f decision (set_future f v d))"
proof -
  have "calls_ok (arbitrate_reply f decision (set_future f v d)) m T" if "calls_ok d m T" for m T
    unfolding calls_ok_def using calls_okD [OF that] assms(2)
    by (auto simp: arbitrate_reply_def log_reply_def set_future_def split: if_splits)
  moreover have "ids_ok (arbitrate_reply f decision (set_future f v d))"
    using inv_ids [OF assms(1)] by (auto simp: ids_ok_def arbitrate_reply_def log_reply_def set_future_def)
  ultimately show ?thesis
    using assms(1) by (auto simp: daemon_inv_def arbitrate_reply_def log_reply_def set_future_def)
qed

lemma resume_inv: "daemon_inv cfg now d \<Longrightarrow> daemon_inv cfg now (arbitrate_resume f d)"
proof -
  assume inv: "daemon_inv cfg now d"
  have "set_future f (dm_futures d f) d = d" by (simp add: set_future_def)
  then show ?thesis
    using reply_inv [OF inv, of "dm_futures d f" f] inv by (auto simp: arbitrate_resume_def split: future_state.split)
qed

lemma stop_inv: "daemon_inv cfg now d \<Longrightarrow> daemon_inv cfg now (stop_begin d)"
  by (simp add: daemon_inv_def stop_begin_def ids_ok_def)

lemma stop_finish_inv: "daemon_inv cfg now d \<Longrightarrow> daemon_inv cfg now (stop_finish d)"
proof -
  assume inv: "daemon_inv cfg now d"
  have "calls_ok (stop_finish d) m T" if "calls_ok d m T" for m T
    unfolding calls_ok_def
  proof (intro allI impI)
    fix f deadline assume f: "(f, deadline) \<in> set (dm_calls (stop_finish d)) \<and> dm_futures (stop_finish d) f = Waiting"
    then have "dm_futures d f = Waiting" using resolve_pending_futures by (auto simp: stop_finish_def)
    then have "dm_pending_decision d = Some f" using calls_okD [OF that] f by (auto simp: stop_finish_def)
    then have False using f resolved_not_waiting by (auto simp: stop_finish_def)
    then show "dm_pending_decision (stop_finish d) = Some f \<and> pm_state m = CANDIDATE \<and>
      (\<exists>t. T TIMER_ARB_WINDOW = Some t \<and> t + ARBITRATE_RPC_MARGIN_SEC \<le> deadline)" ..
  qed
  with inv show ?thesis by (auto simp: daemon_inv_def ids_ok_def) (auto simp: stop_finish_def)
qed

lemma loop_step_inv:
  assumes "sane_config cfg" "daemon_inv cfg now d" "sane_input i" "due now i d"
  shows "daemon_inv cfg now (loop_step w cfg now i d)"
proof (cases i)
  case (Arbitrate uuid score snr rms serve)
  then show ?thesis using arbitrate_begin_inv [OF assms(1,2)] assms(3) by simp
next
  case (Resume f)
  then show ?thesis using resume_inv [OF assms(2)] by simp
next
  case (RpcTimeout f)
  then show ?thesis using reply_inv [OF assms(2), of Cancelled] by (simp add: arbitrate_timeout_def)
next
  case (Arrived g)
  then show ?thesis
    using assms(2,3) multicast_inv [OF assms(1,2)] by (cases "decode g") (auto simp: on_datagram_def)
next
  case (TimerDue timer_id)
  then show ?thesis using assms(4) timer_inv [OF assms(1,2)] by (auto split: option.splits)
next
  case (SessionStarted epoch)
  then show ?thesis using assms(2) foreign_dispatch_inv [OF assms(1,2)] by (simp add: session_started_def)
next
  case (SessionEnded epoch reason)
  then show ?thesis using assms(2) foreign_dispatch_inv [OF assms(1,2)] by (simp add: session_ended_def)
next
  case StopBegin
  then show ?thesis using stop_inv [OF assms(2)] by simp
next
  case StopFinish
  then show ?thesis using stop_finish_inv [OF assms(2)] by simp
qed

lemma start_inv: "config_enabled cfg \<Longrightarrow> daemon_inv cfg now (daemon_start cfg new_daemon)"
  by (simp add: daemon_start_def new_daemon_def daemon_inv_def ids_ok_def calls_ok_def armed_def fresh_machine_def)

lemma reaches_inv: "reaches w cfg sane_input now d \<Longrightarrow> sane_config cfg \<Longrightarrow> daemon_inv cfg now d"
proof (induction rule: reaches.induct)
  case (started now)
  then show ?case by (simp add: start_inv)
next
  case (step now d now' i)
  then show ?case using loop_step_inv inv_later by blast
qed

end
