(* ===== verification/Peering_Safety.thy ===== *)
theory Peering_Safety
  imports Peering_Invariant
begin

text \<open>
  What the peering daemon guarantees: in every state but the one of a winner whose session has not opened, a timer is
  armed that leads on; a waiting call is decided before it would fail open; a live session is never torn down by
  neighbours. And four gaps: a win that is never opened, an epoch race, a NaN on the wire, and a wake heard second.
\<close>

section \<open>Nothing waits without a timer\<close>

lemma timer_fires:
  assumes "dm_machine d = Some m" "on_timer (params_of cfg) timer_id now m = (Some acts, m')"
  shows "on_timer_fired w cfg now timer_id d = fold (execute w cfg now) acts ((cancel_timer timer_id d)\<lparr>dm_machine := Some m'\<rparr>)"
  using assms by (simp add: on_timer_fired_def dispatch_event_def cancel_timer_def)

lemma window_closes:
  assumes "pm_state m = CANDIDATE" "pm_epoch m = Some e" "all_measured e"
  obtains acts m' where "on_timer p TIMER_ARB_WINDOW now m = (Some acts, m')" "pm_state m' \<in> {WINNER, SUPPRESSED}" "decides acts"
proof -
  have "map snd (ep_reports e) \<noteq> []" "\<forall>r\<in>set (map snd (ep_reports e)). measured r"
    using assms(3) by (auto simp: all_measured_def)
  note ranked = rank_set [OF this]
  define out where "out = on_timer p TIMER_ARB_WINDOW now m"
  have "\<exists>acts m'. out = (Some acts, m') \<and> pm_state m' \<in> {WINNER, SUPPRESSED} \<and> decides acts"
    using assms(1,2) \<open>map snd (ep_reports e) \<noteq> []\<close>
    by (simp add: out_def on_timer_def close_arbitration_def ranked Let_def suppress_def)
  then show ?thesis using that unfolding out_def by blast
qed

lemma closed_window:
  assumes "daemon_inv cfg now d" "dm_running d" "dm_machine d = Some m" "pm_state m = CANDIDATE"
  obtains t where "dm_timers d TIMER_ARB_WINDOW = Some t" "t \<le> now + sp_arb_window_sec (params_of cfg)"
    and "\<And>t'. dm_machine (on_timer_fired w cfg t' TIMER_ARB_WINDOW d) \<noteq> None"
    and "\<And>t' m'. dm_machine (on_timer_fired w cfg t' TIMER_ARB_WINDOW d) = Some m' \<Longrightarrow> pm_state m' \<in> {WINNER, SUPPRESSED}"
    and "\<And>t' c. c \<in> set (dm_calls d) \<Longrightarrow> dm_futures (on_timer_fired w cfg t' TIMER_ARB_WINDOW d) (fst c) \<noteq> Waiting"
proof -
  have armed: "armed (params_of cfg) now m (dm_timers d)" "calls_ok d m (dm_timers d)"
    using inv_running [OF assms(1,2)] assms(3) by (metis option.inject)+
  then obtain e t where e: "pm_epoch m = Some e" "all_measured e"
    and t: "dm_timers d TIMER_ARB_WINDOW = Some t" "t \<le> now + sp_arb_window_sec (params_of cfg)"
    using assms(4) by (auto simp: armed_def)
  have fired: "\<exists>m'. dm_machine (on_timer_fired w cfg t' TIMER_ARB_WINDOW d) = Some m' \<and> pm_state m' \<in> {WINNER, SUPPRESSED} \<and>
      (\<forall>c\<in>set (dm_calls d). dm_futures (on_timer_fired w cfg t' TIMER_ARB_WINDOW d) (fst c) \<noteq> Waiting)" for t'
  proof -
    obtain acts m' where out: "on_timer (params_of cfg) TIMER_ARB_WINDOW t' m = (Some acts, m')"
      "pm_state m' \<in> {WINNER, SUPPRESSED}" "decides acts"
      using window_closes [OF assms(4) e] by metis
    have "dm_pending_decision d = Some (fst c)" if "c \<in> set (dm_calls d)" "dm_futures d (fst c) = Waiting" for c
      using calls_okD [OF armed(2), of "fst c" "snd c"] that by simp
    then show ?thesis
      unfolding timer_fires [OF assms(3) out(1)] using out(2,3)
      by (auto simp: fold_execute_futures cancel_timer_def)
  qed
  show ?thesis
  proof (rule that [OF t])
    show "dm_machine (on_timer_fired w cfg t' TIMER_ARB_WINDOW d) \<noteq> None" for t' using fired [of t'] by auto
    show "pm_state m' \<in> {WINNER, SUPPRESSED}" if "dm_machine (on_timer_fired w cfg t' TIMER_ARB_WINDOW d) = Some m'" for t' m'
      using fired [of t'] that by auto
    show "dm_futures (on_timer_fired w cfg t' TIMER_ARB_WINDOW d) (fst c) \<noteq> Waiting" if "c \<in> set (dm_calls d)" for t' c
      using fired [of t'] that by blast
  qed
qed

lemma suppression_ends:
  assumes "daemon_inv cfg now d" "dm_running d" "dm_machine d = Some m" "pm_state m = SUPPRESSED"
  obtains t where "dm_timers d TIMER_HEARTBEAT_TIMEOUT = Some t"
    and "\<And>t'. t \<le> t' \<Longrightarrow> map_option pm_state (dm_machine (on_timer_fired w cfg t' TIMER_HEARTBEAT_TIMEOUT d)) = Some IDLE"
proof -
  have "armed (params_of cfg) now m (dm_timers d)"
    using inv_running [OF assms(1,2)] assms(3) by (metis option.inject)
  then have t: "dm_timers d TIMER_HEARTBEAT_TIMEOUT =
      Some (pm_foreign_last_heartbeat m + sp_heartbeat_timeout_sec (params_of cfg))"
    using assms(4) by (simp add: armed_def)
  show ?thesis
  proof (rule that [OF t])
    fix t' assume "pm_foreign_last_heartbeat m + sp_heartbeat_timeout_sec (params_of cfg) \<le> t'"
    then have "on_timer (params_of cfg) TIMER_HEARTBEAT_TIMEOUT t' m = (Some [], (clear_foreign_session m)\<lparr>pm_state := IDLE\<rparr>)"
      using assms(4) by (simp add: on_timer_def answered_def on_heartbeat_timeout_def)
    then show "map_option pm_state (dm_machine (on_timer_fired w cfg t' TIMER_HEARTBEAT_TIMEOUT d)) = Some IDLE"
      by (simp add: timer_fires [OF assms(3)])
  qed
qed

lemma session_beats:
  assumes "daemon_inv cfg now d" "dm_running d" "dm_machine d = Some m" "pm_state m = ACTIVE"
  obtains t epoch where "dm_timers d TIMER_HEARTBEAT_SEND = Some t" "t \<le> now + 1" "current_epoch m = Some epoch"
    and "\<And>t'. dm_sent (on_timer_fired w cfg t' TIMER_HEARTBEAT_SEND d) =
      dm_sent d @ [encode_heartbeat epoch (pc_peer_id cfg) (lw_ts w t')]"
    and "\<And>t'. dm_timers (on_timer_fired w cfg t' TIMER_HEARTBEAT_SEND d) TIMER_HEARTBEAT_SEND = Some (t' + 1)"
proof -
  have "armed (params_of cfg) now m (dm_timers d)"
    using inv_running [OF assms(1,2)] assms(3) by (metis option.inject)
  then obtain t e where t: "dm_timers d TIMER_HEARTBEAT_SEND = Some t" "t \<le> now + 1" and e: "pm_epoch m = Some e"
    using assms(4) by (auto simp: armed_def params_of_def DEFAULT_HEARTBEAT_INTERVAL_SEC_def)
  have out: "on_timer (params_of cfg) TIMER_HEARTBEAT_SEND t' m =
      (Some [BroadcastHeartbeat (ep_epoch e), ScheduleTimer TIMER_HEARTBEAT_SEND (t' + 1)], m)" for t'
    using assms(4) e by (simp add: on_timer_def answered_def send_heartbeat_and_reschedule_def params_of_def
        DEFAULT_HEARTBEAT_INTERVAL_SEC_def)
  show ?thesis
    using t e assms(2)
    by (intro that [of t "ep_epoch e"])
      (simp_all add: timer_fires [OF assms(3) out] current_epoch_def spawn_send_def cancel_timer_def schedule_timer_def Let_def)
qed

text \<open>
  C6. Nothing in the arbitration waits for ever: whenever the daemon runs and no report held a NaN, a candidate has the
  window timer armed, at most half a second ahead, and when it fires the speaker has won or stands down, with every
  waiting call answered; a suppressed speaker has the heartbeat timeout armed and is idle again when it fires; a
  speaker in a session has the next heartbeat armed at most a second ahead, sends it for its epoch and arms the next.
  (An idle speaker waits for nobody; a winner waits for the voice daemon.)
\<close>

theorem every_wait_is_timed:
  assumes "sane_config cfg" "reaches w cfg sane_input now d" "dm_running d" "dm_machine d = Some m"
  shows "(pm_state m = CANDIDATE \<longrightarrow> (\<exists>t. dm_timers d TIMER_ARB_WINDOW = Some t \<and> t \<le> now + 1 / 2 \<and>
      (\<forall>t'. (\<exists>m'. dm_machine (on_timer_fired w cfg t' TIMER_ARB_WINDOW d) = Some m' \<and> pm_state m' \<in> {WINNER, SUPPRESSED}) \<and>
        (\<forall>c\<in>set (dm_calls d). dm_futures (on_timer_fired w cfg t' TIMER_ARB_WINDOW d) (fst c) \<noteq> Waiting)))) \<and>
    (pm_state m = SUPPRESSED \<longrightarrow> (\<exists>t. dm_timers d TIMER_HEARTBEAT_TIMEOUT = Some t \<and>
      (\<forall>t'\<ge>t. map_option pm_state (dm_machine (on_timer_fired w cfg t' TIMER_HEARTBEAT_TIMEOUT d)) = Some IDLE))) \<and>
    (pm_state m = ACTIVE \<longrightarrow> (\<exists>t epoch. dm_timers d TIMER_HEARTBEAT_SEND = Some t \<and> t \<le> now + 1 \<and> current_epoch m = Some epoch \<and>
      (\<forall>t'. dm_sent (on_timer_fired w cfg t' TIMER_HEARTBEAT_SEND d) =
          dm_sent d @ [encode_heartbeat epoch (pc_peer_id cfg) (lw_ts w t')] \<and>
        dm_timers (on_timer_fired w cfg t' TIMER_HEARTBEAT_SEND d) TIMER_HEARTBEAT_SEND = Some (t' + 1))))"
proof -
  have inv: "daemon_inv cfg now d" by (rule reaches_inv [OF assms(2,1)])
  have window: "sp_arb_window_sec (params_of cfg) \<le> 1 / 2"
    using sane_config_params [OF assms(1)]
    by (simp add: sane_params_def ARBITRATE_RPC_TIMEOUT_SEC_def MAX_ARB_WINDOW_MS_def)
  show ?thesis
  proof (intro conjI impI)
    assume "pm_state m = CANDIDATE"
    then show "\<exists>t. dm_timers d TIMER_ARB_WINDOW = Some t \<and> t \<le> now + 1 / 2 \<and>
      (\<forall>t'. (\<exists>m'. dm_machine (on_timer_fired w cfg t' TIMER_ARB_WINDOW d) = Some m' \<and> pm_state m' \<in> {WINNER, SUPPRESSED}) \<and>
        (\<forall>c\<in>set (dm_calls d). dm_futures (on_timer_fired w cfg t' TIMER_ARB_WINDOW d) (fst c) \<noteq> Waiting))"
    proof (rule closed_window [OF inv assms(3,4), where w = w])
      fix t assume t: "dm_timers d TIMER_ARB_WINDOW = Some t" "t \<le> now + sp_arb_window_sec (params_of cfg)"
        and m': "\<And>t'. dm_machine (on_timer_fired w cfg t' TIMER_ARB_WINDOW d) \<noteq> None"
          "\<And>t' m'. dm_machine (on_timer_fired w cfg t' TIMER_ARB_WINDOW d) = Some m' \<Longrightarrow> pm_state m' \<in> {WINNER, SUPPRESSED}"
        and c: "\<And>t' c. c \<in> set (dm_calls d) \<Longrightarrow> dm_futures (on_timer_fired w cfg t' TIMER_ARB_WINDOW d) (fst c) \<noteq> Waiting"
      have "t \<le> now + 1 / 2" using t(2) window by simp
      moreover have "\<exists>m'. dm_machine (on_timer_fired w cfg t' TIMER_ARB_WINDOW d) = Some m' \<and> pm_state m' \<in> {WINNER, SUPPRESSED}" for t'
        using m' by (metis not_None_eq)
      ultimately show ?thesis using t(1) c by blast
    qed
  next
    assume "pm_state m = SUPPRESSED"
    then show "\<exists>t. dm_timers d TIMER_HEARTBEAT_TIMEOUT = Some t \<and>
      (\<forall>t'\<ge>t. map_option pm_state (dm_machine (on_timer_fired w cfg t' TIMER_HEARTBEAT_TIMEOUT d)) = Some IDLE)"
      by (rule suppression_ends [OF inv assms(3,4), where w = w]) blast
  next
    assume "pm_state m = ACTIVE"
    then show "\<exists>t epoch. dm_timers d TIMER_HEARTBEAT_SEND = Some t \<and> t \<le> now + 1 \<and> current_epoch m = Some epoch \<and>
      (\<forall>t'. dm_sent (on_timer_fired w cfg t' TIMER_HEARTBEAT_SEND d) =
          dm_sent d @ [encode_heartbeat epoch (pc_peer_id cfg) (lw_ts w t')] \<and>
        dm_timers (on_timer_fired w cfg t' TIMER_HEARTBEAT_SEND d) TIMER_HEARTBEAT_SEND = Some (t' + 1))"
      by (rule session_beats [OF inv assms(3,4), where w = w]) blast
  qed
qed

section \<open>A demonstration daemon\<close>

definition demo_config :: peering_config where
  "demo_config = \<lparr>pc_mode = MODE_ON, pc_peer_id = ''p'', pc_room = ''den'', pc_primary = False, pc_arb_window_ms = 150,
     pc_break_threshold = 85 / 100\<rparr>"

definition demo_world :: loop_world where "demo_world = \<lparr>lw_show = (\<lambda>_. []), lw_ts = (\<lambda>_. 0)\<rparr>"

definition demo_own :: wake_report where "demo_own = make_report ''p'' (PFin False (9 / 10)) None None False True"

definition demo_started :: peering_daemon where "demo_started = daemon_start demo_config new_daemon"

text \<open>It has heard the wake word and arbitrates in epoch \<open>m\<close>.\<close>

definition demo_candidate :: peering_daemon where
  "demo_candidate = loop_step demo_world demo_config 0 (Arbitrate ''m'' (PFin False (9 / 10)) None None True) demo_started"

lemma demo_sane: "sane_config demo_config"
  by (simp add: sane_config_def demo_config_def MIN_ARB_WINDOW_MS_def MAX_ARB_WINDOW_MS_def)

lemma demo_parts: "pc_peer_id demo_config = ''p''" "lw_ts demo_world t = 0"
  by (simp_all add: demo_config_def demo_world_def)

lemma demo_started_fields:
  "dm_running demo_started" "dm_machine demo_started = Some fresh_machine" "dm_timers demo_started = (\<lambda>_. None)"
  "dm_next_future demo_started = 0" "dm_pending_decision demo_started = None" "dm_calls demo_started = []"
  "dm_sent demo_started = []" "dm_futures demo_started = (\<lambda>_. Cancelled)" "dm_replies demo_started = []"
  by (simp_all add: demo_started_def daemon_start_def config_enabled_def demo_config_def new_daemon_def)

lemma demo_wakes:
  "on_local_wake (params_of demo_config) ''m'' (PFin False (9 / 10)) None None True 0 fresh_machine =
     ([BroadcastWake ''m'' demo_own, ScheduleTimer TIMER_ARB_WINDOW (150 / 1000)],
      fresh_machine\<lparr>pm_epoch := Some \<lparr>ep_epoch = ''m'', ep_reports = [(''p'', demo_own)], ep_started_at = 0\<rparr>, pm_state := CANDIDATE\<rparr>)"
  by (simp add: on_local_wake_def fresh_machine_def begin_candidate_def Let_def params_of_def demo_config_def demo_own_def)

lemma demo_candidate_fields:
  "dm_running demo_candidate"
  "dm_machine demo_candidate = Some (fresh_machine\<lparr>pm_epoch := Some \<lparr>ep_epoch = ''m'', ep_reports = [(''p'', demo_own)],
     ep_started_at = 0\<rparr>, pm_state := CANDIDATE\<rparr>)"
  "dm_timers demo_candidate = [TIMER_ARB_WINDOW \<mapsto> 150 / 1000]"
  "dm_pending_decision demo_candidate = Some 0" "dm_pending_epoch demo_candidate = Some ''m''"
  "dm_futures demo_candidate 0 = Waiting" "dm_calls demo_candidate = [(0, ARBITRATE_RPC_TIMEOUT_SEC)]"
  "dm_replies demo_candidate = []"
  by (simp_all add: demo_candidate_def arbitrate_begin_def Let_def demo_started_fields resolve_pending_def set_future_def
      dispatch_event_def demo_wakes answered_def spawn_send_def schedule_timer_def cancel_timer_def current_epoch_def)

lemma demo_reaches: "reaches demo_world demo_config sane_input 0 demo_candidate"
  unfolding demo_candidate_def demo_started_def
  by (rule reaches.step [OF reaches.started [where now = 0]]) (simp_all add: config_enabled_def demo_config_def)

lemma every_wait_is_timed_witness:
  "\<exists>t. dm_timers demo_candidate TIMER_ARB_WINDOW = Some t \<and> t \<le> 0 + 1 / 2 \<and>
     (\<exists>m'. dm_machine (on_timer_fired demo_world demo_config 1 TIMER_ARB_WINDOW demo_candidate) = Some m' \<and>
        pm_state m' \<in> {WINNER, SUPPRESSED})"
  using every_wait_is_timed [OF demo_sane demo_reaches demo_candidate_fields(1,2)] by simp blast

text \<open>
  C13. The decision comes before the fail-open: while an ARBITRATE call waits, the window timer is armed, due at least
  0.15 s before the deadline of the call, and when it fires the call is decided. So \<open>wait_for\<close> times out only on a loop
  that ran a due timer that much too late.
\<close>

theorem calls_decided_before_deadline:
  assumes "sane_config cfg" "reaches w cfg sane_input now d" "dm_running d"
    and "(f, deadline) \<in> set (dm_calls d)" "dm_futures d f = Waiting"
  shows "\<exists>t. dm_timers d TIMER_ARB_WINDOW = Some t \<and> t + 15 / 100 \<le> deadline \<and>
    (\<forall>t'. dm_futures (on_timer_fired w cfg t' TIMER_ARB_WINDOW d) f \<noteq> Waiting)"
proof -
  have inv: "daemon_inv cfg now d" by (rule reaches_inv [OF assms(2,1)])
  obtain m where m: "dm_machine d = Some m" "calls_ok d m (dm_timers d)"
    using inv_running [OF inv assms(3)] by metis
  from calls_okD [OF m(2) assms(4,5)] obtain t where t: "pm_state m = CANDIDATE"
    "dm_timers d TIMER_ARB_WINDOW = Some t" "t + ARBITRATE_RPC_MARGIN_SEC \<le> deadline" by blast
  show ?thesis
  proof (rule closed_window [OF inv assms(3) m(1) t(1), where w = w])
    assume "\<And>t' c. c \<in> set (dm_calls d) \<Longrightarrow> dm_futures (on_timer_fired w cfg t' TIMER_ARB_WINDOW d) (fst c) \<noteq> Waiting"
    from this [OF assms(4)] show ?thesis using t(2,3) by (simp add: ARBITRATE_RPC_MARGIN_SEC_def)
  qed
qed

lemma calls_decided_before_deadline_witness:
  "\<exists>t. dm_timers demo_candidate TIMER_ARB_WINDOW = Some t \<and> t + 15 / 100 \<le> ARBITRATE_RPC_TIMEOUT_SEC"
  using calls_decided_before_deadline [OF demo_sane demo_reaches demo_candidate_fields(1), of 0 ARBITRATE_RPC_TIMEOUT_SEC]
  by (auto simp: demo_candidate_fields(6,7))

section \<open>A live session\<close>

lemma active_handles:
  assumes "pm_state m = ACTIVE" "in_epoch m e"
  shows "on_local_wake p uuid score snr rms serve now m = ([StandDown], m)"
    "on_peer_wake p e' r now m = ([], m)" "on_peer_claim p e' q now m = ([], m)"
    "on_peer_heartbeat p e' q now m = ([], m)" "on_peer_end e' m = ([], m)"
    "on_voice_started p e' now m = ([], m)" "e' \<noteq> e \<Longrightarrow> on_voice_ended e' s m = ([], m)"
    "snd (on_timer p timer_id now m) = m" "fst (on_timer p timer_id now m) \<noteq> None"
  using assms by (auto simp: on_local_wake_def on_peer_wake_def on_peer_claim_def on_peer_heartbeat_def on_peer_end_def
      on_voice_started_def on_voice_ended_def on_timer_def close_arbitration_def send_heartbeat_and_reschedule_def
      on_heartbeat_timeout_def answered_def in_epoch_def split: option.splits)

lemma quiet_dispatch:
  "dm_machine d = Some m \<Longrightarrow> handle (params_of cfg) uuid ev m = answered ([], m) \<Longrightarrow> dispatch_event w cfg uuid now ev d = d"
  by (simp add: dispatch_event_def answered_def)

lemma stood_down:
  assumes "dm_running d" "dm_machine d = Some m"
    "on_local_wake (params_of cfg) uuid score snr rms serve now m = ([StandDown], m)"
  shows "dm_machine (arbitrate_begin w cfg now uuid score snr rms serve d) = Some m \<and>
    dm_futures (arbitrate_begin w cfg now uuid score snr rms serve d) (dm_next_future d) = Result ''LOSE'' \<and>
    dm_timers (arbitrate_begin w cfg now uuid score snr rms serve d) = dm_timers d \<and>
    dm_sent (arbitrate_begin w cfg now uuid score snr rms serve d) = dm_sent d"
proof -
  have sent: "dm_sent (resolve_pending v d') = dm_sent d'" for v d'
    by (simp add: resolve_pending_def set_future_def split: option.split)
  show ?thesis
    using assms by (simp add: arbitrate_begin_def Let_def dispatch_event_def answered_def set_future_def sent)
      (simp add: resolve_pending_def set_future_def sent [unfolded resolve_pending_def set_future_def] split: option.split)
qed

text \<open>
  C7. A session in progress belongs to its speaker: no datagram whatever changes anything in the daemon, and
  no input but the end of that very session changes the state machine; a further wake word at this speaker is
  answered LOSE.
\<close>

theorem live_session_is_sticky:
  assumes "dm_running d" "dm_machine d = Some m" "pm_state m = ACTIVE" "in_epoch m e"
    and "\<forall>reason. i \<noteq> SessionEnded e reason"
  shows "dm_machine (loop_step w cfg now i d) = Some m \<and> (\<forall>g. i = Arrived g \<longrightarrow> loop_step w cfg now i d = d) \<and>
    (\<forall>uuid score snr rms serve. i = Arbitrate uuid score snr rms serve \<longrightarrow>
      dm_futures (loop_step w cfg now i d) (dm_next_future d) = Result ''LOSE'')"
proof (cases i)
  case (Arbitrate uuid score snr rms serve)
  then show ?thesis using stood_down [OF assms(1,2) active_handles(1) [OF assms(3,4)]] by auto
next
  case (Arrived g)
  have "on_multicast_message w cfg now msg d = d" for msg
    using quiet_dispatch [OF assms(2)] active_handles [OF assms(3,4)]
    by (simp add: on_multicast_message_def split: incoming.split)
  then show ?thesis using Arrived assms(2) by (simp add: on_datagram_def split: option.split)
next
  case (TimerDue timer_id)
  obtain acts where "on_timer (params_of cfg) timer_id now m = (Some acts, m)"
    using active_handles(8,9) [OF assms(3,4), of "params_of cfg" timer_id now] by (metis not_None_eq prod.collapse)
  then show ?thesis using TimerDue by (simp add: timer_fires [OF assms(2)])
next
  case (SessionStarted e')
  have "dispatch_event w cfg [] now (VoiceSessionStarted e' now) d = d"
    by (rule quiet_dispatch [OF assms(2)]) (simp add: active_handles(6) [OF assms(3,4)])
  then show ?thesis using SessionStarted assms(2) by (simp add: session_started_def)
next
  case (SessionEnded e' reason)
  then have "e' \<noteq> e" using assms(5) by auto
  then have "dispatch_event w cfg [] now (VoiceSessionEnded e' s now) d = d" for s
    by (intro quiet_dispatch [OF assms(2)]) (simp add: active_handles(7) [OF assms(3,4)])
  then show ?thesis using SessionEnded assms(2) by (simp add: session_ended_def)
qed (use assms(2) in \<open>simp_all add: arbitrate_resume_def arbitrate_timeout_def arbitrate_reply_def log_reply_def
    set_future_def stop_begin_def stop_finish_def resolve_pending_def split: future_state.split option.split\<close>)

text \<open>It has won, and its session runs.\<close>

definition demo_winner :: peering_daemon where
  "demo_winner = loop_step demo_world demo_config (3 / 20) (TimerDue TIMER_ARB_WINDOW) demo_candidate"

definition demo_active :: peering_daemon where
  "demo_active = loop_step demo_world demo_config (1 / 5) (SessionStarted ''m'') demo_winner"

definition demo_winner_machine :: peering_machine where
  "demo_winner_machine = fresh_machine\<lparr>pm_epoch := Some \<lparr>ep_epoch = ''m'', ep_reports = [(''p'', demo_own)], ep_started_at = 0\<rparr>,
     pm_state := WINNER\<rparr>"

lemma rank_single: "rank [r] = Some (wr_peer_id r)"
  by (simp add: rank_def servable_pool_def confidence_band_def Let_def CONFIDENCE_TIE_EPS_def sole_or_def)

lemma demo_winner_fields:
  "dm_running demo_winner" "dm_machine demo_winner = Some demo_winner_machine" "dm_pending_decision demo_winner = Some 0"
  "dm_futures demo_winner 0 = Result ''WIN''" "dm_timers demo_winner = (\<lambda>_. None)"
proof -
  have "on_timer (params_of demo_config) TIMER_ARB_WINDOW (3 / 20)
      (fresh_machine\<lparr>pm_epoch := Some \<lparr>ep_epoch = ''m'', ep_reports = [(''p'', demo_own)], ep_started_at = 0\<rparr>, pm_state := CANDIDATE\<rparr>) =
      (Some [BroadcastClaim ''m'', StartSession ''m''], demo_winner_machine)"
    by (simp add: on_timer_def close_arbitration_def Let_def rank_single demo_own_def make_report_def params_of_def
        demo_config_def demo_winner_machine_def)
  note fired = timer_fires [OF demo_candidate_fields(2) this]
  show "dm_running demo_winner" "dm_machine demo_winner = Some demo_winner_machine" "dm_pending_decision demo_winner = Some 0"
    "dm_futures demo_winner 0 = Result ''WIN''" "dm_timers demo_winner = (\<lambda>_. None)"
    by (simp_all add: demo_winner_def fired cancel_timer_def demo_candidate_fields spawn_send_def resolve_pending_def
        set_future_def)
qed

lemma demo_active_fields:
  "dm_running demo_active" "dm_machine demo_active = Some (demo_winner_machine\<lparr>pm_state := ACTIVE\<rparr>)"
proof -
  have "handle (params_of demo_config) [] (VoiceSessionStarted ''m'' (1 / 5)) demo_winner_machine =
      (Some [BroadcastHeartbeat ''m'', ScheduleTimer TIMER_HEARTBEAT_SEND (1 / 5 + 1)], demo_winner_machine\<lparr>pm_state := ACTIVE\<rparr>)"
    by (simp add: on_voice_started_def in_epoch_def send_heartbeat_and_reschedule_def demo_winner_machine_def answered_def
        params_of_def DEFAULT_HEARTBEAT_INTERVAL_SEC_def)
  then show "dm_running demo_active" "dm_machine demo_active = Some (demo_winner_machine\<lparr>pm_state := ACTIVE\<rparr>)"
    by (simp_all add: demo_active_def session_started_def demo_winner_fields dispatch_event_def spawn_send_def
        schedule_timer_def cancel_timer_def Let_def)
qed

lemma live_session_is_sticky_witness:
  "loop_step demo_world demo_config 1 (Arrived (Object (map_of (encode_claim ''m'' ''q'' 0)))) demo_active = demo_active"
  using live_session_is_sticky [OF demo_active_fields, of "''m''" "Arrived (Object (map_of (encode_claim ''m'' ''q'' 0)))"
      demo_world demo_config 1]
  by (simp add: in_epoch_def demo_winner_machine_def)

section \<open>One speaker answers\<close>

lemma window_closes_ranked:
  assumes "pm_state m = CANDIDATE" "pm_epoch m = Some e" "ep_reports e \<noteq> []" "rank (map snd (ep_reports e)) = Some w"
  shows "pm_state (snd (close_arbitration p now m)) = (if w = sp_peer_id p then WINNER else SUPPRESSED)"
    "w \<noteq> sp_peer_id p \<Longrightarrow> pm_foreign_peer (snd (close_arbitration p now m)) = Some w"
  using assms by (simp_all add: close_arbitration_def Let_def suppress_def)

text \<open>
  C5. Speakers with the same reports elect one of themselves: if all that reported are candidates with the same set of reports,
  in whatever order they came, and no report holds a NaN, then when their windows close, at whatever
  times, exactly one of them is the winner and all others are suppressed by it.
\<close>

theorem one_speaker_answers:
  assumes "finite S" "S \<noteq> {}" "\<forall>r\<in>S. measured r" "inj_on sp_peer_id P" "\<forall>r\<in>S. \<exists>p\<in>P. sp_peer_id p = wr_peer_id r"
    and "\<forall>p\<in>P. pm_state (machine p) = CANDIDATE \<and> pm_epoch (machine p) = Some (pad p) \<and> set (map snd (ep_reports (pad p))) = S"
  shows "\<exists>w\<in>P. \<forall>p\<in>P. let m' = snd (close_arbitration p (closes p) (machine p))
    in pm_state m' = (if p = w then WINNER else SUPPRESSED) \<and> (p \<noteq> w \<longrightarrow> pm_foreign_peer m' = Some (sp_peer_id w))"
proof -
  obtain r where r: "r \<in> S" "\<And>xs. set xs = S \<Longrightarrow> rank xs = Some (wr_peer_id r)"
    using wake_election.one_leader [OF assms(2,3,1)] by metis
  then obtain w where w: "w \<in> P" "sp_peer_id w = wr_peer_id r" using assms(5) by auto
  have "pm_state (snd (close_arbitration p (closes p) (machine p))) = (if p = w then WINNER else SUPPRESSED) \<and>
      (p \<noteq> w \<longrightarrow> pm_foreign_peer (snd (close_arbitration p (closes p) (machine p))) = Some (sp_peer_id w))" if "p \<in> P" for p
  proof -
    have m: "pm_state (machine p) = CANDIDATE" "pm_epoch (machine p) = Some (pad p)" "set (map snd (ep_reports (pad p))) = S"
      using assms(6) that by auto
    have ne: "ep_reports (pad p) \<noteq> []" using m(3) r(1) by auto
    have "sp_peer_id w = sp_peer_id p \<longleftrightarrow> p = w" using inj_onD [OF assms(4)] that w(1) by metis
    then show ?thesis
      using window_closes_ranked [OF m(1,2) ne r(2) [OF m(3)]] w(2) by auto
  qed
  then show ?thesis using w(1) by (auto simp: Let_def)
qed

lemma one_speaker_answers_witness:
  "\<exists>w\<in>{params_of demo_config}. pm_state (snd (close_arbitration w 1 (fresh_machine\<lparr>pm_state := CANDIDATE,
     pm_epoch := Some \<lparr>ep_epoch = ''m'', ep_reports = [(''p'', demo_own)], ep_started_at = 0\<rparr>\<rparr>))) = WINNER"
  using one_speaker_answers [where S = "{demo_own}" and P = "{params_of demo_config}" and
      machine = "\<lambda>_. fresh_machine\<lparr>pm_state := CANDIDATE,
        pm_epoch := Some \<lparr>ep_epoch = ''m'', ep_reports = [(''p'', demo_own)], ep_started_at = 0\<rparr>\<rparr>" and
      pad = "\<lambda>_. \<lparr>ep_epoch = ''m'', ep_reports = [(''p'', demo_own)], ep_started_at = 0\<rparr>" and closes = "\<lambda>_. 1"]
  by (simp add: demo_own_def make_report_def measured_def snr_or_neg_inf_def rms_or_neg_inf_def params_of_def demo_config_def Let_def)

section \<open>Where a win comes from\<close>

lemma dispatch_futures:
  assumes "dm_futures d f = Waiting" "dm_futures (dispatch_event w cfg uuid now ev d) f = Result ''WIN''"
  obtains m acts m' epoch where "dm_machine d = Some m" "handle (params_of cfg) uuid ev m = (Some acts, m')"
    "StartSession epoch \<in> set acts"
proof (cases "dm_machine d")
  case None
  then show ?thesis using assms by (simp add: dispatch_event_def)
next
  case (Some m)
  obtain out m' where out: "handle (params_of cfg) uuid ev m = (out, m')" by fastforce
  show ?thesis
  proof (cases out)
    case None
    then show ?thesis using assms Some out by (simp add: dispatch_event_def)
  next
    case acts: (Some acts)
    have starts: "\<exists>epoch. StartSession epoch \<in> set acts"
      if "dm_futures e f = Waiting" "dm_futures (fold (execute w cfg now) acts e) f = Result ''WIN''" for e
      using that
    proof (induction acts arbitrary: e)
      case Nil
      then show ?case by simp
    next
      case (Cons a as)
      show ?case
      proof (cases "dm_futures (execute w cfg now a e) f = Waiting")
        case True
        then show ?thesis using Cons.IH [OF True] Cons.prems(2) by auto
      next
        case False
        have keep: "dm_futures (fold (execute w cfg now) as e') f = dm_futures e' f" if "dm_futures e' f \<noteq> Waiting" for e'
          using that by (induction as arbitrary: e') (simp_all add: execute_futures)
        have "dm_futures (execute w cfg now a e) f = Result ''WIN''"
          using Cons.prems(2) keep [OF False] by simp
        then have "\<exists>epoch. a = StartSession epoch"
          unfolding execute_futures by (cases a) (simp_all add: Cons.prems(1) split: if_splits)
        then show ?thesis by auto
      qed
    qed
    have "dm_futures (fold (execute w cfg now) acts (d\<lparr>dm_machine := Some m'\<rparr>)) f = Result ''WIN''"
      using assms(2) by (simp only: dispatch_event_def Some out acts option.case prod.case)
    moreover have "dm_futures (d\<lparr>dm_machine := Some m'\<rparr>) f = Waiting" using assms(1) by simp
    ultimately obtain epoch where "StartSession epoch \<in> set acts" using starts by blast
    then show ?thesis using that [OF Some] out acts by blast
  qed
qed

text \<open>Only a closing window starts a session.\<close>

lemma starts_session:
  assumes "handle p uuid ev m = (Some acts, m')" "StartSession epoch \<in> set acts"
  obtains now e where "ev = TimerFired TIMER_ARB_WINDOW now" "pm_state m = CANDIDATE" "pm_epoch m = Some e"
    "rank (map snd (ep_reports e)) = Some (sp_peer_id p)" "acts = [BroadcastClaim (ep_epoch e), StartSession (ep_epoch e)]"
proof -
  have local: "StartSession epoch \<notin> set (fst (on_local_wake p uuid score snr rms serve now m))" for score snr rms serve now
    using two_ways [of p uuid score snr rms serve now m] by (auto simp: begin_candidate_def Let_def)
  have claim: "StartSession epoch \<notin> set (fst (on_peer_claim p e q now m))" for e q now
    by (simp add: on_peer_claim_def suppress_def Let_def split_beta)
  have wake: "StartSession epoch \<notin> set (fst (on_peer_wake p e r now m))" for e r now
    by (simp add: on_peer_wake_def split: peer_state.split option.split)
  have rest: "StartSession epoch \<notin> set (fst (on_peer_heartbeat p e q now m))" "StartSession epoch \<notin> set (fst (on_peer_end e m))"
    "StartSession epoch \<notin> set (fst (send_heartbeat_and_reschedule p now m))" "StartSession epoch \<notin> set (fst (on_heartbeat_timeout p now m))"
    "StartSession epoch \<notin> set (fst (on_voice_started p e now m))" "StartSession epoch \<notin> set (fst (on_voice_ended e s m))" for e q s now
    by (simp_all add: on_peer_heartbeat_def on_peer_end_def send_heartbeat_and_reschedule_def on_heartbeat_timeout_def
        on_voice_started_def on_voice_ended_def split: peer_state.split option.split)
  obtain timer_id now where ev: "ev = TimerFired timer_id now"
    using assms local claim wake rest by (cases ev) (auto simp: answered_def)
  then have arb: "timer_id = TIMER_ARB_WINDOW" "close_arbitration p now m = (Some acts, m')"
    using assms rest by (auto simp: on_timer_def answered_def split: if_splits)
  obtain e where e: "pm_state m = CANDIDATE" "pm_epoch m = Some e"
    using arb(2) assms(2) by (auto simp: close_arbitration_def split: peer_state.splits option.splits)
  show ?thesis
  proof (rule that [OF ev [unfolded arb(1)] e])
    show "rank (map snd (ep_reports e)) = Some (sp_peer_id p)"
      using arb(2) e assms(2) by (auto simp: close_arbitration_def Let_def suppress_def split: if_splits option.splits)
    show "acts = [BroadcastClaim (ep_epoch e), StartSession (ep_epoch e)]"
      using arb(2) e assms(2) by (auto simp: close_arbitration_def Let_def suppress_def split: if_splits option.splits)
  qed
qed

lemma no_start_no_win:
  assumes "dm_futures d f = Waiting" "\<And>t. ev \<noteq> TimerFired TIMER_ARB_WINDOW t"
  shows "dm_futures (dispatch_event w cfg uuid now ev d) f \<noteq> Result ''WIN''"
  using dispatch_futures [OF assms(1)] starts_session assms(2) by metis



section \<open>Speakers that stay deaf\<close>

text \<open>
  A winner whose session was not opened, or a candidate whose window timer is gone: both answer every wake word
  with LOSE and nothing of their own moves them on.
\<close>

definition deaf :: "peering_daemon \<Rightarrow> string \<Rightarrow> bool" where
  "deaf d e \<longleftrightarrow> dm_running d \<and> (\<exists>m. dm_machine d = Some m \<and> in_epoch m e \<and> pm_state m = WINNER)"

text \<open>Everything but the start of that very session, a neighbour's claim, and a stop.\<close>

fun leaves_deaf :: "string \<Rightarrow> loop_input \<Rightarrow> bool" where
  "leaves_deaf e (SessionStarted e') = (e' \<noteq> e)"
| "leaves_deaf e (Arrived g) = (case decode g of Some (IncomingClaim _ _ _) \<Rightarrow> False | _ \<Rightarrow> True)"
| "leaves_deaf e StopBegin = False"
| "leaves_deaf e i = True"

lemma winner_handles:
  assumes "pm_state m = WINNER" "in_epoch m e"
  shows "on_local_wake p uuid score snr rms serve now m = ([StandDown], m)"
    "on_peer_wake p e' r now m = ([], m)" "on_peer_heartbeat p e' q now m = ([], m)" "on_peer_end e' m = ([], m)"
    "e' \<noteq> e \<Longrightarrow> on_voice_started p e' now m = ([], m)" "on_voice_ended e' s m = ([], m)"
    "on_timer p timer_id now m = (Some [], m)"
  using assms by (auto simp: on_local_wake_def on_peer_wake_def on_peer_heartbeat_def on_peer_end_def
      on_voice_started_def on_voice_ended_def on_timer_def close_arbitration_def send_heartbeat_and_reschedule_def
      on_heartbeat_timeout_def answered_def in_epoch_def split: option.splits)

lemma arbitrate_running: "dm_running (arbitrate_begin w cfg now uuid score snr rms serve d) = dm_running d"
  by (simp add: arbitrate_begin_def Let_def log_reply_def set_future_def)

lemma deaf_step:
  assumes "deaf d e" "leaves_deaf e i"
  shows "deaf (loop_step w cfg now i d) e"
proof -
  obtain m where m: "dm_running d" "dm_machine d = Some m" "in_epoch m e" "pm_state m = WINNER"
    using assms(1) by (auto simp: deaf_def)
  have quiet: "dispatch_event w cfg [] now ev d = d" if "handle (params_of cfg) [] ev m = answered ([], m)" for ev
    by (rule quiet_dispatch [OF m(2) that])
  have "dm_running (loop_step w cfg now i d) \<and> dm_machine (loop_step w cfg now i d) = Some m"
  proof (cases i)
    case (Arbitrate uuid score snr rms serve)
    then show ?thesis using stood_down [OF m(1,2) winner_handles(1) [OF m(4,3)]] m(1) by (simp add: arbitrate_running)
  next
    case (Arrived g)
    have "on_multicast_message w cfg now msg d = d" if "\<forall>e q t. msg \<noteq> IncomingClaim e q t" for msg
      using that quiet winner_handles(2-4) [OF m(4,3)]
      by (cases msg) (simp_all add: on_multicast_message_def)
    then show ?thesis
      using Arrived assms(2) m(1,2) by (cases "decode g") (auto simp: on_datagram_def split: incoming.splits)
  next
    case (TimerDue timer_id)
    then show ?thesis
      using m(1) by (simp add: timer_fires [OF m(2) winner_handles(7) [OF m(4,3)]]) (simp add: cancel_timer_def)
  next
    case (SessionStarted e')
    then show ?thesis
      using quiet winner_handles(5) [OF m(4,3)] assms(2) m(1,2) by (simp add: session_started_def)
  next
    case (SessionEnded e' reason)
    then show ?thesis
      using quiet winner_handles(6) [OF m(4,3)] m(1,2) by (simp add: session_ended_def)
  qed (use m(1,2) assms(2) in \<open>simp_all add: arbitrate_resume_def arbitrate_timeout_def arbitrate_reply_def log_reply_def
      set_future_def stop_finish_def split: future_state.split\<close>)
  then show ?thesis using m(3,4) by (auto simp: deaf_def)
qed

definition run_inputs ::
  "loop_world \<Rightarrow> peering_config \<Rightarrow> (rat \<times> loop_input) list \<Rightarrow> peering_daemon \<Rightarrow> peering_daemon" where
  "run_inputs w cfg is d = fold (\<lambda>(now, i). loop_step w cfg now i) is d"

lemma deaf_run: "deaf d e \<Longrightarrow> \<forall>(now, i)\<in>set is. leaves_deaf e i \<Longrightarrow> deaf (run_inputs w cfg is d) e"
  unfolding run_inputs_def by (induction "is" arbitrary: d) (auto simp: deaf_step)

text \<open>
  C16. A win that is never opened deafens the speaker. Once the window was won, no timer is left: until the voice daemon
  reports the start of that very epoch (it does not when the connection is paused, the spend cap is reached
  or the turn fails to open) or a neighbour claims something, every later wake word is answered LOSE, whatever its
  score, through any number of timers, messages, and even reports that the session has ended.
\<close>

theorem unopened_win_is_deaf:
  assumes "dm_running d" "dm_machine d = Some m" "pm_state m = WINNER" "in_epoch m e"
    and "\<forall>(t, i)\<in>set later. leaves_deaf e i"
  shows "let d' = run_inputs w cfg later d; d'' = loop_step w cfg now (Arbitrate uuid score snr rms serve) d'
    in dm_futures d'' (dm_next_future d') = Result ''LOSE'' \<and> map_option pm_state (dm_machine d'') = Some WINNER"
proof -
  have "deaf (run_inputs w cfg later d) e"
    using assms by (intro deaf_run) (auto simp: deaf_def)
  then obtain m' where m': "dm_running (run_inputs w cfg later d)" "dm_machine (run_inputs w cfg later d) = Some m'"
    "in_epoch m' e" "pm_state m' = WINNER" by (auto simp: deaf_def)
  show ?thesis
    using stood_down [OF m'(1,2) winner_handles(1) [OF m'(4,3)]] m'(4) by (simp add: Let_def)
qed

lemma unopened_win_is_deaf_witness:
  "let d' = run_inputs demo_world demo_config [(1, SessionEnded ''m'' ''acquire_error'')] demo_winner;
       d'' = loop_step demo_world demo_config 100 (Arbitrate ''n'' (PFin False 1) None None True) d'
   in dm_futures d'' (dm_next_future d') = Result ''LOSE'' \<and> map_option pm_state (dm_machine d'') = Some WINNER"
  by (rule unopened_win_is_deaf [OF demo_winner_fields(1,2), of "''m''"])
    (simp_all add: demo_winner_machine_def in_epoch_def)

section \<open>An epoch race\<close>

lemma candidate_adopts:
  assumes "pm_state m = CANDIDATE" "pm_epoch m = Some e" "a < ep_epoch e"
  shows "on_peer_wake p a r now m = ([], m\<lparr>pm_epoch := Some \<lparr>ep_epoch = a,
     ep_reports = carry_reports (ep_reports e) [(wr_peer_id r, r)], ep_started_at = now\<rparr>\<rparr>)"
  using assms by (auto simp: on_peer_wake_def)

lemma carry_keeps_new: "carry_reports old [x] \<noteq> []"
  by (rule carry_reports_nonempty) simp

lemma arrived_wake:
  assumes "decode g = Some (IncomingWake a r ts)" "wr_peer_id r \<noteq> pc_peer_id cfg" "dm_machine d = Some m"
    "on_peer_wake (params_of cfg) a r now m = (acts, m')"
  shows "loop_step w cfg now (Arrived g) d = fold (execute w cfg now) acts (d\<lparr>dm_machine := Some m'\<rparr>)"
  using assms by (simp add: on_datagram_def on_multicast_message_def sender_peer_id_def dispatch_event_def answered_def)

text \<open>
  C15. A speaker that wins an epoch race loses its session. When two speakers hear the same wake word each
  makes up an epoch; the one with the greater epoch adopts the smaller. If the ranking then names it, it claims the
  adopted epoch, but tells its voice daemon WIN with the epoch it gave up: the start of the session is not recognised,
  no heartbeat is ever sent, and the speaker is deaf to every later wake word.
\<close>

theorem epoch_race_loses_session:
  assumes "dm_running d" "dm_machine d = Some m" "pm_state m = CANDIDATE" "pm_epoch m = Some e"
    and "dm_pending_decision d = Some f" "dm_futures d f = Waiting" "dm_pending_epoch d = Some (ep_epoch e)"
    and "decode g = Some (IncomingWake a r ts)" "wr_peer_id r \<noteq> pc_peer_id cfg" "a < ep_epoch e"
    and "rank (map snd (carry_reports (ep_reports e) [(wr_peer_id r, r)])) = Some (pc_peer_id cfg)"
  shows "let raced = loop_step w cfg t1 (Arrived g) d; won = loop_step w cfg t2 (TimerDue TIMER_ARB_WINDOW) raced;
      told = loop_step w cfg t3 (Resume f) won; started = loop_step w cfg t4 (SessionStarted (ep_epoch e)) told
    in dm_sent started = dm_sent d @ [encode_claim a (pc_peer_id cfg) (lw_ts w t2)] \<and>
      dm_replies started = dm_replies d @ [(f, ''WIN'', ep_epoch e)] \<and> deaf started a"
proof -
  define m1 where "m1 = m\<lparr>pm_epoch := Some \<lparr>ep_epoch = a,
    ep_reports = carry_reports (ep_reports e) [(wr_peer_id r, r)], ep_started_at = t1\<rparr>\<rparr>"
  define raced where "raced = loop_step w cfg t1 (Arrived g) d"
  define won where "won = loop_step w cfg t2 (TimerDue TIMER_ARB_WINDOW) raced"
  define told where "told = loop_step w cfg t3 (Resume f) won"
  define started where "started = loop_step w cfg t4 (SessionStarted (ep_epoch e)) told"
  have raced: "raced = d\<lparr>dm_machine := Some m1\<rparr>"
    unfolding raced_def using arrived_wake [OF assms(8,9,2) candidate_adopts [OF assms(3,4,10)]] by (simp add: m1_def)
  have "on_timer (params_of cfg) TIMER_ARB_WINDOW t2 m1 = (Some [BroadcastClaim a, StartSession a], m1\<lparr>pm_state := WINNER\<rparr>)"
    using assms(3,11) carry_keeps_new by (simp add: on_timer_def close_arbitration_def m1_def Let_def params_of_def)
  moreover have "dm_machine raced = Some m1" by (simp add: raced)
  ultimately have fired: "won = fold (execute w cfg t2) [BroadcastClaim a, StartSession a]
      ((cancel_timer TIMER_ARB_WINDOW raced)\<lparr>dm_machine := Some (m1\<lparr>pm_state := WINNER\<rparr>)\<rparr>)"
    using timer_fires unfolding won_def loop_step.simps by blast
  have won: "dm_running won" "dm_machine won = Some (m1\<lparr>pm_state := WINNER\<rparr>)" "dm_futures won f = Result ''WIN''"
    "dm_sent won = dm_sent d @ [encode_claim a (pc_peer_id cfg) (lw_ts w t2)]" "dm_replies won = dm_replies d"
    "dm_pending_epoch won = Some (ep_epoch e)"
    using assms(1,5,6,7) by (simp_all add: fired raced cancel_timer_def spawn_send_def resolve_pending_def set_future_def)
  have told: "dm_running told" "dm_machine told = Some (m1\<lparr>pm_state := WINNER\<rparr>)"
    "dm_sent told = dm_sent won" "dm_replies told = dm_replies d @ [(f, ''WIN'', ep_epoch e)]"
    using won by (simp_all add: told_def arbitrate_resume_def arbitrate_reply_def log_reply_def)
  have in_a: "in_epoch (m1\<lparr>pm_state := WINNER\<rparr>) a" by (simp add: in_epoch_def m1_def)
  have "ep_epoch e \<noteq> a" using assms(10) by auto
  then have "dispatch_event w cfg [] t4 (VoiceSessionStarted (ep_epoch e) t4) told = told"
    using winner_handles(5) [OF _ in_a] by (intro quiet_dispatch [OF told(2)]) simp
  then have "started = told" by (simp add: started_def session_started_def)
  moreover have "deaf told a" using told(1,2) in_a by (simp add: deaf_def)
  ultimately show ?thesis
    unfolding Let_def raced_def [symmetric] won_def [symmetric] told_def [symmetric] started_def [symmetric]
    using told won(4) by simp
qed

definition demo_foreign :: wake_report where "demo_foreign = make_report ''q'' (PFin False (1 / 2)) None None False True"

definition demo_datagram :: datagram where
  "demo_datagram = Object (map_of (encode_wake (\<lambda>_. []) ''a'' demo_foreign 0))"

lemma demo_datagram_wake: "decode demo_datagram = Some (IncomingWake ''a'' demo_foreign 0)"
proof -
  have "rounded demo_foreign = demo_foreign" by (simp add: rounded_def demo_foreign_def make_report_def) code_simp
  then show ?thesis
    using decode_encode_wake [of demo_foreign "\<lambda>_. []" "''a''" 0] made_report_in_range
    by (simp add: demo_datagram_def) (simp add: demo_foreign_def)
qed

lemma epoch_race_loses_session_witness:
  "deaf (loop_step demo_world demo_config 2 (SessionStarted ''m'') (loop_step demo_world demo_config 1 (Resume 0)
     (loop_step demo_world demo_config (3 / 20) (TimerDue TIMER_ARB_WINDOW)
       (loop_step demo_world demo_config (1 / 20) (Arrived demo_datagram) demo_candidate)))) ''a''"
proof -
  have less: "''a'' < ''m''" by code_simp
  have ranked: "rank [demo_foreign, demo_own] = Some ''p''" by code_simp
  have carried: "carry_reports [(''p'', demo_own)] [(''q'', demo_foreign)] = [(''q'', demo_foreign), (''p'', demo_own)]"
    by (simp add: carry_reports_def demo_own_def make_report_def)
  have ids: "wr_peer_id demo_foreign = ''q''" by (simp add: demo_foreign_def make_report_def)
  show ?thesis
    using epoch_race_loses_session [where d = demo_candidate and w = demo_world and cfg = demo_config and f = 0 and
        e = "\<lparr>ep_epoch = ''m'', ep_reports = [(''p'', demo_own)], ep_started_at = 0\<rparr>" and g = demo_datagram and
        a = "''a''" and r = demo_foreign and ts = 0 and ?t1.0 = "1 / 20" and ?t2.0 = "3 / 20" and ?t3.0 = 1 and ?t4.0 = 2,
        OF demo_candidate_fields(1,2)]
    by (simp add: demo_candidate_fields(4-6) demo_datagram_wake less ids carried ranked demo_parts Let_def del: loop_step.simps)
qed

section \<open>A NaN on the wire\<close>

text \<open>A candidate whose window timer is gone.\<close>

definition stuck :: "peering_daemon \<Rightarrow> bool" where
  "stuck d \<longleftrightarrow> dm_running d \<and> dm_timers d TIMER_ARB_WINDOW = None \<and>
     (\<exists>m. dm_machine d = Some m \<and> pm_state m = CANDIDATE \<and> pm_epoch m \<noteq> None)"

text \<open>Everything but a neighbour's claim, a stop, and the timer that is not armed.\<close>

fun leaves_stuck :: "loop_input \<Rightarrow> bool" where
  "leaves_stuck (Arrived g) = (case decode g of Some (IncomingClaim _ _ _) \<Rightarrow> False | _ \<Rightarrow> True)"
| "leaves_stuck StopBegin = False"
| "leaves_stuck (TimerDue timer_id) = (timer_id \<noteq> TIMER_ARB_WINDOW)"
| "leaves_stuck i = True"

lemma candidate_handles:
  assumes "pm_state m = CANDIDATE"
  shows "on_local_wake p uuid score snr rms serve now m = ([StandDown], m)"
    "on_peer_heartbeat p e' q now m = ([], m)" "on_peer_end e' m = ([], m)"
    "on_voice_started p e' now m = ([], m)" "on_voice_ended e' s m = ([], m)"
    "timer_id \<noteq> TIMER_ARB_WINDOW \<Longrightarrow> on_timer p timer_id now m = (Some [], m)"
  using assms by (auto simp: on_local_wake_def on_peer_heartbeat_def on_peer_end_def on_voice_started_def
      on_voice_ended_def on_timer_def send_heartbeat_and_reschedule_def on_heartbeat_timeout_def answered_def)

lemma candidate_wake:
  assumes "pm_state m = CANDIDATE" "pm_epoch m \<noteq> None"
  obtains m' where "on_peer_wake p a r now m = ([], m')" "pm_state m' = CANDIDATE" "pm_epoch m' \<noteq> None"
proof -
  obtain e where e: "pm_epoch m = Some e" using assms(2) by auto
  have "fst (on_peer_wake p a r now m) = [] \<and> pm_state (snd (on_peer_wake p a r now m)) = CANDIDATE \<and>
      pm_epoch (snd (on_peer_wake p a r now m)) \<noteq> None"
    using assms(1) e by (simp add: on_peer_wake_def)
  then show ?thesis using that by (metis prod.collapse)
qed

lemma stuck_step:
  assumes "stuck d" "leaves_stuck i"
  shows "stuck (loop_step w cfg now i d)"
proof -
  obtain m where m: "dm_running d" "dm_timers d TIMER_ARB_WINDOW = None" "dm_machine d = Some m"
    "pm_state m = CANDIDATE" "pm_epoch m \<noteq> None" using assms(1) by (auto simp: stuck_def)
  have quiet: "dispatch_event w cfg [] now ev d = d" if "handle (params_of cfg) [] ev m = answered ([], m)" for ev
    by (rule quiet_dispatch [OF m(3) that])
  show ?thesis
  proof (cases i)
    case (Arbitrate uuid score snr rms serve)
    then show ?thesis
      using stood_down [OF m(1,3) candidate_handles(1) [OF m(4)]] m by (simp add: stuck_def arbitrate_running)
  next
    case (Arrived g)
    have wake: "stuck (dispatch_event w cfg [] now (PeerWake a r now) d)" for a r
    proof (rule candidate_wake [OF m(4,5), of "params_of cfg" a r now])
      fix m' assume "on_peer_wake (params_of cfg) a r now m = ([], m')" "pm_state m' = CANDIDATE" "pm_epoch m' \<noteq> None"
      then show ?thesis using m by (simp add: dispatch_event_def answered_def stuck_def)
    qed
    have "stuck (on_multicast_message w cfg now msg d)" if "\<forall>e q t. msg \<noteq> IncomingClaim e q t" for msg
      using that wake quiet candidate_handles(2,3) [OF m(4)] assms(1)
      by (cases msg) (simp_all add: on_multicast_message_def)
    then show ?thesis
      using Arrived assms by (cases "decode g") (auto simp: on_datagram_def split: incoming.splits)
  next
    case (TimerDue timer_id)
    then have "on_timer (params_of cfg) timer_id now m = (Some [], m)"
      using assms(2) candidate_handles(6) [OF m(4)] by simp
    then show ?thesis
      using TimerDue m assms(2) by (simp add: timer_fires [OF m(3)]) (simp add: stuck_def cancel_timer_def)
  next
    case (SessionStarted e')
    then show ?thesis using quiet candidate_handles(4) [OF m(4)] assms(1) by (simp add: session_started_def)
  next
    case (SessionEnded e' reason)
    then show ?thesis using quiet candidate_handles(5) [OF m(4)] assms(1) by (simp add: session_ended_def)
  qed (use assms m in \<open>auto simp: stuck_def arbitrate_resume_def arbitrate_timeout_def arbitrate_reply_def log_reply_def
      set_future_def stop_finish_def split: future_state.split\<close>)
qed

lemma stuck_run: "stuck d \<Longrightarrow> \<forall>(now, i)\<in>set is. leaves_stuck i \<Longrightarrow> stuck (run_inputs w cfg is d)"
  unfolding run_inputs_def by (induction "is" arbitrary: d) (auto simp: stuck_step)

text \<open>
  C17. One report with a NaN wedges a speaker for good. A neighbour answers the speaker's own wake with a report of a smaller
  epoch whose SNR is NaN (valid for \<open>json.loads\<close>, and accepted by \<open>as_float\<close>): when the window timer fires
  \<open>rank\<close> raises, the machine stays a candidate without a timer, the waiting call is not decided by it, and
  from then on every wake word is answered LOSE until some neighbour claims a session, whatever else happens.
\<close>

theorem nan_report_wedges_speaker:
  assumes "dm_running d" "dm_machine d = Some m" "pm_state m = CANDIDATE" "pm_epoch m = Some e"
    and "ep_reports e = [(pc_peer_id cfg, own)]" "wr_peer_id own = pc_peer_id cfg"
    and "decode g = Some (IncomingWake a n ts)" "wr_peer_id n \<noteq> pc_peer_id cfg" "a < ep_epoch e"
    and "wr_snr_db n = Some PNan" "snr_or_neg_inf own \<noteq> PNan" "wr_can_serve n = wr_can_serve own"
    and "\<not> wr_primary n" "\<not> wr_primary own" "\<bar>wr_score n - wr_score own\<bar> \<le> CONFIDENCE_TIE_EPS"
    and "\<forall>(t, i)\<in>set later. leaves_stuck i"
  shows "let fired = loop_step w cfg t2 (TimerDue TIMER_ARB_WINDOW) (loop_step w cfg t1 (Arrived g) d);
      d' = run_inputs w cfg later fired
    in dm_futures fired = dm_futures d \<and> stuck d' \<and>
      dm_futures (loop_step w cfg now (Arbitrate uuid score snr rms serve) d') (dm_next_future d') = Result ''LOSE''"
proof -
  define m1 where "m1 = m\<lparr>pm_epoch := Some \<lparr>ep_epoch = a,
    ep_reports = carry_reports (ep_reports e) [(wr_peer_id n, n)], ep_started_at = t1\<rparr>\<rparr>"
  define fired where "fired = loop_step w cfg t2 (TimerDue TIMER_ARB_WINDOW) (loop_step w cfg t1 (Arrived g) d)"
  have raced: "loop_step w cfg t1 (Arrived g) d = d\<lparr>dm_machine := Some m1\<rparr>"
    using arrived_wake [OF assms(7,8,2) candidate_adopts [OF assms(3,4,9)]] by (simp add: m1_def)
  have reports: "carry_reports (ep_reports e) [(wr_peer_id n, n)] = [(wr_peer_id n, n), (pc_peer_id cfg, own)]"
    using assms(6,8) by (simp add: assms(5) carry_reports_def)
  have "rank [n, own] = None"
    by (rule nan_ranks_nobody [OF assms(10-15)])
  then have "close_arbitration (params_of cfg) t2 m1 = (None, m1)"
    using assms(3) by (simp add: close_arbitration_def m1_def reports Let_def)
  then have fired: "fired = cancel_timer TIMER_ARB_WINDOW (d\<lparr>dm_machine := Some m1\<rparr>)"
    unfolding fired_def raced by (simp add: on_timer_fired_def dispatch_event_def cancel_timer_def on_timer_def)
  have "stuck fired" using assms(1,3) by (simp add: stuck_def fired cancel_timer_def m1_def)
  then have run: "stuck (run_inputs w cfg later fired)" using assms(16) by (rule stuck_run)
  then obtain m2 where m2: "dm_running (run_inputs w cfg later fired)" "dm_machine (run_inputs w cfg later fired) = Some m2"
    "pm_state m2 = CANDIDATE" by (auto simp: stuck_def)
  have "dm_futures fired = dm_futures d" by (simp add: fired cancel_timer_def)
  then show ?thesis
    unfolding Let_def fired_def [symmetric]
    using run stood_down [OF m2(1,2) candidate_handles(1) [OF m2(3)]] by simp
qed

definition demo_nan :: wake_report where "demo_nan = make_report ''q'' (PFin False (9 / 10)) (Some PNan) None False True"

definition demo_nan_datagram :: datagram where
  "demo_nan_datagram = Object (map_of (encode_wake (\<lambda>_. []) ''a'' demo_nan 0))"

lemma demo_nan_wake: "decode demo_nan_datagram = Some (IncomingWake ''a'' demo_nan 0)"
proof -
  have "rounded demo_nan = demo_nan" by (simp add: rounded_def demo_nan_def make_report_def) code_simp
  then show ?thesis
    using decode_encode_wake [of demo_nan "\<lambda>_. []" "''a''" 0] made_report_in_range
    by (simp add: demo_nan_datagram_def) (simp add: demo_nan_def)
qed

lemma nan_report_wedges_speaker_witness:
  "let fired = loop_step demo_world demo_config (3 / 20) (TimerDue TIMER_ARB_WINDOW)
         (loop_step demo_world demo_config (1 / 20) (Arrived demo_nan_datagram) demo_candidate);
       d' = run_inputs demo_world demo_config [(1, RpcTimeout 0)] fired
   in dm_futures (loop_step demo_world demo_config 100 (Arbitrate ''n'' (PFin False 1) None None True) d') (dm_next_future d') =
     Result ''LOSE''"
proof -
  have less: "''a'' < ''m''" by code_simp
  show ?thesis
    using nan_report_wedges_speaker [where d = demo_candidate and w = demo_world and cfg = demo_config and own = demo_own and
        e = "\<lparr>ep_epoch = ''m'', ep_reports = [(''p'', demo_own)], ep_started_at = 0\<rparr>" and g = demo_nan_datagram and
        a = "''a''" and n = demo_nan and ts = 0 and ?t1.0 = "1 / 20" and ?t2.0 = "3 / 20" and later = "[(1, RpcTimeout 0)]" and
        now = 100 and uuid = "''n''" and score = "PFin False 1" and snr = None and rms = None and serve = True,
        OF demo_candidate_fields(1,2)]
    by (simp add: demo_nan_wake less demo_parts demo_own_def demo_nan_def make_report_def snr_or_neg_inf_def
        CONFIDENCE_TIE_EPS_def Let_def del: loop_step.simps)
qed

section \<open>A wake heard second\<close>

text \<open>
  C23. The first report wins. A speaker that hears of a neighbour's wake before its own detector fires adopts the neighbour's
  epoch; its own wake within the window is answered LOSE, is neither added to the reports nor sent, and the
  window concedes to the neighbour, however much better this speaker heard it and even if it is the household
  primary.
\<close>

theorem first_report_wins:
  assumes "dm_running d" "dm_machine d = Some m" "pm_state m = IDLE"
    and "decode g = Some (IncomingWake a r ts)" "wr_peer_id r \<noteq> pc_peer_id cfg"
  shows "let heard = loop_step w cfg t1 (Arrived g) d;
      woken = loop_step w cfg t2 (Arbitrate uuid score snr rms serve) heard;
      closed = loop_step w cfg t3 (TimerDue TIMER_ARB_WINDOW) woken
    in dm_futures woken (dm_next_future d) = Result ''LOSE'' \<and> dm_sent closed = dm_sent d \<and>
      (\<exists>m'. dm_machine closed = Some m' \<and> pm_state m' = SUPPRESSED \<and> pm_foreign_peer m' = Some (wr_peer_id r))"
proof -
  define m1 where "m1 = m\<lparr>pm_state := CANDIDATE,
    pm_epoch := Some \<lparr>ep_epoch = a, ep_reports = [(wr_peer_id r, r)], ep_started_at = t1\<rparr>\<rparr>"
  define heard where "heard = loop_step w cfg t1 (Arrived g) d"
  define woken where "woken = loop_step w cfg t2 (Arbitrate uuid score snr rms serve) heard"
  define closed where "closed = loop_step w cfg t3 (TimerDue TIMER_ARB_WINDOW) woken"
  have adopt: "on_peer_wake (params_of cfg) a r t1 m =
      ([ScheduleTimer TIMER_ARB_WINDOW (t1 + sp_arb_window_sec (params_of cfg))], m1)"
    using assms(3) by (simp add: on_peer_wake_def m1_def)
  have heard: "dm_running heard" "dm_machine heard = Some m1" "dm_next_future heard = dm_next_future d" "dm_sent heard = dm_sent d"
    unfolding heard_def arrived_wake [OF assms(4,5,2) adopt] using assms(1)
    by (simp_all add: schedule_timer_def cancel_timer_def Let_def)
  have "pm_state m1 = CANDIDATE" by (simp add: m1_def)
  note down = stood_down [OF heard(1,2) candidate_handles(1) [OF this]]
  then have woken: "dm_machine woken = Some m1" "dm_futures woken (dm_next_future d) = Result ''LOSE''" "dm_sent woken = dm_sent d"
    using heard(3,4) by (simp_all add: woken_def)
  obtain m' where m': "close_arbitration (params_of cfg) t3 m1 =
      (Some [StandDown, ScheduleTimer TIMER_HEARTBEAT_TIMEOUT (t3 + sp_heartbeat_timeout_sec (params_of cfg))], m')"
    "pm_state m' = SUPPRESSED" "pm_foreign_peer m' = Some (wr_peer_id r)"
    using assms(5) by (simp add: close_arbitration_def m1_def rank_single Let_def suppress_def params_of_def)
  have out: "on_timer (params_of cfg) TIMER_ARB_WINDOW t3 m1 =
      (Some [StandDown, ScheduleTimer TIMER_HEARTBEAT_TIMEOUT (t3 + sp_heartbeat_timeout_sec (params_of cfg))], m')"
    using m'(1) by (simp add: on_timer_def)
  have closed: "closed = fold (execute w cfg t3)
      [StandDown, ScheduleTimer TIMER_HEARTBEAT_TIMEOUT (t3 + sp_heartbeat_timeout_sec (params_of cfg))]
      ((cancel_timer TIMER_ARB_WINDOW woken)\<lparr>dm_machine := Some m'\<rparr>)"
    unfolding closed_def loop_step.simps by (rule timer_fires [OF woken(1) out])
  have "dm_machine closed = Some m'" by (simp only: closed fold_execute_frame) simp
  moreover have "dm_sent closed = dm_sent woken"
    by (simp add: closed cancel_timer_def schedule_timer_def resolve_pending_def set_future_def Let_def split: option.split)
  ultimately show ?thesis
    unfolding Let_def heard_def [symmetric] woken_def [symmetric] closed_def [symmetric]
    using woken m'(2,3) by simp
qed

lemma demo_started_idle: "pm_state fresh_machine = IDLE"
  by (simp add: fresh_machine_def)

lemma first_report_wins_witness:
  "let heard = loop_step demo_world demo_config 0 (Arrived demo_datagram) demo_started;
       woken = loop_step demo_world demo_config (1 / 10) (Arbitrate ''m'' (PFin False 1) None None True) heard
   in dm_futures woken 0 = Result ''LOSE''"
  using first_report_wins [OF demo_started_fields(1,2) demo_started_idle demo_datagram_wake, where cfg = demo_config and w = demo_world
      and uuid = "''m''" and score = "PFin False 1" and snr = None and rms = None and serve = True and ?t1.0 = 0 and ?t2.0 = "1 / 10"]
  by (simp add: Let_def demo_parts demo_foreign_def make_report_def demo_started_fields(4) del: loop_step.simps)

end
