(* ===== verification/Spec2Isabelle.thy ===== *)
theory Spec2Isabelle
  imports Mux_Safety Volume_Observer Librespot_Hook Grouping_Safety Peering_Safety
begin

text \<open>
  JTS is the software of a smart speaker: several daemons that share one loudspeaker. This development
  models the Python that decides what is heard, how loud, and on which speakers, under \<open>jasper/\<close>: the
  household volume and its carriers, the arbiter of the music sources, the env files through which the daemons
  are configured, the reconciler that makes a speaker leader, follower or member of a bond, and the arbitration
  that lets one of several speakers answer a wake word.

  \<^bold>\<open>The parts and how they interact.\<close>

  \<^item> A user or a renderer changes the level: the volume coordinator stores the intent in the volume file and
    carries it out through the renderer that plays (Spotify, AirPlay, Bluetooth, USB) or through CamillaDSP's
    main fader. The observer reads the levels users set inside a renderer, the reconciler repairs a drifted
    fader once a second, and the owner arbitrates the claims of the assistant, measurements and graph changes
    on that one fader.
  \<^item> A renderer starts: mux sees it in its probes, decides which source is audible, and has the coordinator
    prepare the volume of the new lane before it tells fan-in to open it.
  \<^item> A household bonds speakers: the request is a file of env assignments; the reconciler derives the role, the
    snapcast units, the env files of the other daemons and the graphs of the two CamillaDSP processes from it.
  \<^item> Several speakers hear a wake word: the peering daemon of each exchanges reports with the others by multicast, ranks
    them when a window closes, and tells its voice daemon WIN or LOSE; the winner's session suppresses the others.

  \<^bold>\<open>Theories, in the order of the imports.\<close>

  \<^item> \<open>Prelude\<close>: the state monad with the judgements \<open>keeps\<close>, \<open>pres\<close> and \<open>wp\<close>, clamping, Python's \<open>round\<close>.
    \<open>Runtime\<close>: the world behind doors, other tasks at every await, the trace.
  \<^item> Volume. \<open>Sources\<close> (\<open>music_sources.py\<close>), \<open>Volume_Curve\<close> (\<open>volume_floor.py\<close>, \<open>volume_curve.py\<close>,
    \<open>volume_scales.py\<close>), \<open>Volume_File\<close> and \<open>Volume_Persistence\<close> (\<open>volume_persistence.py\<close>,
    \<open>volume_state.py\<close>), \<open>Volume_Latch\<close> (\<open>volume_latch.py\<close>), \<open>Camilla\<close> (\<open>camilla.py\<close>), \<open>Volume_Owner\<close>
    (\<open>volume_owner.py\<close>), \<open>Volume_Core\<close> (\<open>volume_carrier.py\<close>, \<open>volume_echo.py\<close>,
    \<open>volume_measurement_gate.py\<close>, \<open>volume_push_sources.py\<close>, \<open>renderer.py\<close>, \<open>measurement_hold.py\<close>),
    \<open>Volume_Publication\<close> (\<open>assistant_volume.py\<close>, \<open>assistant_loudness.py\<close>), \<open>Volume_Handoff\<close>
    (\<open>volume_handoff.py\<close>), \<open>Volume_Reconcile\<close> (\<open>volume_reconcile.py\<close>), \<open>Volume_Coordinator\<close> with
    \<open>Volume_Intent\<close>, \<open>Volume_Guards\<close> and \<open>Volume_Progress\<close> (\<open>volume_coordinator.py\<close> and what its verbs
    store, refuse and finish), \<open>Volume_Observer\<close> (\<open>volume_observers.py\<close>).
  \<^item> Sources. \<open>Mux_Mode\<close> (\<open>mux_mode_persistence.py\<close>), \<open>Mux_State\<close>, \<open>Mux_Select\<close>, \<open>Mux_Lease\<close>, \<open>Mux_Observe\<close>,
    \<open>Mux_Control\<close> (\<open>mux.py\<close>, \<open>airplay_session.py\<close>, \<open>wire.py\<close>, \<open>fanin/status.py\<close>), with the results in
    \<open>Mux_Volume\<close>, \<open>Mux_Transition\<close>, \<open>Mux_Lock\<close> and \<open>Mux_Safety\<close>. \<open>Source_Probes\<close>
    (\<open>source_state.py\<close>, \<open>librespot_state.py\<close>, \<open>busctl.py\<close>, \<open>bluealsa_probe.py\<close>) and \<open>Librespot_Hook\<close> (the
    shell hook that writes what the probes read).
  \<^item> Text and env files. \<open>Py_Text\<close>, \<open>Py_Float\<close> (Python's \<open>str\<close> methods, \<open>float\<close> and number formats), \<open>Env_File\<close>
    (\<open>env_file.py\<close>), \<open>Env_Rewrite\<close> (\<open>atomic_io.py\<close>), \<open>Env_Load\<close> (\<open>env_load.py\<close>).
  \<^item> Bonds. \<open>Grouping_Config\<close> (\<open>multiroom/config.py\<close>), \<open>Grouping_Routes\<close> (\<open>reconcile_plan.py\<close>,
    \<open>tts_route.py\<close>, \<open>grouping_env.py\<close>), \<open>Grouping_Role\<close> (\<open>effective_role.py\<close> and the role decision),
    \<open>Grouping_World\<close> (the helpers of \<open>reconcile.py\<close>), \<open>Grouping_Reconcile\<close> (its \<open>main\<close>, one definition per phase),
    \<open>Pass_Logic\<close> (a calculus for the log of a pass), \<open>Grouping_Segments\<close> and \<open>Grouping_Safety\<close> (the results).

  \<^item> Wake arbitration. \<open>Peering_Rank\<close> (\<open>peering/rank.py\<close>), \<open>Peering_State\<close> (\<open>state.py\<close>), \<open>Peering_Wire\<close>
    (\<open>transport.py\<close>), \<open>Peering_Config\<close> (\<open>config.py\<close>), \<open>Peering_Daemon\<close> (\<open>daemon.py\<close>), with the results in
    \<open>Peering_Invariant\<close> and \<open>Peering_Safety\<close>.

  \<^bold>\<open>State and operations.\<close> The fields of an object are a record (\<open>coord\<close>, \<open>owner_state\<close>, \<open>mux_mem\<close> and
  so on); a method that touches them is a state-monad program whose steps are the source's statements in their
  order, with the source's names. Return values that carry an error are sums or options, and so is every
  exception the code lets through. The world outside the Python of this repository (CamillaDSP's websocket,
  DBus, HTTP, systemd, sockets, the clock, the file system) is a record of functions, the doors, over a world
  of any type; a theorem that names no law of a door holds for every one. Files are \<open>text_file\<close>: absent,
  unreadable, bytes that are not UTF-8, or a text.

  \<^bold>\<open>Concurrency.\<close> The daemons are asyncio programs. In the volume stack every await lets other tasks and other
  daemons rewrite the shared state (\<open>d_env\<close> in \<open>Runtime\<close>); in mux also the other tasks of mux
  (\<open>d_rival\<close>), restricted only by \<open>rivals_respect_lock\<close> where a theorem says so. The locale \<open>stable_part\<close>
  says what survives, and is interpreted on the selection, the test lease and the pin. A reconcile pass is one
  process that nobody shares; everything it is told is a door. The peering daemon is one event loop: \<open>loop_step\<close>
  is one callback at one reading of the clock, and \<open>reaches\<close> its runs, in any order of inputs, where a timer or a
  deadline runs no earlier than it is due.

  \<^bold>\<open>What the lemmas show.\<close> Curve, latch, file and scales: bounds, monotonicity and round trips. Owner: it
  implements a table with one level per kind of claim. Coordinator: its invariant under every verb, what each verb
  stores, what it refuses, that it finishes. Handoff and mux: a lane opens only behind a carrier that is
  ready, a selection moves with its lane, a measurement's lease and a manual pin are respected. Env files:
  parse and print, edits local to a key, layers. Bonds: a request that loads is in range, its derived routes
  agree, and for whole passes the order of the steps, when the crossover process is armed, when local sources
  are granted again, what an exit code of zero means, and that a pass ends. Wake arbitration: the ranking is a
  function of the set of reports (the locale \<open>election\<close> is what the machine needs of it, interpreted on \<open>rank\<close>), so
  speakers with the same reports elect one; every state that waits has its timer armed, a call is decided before
  its deadline, a live session is left alone; and four ways in which a speaker fails to answer or goes deaf. Where the code does not keep what its
  own text promises, the theorem states what it does, and the manifest lists it as a finding.

  \<^bold>\<open>Bounds and fuel.\<close> Recursion is structural or has a termination proof, except the wait for the
  active ring (\<open>release_loop\<close>), which has fuel for its rounds: it polls every 0.05 s for 0.8 s, so 17 probes are
  enough once sleeping advances the clock (\<open>reconcile_ends\<close>). The loops of the observer and of mux never end by
  design; they are modelled by the number of ticks done.

  \<^bold>\<open>Numbers and texts.\<close> Decibels, seconds and percentages are exact rationals: the rounding of doubles is
  modelled where a text is read as a number (\<open>Py_Float\<close>), not in arithmetic. Characters are those of one byte,
  code points up to 255; this is where the separators of \<open>str.splitlines\<close> matter. Log lines are left out.

  \<^bold>\<open>Not modelled.\<close> The voice daemon and the assistant's sessions (network APIs), the numerical parts of the active
  speaker and of the measurements (numpy), the emitters of CamillaDSP graphs, snapcast's client, the web
  pages and the doctor; the Rust, C and shell parts, but for the librespot hook. Of the modelled files: log
  formatting, starting and stopping of tasks, sockets and subprocesses, and the file locks, which make an edit one
  step.
\<close>

end
